(* ===== verification/Prelude.thy ===== *)
theory Prelude
  imports Main "HOL-Library.Word"
begin

text \<open>
  Shared vocabulary of the development: the machine integers of the C sources, the
  little-endian stream macros that every Bluetooth vendor library of the repository defines
  for itself (\<open>UINT16_TO_STREAM\<close>, \<open>UINT32_TO_STREAM\<close>, \<open>STREAM_TO_UINT16\<close>), stores into a
  buffer through an advancing pointer, and the C string and line functions the sources call.  A C
  string is a \<^typ>\<open>string\<close> without its terminating zero.
\<close>

unbundle bit_operations_syntax

named_theorems stream_simps \<open>length and content of encoded streams\<close>
named_theorems cstr_simps \<open>C string functions\<close>
named_theorems word_small \<open>values of words below their modulus\<close>

type_synonym u8 = "8 word"
type_synonym u16 = "16 word"
type_synonym u32 = "32 word"

abbreviation (input) C_FALSE :: u8 where "C_FALSE \<equiv> 0"
abbreviation (input) C_TRUE :: u8 where "C_TRUE \<equiv> 1"

section \<open>Streams\<close>

definition UINT16_TO_STREAM :: "u16 \<Rightarrow> u8 list" where
  "UINT16_TO_STREAM u = [ucast u, ucast (drop_bit 8 u)]"

definition UINT32_TO_STREAM :: "u32 \<Rightarrow> u8 list" where
  "UINT32_TO_STREAM u =
     [ucast u, ucast (drop_bit 8 u), ucast (drop_bit 16 u), ucast (drop_bit 24 u)]"

text \<open>\<open>STREAM_TO_UINT16\<close> at offset \<open>i\<close> of a byte area; both bytes lie inside the area for
  every buffer the theorems speak about.\<close>

definition STREAM_TO_UINT16 :: "u8 list \<Rightarrow> nat \<Rightarrow> u16" where
  "STREAM_TO_UINT16 bs i = ucast (bs ! i) + push_bit 8 (ucast (bs ! Suc i))"

definition STREAM_TO_UINT32 :: "u8 list \<Rightarrow> nat \<Rightarrow> u32" where
  "STREAM_TO_UINT32 bs i =
     ucast (bs ! i) + push_bit 8 (ucast (bs ! (i + 1)))
       + push_bit 16 (ucast (bs ! (i + 2))) + push_bit 24 (ucast (bs ! (i + 3)))"

text \<open>Storing \<open>bs\<close> at the start of a memory area, as \<open>*p++ = ..\<close> does: what lies behind the
  stored bytes keeps its old content.\<close>

definition put_bytes :: "u8 list \<Rightarrow> u8 list \<Rightarrow> u8 list" where
  "put_bytes bs mem = bs @ drop (length bs) mem"

section \<open>C strings\<close>

definition char_toupper :: "char \<Rightarrow> char" where
  "char_toupper c =
     (let n = of_char c :: nat in if 97 \<le> n \<and> n \<le> 122 then char_of (n - 32) else c)"

definition char_isdigit :: "char \<Rightarrow> bool" where
  "char_isdigit c = (let n = of_char c :: nat in 48 \<le> n \<and> n \<le> 57)"

text \<open>The bytes up to the first zero, read as a string.\<close>

definition cstring_of :: "u8 list \<Rightarrow> string" where
  "cstring_of bs = map (\<lambda>b. char_of (unat b)) (takeWhile (\<lambda>b. b \<noteq> 0) bs)"

fun is_prefix :: "string \<Rightarrow> string \<Rightarrow> bool" where
  "is_prefix [] ys = True"
| "is_prefix (x # xs) [] = False"
| "is_prefix (x # xs) (y # ys) = (x = y \<and> is_prefix xs ys)"

text \<open>\<open>strstr\<close>: the rest of the haystack from the first occurrence of the needle, \<open>None\<close> for
  a null pointer.\<close>

fun strstr :: "string \<Rightarrow> string \<Rightarrow> string option" where
  "strstr [] needle = (if needle = [] then Some [] else None)"
| "strstr (c # cs) needle = (if is_prefix needle (c # cs) then Some (c # cs) else strstr cs needle)"

text \<open>\<open>strcpy\<close> into a char array of \<open>n\<close> bytes: \<open>None\<close> when the string and its terminating
  zero do not fit, where the C code writes past the array.\<close>

definition strcpy_into :: "nat \<Rightarrow> string \<Rightarrow> string option" where
  "strcpy_into n s = (if length s < n then Some s else None)"

abbreviation (input) LF :: char where "LF \<equiv> CHR 0x0A"

text \<open>\<open>fgets\<close> with room for \<open>n\<close> characters: up to and including the end of the line; the line
  and the rest of the file.\<close>

fun fgets :: "nat \<Rightarrow> string \<Rightarrow> string \<times> string" where
  "fgets 0 cs = ([], cs)"
| "fgets (Suc n) [] = ([], [])"
| "fgets (Suc n) (c # cs) = (if c = LF then ([c], cs) else (let (l, r) = fgets n cs in (c # l, r)))"

text \<open>The characters of a text as bytes, and back.\<close>

definition bytes_of :: "string \<Rightarrow> u8 list" where
  "bytes_of s = map (\<lambda>c. of_nat (of_char c)) s"

definition chars_of :: "u8 list \<Rightarrow> string" where
  "chars_of bs = map (\<lambda>b. char_of (unat b)) bs"

text \<open>The \<open>%d\<close> of the format strings.\<close>

fun nat_dec :: "nat \<Rightarrow> string" where
  "nat_dec n = (if n < 10 then [char_of (48 + n)] else nat_dec (n div 10) @ [char_of (48 + n mod 10)])"

declare nat_dec.simps [simp del]

definition int_dec :: "int \<Rightarrow> string" where
  "int_dec n = (if n < 0 then CHR ''-'' # nat_dec (nat (- n)) else nat_dec (nat n))"

text \<open>\<open>atoi\<close>: leading white space, a sign, digits; the rest is ignored.  C leaves a value outside the
  range of \<open>int\<close> undefined; here it is the number itself.\<close>

definition char_isspace :: "char \<Rightarrow> bool" where
  "char_isspace c = (let n = of_char c :: nat in n = 32 \<or> 9 \<le> n \<and> n \<le> 13)"

definition digits_value :: "string \<Rightarrow> nat" where
  "digits_value ds = foldl (\<lambda>a c. 10 * a + (of_char c - 48)) 0 ds"

definition atoi :: "string \<Rightarrow> int" where
  "atoi v =
     (let v = dropWhile char_isspace v;
          neg = (take 1 v = ''-'');
          v = (if take 1 v = ''-'' \<or> take 1 v = ''+'' then drop 1 v else v);
          n = int (digits_value (takeWhile char_isdigit v))
      in if neg then - n else n)"

section \<open>Facts\<close>

lemma length_UINT16_TO_STREAM [simp, stream_simps]: "length (UINT16_TO_STREAM u) = 2"
  by (simp add: UINT16_TO_STREAM_def)

lemma length_UINT32_TO_STREAM [simp, stream_simps]: "length (UINT32_TO_STREAM u) = 4"
  by (simp add: UINT32_TO_STREAM_def)

lemma STREAM_UINT16_roundtrip [stream_simps]:
  "STREAM_TO_UINT16 (UINT16_TO_STREAM u @ bs) 0 = u"
proof -
  have "STREAM_TO_UINT16 (UINT16_TO_STREAM u @ bs) 0
      = ucast (ucast u :: u8) + push_bit 8 (ucast (ucast (drop_bit 8 u) :: u8))"
    by (simp add: STREAM_TO_UINT16_def UINT16_TO_STREAM_def)
  also have "\<dots> = (ucast (ucast u :: u8) OR push_bit 8 (ucast (ucast (drop_bit 8 u) :: u8)))"
    by (rule disjunctive_add) (auto simp: bit_simps)
  also have "\<dots> = u"
    by (rule bit_word_eqI) (auto simp: bit_simps not_less)
  finally show ?thesis .
qed

lemma STREAM_UINT32_roundtrip [stream_simps]:
  "STREAM_TO_UINT32 (UINT32_TO_STREAM u @ bs) 0 = u"
proof -
  let ?a = "ucast (ucast u :: u8) :: u32" and ?b = "push_bit 8 (ucast (ucast (drop_bit 8 u) :: u8)) :: u32"
  let ?c = "push_bit 16 (ucast (ucast (drop_bit 16 u) :: u8)) :: u32"
  let ?d = "push_bit 24 (ucast (ucast (drop_bit 24 u) :: u8)) :: u32"
  have "STREAM_TO_UINT32 (UINT32_TO_STREAM u @ bs) 0 = ?a + ?b + ?c + ?d"
    by (simp add: STREAM_TO_UINT32_def UINT32_TO_STREAM_def)
  also have "?a + ?b = ?a OR ?b" by (rule disjunctive_add) (auto simp: bit_simps)
  also have "(?a OR ?b) + ?c = ?a OR ?b OR ?c" by (subst disjunctive_add) (auto simp: bit_simps or.assoc)
  also have "(?a OR ?b OR ?c) + ?d = ?a OR ?b OR ?c OR ?d" by (subst disjunctive_add) (auto simp: bit_simps or.assoc)
  also have "\<dots> = u"
  proof (rule bit_word_eqI)
    fix n assume "n < LENGTH(32)"
    then consider "n < 8" | "8 \<le> n" "n < 16" | "16 \<le> n" "n < 24" | "24 \<le> n" "n < 32" by fastforce
    then show "bit (?a OR ?b OR ?c OR ?d) n = bit u n" by cases (auto simp: bit_simps)
  qed
  finally show ?thesis .
qed

lemma UINT16_TO_STREAM_inject [simp]:
  "UINT16_TO_STREAM u = UINT16_TO_STREAM v \<longleftrightarrow> u = v"
  by (metis STREAM_UINT16_roundtrip)

lemma STREAM_TO_UINT16_append [stream_simps]:
  "Suc i < length bs \<Longrightarrow> STREAM_TO_UINT16 (bs @ cs) i = STREAM_TO_UINT16 bs i"
  by (simp add: STREAM_TO_UINT16_def nth_append)

lemma length_put_bytes [stream_simps]:
  "length (put_bytes bs mem) = max (length bs) (length mem)"
  by (simp add: put_bytes_def)

lemma take_put_bytes [simp, stream_simps]: "take (length bs) (put_bytes bs mem) = bs"
  by (simp add: put_bytes_def)

lemma take_put_bytes_le [stream_simps]:
  "n \<le> length bs \<Longrightarrow> take n (put_bytes bs mem) = take n bs"
  by (simp add: put_bytes_def)

lemma put_bytes_nth [stream_simps]:
  "i < length bs \<Longrightarrow> put_bytes bs mem ! i = bs ! i"
  by (simp add: put_bytes_def nth_append)

lemma is_prefix_append [cstr_simps]: "is_prefix xs (xs @ ys)"
  by (induction xs) auto

lemma is_prefix_iff [cstr_simps]: "is_prefix xs ys \<longleftrightarrow> (\<exists>zs. ys = xs @ zs)"
  by (induction xs ys rule: is_prefix.induct) auto

lemma strstr_Some: "strstr hay needle = Some rest \<Longrightarrow> is_prefix needle rest \<and> (\<exists>pre. hay = pre @ rest)"
proof (induction hay)
  case (Cons c cs)
  show ?case
  proof (cases "is_prefix needle (c # cs)")
    case False
    then have "strstr cs needle = Some rest" using Cons.prems by simp
    from Cons.IH [OF this] show ?thesis
      by (auto intro: exI [of _ "c # _"])
  qed (use Cons.prems in auto)
qed (auto split: if_splits)

lemma strcpy_into_Some [cstr_simps]: "strcpy_into n s = Some t \<longleftrightarrow> length s < n \<and> t = s"
  by (auto simp: strcpy_into_def)

lemma unat_of_nat8 [word_small]: "n < 256 \<Longrightarrow> unat (of_nat n :: u8) = n"
  by (simp add: unat_of_nat)

lemma unat_of_nat16 [word_small]: "n < 65536 \<Longrightarrow> unat (of_nat n :: u16) = n"
  by (simp add: unat_of_nat)

lemma unat_of_nat32 [word_small]: "n < 4294967296 \<Longrightarrow> unat (of_nat n :: u32) = n"
  by (simp add: unat_of_nat)

lemma fgets_length: "length (snd (fgets n cs)) \<le> length cs"
  by (induction n cs rule: fgets.induct) (auto simp: split_beta)

lemma fgets_shorter: "cs \<noteq> [] \<Longrightarrow> 0 < n \<Longrightarrow> length (snd (fgets n cs)) < length cs"
  using fgets_length by (cases cs; cases n) (auto simp: split_beta less_Suc_eq_le)

lemma fgets_line: "LF \<notin> set l \<Longrightarrow> length l < n \<Longrightarrow> fgets n (l @ LF # rest) = (l @ [LF], rest)"
proof (induction l arbitrary: n)
  case Nil
  then show ?case by (cases n) auto
next
  case (Cons c l)
  then show ?case by (cases n) auto
qed

lemma fgets_max: "length (fst (fgets n cs)) \<le> n"
  by (induction n cs rule: fgets.induct) (auto simp: split_beta)

lemma fgets_long_line:
  "LF \<notin> set l \<Longrightarrow> n \<le> length l \<Longrightarrow> fgets n (l @ LF # rest) = (take n l, drop n l @ LF # rest)"
proof (induction l arbitrary: n)
  case (Cons c l)
  then show ?case by (cases n) auto
qed simp

section \<open>Texts and decimal numbers\<close>

lemma length_bytes_of [simp]: "length (bytes_of s) = length s"
  by (simp add: bytes_of_def)

lemma bytes_of_append [simp]: "bytes_of (s @ t) = bytes_of s @ bytes_of t"
  by (simp add: bytes_of_def)

lemma chars_of_bytes [simp]: "chars_of (bytes_of s) = s"
proof -
  have "char_of (unat (of_nat (of_char c) :: u8)) = c" for c
  proof -
    have "(of_char c :: nat) < 256" by (metis nat_of_char_less_256)
    then show ?thesis by (simp add: unat_of_nat8)
  qed
  then show ?thesis by (simp add: chars_of_def bytes_of_def map_idI)
qed

lemma cstring_of_bytes: "CHR 0x00 \<notin> set s \<Longrightarrow> cstring_of (bytes_of s @ 0 # m) = s"
proof -
  assume s: "CHR 0x00 \<notin> set s"
  have "(of_nat (of_char c) :: u8) \<noteq> 0" if "c \<in> set s" for c
  proof
    assume "(of_nat (of_char c) :: u8) = 0"
    then have "unat (of_nat (of_char c) :: u8) = 0" by simp
    moreover have "(of_char c :: nat) < 256" by (metis nat_of_char_less_256)
    ultimately have "(of_char c :: nat) = 0" by (simp add: unat_of_nat8)
    then have "of_char c = (of_char (CHR 0x00) :: nat)" by simp
    then have "c = CHR 0x00" by (simp only: of_char_eq_iff)
    with s that show False by simp
  qed
  then have "takeWhile (\<lambda>b. b \<noteq> 0) (bytes_of s @ 0 # m) = bytes_of s"
    by (subst takeWhile_append2) (auto simp: bytes_of_def)
  then show ?thesis unfolding cstring_of_def chars_of_def [symmetric] by simp
qed

lemma digit_char: "a < 10 \<Longrightarrow> (of_char (char_of (48 + a) :: char) :: nat) = 48 + a"
  by (simp add: take_bit_eq_mod)

lemma nat_dec_digits: "list_all char_isdigit (nat_dec n)"
proof (induction n rule: nat_dec.induct)
  case (1 n)
  have "char_isdigit (char_of (48 + a))" if "a < 10" for a :: nat
    using digit_char [OF that] that unfolding char_isdigit_def by (simp del: of_char_of)
  then show ?case using "1.IH" by (subst nat_dec.simps) simp
qed

lemma nat_dec_not_Nil [simp]: "nat_dec n \<noteq> []"
  by (subst nat_dec.simps) simp

lemma nat_dec_value [simp]: "digits_value (nat_dec n) = n"
proof (induction n rule: nat_dec.induct)
  case (1 n)
  show ?case
  proof (cases "n < 10")
    case True
    then show ?thesis by (subst nat_dec.simps) (simp add: digits_value_def digit_char del: of_char_of)
  next
    case False
    then have "digits_value (nat_dec n) = 10 * digits_value (nat_dec (n div 10)) + n mod 10"
      by (subst nat_dec.simps) (simp add: digits_value_def digit_char del: of_char_of)
    also have "\<dots> = n" using "1.IH" False by simp
    finally show ?thesis .
  qed
qed

lemma nat_dec_inject: "nat_dec m = nat_dec n \<longleftrightarrow> m = n"
  by (metis nat_dec_value)

lemma length_nat_dec: "n < 10 ^ Suc k \<Longrightarrow> length (nat_dec n) \<le> Suc k"
proof (induction k arbitrary: n)
  case 0
  then show ?case by (subst nat_dec.simps) simp
next
  case (Suc k)
  then have "n div 10 < 10 ^ Suc k" by (simp add: less_mult_imp_div_less)
  then show ?case using Suc.IH by (subst nat_dec.simps) simp
qed

lemma atoi_nat_dec: "atoi (nat_dec n @ cs) = int n" if "cs = [] \<or> \<not> char_isdigit (hd cs)"
proof -
  obtain d ds where d: "nat_dec n = d # ds" by (cases "nat_dec n") auto
  have "char_isdigit d" using nat_dec_digits [of n] d by simp
  then have n: "\<not> char_isspace d" "d \<noteq> CHR ''-''" "d \<noteq> CHR ''+''"
    by (auto simp: char_isdigit_def char_isspace_def Let_def)
  have "takeWhile char_isdigit (nat_dec n @ cs) = nat_dec n"
    using nat_dec_digits [of n] that by (cases cs) (auto simp: list_all_iff takeWhile_append2)
  then show ?thesis using n by (simp add: atoi_def d Let_def) (metis d nat_dec_value)
qed

lemma digits_value_bound:
  assumes "list_all char_isdigit ds"
  shows "digits_value ds < 10 ^ length ds"
  using assms
proof (induction ds rule: rev_induct)
  case (snoc d ds)
  have next_digit: "10 * a + c < 10 * p" if "a < p" "c < 10" for a c p :: nat using that by linarith
  have "char_isdigit d" using snoc.prems by simp
  then have "(of_char d :: nat) \<le> 57" unfolding char_isdigit_def Let_def by blast
  then have "of_char d - 48 \<le> (57 - 48 :: nat)" by (rule diff_le_mono)
  then have "of_char d - 48 < (10 :: nat)" by (rule le_less_trans) simp
  moreover have "digits_value ds < 10 ^ length ds" using snoc by simp
  ultimately have "10 * digits_value ds + (of_char d - 48) < 10 * 10 ^ length ds" by (rule next_digit [rotated])
  then show ?case by (simp add: digits_value_def)
qed (simp add: digits_value_def)

lemma atoi_bound:
  assumes "length v \<le> n"
  shows "\<bar>atoi v\<bar> < 10 ^ n"
proof -
  let ?v = "dropWhile char_isspace v"
  let ?d = "takeWhile char_isdigit (if take 1 ?v = ''-'' \<or> take 1 ?v = ''+'' then drop 1 ?v else ?v)"
  have "length ?d \<le> length ?v" by (rule order_trans [OF length_takeWhile_le]) auto
  then have len: "length ?d \<le> n" using length_dropWhile_le [of char_isspace v] assms by linarith
  have "digits_value ?d < 10 ^ length ?d" by (rule digits_value_bound) (auto simp: list_all_iff dest: set_takeWhileD)
  also have "\<dots> \<le> 10 ^ n" using len by (intro power_increasing) auto
  finally have "int (digits_value ?d) < 10 ^ n" by (metis of_nat_less_iff of_nat_numeral of_nat_power)
  moreover have "\<bar>atoi v\<bar> = int (digits_value ?d)" by (simp add: atoi_def Let_def)
  ultimately show ?thesis by simp
qed

end
