(* ===== verification/Platform.thy ===== *)
theory Platform
  imports Prelude
begin

text \<open>
  What the Bluetooth vendor libraries see of the outside: the callback table the Bluetooth
  stack registers (\<open>bt_vendor_callbacks_t\<close>: \<open>alloc\<close>, \<open>dealloc\<close>, \<open>xmit_cb\<close> and the
  result callbacks) and the system calls.  Neither is code of the repository, so both are
  parameters: a table of functions that answer as they like, given the history of all calls
  made so far.  Every call is appended to that history, which is how the theorems speak about
  what a library does to its surroundings.

  A buffer \<open>HC_BT_HDR\<close> is the record \<open>hc_bt_hdr\<close>; its field \<open>hdr_data\<close> is the memory
  behind the header, \<open>wire\<close> the bytes of it that the transport sends (\<open>len\<close> many).  Sizes
  passed to \<open>alloc\<close> are counted without the header (\<open>BT_HC_HDR_SIZE\<close>).

  The contract of a callback table that the libraries rely on (\<open>xmit_cb\<close> returns TRUE or
  FALSE) is \<open>xmit_bool\<close>.  Ownership of buffers is accounted by \<open>net\<close>, and the interface
  between a library's event handlers and the stack is the locale \<open>buffer_contract\<close>.
\<close>

section \<open>Buffers and callbacks\<close>

text \<open>\<open>p_buf->event\<close> of a command is always \<open>MSG_STACK_TO_HC_HCI_CMD\<close>; a fresh buffer holds
  an unspecified value.\<close>

datatype hc_event = MSG_STACK_TO_HC_HCI_CMD | Other_msg u16

record hc_bt_hdr =
  hdr_event :: hc_event
  hdr_len :: u16
  hdr_offset :: u16
  hdr_layer_specific :: u16
  hdr_data :: "u8 list"

definition wire :: "hc_bt_hdr \<Rightarrow> u8 list" where
  "wire b = take (unat (hdr_len b)) (hdr_data b)"

text \<open>An HCI event delivered to a callback: the address of its buffer and the bytes behind
  the header.\<close>

record hci_event =
  evt_addr :: nat
  evt_data :: "u8 list"

datatype bt_vendor_op_result_t = BT_VND_OP_RESULT_SUCCESS | BT_VND_OP_RESULT_FAIL

record termios =
  c_iflag :: u32
  c_oflag :: u32
  c_cflag :: u32
  c_lflag :: u32

datatype open_mode = O_RDONLY | O_WRONLY | O_RDWR | O_WRONLY_CREAT

datatype call =
    Alloc nat "nat option"
  | Dealloc nat
  | Xmit u16 nat hc_bt_hdr u8
  | Fwcfg_cb bt_vendor_op_result_t
  | Scocfg_cb bt_vendor_op_result_t
  | Lpm_cb bt_vendor_op_result_t
  | Sys_open string open_mode int
  | Sys_read int nat
  | Sys_write int "u8 list" int
  | Sys_close int
  | Sys_ioctl int u32
  | Tcsetattr int termios
  | Tcflush int
  | Timer_create int
  | Timer_delete
  | Timer_settime u32 u32
  | Ms_delay u32
  | Malloc nat "nat option"
  | Free nat
  | Sys_ioctl_arg int u32 u32 int
  | Thread_create string int

type_synonym history = "call list"

record bt_vendor_callbacks_t =
  cb_alloc :: "history \<Rightarrow> nat \<Rightarrow> (nat \<times> u8 list) option"
  cb_xmit :: "history \<Rightarrow> u16 \<Rightarrow> hc_bt_hdr \<Rightarrow> u8"

text \<open>The system: what \<open>open\<close> returns, the content of a file, whether a \<open>read\<close> fails, what
  \<open>write\<close>, \<open>tcgetattr\<close>/\<open>tcsetattr\<close> and \<open>timer_create\<close> return, the entries of a directory
  (\<open>None\<close> when \<open>opendir\<close> fails), the system properties that are set, the size that \<open>stat\<close>
  gives for a file (\<open>None\<close> when it fails) and the address that \<open>malloc\<close> returns.\<close>

record os_env =
  os_open :: "history \<Rightarrow> string \<Rightarrow> open_mode \<Rightarrow> int"
  os_file :: "string \<Rightarrow> u8 list"
  os_read_err :: "history \<Rightarrow> int \<Rightarrow> bool"
  os_write :: "history \<Rightarrow> int \<Rightarrow> u8 list \<Rightarrow> int"
  os_tc_err :: "history \<Rightarrow> int \<Rightarrow> bool"
  os_timer_create :: "history \<Rightarrow> int"
  os_dir :: "string \<Rightarrow> string list option"
  os_prop :: "string \<Rightarrow> string option"
  os_stat :: "string \<Rightarrow> nat option"
  os_malloc :: "history \<Rightarrow> nat \<Rightarrow> nat option"

text \<open>The part of the state every library has: the registered callbacks, the history, the
  system, the unread bytes of each open descriptor and the settings of each terminal.\<close>

record platform =
  bt_vendor_cbacks :: "bt_vendor_callbacks_t option"
  calls :: history
  os :: os_env
  fds :: "int \<Rightarrow> u8 list"
  ttys :: "int \<Rightarrow> termios"

section \<open>Calls to the outside\<close>

definition log_call :: "call \<Rightarrow> 'a platform_scheme \<Rightarrow> 'a platform_scheme" where
  "log_call c s = s\<lparr>calls := calls s @ [c]\<rparr>"

text \<open>\<open>alloc\<close>, \<open>None\<close> when no callbacks are registered or there is no memory: every caller
  treats the two alike.  A fresh buffer has arbitrary content.\<close>

definition vnd_alloc :: "nat \<Rightarrow> 'a platform_scheme \<Rightarrow> (nat \<times> u8 list) option \<times> 'a platform_scheme" where
  "vnd_alloc n s =
     (case bt_vendor_cbacks s of
        None \<Rightarrow> (None, s)
      | Some cb \<Rightarrow> let r = cb_alloc cb (calls s) n in (r, log_call (Alloc n (map_option fst r)) s))"

definition vnd_dealloc :: "nat \<Rightarrow> 'a platform_scheme \<Rightarrow> 'a platform_scheme" where
  "vnd_dealloc a s = (if bt_vendor_cbacks s = None then s else log_call (Dealloc a) s)"

definition vnd_xmit :: "u16 \<Rightarrow> nat \<Rightarrow> hc_bt_hdr \<Rightarrow> 'a platform_scheme \<Rightarrow> u8 \<times> 'a platform_scheme" where
  "vnd_xmit op a b s =
     (case bt_vendor_cbacks s of
        None \<Rightarrow> (C_FALSE, s)
      | Some cb \<Rightarrow> let r = cb_xmit cb (calls s) op b in (r, log_call (Xmit op a b r) s))"

text \<open>The result callbacks are invoked only when callbacks are registered.\<close>

definition vnd_notify :: "call \<Rightarrow> 'a platform_scheme \<Rightarrow> 'a platform_scheme" where
  "vnd_notify c s = (if bt_vendor_cbacks s = None then s else log_call c s)"

text \<open>A buffer prepared as a command: header fields set, content still the fresh memory.\<close>

definition fresh_cmd :: "u8 list \<Rightarrow> hc_bt_hdr" where
  "fresh_cmd mem = \<lparr>hdr_event = MSG_STACK_TO_HC_HCI_CMD, hdr_len = 0, hdr_offset = 0,
     hdr_layer_specific = 0, hdr_data = mem\<rparr>"

text \<open>The command \<open>bs\<close> stored at the start of the buffer, with its length in the header.\<close>

definition set_cmd :: "u8 list \<Rightarrow> hc_bt_hdr \<Rightarrow> hc_bt_hdr" where
  "set_cmd bs b = b\<lparr>hdr_len := of_nat (length bs), hdr_data := put_bytes bs (hdr_data b)\<rparr>"

definition sys_open :: "string \<Rightarrow> open_mode \<Rightarrow> 'a platform_scheme \<Rightarrow> int \<times> 'a platform_scheme" where
  "sys_open path m s =
     (let fd = os_open (os s) (calls s) path m;
          s' = log_call (Sys_open path m fd) s
      in (fd, if fd < 0 then s' else s'\<lparr>fds := (fds s)(fd := os_file (os s) path)\<rparr>))"

text \<open>\<open>read\<close> on a regular file: \<open>None\<close> for an error (\<open>-1\<close>), otherwise the next at most
  \<open>n\<close> bytes.\<close>

definition sys_read :: "int \<Rightarrow> nat \<Rightarrow> 'a platform_scheme \<Rightarrow> u8 list option \<times> 'a platform_scheme" where
  "sys_read fd n s =
     (let s' = log_call (Sys_read fd n) s in
      if os_read_err (os s) (calls s) fd then (None, s')
      else (Some (take n (fds s fd)), s'\<lparr>fds := (fds s)(fd := drop n (fds s fd))\<rparr>))"

definition sys_write :: "int \<Rightarrow> u8 list \<Rightarrow> 'a platform_scheme \<Rightarrow> int \<times> 'a platform_scheme" where
  "sys_write fd bs s =
     (let r = os_write (os s) (calls s) fd bs in (r, log_call (Sys_write fd bs r) s))"

definition sys_close :: "int \<Rightarrow> 'a platform_scheme \<Rightarrow> 'a platform_scheme" where
  "sys_close fd s = log_call (Sys_close fd) s"

definition tc_set :: "int \<Rightarrow> termios \<Rightarrow> 'a platform_scheme \<Rightarrow> 'a platform_scheme" where
  "tc_set fd t s =
     (let s' = log_call (Tcsetattr fd t) s in
      if os_tc_err (os s) (calls s) fd then s' else s'\<lparr>ttys := (ttys s)(fd := t)\<rparr>)"

definition sys_malloc :: "nat \<Rightarrow> 'a platform_scheme \<Rightarrow> nat option \<times> 'a platform_scheme" where
  "sys_malloc n s = (let a = os_malloc (os s) (calls s) n in (a, log_call (Malloc n a) s))"

definition sys_free :: "nat \<Rightarrow> 'a platform_scheme \<Rightarrow> 'a platform_scheme" where
  "sys_free a s = log_call (Free a) s"

text \<open>\<open>property_get\<close> with a default value.\<close>

definition property_get :: "string \<Rightarrow> string \<Rightarrow> 'a platform_scheme \<Rightarrow> string" where
  "property_get key dflt s = (case os_prop (os s) key of None \<Rightarrow> dflt | Some v \<Rightarrow> v)"

section \<open>What a callback table promises, and accounting of buffers\<close>

definition xmit_bool :: "bt_vendor_callbacks_t \<Rightarrow> bool" where
  "xmit_bool cb \<longleftrightarrow> (\<forall>h op b. cb_xmit cb h op b = C_FALSE \<or> cb_xmit cb h op b = C_TRUE)"

definition cbacks_ok :: "'a platform_scheme \<Rightarrow> bool" where
  "cbacks_ok s \<longleftrightarrow> (case bt_vendor_cbacks s of None \<Rightarrow> False | Some cb \<Rightarrow> xmit_bool cb)"

text \<open>\<open>net cs a\<close>: how often the library got the buffer \<open>a\<close> minus how often it gave it away,
  by freeing it or by a successful transmission (after which the stack owns it).\<close>

fun call_weight :: "call \<Rightarrow> nat \<Rightarrow> int" where
  "call_weight (Alloc n r) a = (if r = Some a then 1 else 0)"
| "call_weight (Dealloc b) a = (if b = a then -1 else 0)"
| "call_weight (Xmit op b h r) a = (if b = a \<and> r \<noteq> C_FALSE then -1 else 0)"
| "call_weight _ a = 0"

definition net :: "history \<Rightarrow> nat \<Rightarrow> int" where
  "net cs a = (\<Sum>c\<leftarrow>cs. call_weight c a)"

fun xmits :: "history \<Rightarrow> (u16 \<times> u8 list) list" where
  "xmits [] = []"
| "xmits (Xmit op a b r # cs) = (op, wire b) # xmits cs"
| "xmits (_ # cs) = xmits cs"

fun fwcfg_results :: "history \<Rightarrow> bt_vendor_op_result_t list" where
  "fwcfg_results [] = []"
| "fwcfg_results (Fwcfg_cb r # cs) = r # fwcfg_results cs"
| "fwcfg_results (_ # cs) = fwcfg_results cs"

text \<open>Runs: a handler as a step relation, applied to a sequence of inputs.\<close>

inductive runs :: "('s \<Rightarrow> 'e \<Rightarrow> 's \<Rightarrow> bool) \<Rightarrow> 's \<Rightarrow> 'e list \<Rightarrow> 's \<Rightarrow> bool" for step where
  runs_nil: "runs step s [] s"
| runs_cons: "step s e t \<Longrightarrow> runs step t es u \<Longrightarrow> runs step s (e # es) u"

text \<open>A quiet surroundings for concrete runs: every allocation succeeds with an empty fresh
  buffer, every transmission is accepted, files are given by \<open>content\<close> (an absent file cannot be
  opened), nothing fails.\<close>

definition quiet_cbacks :: bt_vendor_callbacks_t where
  "quiet_cbacks = \<lparr>cb_alloc = (\<lambda>h n. Some (length h, [])), cb_xmit = (\<lambda>h op b. C_TRUE)\<rparr>"

definition quiet_os :: "(string \<Rightarrow> u8 list option) \<Rightarrow> os_env" where
  "quiet_os content =
     \<lparr>os_open = (\<lambda>h p m. if content p = None then -1 else 3),
      os_file = (\<lambda>p. case content p of None \<Rightarrow> [] | Some bs \<Rightarrow> bs),
      os_read_err = (\<lambda>h fd. False), os_write = (\<lambda>h fd bs. int (length bs)),
      os_tc_err = (\<lambda>h fd. False), os_timer_create = (\<lambda>h. 0),
      os_dir = (\<lambda>p. None), os_prop = (\<lambda>k. None), os_stat = (\<lambda>p. map_option length (content p)),
      os_malloc = (\<lambda>h n. Some (length h))\<rparr>"

definition quiet_termios :: termios where
  "quiet_termios = \<lparr>c_iflag = 0, c_oflag = 0, c_cflag = 0, c_lflag = 0\<rparr>"

section \<open>Facts\<close>

declare log_call_def [simp]

lemma net_Nil [simp]: "net [] a = 0"
  by (simp add: net_def)

lemma net_Cons [simp]: "net (c # cs) a = call_weight c a + net cs a"
  by (simp add: net_def)

lemma net_append [simp]: "net (cs @ ds) a = net cs a + net ds a"
  by (simp add: net_def)

lemma xmits_append [simp]: "xmits (cs @ ds) = xmits cs @ xmits ds"
  by (induction cs rule: xmits.induct) auto

lemma fwcfg_results_append [simp]:
  "fwcfg_results (cs @ ds) = fwcfg_results cs @ fwcfg_results ds"
  by (induction cs rule: fwcfg_results.induct) auto

lemma wire_set_cmd [simp]: "length bs < 65536 \<Longrightarrow> wire (set_cmd bs b) = bs"
  by (simp add: wire_def set_cmd_def unat_of_nat16)

lemma cbacks_ok_Some: "cbacks_ok s \<Longrightarrow> \<exists>cb. bt_vendor_cbacks s = Some cb \<and> xmit_bool cb"
  by (auto simp: cbacks_ok_def split: option.splits)

lemma xmit_boolD: "xmit_bool cb \<Longrightarrow> cb_xmit cb h op b \<noteq> C_FALSE \<Longrightarrow> cb_xmit cb h op b = C_TRUE"
  by (auto simp: xmit_bool_def)

lemma runs_append:
  "runs step s (es @ fs) u \<longleftrightarrow> (\<exists>t. runs step s es t \<and> runs step t fs u)"
proof (induction es arbitrary: s)
  case Nil
  show ?case by (auto intro: runs_nil elim: runs.cases)
next
  case (Cons e es)
  have "runs step s ((e # es) @ fs) u \<longleftrightarrow> (\<exists>r. step s e r \<and> runs step r (es @ fs) u)"
    by (auto intro: runs_cons elim: runs.cases)
  also have "\<dots> \<longleftrightarrow> (\<exists>t. runs step s (e # es) t \<and> runs step t fs u)"
    unfolding Cons.IH by (blast intro: runs_cons elim: runs.cases)
  finally show ?case .
qed

inductive_cases runs_NilE: "runs step s [] t"
inductive_cases runs_ConsE: "runs step s (e # es) t"

section \<open>Invariants of runs\<close>

text \<open>What every step keeps is kept by every run.\<close>

locale kept_invariant =
  fixes step :: "'s \<Rightarrow> 'e \<Rightarrow> 's \<Rightarrow> bool"
    and inv :: "'s \<Rightarrow> bool"
  assumes step_keeps: "inv s \<Longrightarrow> step s e t \<Longrightarrow> inv t"
begin

lemma runs_keep: "runs step s es t \<Longrightarrow> inv s \<Longrightarrow> inv t"
  by (induction rule: runs.induct) (auto intro: step_keeps)

end

section \<open>The interface between event handlers and the stack\<close>

text \<open>An event handler owns the event buffer it is given.  The contract: in each step the
  history only grows, every buffer allocated in the step is given away in the step, and the
  event buffer is given away exactly once.  \<open>ok\<close> is what the handler relies on and keeps.\<close>

locale buffer_contract =
  fixes step :: "'s \<Rightarrow> hci_event \<Rightarrow> 's \<Rightarrow> bool"
    and hist :: "'s \<Rightarrow> history"
    and ok :: "'s \<Rightarrow> bool"
  assumes step_contract: "ok s \<Longrightarrow> step s e t \<Longrightarrow>
      \<exists>new. hist t = hist s @ new \<and> (\<forall>a. net new a = (if a = evt_addr e then -1 else 0))"
    and step_ok: "ok s \<Longrightarrow> step s e t \<Longrightarrow> ok t"
begin

lemma run_contract:
  "runs step s es t \<Longrightarrow> ok s \<Longrightarrow>
     \<exists>new. hist t = hist s @ new \<and> (\<forall>a. net new a = - int (count_list (map evt_addr es) a))"
proof (induction rule: runs.induct)
  case (runs_nil s)
  then show ?case by simp
next
  case (runs_cons s e t es u)
  from step_contract [OF runs_cons.prems runs_cons.hyps(1)] obtain new1 where
    1: "hist t = hist s @ new1" "\<And>a. net new1 a = (if a = evt_addr e then -1 else 0)" by blast
  from runs_cons.IH [OF step_ok [OF runs_cons.prems runs_cons.hyps(1)]] obtain new2 where
    2: "hist u = hist t @ new2" "\<And>a. net new2 a = - int (count_list (map evt_addr es) a)" by blast
  show ?case using 1 2 by (intro exI [of _ "new1 @ new2"]) auto
qed

end

sublocale buffer_contract \<subseteq> kept: kept_invariant step ok
  by unfold_locales (rule step_ok)

end
