(* ===== verification/Userial.thy ===== *)
theory Userial
  imports Platform
begin

text \<open>
  The serial port of the Bluetooth controller: \<open>userial_vendor.c\<close> of the AP6210 library and
  the copy of it in the RTL8723 library, which adds hardware flow control and parity.  The
  control block \<open>vnd_userial\<close> (descriptor, cached terminal settings, port name) is part of the
  state; the settings a terminal really has are \<open>ttys\<close> of the platform.  Operations of the
  RTL8723 copy that differ carry the prefix \<open>rtk_\<close>.

  The flags and speeds are those of the Linux \<open>termios.h\<close> the sources include.
\<close>

section \<open>Terminal flags and speeds\<close>

abbreviation (input) CSIZE :: u32 where "CSIZE \<equiv> 0x30"
abbreviation (input) CS5 :: u8 where "CS5 \<equiv> 0"
abbreviation (input) CS6 :: u8 where "CS6 \<equiv> 0x10"
abbreviation (input) CS7 :: u8 where "CS7 \<equiv> 0x20"
abbreviation (input) CS8 :: u8 where "CS8 \<equiv> 0x30"
abbreviation (input) CSTOPB :: u8 where "CSTOPB \<equiv> 0x40"
abbreviation (input) PARENB :: u16 where "PARENB \<equiv> 0x100"
abbreviation (input) PARODD :: u16 where "PARODD \<equiv> 0x200"
abbreviation (input) CRTSCTS :: u32 where "CRTSCTS \<equiv> 0x80000000"
abbreviation (input) CBAUD :: u32 where "CBAUD \<equiv> 0x100F"

abbreviation (input) B600 :: u32 where "B600 \<equiv> 0x8"
abbreviation (input) B1200 :: u32 where "B1200 \<equiv> 0x9"
abbreviation (input) B9600 :: u32 where "B9600 \<equiv> 0xD"
abbreviation (input) B19200 :: u32 where "B19200 \<equiv> 0xE"
abbreviation (input) B57600 :: u32 where "B57600 \<equiv> 0x1001"
abbreviation (input) B115200 :: u32 where "B115200 \<equiv> 0x1002"
abbreviation (input) B230400 :: u32 where "B230400 \<equiv> 0x1003"
abbreviation (input) B460800 :: u32 where "B460800 \<equiv> 0x1004"
abbreviation (input) B921600 :: u32 where "B921600 \<equiv> 0x1007"
abbreviation (input) B1000000 :: u32 where "B1000000 \<equiv> 0x1008"
abbreviation (input) B1500000 :: u32 where "B1500000 \<equiv> 0x100A"
abbreviation (input) B2000000 :: u32 where "B2000000 \<equiv> 0x100B"
abbreviation (input) B3000000 :: u32 where "B3000000 \<equiv> 0x100D"
abbreviation (input) B4000000 :: u32 where "B4000000 \<equiv> 0x100F"

abbreviation (input) USERIAL_BAUD_600 :: u8 where "USERIAL_BAUD_600 \<equiv> 1"
abbreviation (input) USERIAL_BAUD_1200 :: u8 where "USERIAL_BAUD_1200 \<equiv> 2"
abbreviation (input) USERIAL_BAUD_9600 :: u8 where "USERIAL_BAUD_9600 \<equiv> 4"
abbreviation (input) USERIAL_BAUD_19200 :: u8 where "USERIAL_BAUD_19200 \<equiv> 5"
abbreviation (input) USERIAL_BAUD_57600 :: u8 where "USERIAL_BAUD_57600 \<equiv> 6"
abbreviation (input) USERIAL_BAUD_115200 :: u8 where "USERIAL_BAUD_115200 \<equiv> 7"
abbreviation (input) USERIAL_BAUD_230400 :: u8 where "USERIAL_BAUD_230400 \<equiv> 8"
abbreviation (input) USERIAL_BAUD_460800 :: u8 where "USERIAL_BAUD_460800 \<equiv> 9"
abbreviation (input) USERIAL_BAUD_921600 :: u8 where "USERIAL_BAUD_921600 \<equiv> 10"
abbreviation (input) USERIAL_BAUD_1M :: u8 where "USERIAL_BAUD_1M \<equiv> 11"
abbreviation (input) USERIAL_BAUD_1_5M :: u8 where "USERIAL_BAUD_1_5M \<equiv> 12"
abbreviation (input) USERIAL_BAUD_2M :: u8 where "USERIAL_BAUD_2M \<equiv> 13"
abbreviation (input) USERIAL_BAUD_3M :: u8 where "USERIAL_BAUD_3M \<equiv> 14"
abbreviation (input) USERIAL_BAUD_4M :: u8 where "USERIAL_BAUD_4M \<equiv> 15"

abbreviation (input) USERIAL_STOPBITS_1 :: u16 where "USERIAL_STOPBITS_1 \<equiv> 0x1"
abbreviation (input) USERIAL_STOPBITS_2 :: u16 where "USERIAL_STOPBITS_2 \<equiv> 0x4"
abbreviation (input) USERIAL_PARITY_NONE :: u16 where "USERIAL_PARITY_NONE \<equiv> 0x8"
abbreviation (input) USERIAL_PARITY_EVEN :: u16 where "USERIAL_PARITY_EVEN \<equiv> 0x10"
abbreviation (input) USERIAL_PARITY_ODD :: u16 where "USERIAL_PARITY_ODD \<equiv> 0x20"
abbreviation (input) USERIAL_DATABITS_5 :: u16 where "USERIAL_DATABITS_5 \<equiv> 0x40"
abbreviation (input) USERIAL_DATABITS_6 :: u16 where "USERIAL_DATABITS_6 \<equiv> 0x80"
abbreviation (input) USERIAL_DATABITS_7 :: u16 where "USERIAL_DATABITS_7 \<equiv> 0x100"
abbreviation (input) USERIAL_DATABITS_8 :: u16 where "USERIAL_DATABITS_8 \<equiv> 0x200"

abbreviation (input) USERIAL_IOCTL_BT_WAKE_ASSERT :: u32 where "USERIAL_IOCTL_BT_WAKE_ASSERT \<equiv> 0x8003"
abbreviation (input) USERIAL_IOCTL_BT_WAKE_DEASSERT :: u32 where "USERIAL_IOCTL_BT_WAKE_DEASSERT \<equiv> 0x8004"
abbreviation (input) USERIAL_IOCTL_BT_WAKE_GET_ST :: u32 where "USERIAL_IOCTL_BT_WAKE_GET_ST \<equiv> 0x8005"

text \<open>C library: raw mode, and the two speed setters (both write the same bits).\<close>

definition cfmakeraw :: "termios \<Rightarrow> termios" where
  "cfmakeraw t = t\<lparr>c_iflag := c_iflag t AND NOT 0x5EB, c_oflag := c_oflag t AND NOT 0x1,
     c_lflag := c_lflag t AND NOT 0x804B, c_cflag := (c_cflag t AND NOT 0x130) OR ucast CS8\<rparr>"

definition cfsetspeed :: "u32 \<Rightarrow> termios \<Rightarrow> termios" where
  "cfsetspeed b t = t\<lparr>c_cflag := (c_cflag t AND NOT CBAUD) OR (b AND CBAUD)\<rparr>"

section \<open>State and build configuration\<close>

record vnd_userial_cb_t =
  userial_fd :: int
  userial_termios :: termios
  port_name :: string

record userial_st = platform +
  vnd_userial :: vnd_userial_cb_t

record buildcfg =
  BT_WAKE_VIA_USERIAL_IOCTL :: bool
  BT_WAKE_VIA_PROC :: bool
  BLUETOOTH_UART_DEVICE_PORT :: string

record tUSERIAL_CFG =
  cfg_fmt :: u16
  cfg_baud :: u8
  cfg_hw_fctrl :: u8

datatype userial_vendor_ioctl_op_t =
    USERIAL_OP_ASSERT_BT_WAKE | USERIAL_OP_DEASSERT_BT_WAKE | USERIAL_OP_GET_BT_WAKE_STATE
  | USERIAL_OP_NOP

section \<open>Operations\<close>

text \<open>The returned pair is the C result and the value stored through \<open>baud\<close>.\<close>

definition userial_to_tcio_baud :: "u8 \<Rightarrow> u8 \<times> u32" where
  "userial_to_tcio_baud cfg =
     (if cfg = USERIAL_BAUD_115200 then (C_TRUE, B115200)
      else if cfg = USERIAL_BAUD_4M then (C_TRUE, B4000000)
      else if cfg = USERIAL_BAUD_3M then (C_TRUE, B3000000)
      else if cfg = USERIAL_BAUD_2M then (C_TRUE, B2000000)
      else if cfg = USERIAL_BAUD_1_5M then (C_TRUE, B1500000)
      else if cfg = USERIAL_BAUD_1M then (C_TRUE, B1000000)
      else if cfg = USERIAL_BAUD_921600 then (C_TRUE, B921600)
      else if cfg = USERIAL_BAUD_460800 then (C_TRUE, B460800)
      else if cfg = USERIAL_BAUD_230400 then (C_TRUE, B230400)
      else if cfg = USERIAL_BAUD_57600 then (C_TRUE, B57600)
      else if cfg = USERIAL_BAUD_19200 then (C_TRUE, B19200)
      else if cfg = USERIAL_BAUD_9600 then (C_TRUE, B9600)
      else if cfg = USERIAL_BAUD_1200 then (C_TRUE, B1200)
      else if cfg = USERIAL_BAUD_600 then (C_TRUE, B600)
      else (C_FALSE, B115200))"

definition rtk_userial_to_tcio_baud :: "u8 \<Rightarrow> u8 \<times> u32" where
  "rtk_userial_to_tcio_baud cfg =
     (if cfg = USERIAL_BAUD_115200 then (C_TRUE, B115200)
      else if cfg = USERIAL_BAUD_4M then (C_TRUE, B4000000)
      else if cfg = USERIAL_BAUD_3M then (C_TRUE, B3000000)
      else if cfg = USERIAL_BAUD_2M then (C_TRUE, B2000000)
      else if cfg = USERIAL_BAUD_1M then (C_TRUE, B1000000)
      else if cfg = USERIAL_BAUD_1_5M then (C_TRUE, B1500000)
      else if cfg = USERIAL_BAUD_921600 then (C_TRUE, B921600)
      else if cfg = USERIAL_BAUD_460800 then (C_TRUE, B460800)
      else if cfg = USERIAL_BAUD_230400 then (C_TRUE, B230400)
      else if cfg = USERIAL_BAUD_57600 then (C_TRUE, B57600)
      else if cfg = USERIAL_BAUD_19200 then (C_TRUE, B19200)
      else if cfg = USERIAL_BAUD_9600 then (C_TRUE, B9600)
      else if cfg = USERIAL_BAUD_1200 then (C_TRUE, B1200)
      else if cfg = USERIAL_BAUD_600 then (C_TRUE, B600)
      else (C_FALSE, B115200))"

definition sys_ioctl :: "int \<Rightarrow> u32 \<Rightarrow> 'a platform_scheme \<Rightarrow> 'a platform_scheme" where
  "sys_ioctl fd req s = log_call (Sys_ioctl fd req) s"

definition userial_ioctl_init_bt_wake :: "int \<Rightarrow> 'a platform_scheme \<Rightarrow> 'a platform_scheme" where
  "userial_ioctl_init_bt_wake fd s =
     sys_ioctl fd USERIAL_IOCTL_BT_WAKE_GET_ST (sys_ioctl fd USERIAL_IOCTL_BT_WAKE_ASSERT s)"

definition set_userial_fd :: "int \<Rightarrow> 'a userial_st_scheme \<Rightarrow> 'a userial_st_scheme" where
  "set_userial_fd fd s = s\<lparr>vnd_userial := (vnd_userial s)\<lparr>userial_fd := fd\<rparr>\<rparr>"

definition set_userial_termios :: "termios \<Rightarrow> 'a userial_st_scheme \<Rightarrow> 'a userial_st_scheme" where
  "set_userial_termios t s = s\<lparr>vnd_userial := (vnd_userial s)\<lparr>userial_termios := t\<rparr>\<rparr>"

definition userial_vendor_init :: "'c buildcfg_scheme \<Rightarrow> 'a userial_st_scheme \<Rightarrow> 'a userial_st_scheme" where
  "userial_vendor_init cfg s =
     s\<lparr>vnd_userial := (vnd_userial s)\<lparr>userial_fd := -1,
        port_name := take 255 (BLUETOOTH_UART_DEVICE_PORT cfg)\<rparr>\<rparr>"

text \<open>The decoding of the requested format, the same lines in both libraries: data bits,
  parity and stop bits, \<open>None\<close> where the code returns \<open>-1\<close>.\<close>

definition userial_fmt :: "u16 \<Rightarrow> (u8 \<times> u16 \<times> u8) option" where
  "userial_fmt fmt =
     (case (if fmt AND USERIAL_DATABITS_8 \<noteq> 0 then Some CS8
            else if fmt AND USERIAL_DATABITS_7 \<noteq> 0 then Some CS7
            else if fmt AND USERIAL_DATABITS_6 \<noteq> 0 then Some CS6
            else if fmt AND USERIAL_DATABITS_5 \<noteq> 0 then Some CS5 else None) of
        None \<Rightarrow> None
      | Some data_bits \<Rightarrow>
     (case (if fmt AND USERIAL_PARITY_NONE \<noteq> 0 then Some 0
            else if fmt AND USERIAL_PARITY_EVEN \<noteq> 0 then Some PARENB
            else if fmt AND USERIAL_PARITY_ODD \<noteq> 0 then Some (PARENB OR PARODD) else None) of
        None \<Rightarrow> None
      | Some parity \<Rightarrow>
     (case (if fmt AND USERIAL_STOPBITS_1 \<noteq> 0 then Some 0
            else if fmt AND USERIAL_STOPBITS_2 \<noteq> 0 then Some CSTOPB else None) of
        None \<Rightarrow> None
      | Some stop_bits \<Rightarrow> Some (data_bits, parity, stop_bits))))"

definition tcflush :: "int \<Rightarrow> 'a platform_scheme \<Rightarrow> 'a platform_scheme" where
  "tcflush fd s = log_call (Tcflush fd) s"

text \<open>\<open>tcgetattr\<close> into the control block; on failure the block keeps its settings.\<close>

definition userial_tcgetattr :: "'a userial_st_scheme \<Rightarrow> 'a userial_st_scheme" where
  "userial_tcgetattr s =
     (let fd = userial_fd (vnd_userial s) in
      if os_tc_err (os s) (calls s) fd then s else set_userial_termios (ttys s fd) s)"

definition userial_tcsetattr :: "'a userial_st_scheme \<Rightarrow> 'a userial_st_scheme" where
  "userial_tcsetattr s = tc_set (userial_fd (vnd_userial s)) (userial_termios (vnd_userial s)) s"

text \<open>What both libraries do after the flags of the line are set: apply, flush, apply again,
  flush twice, set the speed and apply.\<close>

definition userial_apply :: "u32 \<Rightarrow> 'a userial_st_scheme \<Rightarrow> 'a userial_st_scheme" where
  "userial_apply baud s0 =
     (let fd = userial_fd (vnd_userial s0);
          s1 = tcflush fd (userial_tcsetattr s0);
          s2 = tcflush fd (tcflush fd (userial_tcsetattr s1));
          s3 = set_userial_termios (cfsetspeed baud (cfsetspeed baud (userial_termios (vnd_userial s2)))) s2
      in userial_tcsetattr s3)"

definition userial_vendor_open ::
    "'c buildcfg_scheme \<Rightarrow> tUSERIAL_CFG \<Rightarrow> 'a userial_st_scheme \<Rightarrow> int \<times> 'a userial_st_scheme" where
  "userial_vendor_open cfg p_cfg s =
     (let s = set_userial_fd (-1) s; (ok, baud) = userial_to_tcio_baud (cfg_baud p_cfg) in
      if ok = C_FALSE then (-1, s)
      else case userial_fmt (cfg_fmt p_cfg) of
        None \<Rightarrow> (-1, s)
      | Some (data_bits, parity, stop_bits) \<Rightarrow>
         (let (fd, s) = sys_open (port_name (vnd_userial s)) O_RDWR s;
              s = set_userial_fd fd s
          in if fd = -1 then (-1, s)
          else
            (let s = userial_tcgetattr (tcflush fd s);
                 t = cfmakeraw (userial_termios (vnd_userial s));
                 t = t\<lparr>c_cflag := c_cflag t OR (CRTSCTS OR ucast stop_bits)\<rparr>;
                 s = userial_apply baud (set_userial_termios t s);
                 s = (if BT_WAKE_VIA_USERIAL_IOCTL cfg then userial_ioctl_init_bt_wake fd s else s)
             in (userial_fd (vnd_userial s), s))))"

definition rtk_userial_vendor_open ::
    "'c buildcfg_scheme \<Rightarrow> tUSERIAL_CFG \<Rightarrow> 'a userial_st_scheme \<Rightarrow> int \<times> 'a userial_st_scheme" where
  "rtk_userial_vendor_open cfg p_cfg s =
     (let s = set_userial_fd (-1) s; (ok, baud) = rtk_userial_to_tcio_baud (cfg_baud p_cfg) in
      if ok = C_FALSE then (-1, s)
      else case userial_fmt (cfg_fmt p_cfg) of
        None \<Rightarrow> (-1, s)
      | Some (data_bits, parity, stop_bits) \<Rightarrow>
         (let (fd, s) = sys_open (port_name (vnd_userial s)) O_RDWR s;
              s = set_userial_fd fd s
          in if fd = -1 then (-1, s)
          else
            (let s = userial_tcgetattr (tcflush fd s);
                 t = cfmakeraw (userial_termios (vnd_userial s));
                 t = (if cfg_hw_fctrl p_cfg = 1
                      then t\<lparr>c_cflag := c_cflag t OR (CRTSCTS OR ucast stop_bits OR ucast parity)\<rparr>
                      else t\<lparr>c_cflag := (c_cflag t AND NOT CRTSCTS) OR (ucast stop_bits OR ucast parity)\<rparr>);
                 s = userial_apply baud (set_userial_termios t s);
                 s = (if BT_WAKE_VIA_USERIAL_IOCTL cfg then userial_ioctl_init_bt_wake fd s else s)
             in (userial_fd (vnd_userial s), s))))"

definition userial_vendor_close :: "'c buildcfg_scheme \<Rightarrow> 'a userial_st_scheme \<Rightarrow> 'a userial_st_scheme" where
  "userial_vendor_close cfg s =
     (let fd = userial_fd (vnd_userial s) in
      if fd = -1 then s
      else
        (let s = (if BT_WAKE_VIA_USERIAL_IOCTL cfg then sys_ioctl fd USERIAL_IOCTL_BT_WAKE_DEASSERT s else s)
         in set_userial_fd (-1) (sys_close fd s)))"

definition userial_vendor_set_baud :: "u8 \<Rightarrow> 'a userial_st_scheme \<Rightarrow> 'a userial_st_scheme" where
  "userial_vendor_set_baud userial_baud s =
     (let (ok, tcio_baud) = userial_to_tcio_baud userial_baud;
          s = set_userial_termios (cfsetspeed tcio_baud (userial_termios (vnd_userial s))) s
      in userial_tcsetattr s)"

definition rtk_userial_vendor_set_baud :: "u8 \<Rightarrow> 'a userial_st_scheme \<Rightarrow> 'a userial_st_scheme" where
  "rtk_userial_vendor_set_baud userial_baud s =
     (let (ok, tcio_baud) = rtk_userial_to_tcio_baud userial_baud;
          s = set_userial_termios (cfsetspeed tcio_baud (userial_termios (vnd_userial s))) s;
          s = userial_tcsetattr s
      in tcflush (userial_fd (vnd_userial s)) s)"

definition userial_vendor_ioctl ::
    "'c buildcfg_scheme \<Rightarrow> userial_vendor_ioctl_op_t \<Rightarrow> 'a userial_st_scheme \<Rightarrow> 'a userial_st_scheme" where
  "userial_vendor_ioctl cfg op s =
     (let fd = userial_fd (vnd_userial s) in
      if \<not> BT_WAKE_VIA_USERIAL_IOCTL cfg then s
      else case op of
        USERIAL_OP_ASSERT_BT_WAKE \<Rightarrow> sys_ioctl fd USERIAL_IOCTL_BT_WAKE_ASSERT s
      | USERIAL_OP_DEASSERT_BT_WAKE \<Rightarrow> sys_ioctl fd USERIAL_IOCTL_BT_WAKE_DEASSERT s
      | USERIAL_OP_GET_BT_WAKE_STATE \<Rightarrow> sys_ioctl fd USERIAL_IOCTL_BT_WAKE_GET_ST s
      | USERIAL_OP_NOP \<Rightarrow> s)"

text \<open>\<open>strcpy\<close> into the 256 byte port name: \<open>None\<close> when it overflows.\<close>

definition userial_set_port :: "string \<Rightarrow> 'a userial_st_scheme \<Rightarrow> 'a userial_st_scheme option" where
  "userial_set_port p_conf_value s =
     map_option (\<lambda>v. s\<lparr>vnd_userial := (vnd_userial s)\<lparr>port_name := v\<rparr>\<rparr>)
       (strcpy_into 256 p_conf_value)"

text \<open>RTL8723: hardware flow control on the open port.  The settings are read from and written
  to the terminal, not the cached ones; a failing \<open>tcgetattr\<close> leaves the local structure
  uninitialised, represented by the argument \<open>junk\<close>.\<close>

definition userial_vendor_set_hw_fctrl :: "termios \<Rightarrow> u8 \<Rightarrow> 'a userial_st_scheme \<Rightarrow> 'a userial_st_scheme" where
  "userial_vendor_set_hw_fctrl junk hw_fctrl s =
     (let fd = userial_fd (vnd_userial s) in
      if fd = -1 then s
      else
        (let t = (if os_tc_err (os s) (calls s) fd then junk else ttys s fd) in
         if hw_fctrl \<noteq> 0 then
           (if c_cflag t AND CRTSCTS \<noteq> 0 then s
            else tc_set fd (t\<lparr>c_cflag := c_cflag t OR CRTSCTS\<rparr>) s)
         else
           (if c_cflag t AND CRTSCTS \<noteq> 0
            then tc_set fd (t\<lparr>c_cflag := c_cflag t AND NOT CRTSCTS\<rparr>) s
            else s)))"

section \<open>Facts\<close>

text \<open>The calls the serial port operations make never touch a buffer.\<close>

named_theorems userial_defs \<open>definitions of the serial port operations\<close>

lemmas [userial_defs] = sys_ioctl_def userial_ioctl_init_bt_wake_def set_userial_fd_def
  set_userial_termios_def tcflush_def userial_tcgetattr_def userial_tcsetattr_def tc_set_def

lemma rtk_userial_to_tcio_baud_eq: "rtk_userial_to_tcio_baud b = userial_to_tcio_baud b"
  by (simp add: rtk_userial_to_tcio_baud_def userial_to_tcio_baud_def)

text \<open>Only 14 of the 256 baud codes are accepted, and the accepted ones give speeds inside the
  baud field.\<close>

lemma userial_to_tcio_baud_CBAUD: "snd (userial_to_tcio_baud b) AND NOT CBAUD = 0"
  by (simp add: userial_to_tcio_baud_def)

lemma cfsetspeed_cflag [simp]: "c_cflag (cfsetspeed b t) = (c_cflag t AND NOT CBAUD) OR (b AND CBAUD)"
  by (simp add: cfsetspeed_def)

lemma word_and_or_absorb:
  fixes x y m :: u32
  shows "((x AND NOT m) OR (y AND m)) AND m = y AND m"
    and "((x AND NOT m) OR (y AND m)) AND NOT m = x AND NOT m"
  by (rule bit_word_eqI; auto simp: bit_simps)+

lemma cfsetspeed_idem [simp]: "cfsetspeed b (cfsetspeed b t) = cfsetspeed b t"
proof -
  have "(((c_cflag t AND NOT CBAUD) OR (b AND CBAUD)) AND NOT CBAUD) OR (b AND CBAUD)
      = (c_cflag t AND NOT CBAUD) OR (b AND CBAUD)"
    by (simp only: word_and_or_absorb(2))
  then show ?thesis by (simp add: cfsetspeed_def)
qed

lemma set_baud_calls:
  "calls (userial_vendor_set_baud b s) = calls s @
     [Tcsetattr (userial_fd (vnd_userial s))
        (cfsetspeed (snd (userial_to_tcio_baud b)) (userial_termios (vnd_userial s)))]"
  by (simp add: userial_vendor_set_baud_def userial_defs Let_def split: prod.splits)

lemma set_baud_frame [simp]:
  "bt_vendor_cbacks (userial_vendor_set_baud b s) = bt_vendor_cbacks s"
  "os (userial_vendor_set_baud b s) = os s" "fds (userial_vendor_set_baud b s) = fds s"
  "userial_st.more (userial_vendor_set_baud b s) = userial_st.more s"
  "userial_fd (vnd_userial (userial_vendor_set_baud b s)) = userial_fd (vnd_userial s)"
  by (simp_all add: userial_vendor_set_baud_def userial_defs Let_def split: prod.splits)

lemma rtk_set_baud_calls:
  "calls (rtk_userial_vendor_set_baud b s) = calls s @
     [Tcsetattr (userial_fd (vnd_userial s))
        (cfsetspeed (snd (userial_to_tcio_baud b)) (userial_termios (vnd_userial s))),
      Tcflush (userial_fd (vnd_userial s))]"
  by (simp add: rtk_userial_vendor_set_baud_def rtk_userial_to_tcio_baud_eq userial_defs Let_def
      split: prod.splits)

lemma rtk_set_baud_frame [simp]:
  "bt_vendor_cbacks (rtk_userial_vendor_set_baud b s) = bt_vendor_cbacks s"
  "os (rtk_userial_vendor_set_baud b s) = os s" "fds (rtk_userial_vendor_set_baud b s) = fds s"
  "userial_st.more (rtk_userial_vendor_set_baud b s) = userial_st.more s"
  by (simp_all add: rtk_userial_vendor_set_baud_def userial_defs Let_def split: prod.splits)

lemma set_hw_fctrl_frame [simp]:
  "bt_vendor_cbacks (userial_vendor_set_hw_fctrl j f s) = bt_vendor_cbacks s"
  "os (userial_vendor_set_hw_fctrl j f s) = os s" "fds (userial_vendor_set_hw_fctrl j f s) = fds s"
  "userial_st.more (userial_vendor_set_hw_fctrl j f s) = userial_st.more s"
  by (simp_all add: userial_vendor_set_hw_fctrl_def userial_defs Let_def)

lemma set_hw_fctrl_calls:
  "\<exists>new. calls (userial_vendor_set_hw_fctrl j f s) = calls s @ new \<and> (\<forall>a. net new a = 0)
     \<and> xmits new = [] \<and> fwcfg_results new = []"
  by (auto simp: userial_vendor_set_hw_fctrl_def userial_defs Let_def)

end
