(* ===== verification/Upio.thy ===== *)
theory Upio
  imports Userial
begin

text \<open>
  I/O controls of the Bluetooth libraries, \<open>upio.c\<close> (the AP6210 and the RTL8723 library
  contain the same text): chip power through the rfkill interface of the kernel, the low power
  mode and the BT_WAKE signal through the \<open>/proc/bluetooth/sleep\<close> nodes, and the timer that
  bounds how long a BT_WAKE assertion is held.  Open descriptors, the timer and everything
  written go through the platform's history.

  The search for the rfkill entry has no bound of its own in the code: it stops when an entry
  is a Bluetooth one or cannot be opened.  It is a \<^theory_text>\<open>partial_function\<close> here, and the
  theorems about it state that it returns.
\<close>

abbreviation (input) UPIO_BT_POWER_OFF :: int where "UPIO_BT_POWER_OFF \<equiv> 0"
abbreviation (input) UPIO_BT_POWER_ON :: int where "UPIO_BT_POWER_ON \<equiv> 1"

abbreviation (input) UPIO_BT_WAKE :: nat where "UPIO_BT_WAKE \<equiv> 0"
abbreviation (input) UPIO_HOST_WAKE :: nat where "UPIO_HOST_WAKE \<equiv> 1"
abbreviation (input) UPIO_LPM_MODE :: nat where "UPIO_LPM_MODE \<equiv> 2"
abbreviation (input) UPIO_MAX_COUNT :: nat where "UPIO_MAX_COUNT \<equiv> 3"

abbreviation (input) UPIO_UNKNOWN :: u8 where "UPIO_UNKNOWN \<equiv> 0"
abbreviation (input) UPIO_DEASSERT :: u8 where "UPIO_DEASSERT \<equiv> 1"
abbreviation (input) UPIO_ASSERT :: u8 where "UPIO_ASSERT \<equiv> 2"

abbreviation (input) PROC_BTWRITE_TIMER_TIMEOUT_MS :: u32 where "PROC_BTWRITE_TIMER_TIMEOUT_MS \<equiv> 8000"

definition VENDOR_LPM_PROC_NODE :: string where
  "VENDOR_LPM_PROC_NODE = ''/proc/bluetooth/sleep/lpm''"

definition VENDOR_BTWRITE_PROC_NODE :: string where
  "VENDOR_BTWRITE_PROC_NODE = ''/proc/bluetooth/sleep/btwrite''"

record vnd_lpm_proc_cb_t =
  btwrite_active :: bool
  timer_created :: bool

record upio_st = userial_st +
  upio_state :: "u8 list"
  lpm_proc_cb :: vnd_lpm_proc_cb_t
  rfkill_id :: int
  bt_emul_enable :: int
  rfkill_state_path :: "string option"

section \<open>Bluetooth power\<close>

definition rfkill_type_path :: "nat \<Rightarrow> string" where
  "rfkill_type_path i = ''/sys/class/rfkill/rfkill'' @ nat_dec i @ ''/type''"

definition rfkill_state_name :: "nat \<Rightarrow> string" where
  "rfkill_state_name i = ''/sys/class/rfkill/rfkill'' @ nat_dec i @ ''/state''"

definition is_emulator_context :: "'a platform_scheme \<Rightarrow> bool" where
  "is_emulator_context s = (property_get ''ro.kernel.qemu'' ''0'' s = ''1'')"

definition is_rfkill_disabled :: "'a platform_scheme \<Rightarrow> bool" where
  "is_rfkill_disabled s = (property_get ''ro.rfkilldisabled'' ''0'' s = ''1'')"

text \<open>\<open>sz >= 9 && memcmp(buf, "bluetooth", 9) == 0\<close>; \<open>None\<close> is a failed read.\<close>

definition is_bluetooth_type :: "u8 list option \<Rightarrow> bool" where
  "is_bluetooth_type r = (case r of None \<Rightarrow> False
     | Some buf \<Rightarrow> 9 \<le> length buf \<and> take 9 buf = bytes_of ''bluetooth'')"

partial_function (option) init_rfkill_loop ::
    "nat \<Rightarrow> 'a upio_st_scheme \<Rightarrow> (int \<times> 'a upio_st_scheme) option" where
  "init_rfkill_loop i s =
     (let r1 = sys_open (rfkill_type_path i) O_RDONLY s; fd = fst r1; s1 = snd r1 in
      if fd < 0 then Some (-1, s1)
      else
        let r2 = sys_read fd 16 s1; s2 = sys_close fd (snd r2) in
        if is_bluetooth_type (fst r2)
        then Some (0, s2\<lparr>rfkill_id := int i, rfkill_state_path := Some (rfkill_state_name i)\<rparr>)
        else init_rfkill_loop (Suc i) s2)"

definition init_rfkill :: "'a upio_st_scheme \<Rightarrow> (int \<times> 'a upio_st_scheme) option" where
  "init_rfkill s = (if is_rfkill_disabled s then Some (-1, s) else init_rfkill_loop 0 s)"

definition power_byte :: "int \<Rightarrow> u8" where
  "power_byte on = (if on = UPIO_BT_POWER_ON then 0x31 else 0x30)"

text \<open>The tail of \<open>upio_set_bluetooth_power\<close>: write the power byte to the rfkill state file.\<close>

definition power_write :: "int \<Rightarrow> 'a upio_st_scheme \<Rightarrow> int \<times> 'a upio_st_scheme" where
  "power_write on s =
     (let (fd, s) = sys_open (case rfkill_state_path s of None \<Rightarrow> [] | Some p \<Rightarrow> p) O_WRONLY s in
      if fd < 0 then (-1, s)
      else
        let (sz, s) = sys_write fd [power_byte on] s;
            ret = (if sz < 0 then -1 else 0)
        in (ret, sys_close fd s))"

definition upio_set_bluetooth_power :: "int \<Rightarrow> 'a upio_st_scheme \<Rightarrow> (int \<times> 'a upio_st_scheme) option" where
  "upio_set_bluetooth_power on s =
     (if is_emulator_context s then
        (if bt_emul_enable s = on then Some (-1, s) else Some (0, s\<lparr>bt_emul_enable := on\<rparr>))
      else if is_rfkill_disabled s then Some (0, s)
      else if rfkill_id s = -1 then
        (case init_rfkill s of
           None \<Rightarrow> None
         | Some (r, s) \<Rightarrow> if r \<noteq> 0 then Some (-1, s) else Some (power_write on s))
      else Some (power_write on s))"

section \<open>Low power mode\<close>

definition set_timer_created :: "bool \<Rightarrow> 'a upio_st_scheme \<Rightarrow> 'a upio_st_scheme" where
  "set_timer_created b s = s\<lparr>lpm_proc_cb := (lpm_proc_cb s)\<lparr>timer_created := b\<rparr>\<rparr>"

definition set_btwrite_active :: "bool \<Rightarrow> 'a upio_st_scheme \<Rightarrow> 'a upio_st_scheme" where
  "set_btwrite_active b s = s\<lparr>lpm_proc_cb := (lpm_proc_cb s)\<lparr>btwrite_active := b\<rparr>\<rparr>"

definition proc_btwrite_timeout :: "'a upio_st_scheme \<Rightarrow> 'a upio_st_scheme" where
  "proc_btwrite_timeout s = set_btwrite_active False s"

definition upio_init :: "'c buildcfg_scheme \<Rightarrow> 'a upio_st_scheme \<Rightarrow> 'a upio_st_scheme" where
  "upio_init cfg s =
     (let s = s\<lparr>upio_state := replicate UPIO_MAX_COUNT UPIO_UNKNOWN\<rparr> in
      if BT_WAKE_VIA_PROC cfg
      then s\<lparr>lpm_proc_cb := \<lparr>btwrite_active = False, timer_created = False\<rparr>\<rparr> else s)"

definition delete_timer :: "'a upio_st_scheme \<Rightarrow> 'a upio_st_scheme" where
  "delete_timer s =
     (if timer_created (lpm_proc_cb s) then set_timer_created False (log_call Timer_delete s) else s)"

definition upio_cleanup :: "'c buildcfg_scheme \<Rightarrow> 'a upio_st_scheme \<Rightarrow> 'a upio_st_scheme" where
  "upio_cleanup cfg s =
     (if BT_WAKE_VIA_PROC cfg then set_timer_created False (delete_timer s) else s)"

definition create_timer :: "'a upio_st_scheme \<Rightarrow> 'a upio_st_scheme" where
  "create_timer s =
     (if timer_created (lpm_proc_cb s) then s
      else
        let status = os_timer_create (os s) (calls s); s = log_call (Timer_create status) s
        in if status = 0 then set_timer_created True s else s)"

definition upio_set_lpm_mode :: "'c buildcfg_scheme \<Rightarrow> u8 \<Rightarrow> 'a upio_st_scheme \<Rightarrow> 'a upio_st_scheme" where
  "upio_set_lpm_mode cfg action s =
     (if upio_state s ! UPIO_LPM_MODE = action then s
      else
        let s = s\<lparr>upio_state := (upio_state s)[UPIO_LPM_MODE := action]\<rparr> in
        if \<not> BT_WAKE_VIA_PROC cfg then s
        else
          let (fd, s) = sys_open VENDOR_LPM_PROC_NODE O_WRONLY s in
          if fd < 0 then s
          else
            let (buffer, s) = (if action = UPIO_ASSERT then (0x31, s) else (0x30, delete_timer s));
                (r, s) = sys_write fd [buffer] s;
                s = (if r < 0 then s else if action = UPIO_ASSERT then create_timer s else s)
            in sys_close fd s)"

definition upio_set_bt_wake :: "'c buildcfg_scheme \<Rightarrow> u8 \<Rightarrow> 'a upio_st_scheme \<Rightarrow> 'a upio_st_scheme" where
  "upio_set_bt_wake cfg action s =
     (if upio_state s ! UPIO_BT_WAKE = action
         \<and> (\<not> BT_WAKE_VIA_PROC cfg \<or> btwrite_active (lpm_proc_cb s)) then s
      else
        let s = s\<lparr>upio_state := (upio_state s)[UPIO_BT_WAKE := action]\<rparr> in
        if BT_WAKE_VIA_USERIAL_IOCTL cfg then
          userial_vendor_ioctl cfg
            (if action = UPIO_ASSERT then USERIAL_OP_ASSERT_BT_WAKE else USERIAL_OP_DEASSERT_BT_WAKE) s
        else if BT_WAKE_VIA_PROC cfg then
          (if action = UPIO_DEASSERT then s
           else
             let (fd, s) = sys_open VENDOR_BTWRITE_PROC_NODE O_WRONLY s in
             if fd < 0 then s
             else
               let (r, s) = sys_write fd [0x31] s;
                   s = (if r < 0 then s
                        else
                          let s = set_btwrite_active True s in
                          if timer_created (lpm_proc_cb s)
                          then log_call (Timer_settime (PROC_BTWRITE_TIMER_TIMEOUT_MS div 1000)
                                 (1000 * (PROC_BTWRITE_TIMER_TIMEOUT_MS mod 1000))) s
                          else s)
               in sys_close fd s)
        else s)"

definition upio_set :: "'c buildcfg_scheme \<Rightarrow> nat \<Rightarrow> u8 \<Rightarrow> u8 \<Rightarrow> 'a upio_st_scheme \<Rightarrow> 'a upio_st_scheme" where
  "upio_set cfg pio action polarity s =
     (if pio = UPIO_LPM_MODE then upio_set_lpm_mode cfg action s
      else if pio = UPIO_BT_WAKE then upio_set_bt_wake cfg action s
      else s)"

text \<open>Everything that changes the low power state between \<open>upio_init\<close> and the end: the two
  settings, the expiry of the timer and the clean-up.\<close>

inductive upio_step :: "'c buildcfg_scheme \<Rightarrow> 'a upio_st_scheme \<Rightarrow> 'a upio_st_scheme \<Rightarrow> bool" for cfg where
  step_set: "upio_step cfg s (upio_set cfg pio action polarity s)"
| step_timeout: "upio_step cfg s (proc_btwrite_timeout s)"
| step_cleanup: "upio_step cfg s (upio_cleanup cfg s)"

text \<open>Timers that exist according to the history.\<close>

fun live_timers :: "history \<Rightarrow> int" where
  "live_timers [] = 0"
| "live_timers (Timer_create r # cs) = (if r = 0 then 1 else 0) + live_timers cs"
| "live_timers (Timer_delete # cs) = live_timers cs - 1"
| "live_timers (_ # cs) = live_timers cs"

definition timer_inv :: "int \<Rightarrow> 'a upio_st_scheme \<Rightarrow> bool" where
  "timer_inv n s \<longleftrightarrow> live_timers (calls s) = n + (if timer_created (lpm_proc_cb s) then 1 else 0)"

text \<open>Descriptors opened and not closed according to the history.\<close>

fun open_fds :: "history \<Rightarrow> int" where
  "open_fds [] = 0"
| "open_fds (Sys_open p m fd # cs) = (if fd < 0 then 0 else 1) + open_fds cs"
| "open_fds (Sys_close fd # cs) = open_fds cs - 1"
| "open_fds (_ # cs) = open_fds cs"

text \<open>The search for the rfkill entry, over any history: \<open>n\<close> entries exist and reads work.\<close>

definition rfkill_entries :: "nat \<Rightarrow> os_env \<Rightarrow> bool" where
  "rfkill_entries n e \<longleftrightarrow>
     (\<forall>i h. os_open e h (rfkill_type_path i) O_RDONLY < 0 \<longleftrightarrow> n \<le> i) \<and> (\<forall>h fd. \<not> os_read_err e h fd)"

definition rfkill_is_bt :: "os_env \<Rightarrow> nat \<Rightarrow> bool" where
  "rfkill_is_bt e i = is_bluetooth_type (Some (take 16 (os_file e (rfkill_type_path i))))"

text \<open>A library state in quiet surroundings.\<close>

definition quiet_upio :: "(string \<Rightarrow> u8 list option) \<Rightarrow> upio_st" where
  "quiet_upio content =
     \<lparr>bt_vendor_cbacks = Some quiet_cbacks, calls = [], os = quiet_os content, fds = (\<lambda>_. []),
      ttys = (\<lambda>_. quiet_termios),
      vnd_userial = \<lparr>userial_fd = 5, userial_termios = quiet_termios, port_name = ''/dev/ttyS2''\<rparr>,
      upio_state = [0, 0, 0], lpm_proc_cb = \<lparr>btwrite_active = False, timer_created = False\<rparr>,
      rfkill_id = -1, bt_emul_enable = 0, rfkill_state_path = None\<rparr>"

definition proc_cfg :: buildcfg where
  "proc_cfg = \<lparr>BT_WAKE_VIA_USERIAL_IOCTL = False, BT_WAKE_VIA_PROC = True,
     BLUETOOTH_UART_DEVICE_PORT = ''/dev/ttyS2''\<rparr>"

section \<open>Facts\<close>

named_theorems upio_defs \<open>definitions of the I/O controls\<close>

lemmas [upio_defs] = set_timer_created_def set_btwrite_active_def delete_timer_def create_timer_def
  sys_open_def sys_write_def sys_close_def upio_set_lpm_mode_def upio_set_bt_wake_def upio_set_def
  userial_vendor_ioctl_def sys_ioctl_def

lemma live_timers_append [simp]: "live_timers (cs @ ds) = live_timers cs + live_timers ds"
  by (induction cs rule: live_timers.induct) auto

lemma open_fds_append [simp]: "open_fds (cs @ ds) = open_fds cs + open_fds ds"
  by (induction cs rule: open_fds.induct) auto

text \<open>What the primitive steps keep.  \<open>io_since s k t\<close>: from \<open>s\<close> to \<open>t\<close> nothing but the history and the
  variables of this component changed, no buffer was touched, and \<open>k\<close> more descriptors are open.\<close>

fun io_call :: "call \<Rightarrow> bool" where
  "io_call (Sys_open p m fd) = True"
| "io_call (Sys_write fd bs r) = True"
| "io_call (Sys_close fd) = True"
| "io_call (Sys_ioctl fd r) = True"
| "io_call (Timer_create r) = True"
| "io_call Timer_delete = True"
| "io_call (Timer_settime x y) = True"
| "io_call _ = False"

definition io_since :: "'a upio_st_scheme \<Rightarrow> int \<Rightarrow> 'a upio_st_scheme \<Rightarrow> bool" where
  "io_since s k t \<longleftrightarrow> bt_vendor_cbacks t = bt_vendor_cbacks s \<and> os t = os s \<and> upio_st.more t = upio_st.more s \<and>
     (\<exists>new. calls t = calls s @ new \<and> (\<forall>x. net new x = 0) \<and> xmits new = [] \<and> fwcfg_results new = [] \<and> open_fds new = k \<and>
        list_all io_call new)"

named_theorems io_intros \<open>steps of \<open>io_since\<close>\<close>

lemma io_since_refl [io_intros]: "io_since s 0 s"
  by (simp add: io_since_def)

lemma io_since_open:
  "io_since s k t \<Longrightarrow> io_since s (k + (if fst (sys_open p m t) < 0 then 0 else 1)) (snd (sys_open p m t))"
  by (auto simp: io_since_def sys_open_def Let_def)

lemma io_since_close: "io_since s 1 t \<Longrightarrow> io_since s 0 (sys_close fd t)"
  by (auto simp: io_since_def sys_close_def)

lemma io_since_call:
  "io_since s k t \<Longrightarrow> c \<in> {Timer_create r, Timer_delete, Timer_settime x y, Sys_write fd bs r, Sys_ioctl fd q} \<Longrightarrow>
     io_since s k (log_call c t)"
  by (auto simp: io_since_def)

lemma io_since_steps [io_intros]:
  "io_since s k t \<Longrightarrow> io_since s k (snd (sys_write fd bs t))"
  "io_since s k t \<Longrightarrow> io_since s k (sys_ioctl fd r t)"
  "io_since s k t \<Longrightarrow> io_since s k (log_call (Timer_settime x y) t)"
  "io_since s k t \<Longrightarrow> io_since s k (log_call (Timer_create v) t)"
  "io_since s k t \<Longrightarrow> io_since s k (log_call Timer_delete t)"
  unfolding sys_write_def sys_ioctl_def Let_def snd_conv by (rule io_since_call, assumption, simp)+

lemma io_since_updates [io_intros]:
  "io_since s k t \<Longrightarrow> io_since s k (t\<lparr>upio_state := u\<rparr>)"
  "io_since s k t \<Longrightarrow> io_since s k (set_btwrite_active b t)" "io_since s k t \<Longrightarrow> io_since s k (set_timer_created b t)"
  by (auto simp: io_since_def set_btwrite_active_def set_timer_created_def)

lemma io_since_timer [io_intros]:
  "io_since s k t \<Longrightarrow> io_since s k (delete_timer t)" "io_since s k t \<Longrightarrow> io_since s k (create_timer t)"
  by (simp_all add: delete_timer_def create_timer_def Let_def io_intros del: log_call_def)

lemma io_since_opened:
  assumes "io_since s 0 t"
  shows "if fst (sys_open p m t) < 0 then io_since s 0 (snd (sys_open p m t)) else io_since s 1 (snd (sys_open p m t))"
  using io_since_open [OF assms, of p m] by (simp split: if_splits)

lemma io_since_lpm: "io_since s 0 (upio_set_lpm_mode cfg a s)"
proof -
  let ?s = "s\<lparr>upio_state := (upio_state s)[UPIO_LPM_MODE := a]\<rparr>"
  have s: "io_since s 0 ?s" by (intro io_intros)
  obtain fd u where o: "sys_open VENDOR_LPM_PROC_NODE O_WRONLY ?s = (fd, u)" by fastforce
  show ?thesis
  proof (cases "fd < 0")
    case True
    then have "io_since s 0 u" using io_since_opened [OF s] o by (metis fst_conv snd_conv)
    then show ?thesis using s o True
      by (simp add: upio_set_lpm_mode_def Let_def split_beta io_intros io_since_close  del: log_call_def)
  next
    case False
    then have "io_since s 1 u" using io_since_opened [OF s] o by (metis fst_conv snd_conv)
    then show ?thesis using s o False
      by (simp add: upio_set_lpm_mode_def Let_def split_beta io_intros io_since_close  del: log_call_def)
  qed
qed

lemma io_since_ioctl: "io_since s k t \<Longrightarrow> io_since s k (userial_vendor_ioctl cfg op t)"
  by (simp add: userial_vendor_ioctl_def Let_def io_intros split: userial_vendor_ioctl_op_t.split)

lemma io_since_wake: "io_since s 0 (upio_set_bt_wake cfg a s)"
proof -
  let ?s = "s\<lparr>upio_state := (upio_state s)[UPIO_BT_WAKE := a]\<rparr>"
  have s: "io_since s 0 ?s" by (intro io_intros)
  obtain fd u where o: "sys_open VENDOR_BTWRITE_PROC_NODE O_WRONLY ?s = (fd, u)" by fastforce
  show ?thesis
  proof (cases "fd < 0")
    case True
    then have "io_since s 0 u" using io_since_opened [OF s] o by (metis fst_conv snd_conv)
    then show ?thesis using s o True
      by (simp add: upio_set_bt_wake_def Let_def split_beta io_intros io_since_close io_since_ioctl del: log_call_def)
  next
    case False
    then have "io_since s 1 u" using io_since_opened [OF s] o by (metis fst_conv snd_conv)
    then show ?thesis using s o False
      by (simp add: upio_set_bt_wake_def Let_def split_beta io_intros io_since_close io_since_ioctl del: log_call_def)
  qed
qed

lemma io_since_upio_set: "io_since s 0 (upio_set cfg pio a p s)"
  by (simp add: upio_set_def io_since_lpm io_since_wake io_since_refl)

lemma upio_set_frame [simp]:
  "bt_vendor_cbacks (upio_set cfg pio a p s) = bt_vendor_cbacks s"
  "os (upio_set cfg pio a p s) = os s"
  "upio_st.more (upio_set cfg pio a p s) = upio_st.more s"
  using io_since_upio_set [of s cfg pio a p] by (simp_all add: io_since_def)

text \<open>Every primitive step keeps the balance of the timer.\<close>

lemma timer_inv_steps [simp]:
  "timer_inv n (snd (sys_open p m s)) = timer_inv n s" "timer_inv n (snd (sys_write fd bs s)) = timer_inv n s"
  "timer_inv n (sys_close fd s) = timer_inv n s" "timer_inv n (sys_ioctl fd r s) = timer_inv n s"
  "timer_inv n (s\<lparr>upio_state := u\<rparr>) = timer_inv n s" "timer_inv n (set_btwrite_active b s) = timer_inv n s"
  "timer_inv n (log_call (Timer_settime x y) s) = timer_inv n s"
  by (simp_all add: timer_inv_def sys_open_def sys_write_def sys_close_def sys_ioctl_def set_btwrite_active_def Let_def)

lemma timer_inv_timer [simp]:
  "timer_inv n (delete_timer s) = timer_inv n s" "timer_inv n (create_timer s) = timer_inv n s"
  by (auto simp: timer_inv_def delete_timer_def create_timer_def set_timer_created_def Let_def)

lemma timer_inv_ioctl [simp]: "timer_inv n (userial_vendor_ioctl cfg op s) = timer_inv n s"
  by (simp add: userial_vendor_ioctl_def Let_def split: userial_vendor_ioctl_op_t.split)

lemma upio_set_lpm_timer: "timer_inv n s \<Longrightarrow> timer_inv n (upio_set_lpm_mode cfg a s)"
  by (simp add: upio_set_lpm_mode_def Let_def split_beta del: log_call_def)

lemma upio_set_wake_timer: "timer_inv n s \<Longrightarrow> timer_inv n (upio_set_bt_wake cfg a s)"
  by (simp add: upio_set_bt_wake_def Let_def split_beta del: log_call_def)

lemma upio_step_timer: "upio_step cfg s t \<Longrightarrow> timer_inv n s \<Longrightarrow> timer_inv n t"
proof (induction rule: upio_step.induct)
  case (step_set s pio action polarity)
  then show ?case
    by (simp add: upio_set_def upio_set_lpm_timer upio_set_wake_timer)
next
  case (step_timeout s)
  then show ?case by (simp add: timer_inv_def proc_btwrite_timeout_def upio_defs)
next
  case (step_cleanup s)
  then show ?case by (auto simp: timer_inv_def upio_cleanup_def upio_defs)
qed

lemma upio_steps_timer: "(upio_step cfg)\<^sup>*\<^sup>* s t \<Longrightarrow> timer_inv n s \<Longrightarrow> timer_inv n t"
  by (induction rule: rtranclp_induct) (auto intro: upio_step_timer)

lemma upio_init_timer: "BT_WAKE_VIA_PROC cfg \<Longrightarrow> timer_inv (live_timers (calls s)) (upio_init cfg s)"
  by (simp add: timer_inv_def upio_init_def Let_def)

text \<open>The I/O controls never touch a command buffer, and close what they open.\<close>

lemma upio_set_calls:
  "\<exists>new. calls (upio_set cfg pio a p s) = calls s @ new \<and> (\<forall>x. net new x = 0) \<and> xmits new = []
     \<and> fwcfg_results new = [] \<and> open_fds new = 0"
  using io_since_upio_set [of s cfg pio a p] by (auto simp: io_since_def)

lemma upio_set_io: "\<exists>new. calls (upio_set cfg pio a p s) = calls s @ new \<and> list_all io_call new"
  using io_since_upio_set [of s cfg pio a p] by (auto simp: io_since_def)

lemma bt_wake_kick:
  assumes "BT_WAKE_VIA_PROC cfg" and "\<not> BT_WAKE_VIA_USERIAL_IOCTL cfg"
    and "\<not> btwrite_active (lpm_proc_cb u)"
  shows "\<exists>fd new. calls (upio_set cfg 0 2 q u)
      = calls u @ Sys_open VENDOR_BTWRITE_PROC_NODE O_WRONLY fd # new"
  using assms by (auto simp: upio_defs Let_def)

lemma rfkill_type_path_inject: "rfkill_type_path m = rfkill_type_path n \<longleftrightarrow> m = n"
  by (simp add: rfkill_type_path_def nat_dec_inject)

lemma init_rfkill_loop_spec:
  assumes "rfkill_entries n (os s)" and "i \<le> n"
  shows "\<exists>t. init_rfkill_loop i s = Some (case find (rfkill_is_bt (os s)) [i..<n] of None \<Rightarrow> -1 | Some _ \<Rightarrow> 0, t)
     \<and> rfkill_id t = (case find (rfkill_is_bt (os s)) [i..<n] of None \<Rightarrow> rfkill_id s | Some k \<Rightarrow> int k)
     \<and> open_fds (calls t) = open_fds (calls s)"
  using assms
proof (induction "n - i" arbitrary: i s)
  case 0
  then have "os_open (os s) (calls s) (rfkill_type_path i) O_RDONLY < 0" and "i = n"
    by (auto simp: rfkill_entries_def)
  then show ?case
    by (subst init_rfkill_loop.simps) (simp add: sys_open_def Let_def)
next
  case (Suc m)
  then have i: "i < n" by simp
  let ?fd = "os_open (os s) (calls s) (rfkill_type_path i) O_RDONLY"
  let ?s1 = "snd (sys_open (rfkill_type_path i) O_RDONLY s)"
  let ?r = "sys_read ?fd 16 ?s1"
  let ?s2 = "sys_close ?fd (snd ?r)"
  from Suc.prems(1) i have fd: "\<not> ?fd < 0" and rd: "\<And>h fd. \<not> os_read_err (os s) h fd"
    by (auto simp: rfkill_entries_def)
  from fd rd have r: "fst ?r = Some (take 16 (os_file (os s) (rfkill_type_path i)))"
    by (simp add: sys_open_def sys_read_def Let_def)
  from fd rd have s2: "os ?s2 = os s" "rfkill_id ?s2 = rfkill_id s" "open_fds (calls ?s2) = open_fds (calls s)"
    by (simp_all add: sys_open_def sys_read_def sys_close_def Let_def)
  have eq: "init_rfkill_loop i s =
      (if rfkill_is_bt (os s) i
       then Some (0, ?s2\<lparr>rfkill_id := int i, rfkill_state_path := Some (rfkill_state_name i)\<rparr>)
       else init_rfkill_loop (Suc i) ?s2)"
    using fd r by (subst init_rfkill_loop.simps) (simp add: sys_open_def rfkill_is_bt_def Let_def)
  have up: "[i..<n] = i # [Suc i..<n]" using i by (rule upt_conv_Cons)
  show ?case
  proof (cases "rfkill_is_bt (os s) i")
    case True
    then show ?thesis using eq up s2(3) by simp
  next
    case False
    have "m = n - Suc i" "rfkill_entries n (os ?s2)" "Suc i \<le> n"
      using Suc.hyps(2) Suc.prems(1) i s2(1) by auto
    from Suc.hyps(1) [OF this] show ?thesis
      unfolding eq up s2 using False by simp
  qed
qed

section \<open>Properties\<close>

text \<open>(C39) The holding timer of BT_WAKE never leaks and is never deleted twice: after
  \<open>upio_init\<close>, whatever sequence of settings, timer expiries and clean-ups follows and whatever
  the system answers, the timers created and not deleted are the one recorded in
  \<open>lpm_proc_cb\<close>, if any.\<close>

theorem upio_timer_balanced:
  assumes "BT_WAKE_VIA_PROC cfg" and "(upio_step cfg)\<^sup>*\<^sup>* (upio_init cfg s) t"
  shows "live_timers (calls t) = live_timers (calls s) + (if timer_created (lpm_proc_cb t) then 1 else 0)"
  using upio_steps_timer [OF assms(2) upio_init_timer [OF assms(1)]] by (simp add: timer_inv_def)

theorem upio_timer_balanced_witness:
  "live_timers (calls (upio_set proc_cfg 2 2 0 (upio_init proc_cfg (quiet_upio (\<lambda>_. Some []))))) = 1"
proof -
  let ?s = "quiet_upio (\<lambda>_. Some [])"
  have "(upio_step proc_cfg)\<^sup>*\<^sup>* (upio_init proc_cfg ?s) (upio_set proc_cfg 2 2 0 (upio_init proc_cfg ?s))"
    by (blast intro: step_set)
  from upio_timer_balanced [OF _ this] show ?thesis
    by (simp add: proc_cfg_def quiet_upio_def quiet_os_def upio_init_def upio_defs Let_def)
qed

text \<open>(C35) The search for the rfkill entry returns: when the kernel has \<open>n\<close> rfkill entries and
  reads work, \<open>init_rfkill\<close> ends with \<open>0\<close> and the least index whose type starts with
  \<open>bluetooth\<close>, or with \<open>-1\<close> and \<open>rfkill_id\<close> unchanged when there is none; every descriptor it
  opened is closed.\<close>

theorem rfkill_search:
  assumes "rfkill_entries n (os s)" and "\<not> is_rfkill_disabled s"
  shows "\<exists>t. init_rfkill s = Some (case find (rfkill_is_bt (os s)) [0..<n] of None \<Rightarrow> -1 | Some _ \<Rightarrow> 0, t)
     \<and> rfkill_id t = (case find (rfkill_is_bt (os s)) [0..<n] of None \<Rightarrow> rfkill_id s | Some k \<Rightarrow> int k)
     \<and> open_fds (calls t) = open_fds (calls s)"
  using init_rfkill_loop_spec [OF assms(1), of 0] assms(2) by (simp add: init_rfkill_def)

theorem rfkill_search_witness:
  "\<exists>t. init_rfkill (quiet_upio [rfkill_type_path 0 \<mapsto> bytes_of ''wlan'', rfkill_type_path 1 \<mapsto> bytes_of ''bluetooth''])
     = Some (0, t) \<and> rfkill_id t = 1"
proof -
  let ?s = "quiet_upio [rfkill_type_path 0 \<mapsto> bytes_of ''wlan'', rfkill_type_path 1 \<mapsto> bytes_of ''bluetooth'']"
  have ne: "rfkill_type_path 0 \<noteq> rfkill_type_path 1"
    by (simp add: rfkill_type_path_def nat_dec.simps)
  have "rfkill_entries 2 (os ?s)"
    by (auto simp: rfkill_entries_def quiet_upio_def quiet_os_def rfkill_type_path_inject)
  moreover have "\<not> is_rfkill_disabled ?s"
    by (simp add: is_rfkill_disabled_def property_get_def quiet_upio_def quiet_os_def)
  moreover have "find (rfkill_is_bt (os ?s)) [0..<2] = Some 1"
    using ne by (simp add: upt_rec quiet_upio_def quiet_os_def rfkill_is_bt_def is_bluetooth_type_def
        bytes_of_def)
  ultimately show ?thesis
    using rfkill_search [of 2 ?s] by auto
qed

text \<open>Switching the chip on or off through a known rfkill entry writes exactly the byte
  \<open>1\<close> or \<open>0\<close> to its state file, reports success exactly when opening and writing worked, and
  leaves no descriptor open.\<close>

theorem power_writes_state:
  assumes "\<not> is_emulator_context s" and "\<not> is_rfkill_disabled s" and "rfkill_id s \<noteq> -1"
    and "rfkill_state_path s = Some p"
  shows "\<exists>fd r t. upio_set_bluetooth_power on s = Some (r, t)
     \<and> (r = 0 \<or> r = -1)
     \<and> (r = 0 \<longleftrightarrow> fd \<ge> 0 \<and> (\<exists>sz \<ge> 0. calls t = calls s @ [Sys_open p O_WRONLY fd,
            Sys_write fd [if on = 1 then 0x31 else 0x30] sz, Sys_close fd]))
     \<and> open_fds (calls t) = open_fds (calls s)"
  using assms
  by (auto simp: upio_set_bluetooth_power_def power_write_def power_byte_def sys_open_def sys_write_def
      sys_close_def Let_def)

theorem power_writes_state_witness:
  "\<exists>fd r t. upio_set_bluetooth_power 1 ((quiet_upio (\<lambda>_. Some []))\<lparr>rfkill_id := 0, rfkill_state_path := Some ''s''\<rparr>)
       = Some (r, t) \<and> (r = 0 \<or> r = -1)"
proof -
  let ?s = "(quiet_upio (\<lambda>_. Some []))\<lparr>rfkill_id := 0, rfkill_state_path := Some ''s''\<rparr>"
  have "\<not> is_emulator_context ?s" "\<not> is_rfkill_disabled ?s" "rfkill_id ?s \<noteq> -1"
    "rfkill_state_path ?s = Some ''s''"
    by (simp_all add: is_emulator_context_def is_rfkill_disabled_def property_get_def quiet_upio_def quiet_os_def)
  from power_writes_state [OF this, of 1] show ?thesis by blast
qed

text \<open>Setting the low power mode to the value it has makes no system call and changes
  nothing.\<close>

theorem lpm_mode_idempotent:
  assumes "length (upio_state s) = 3"
  shows "upio_set cfg 2 a q (upio_set cfg 2 a p s) = upio_set cfg 2 a p s"
proof -
  have "upio_state (upio_set cfg 2 a p s) ! 2 = a"
    using assms by (auto simp: upio_defs Let_def)
  then show ?thesis by (simp add: upio_set_def [of cfg 2 a q] upio_set_lpm_mode_def [of cfg a "upio_set cfg 2 a p s"])
qed

theorem lpm_mode_idempotent_witness:
  "upio_set proc_cfg 2 2 0 (upio_set proc_cfg 2 2 0 (quiet_upio (\<lambda>_. Some [])))
     = upio_set proc_cfg 2 2 0 (quiet_upio (\<lambda>_. Some []))"
  by (rule lpm_mode_idempotent) (simp add: quiet_upio_def)

text \<open>BT_WAKE is re-asserted at the kernel exactly when the holding time is over: once an
  assertion has reached the proc node, asserting again makes no call, and after the timer has
  expired the next assertion opens the node again.\<close>

theorem bt_wake_rekick:
  assumes "length (upio_state s) = 3" and "BT_WAKE_VIA_PROC cfg" and "\<not> BT_WAKE_VIA_USERIAL_IOCTL cfg"
    and "btwrite_active (lpm_proc_cb (upio_set cfg 0 2 p s))" and "upio_state (upio_set cfg 0 2 p s) ! 0 = 2"
  shows "upio_set cfg 0 2 q (upio_set cfg 0 2 p s) = upio_set cfg 0 2 p s
    \<and> (\<exists>fd new. calls (upio_set cfg 0 2 q (proc_btwrite_timeout (upio_set cfg 0 2 p s)))
          = calls (upio_set cfg 0 2 p s) @ Sys_open VENDOR_BTWRITE_PROC_NODE O_WRONLY fd # new)"
proof
  let ?t = "upio_set cfg 0 2 p s"
  show "upio_set cfg 0 2 q ?t = ?t"
    using assms(4,5) by (simp add: upio_set_def [of cfg 0 2 q] upio_set_bt_wake_def [of cfg 2 ?t])
  show "\<exists>fd new. calls (upio_set cfg 0 2 q (proc_btwrite_timeout ?t))
      = calls ?t @ Sys_open VENDOR_BTWRITE_PROC_NODE O_WRONLY fd # new"
    using bt_wake_kick [OF assms(2,3), of "proc_btwrite_timeout ?t" q]
    by (simp add: proc_btwrite_timeout_def set_btwrite_active_def)
qed

theorem bt_wake_rekick_witness:
  "upio_set proc_cfg 0 2 0 (upio_set proc_cfg 0 2 0 (quiet_upio (\<lambda>_. Some [])))
     = upio_set proc_cfg 0 2 0 (quiet_upio (\<lambda>_. Some []))"
proof -
  let ?s = "quiet_upio (\<lambda>_. Some [])"
  have "length (upio_state ?s) = 3" "BT_WAKE_VIA_PROC proc_cfg" "\<not> BT_WAKE_VIA_USERIAL_IOCTL proc_cfg"
    "btwrite_active (lpm_proc_cb (upio_set proc_cfg 0 2 0 ?s))"
    "upio_state (upio_set proc_cfg 0 2 0 ?s) ! 0 = 2"
    by (simp_all add: quiet_upio_def quiet_os_def proc_cfg_def upio_defs Let_def)
  from bt_wake_rekick [OF this, of 0] show ?thesis by blast
qed

end
