(* ===== verification/Brcm_Hardware.thy ===== *)
theory Brcm_Hardware
  imports Upio
begin

text \<open>
  Controller specific functions of the AP6210 (Broadcom) Bluetooth library,
  \<open>bluetooth/ap6210/libbt/src/hardware.c\<close>: the configuration of the controller as a state
  machine driven by command complete events (reset, UART speed, chip name, firmware patch,
  speed again, device address), the search for the firmware patch file, and low power mode and
  SCO settings.  The build-time options of the library are the record \<open>brcm_cfg\<close>, so both
  sides of every \<open>#if\<close> are modelled; \<open>gs702a_brcm_cfg\<close> is the configuration of this board.

  The cases of the \<open>switch\<close> in \<open>hw_config_cback\<close> that fall through into each other are the
  definitions \<open>cfg_...\<close>; each returns \<open>is_proceeding\<close> and the new state.  The handler returns
  \<open>None\<close> where the C code runs past the end of the event buffer (upper-casing the chip name).
\<close>

section \<open>Constants, build configuration and state\<close>

abbreviation (input) HCI_CMD_MAX_LEN :: nat where "HCI_CMD_MAX_LEN \<equiv> 258"
abbreviation (input) HCI_RESET :: u16 where "HCI_RESET \<equiv> 0x0C03"
abbreviation (input) HCI_VSC_WRITE_UART_CLOCK_SETTING :: u16 where "HCI_VSC_WRITE_UART_CLOCK_SETTING \<equiv> 0xFC45"
abbreviation (input) HCI_VSC_UPDATE_BAUDRATE :: u16 where "HCI_VSC_UPDATE_BAUDRATE \<equiv> 0xFC18"
abbreviation (input) HCI_READ_LOCAL_NAME :: u16 where "HCI_READ_LOCAL_NAME \<equiv> 0x0C14"
abbreviation (input) HCI_VSC_DOWNLOAD_MINIDRV :: u16 where "HCI_VSC_DOWNLOAD_MINIDRV \<equiv> 0xFC2E"
abbreviation (input) HCI_VSC_WRITE_BD_ADDR :: u16 where "HCI_VSC_WRITE_BD_ADDR \<equiv> 0xFC01"
abbreviation (input) HCI_VSC_WRITE_SLEEP_MODE :: u16 where "HCI_VSC_WRITE_SLEEP_MODE \<equiv> 0xFC27"
abbreviation (input) HCI_VSC_WRITE_SCO_PCM_INT_PARAM :: u16 where "HCI_VSC_WRITE_SCO_PCM_INT_PARAM \<equiv> 0xFC1C"
abbreviation (input) HCI_VSC_WRITE_PCM_DATA_FORMAT_PARAM :: u16 where
  "HCI_VSC_WRITE_PCM_DATA_FORMAT_PARAM \<equiv> 0xFC1E"
abbreviation (input) HCI_VSC_WRITE_I2SPCM_INTERFACE_PARAM :: u16 where
  "HCI_VSC_WRITE_I2SPCM_INTERFACE_PARAM \<equiv> 0xFC6D"
abbreviation (input) HCI_VSC_LAUNCH_RAM :: u16 where "HCI_VSC_LAUNCH_RAM \<equiv> 0xFC4E"
abbreviation (input) HCI_READ_LOCAL_BDADDR :: u16 where "HCI_READ_LOCAL_BDADDR \<equiv> 0x1009"
abbreviation (input) HCI_EVT_CMD_CMPL_STATUS_RET_BYTE :: nat where "HCI_EVT_CMD_CMPL_STATUS_RET_BYTE \<equiv> 5"
abbreviation (input) HCI_EVT_CMD_CMPL_LOCAL_NAME_STRING :: nat where "HCI_EVT_CMD_CMPL_LOCAL_NAME_STRING \<equiv> 6"
abbreviation (input) HCI_EVT_CMD_CMPL_LOCAL_BDADDR_ARRAY :: nat where "HCI_EVT_CMD_CMPL_LOCAL_BDADDR_ARRAY \<equiv> 6"
abbreviation (input) HCI_EVT_CMD_CMPL_OPCODE :: nat where "HCI_EVT_CMD_CMPL_OPCODE \<equiv> 3"
abbreviation (input) LOCAL_NAME_BUFFER_LEN :: nat where "LOCAL_NAME_BUFFER_LEN \<equiv> 32"
abbreviation (input) FW_PATCHFILE_PATH_MAXLEN :: nat where "FW_PATCHFILE_PATH_MAXLEN \<equiv> 248"

datatype hw_cfg_state =
    HW_CFG_IDLE | HW_CFG_START | HW_CFG_SET_UART_CLOCK | HW_CFG_SET_UART_BAUD_1
  | HW_CFG_READ_LOCAL_NAME | HW_CFG_DL_MINIDRIVER | HW_CFG_DL_FW_PATCH | HW_CFG_SET_UART_BAUD_2
  | HW_CFG_SET_BD_ADDR | HW_CFG_READ_BD_ADDR

record bt_hw_cfg_cb_t =
  hw_state :: hw_cfg_state
  fw_fd :: int
  f_set_baud_2 :: bool
  local_chip_name :: string

record bt_lpm_param_t =
  sleep_mode :: u8
  host_stack_idle_threshold :: u8
  host_controller_idle_threshold :: u8
  bt_wake_polarity :: u8
  host_wake_polarity :: u8
  allow_host_sleep_during_sco :: u8
  combine_sleep_mode_and_lpm :: u8
  enable_uart_txd_tri_state :: u8
  sleep_guard_time :: u8
  wakeup_guard_time :: u8
  txd_config :: u8
  pulsed_host_wake :: u8

definition lpm_param_bytes :: "bt_lpm_param_t \<Rightarrow> u8 list" where
  "lpm_param_bytes l =
     [sleep_mode l, host_stack_idle_threshold l, host_controller_idle_threshold l, bt_wake_polarity l,
      host_wake_polarity l, allow_host_sleep_during_sco l, combine_sleep_mode_and_lpm l,
      enable_uart_txd_tri_state l, sleep_guard_time l, wakeup_guard_time l, txd_config l,
      pulsed_host_wake l]"

record brcm_cfg = buildcfg +
  UART_TARGET_BAUD_RATE :: u32
  USE_CONTROLLER_BDADDR :: bool
  FW_PATCH_SETTLEMENT_DELAY_MS :: u32
  VENDOR_LIB_RUNTIME_TUNING_ENABLED :: bool
  LPM_IDLE_TIMEOUT_MULTIPLE :: u32
  SCO_CFG_INCLUDED :: bool
  SCO_USE_I2S_INTERFACE :: bool
  lpm_param :: bt_lpm_param_t
  bt_sco_param :: "u8 list"
  bt_pcm_data_fmt_param :: "u8 list"

record brcm_st = upio_st +
  hw_cfg_cb :: bt_hw_cfg_cb_t
  fw_patchfile_path :: string
  fw_patchfile_name :: string
  fw_patch_settlement_delay :: int
  vnd_local_bd_addr :: "u8 list"

definition lpm_param_init :: bt_lpm_param_t where
  "lpm_param_init = \<lparr>sleep_mode = 0, host_stack_idle_threshold = 1, host_controller_idle_threshold = 1,
     bt_wake_polarity = 1, host_wake_polarity = 1, allow_host_sleep_during_sco = 1,
     combine_sleep_mode_and_lpm = 1, enable_uart_txd_tri_state = 0, sleep_guard_time = 0,
     wakeup_guard_time = 0, txd_config = 0, pulsed_host_wake = 0\<rparr>"

text \<open>\<open>vnd_buildcfg.h\<close> over the defaults of \<open>bt_vendor_brcm.h\<close>.  The header defines
  \<open>SCO_USE_I2S_INTERFACE\<close> as \<open>true\<close>, which the preprocessor reads as the number 0 when no
  macro of that name is in force: the PCM side of the conditionals is compiled.\<close>

definition gs702a_brcm_cfg :: brcm_cfg where
  "gs702a_brcm_cfg = \<lparr>BT_WAKE_VIA_USERIAL_IOCTL = False, BT_WAKE_VIA_PROC = True,
     BLUETOOTH_UART_DEVICE_PORT = ''/dev/ttyS2'', UART_TARGET_BAUD_RATE = 1500000,
     USE_CONTROLLER_BDADDR = False, FW_PATCH_SETTLEMENT_DELAY_MS = 0,
     VENDOR_LIB_RUNTIME_TUNING_ENABLED = False, LPM_IDLE_TIMEOUT_MULTIPLE = 5,
     SCO_CFG_INCLUDED = True, SCO_USE_I2S_INTERFACE = False, lpm_param = lpm_param_init,
     bt_sco_param = [0, 4, 0, 0, 0], bt_pcm_data_fmt_param = [0, 0, 3, 3, 0]\<rparr>"

definition upd_hw :: "(bt_hw_cfg_cb_t \<Rightarrow> bt_hw_cfg_cb_t) \<Rightarrow> brcm_st \<Rightarrow> brcm_st" where
  "upd_hw f s = s\<lparr>hw_cfg_cb := f (hw_cfg_cb s)\<rparr>"

abbreviation set_hw_state :: "hw_cfg_state \<Rightarrow> brcm_st \<Rightarrow> brcm_st" where
  "set_hw_state st s \<equiv> upd_hw (\<lambda>h. h\<lparr>hw_state := st\<rparr>) s"

section \<open>Helpers\<close>

text \<open>The table of settlement delays ends with an entry without a name, the default.\<close>

definition fw_settlement_table :: "(string option \<times> u32) list" where
  "fw_settlement_table = [(Some ''BCM43241'', 200), (None, 100)]"

fun settlement_scan :: "string \<Rightarrow> (string option \<times> u32) list \<Rightarrow> u32" where
  "settlement_scan chip ((None, d) # es) = d"
| "settlement_scan chip ((Some n, d) # es) = (if strstr chip n \<noteq> None then d else settlement_scan chip es)"
| "settlement_scan chip [] = 0"

definition look_up_fw_settlement_delay :: "brcm_cfg \<Rightarrow> brcm_st \<Rightarrow> u32" where
  "look_up_fw_settlement_delay cfg s =
     (if FW_PATCH_SETTLEMENT_DELAY_MS cfg > 0 then FW_PATCH_SETTLEMENT_DELAY_MS cfg
      else if VENDOR_LIB_RUNTIME_TUNING_ENABLED cfg \<and> fw_patch_settlement_delay s \<ge> 0
      then of_int (fw_patch_settlement_delay s)
      else settlement_scan (local_chip_name (hw_cfg_cb s)) fw_settlement_table)"

definition ms_delay :: "u32 \<Rightarrow> 'a platform_scheme \<Rightarrow> 'a platform_scheme" where
  "ms_delay timeout s = (if timeout = 0 then s else log_call (Ms_delay timeout) s)"

definition line_speed_to_userial_baud :: "u32 \<Rightarrow> u8" where
  "line_speed_to_userial_baud line_speed =
     (if line_speed = 4000000 then USERIAL_BAUD_4M
      else if line_speed = 3000000 then USERIAL_BAUD_3M
      else if line_speed = 2000000 then USERIAL_BAUD_2M
      else if line_speed = 1500000 then USERIAL_BAUD_1_5M
      else if line_speed = 1000000 then USERIAL_BAUD_1M
      else if line_speed = 921600 then USERIAL_BAUD_921600
      else if line_speed = 460800 then USERIAL_BAUD_460800
      else if line_speed = 230400 then USERIAL_BAUD_230400
      else if line_speed = 115200 then USERIAL_BAUD_115200
      else if line_speed = 57600 then USERIAL_BAUD_57600
      else if line_speed = 19200 then USERIAL_BAUD_19200
      else if line_speed = 9600 then USERIAL_BAUD_9600
      else if line_speed = 1200 then USERIAL_BAUD_1200
      else if line_speed = 600 then USERIAL_BAUD_600
      else USERIAL_BAUD_115200)"

text \<open>A character of a C string, the terminating zero behind its end.\<close>

definition cchar :: "string \<Rightarrow> nat \<Rightarrow> char" where
  "cchar s i = (if i < length s then s ! i else char_of (0::nat))"

fun hw_strncmp_loop :: "string \<Rightarrow> string \<Rightarrow> nat \<Rightarrow> nat \<Rightarrow> nat" where
  "hw_strncmp_loop p1 p2 i 0 = 0"
| "hw_strncmp_loop p1 p2 i (Suc n) =
     (if char_toupper (cchar p1 i) \<noteq> char_toupper (cchar p2 i) then Suc i
      else hw_strncmp_loop p1 p2 (Suc i) n)"

definition hw_strncmp :: "string option \<Rightarrow> string option \<Rightarrow> nat \<Rightarrow> nat" where
  "hw_strncmp p1 p2 n = (case (p1, p2) of (Some a, Some b) \<Rightarrow> hw_strncmp_loop a b 0 n | _ \<Rightarrow> 1)"

section \<open>The firmware patch file\<close>

definition is_patch_file :: "string \<Rightarrow> string \<Rightarrow> bool" where
  "is_patch_file chip name =
     (hw_strncmp (Some name) (Some chip) (length chip) = 0 \<and> 4 \<le> length name
      \<and> hw_strncmp (Some (drop (length name - 4) name)) (Some ''.hcd'') 4 = 0)"

text \<open>Directory and file name joined; the directory is never empty.\<close>

definition join_path :: "string \<Rightarrow> string \<Rightarrow> string" where
  "join_path dir name = (if dir \<noteq> [] \<and> last dir = CHR ''/'' then dir else dir @ ''/'') @ name"

text \<open>The backward scan for a character that is no digit and no M, at least four characters
  into the name; on the reversed name.\<close>

fun strip_rev :: "string \<Rightarrow> string" where
  "strip_rev [] = []"
| "strip_rev (c # cs) =
     (if 3 < length (c # cs) \<and> (char_isdigit c \<or> c = CHR ''M'' \<or> c = CHR ''m'')
      then strip_rev cs else c # cs)"

lemma length_strip_rev: "length (strip_rev cs) \<le> length cs"
  by (induction cs) auto

lemma strip_rev_shorter: "3 < length (strip_rev (rev chip)) \<Longrightarrow> length (strip_rev (rev chip)) - Suc 0 < length chip"
  using length_strip_rev [of "rev chip"] by simp

text \<open>The result is the pair of the return value and the string left in the parameter.\<close>

function hw_config_findpatch_in :: "string \<Rightarrow> string \<Rightarrow> string list option \<Rightarrow> string \<Rightarrow> bool \<times> string" where
  "hw_config_findpatch_in path name dir chip =
     (if 0 < length name then (True, join_path path name)
      else case dir of
        None \<Rightarrow> (False, chip)
      | Some entries \<Rightarrow>
         (case find (is_patch_file chip) entries of
            Some f \<Rightarrow>
              (if length f + length path > FW_PATCHFILE_PATH_MAXLEN
               then (let r = strip_rev (rev chip) in
                     if 3 < length r then hw_config_findpatch_in path name dir (rev (tl r)) else (False, chip))
               else (True, join_path path f))
          | None \<Rightarrow>
              (let r = strip_rev (rev chip) in
               if 3 < length r then hw_config_findpatch_in path name dir (rev (tl r)) else (False, chip))))"
  by pat_completeness auto
termination
  by (relation "measure (\<lambda>(path, name, dir, chip). length chip)") (simp_all add: strip_rev_shorter)

declare hw_config_findpatch_in.simps [simp del]

definition hw_config_findpatch :: "brcm_st \<Rightarrow> string \<Rightarrow> bool \<times> string" where
  "hw_config_findpatch s p_chip_id_str =
     hw_config_findpatch_in (fw_patchfile_path s) (fw_patchfile_name s)
       (os_dir (os s) (fw_patchfile_path s)) p_chip_id_str"

section \<open>Commands of the configuration\<close>

definition hw_config_set_bdaddr :: "nat \<Rightarrow> hc_bt_hdr \<Rightarrow> brcm_st \<Rightarrow> u8 \<times> brcm_st" where
  "hw_config_set_bdaddr p p_buf s =
     vnd_xmit HCI_VSC_WRITE_BD_ADDR p
       (set_cmd (UINT16_TO_STREAM HCI_VSC_WRITE_BD_ADDR @ [6]
          @ [vnd_local_bd_addr s ! 5, vnd_local_bd_addr s ! 4, vnd_local_bd_addr s ! 3,
             vnd_local_bd_addr s ! 2, vnd_local_bd_addr s ! 1, vnd_local_bd_addr s ! 0]) p_buf)
       (set_hw_state HW_CFG_SET_BD_ADDR s)"

definition hw_config_read_bdaddr :: "nat \<Rightarrow> hc_bt_hdr \<Rightarrow> brcm_st \<Rightarrow> u8 \<times> brcm_st" where
  "hw_config_read_bdaddr p p_buf s =
     vnd_xmit HCI_READ_LOCAL_BDADDR p (set_cmd (UINT16_TO_STREAM HCI_READ_LOCAL_BDADDR @ [0]) p_buf)
       (set_hw_state HW_CFG_READ_BD_ADDR s)"

definition close_fw_fd :: "brcm_st \<Rightarrow> brcm_st" where
  "close_fw_fd s =
     (if fw_fd (hw_cfg_cb s) \<noteq> -1
      then upd_hw (\<lambda>h. h\<lparr>fw_fd := -1\<rparr>) (sys_close (fw_fd (hw_cfg_cb s)) s) else s)"

text \<open>\<open>case HW_CFG_SET_UART_CLOCK\<close>: the controller's new speed.\<close>

definition cfg_set_uart_clock :: "brcm_cfg \<Rightarrow> nat \<Rightarrow> hc_bt_hdr \<Rightarrow> brcm_st \<Rightarrow> u8 \<times> brcm_st" where
  "cfg_set_uart_clock cfg p p_buf s =
     vnd_xmit HCI_VSC_UPDATE_BAUDRATE p
       (set_cmd (UINT16_TO_STREAM HCI_VSC_UPDATE_BAUDRATE @ [6, 0, 0]
          @ UINT32_TO_STREAM (UART_TARGET_BAUD_RATE cfg)) p_buf)
       (set_hw_state (if f_set_baud_2 (hw_cfg_cb s) then HW_CFG_SET_UART_BAUD_2
                      else HW_CFG_SET_UART_BAUD_1) s)"

definition cfg_start :: "brcm_cfg \<Rightarrow> nat \<Rightarrow> hc_bt_hdr \<Rightarrow> brcm_st \<Rightarrow> u8 \<times> brcm_st" where
  "cfg_start cfg p p_buf s =
     (if UART_TARGET_BAUD_RATE cfg > 3000000 then
        vnd_xmit HCI_VSC_WRITE_UART_CLOCK_SETTING p
          (set_cmd (UINT16_TO_STREAM HCI_VSC_WRITE_UART_CLOCK_SETTING @ [1, 1]) p_buf)
          (set_hw_state HW_CFG_SET_UART_CLOCK s)
      else cfg_set_uart_clock cfg p p_buf s)"

definition cfg_set_uart_baud_1 :: "brcm_cfg \<Rightarrow> nat \<Rightarrow> hc_bt_hdr \<Rightarrow> brcm_st \<Rightarrow> u8 \<times> brcm_st" where
  "cfg_set_uart_baud_1 cfg p p_buf s =
     (let s = userial_vendor_set_baud (line_speed_to_userial_baud (UART_TARGET_BAUD_RATE cfg)) s in
      vnd_xmit HCI_READ_LOCAL_NAME p (set_cmd (UINT16_TO_STREAM HCI_READ_LOCAL_NAME @ [0]) p_buf)
        (set_hw_state HW_CFG_READ_LOCAL_NAME s))"

text \<open>The upper-casing loop runs on while the index is below 32 \<^emph>\<open>or\<close> the character is not
  zero; \<open>None\<close> when it leaves the buffer.\<close>

definition byte_toupper :: "u8 \<Rightarrow> u8" where
  "byte_toupper b = (if 97 \<le> b \<and> b \<le> 122 then b - 32 else b)"

fun name_toupper :: "nat \<Rightarrow> u8 list \<Rightarrow> u8 list option" where
  "name_toupper i [] = None"
| "name_toupper i (b # bs) =
     (if i < LOCAL_NAME_BUFFER_LEN \<or> b \<noteq> 0
      then map_option ((#) (byte_toupper b)) (name_toupper (Suc i) bs) else Some (b # bs))"

text \<open>The chip name found in the local name, and the string handed to the patch search.\<close>

definition chip_name :: "string \<Rightarrow> string \<times> string" where
  "chip_name p_tmp =
     (case strstr p_tmp ''BCM'' of
        Some p_name \<Rightarrow> (take (LOCAL_NAME_BUFFER_LEN - 1) p_name, p_name)
      | None \<Rightarrow> (''UNKNOWN'', p_tmp))"

text \<open>What follows once the chip name is known: look for the patch file, open it and switch the
  controller to download mode, or program the address at once.\<close>

definition cfg_open_patch :: "string \<Rightarrow> nat \<Rightarrow> hc_bt_hdr \<Rightarrow> brcm_st \<Rightarrow> u8 \<times> brcm_st" where
  "cfg_open_patch p_name p p_buf s =
     (let (found, path) = hw_config_findpatch s p_name;
          (is_proceeding, p_buf, s) =
            (if found then
               (let (fd, s) = sys_open path O_RDONLY s; s = upd_hw (\<lambda>h. h\<lparr>fw_fd := fd\<rparr>) s in
                if fd = -1 then (C_FALSE, p_buf, s)
                else
                  (let p_buf = set_cmd (UINT16_TO_STREAM HCI_VSC_DOWNLOAD_MINIDRV @ [0]) p_buf;
                       (r, s) = vnd_xmit HCI_VSC_DOWNLOAD_MINIDRV p p_buf (set_hw_state HW_CFG_DL_MINIDRIVER s)
                   in (r, p_buf, s)))
             else (C_FALSE, p_buf, s))
      in if is_proceeding = C_FALSE then hw_config_set_bdaddr p p_buf s else (is_proceeding, s))"

definition cfg_read_local_name ::
    "hci_event \<Rightarrow> nat \<Rightarrow> hc_bt_hdr \<Rightarrow> brcm_st \<Rightarrow> (u8 \<times> brcm_st) option" where
  "cfg_read_local_name e p p_buf s =
     (case name_toupper 0 (drop HCI_EVT_CMD_CMPL_LOCAL_NAME_STRING (evt_data e)) of
        None \<Rightarrow> None
      | Some area \<Rightarrow>
         (let (chip, p_name) = chip_name (cstring_of area);
              s = upd_hw (\<lambda>h. h\<lparr>local_chip_name := chip\<rparr>) s
          in Some (cfg_open_patch p_name p p_buf s)))"

text \<open>\<open>read\<close> returns \<open>-1\<close> on failure; stored in the 16 bit \<open>len\<close> it is 65535.\<close>

definition read_len :: "u8 list option \<Rightarrow> u16" where
  "read_len r = (case r of None \<Rightarrow> -1 | Some bs \<Rightarrow> of_nat (length bs))"

definition put_read :: "nat \<Rightarrow> u8 list option \<Rightarrow> u8 list \<Rightarrow> u8 list" where
  "put_read off r mem =
     (case r of None \<Rightarrow> mem | Some bs \<Rightarrow> take off mem @ put_bytes bs (drop off mem))"

text \<open>The end of the patch file: close it, go back to 115200 baud, wait for the firmware.\<close>

definition cfg_patch_done :: "brcm_cfg \<Rightarrow> nat \<Rightarrow> hc_bt_hdr \<Rightarrow> brcm_st \<Rightarrow> u8 \<times> brcm_st" where
  "cfg_patch_done cfg p p_buf s =
     (let s = upd_hw (\<lambda>h. h\<lparr>fw_fd := -1\<rparr>) (sys_close (fw_fd (hw_cfg_cb s)) s);
          s = userial_vendor_set_baud USERIAL_BAUD_115200 s;
          s = upd_hw (\<lambda>h. h\<lparr>f_set_baud_2 := True\<rparr>) s;
          s = ms_delay (look_up_fw_settlement_delay cfg s) s
      in cfg_start cfg p p_buf s)"

definition cfg_dl_fw_patch :: "brcm_cfg \<Rightarrow> u16 \<Rightarrow> nat \<Rightarrow> hc_bt_hdr \<Rightarrow> brcm_st \<Rightarrow> u8 \<times> brcm_st" where
  "cfg_dl_fw_patch cfg opcode p p_buf s =
     (let (r, s) = sys_read (fw_fd (hw_cfg_cb s)) 3 s;
          p_buf = p_buf\<lparr>hdr_len := read_len r, hdr_data := put_read 0 r (hdr_data p_buf)\<rparr>
      in if hdr_len p_buf > 0 \<and> \<not> (hdr_len p_buf < 3 \<or> opcode = HCI_VSC_LAUNCH_RAM) then
           (let (r, s) = sys_read (fw_fd (hw_cfg_cb s)) (unat (hdr_data p_buf ! 2)) s;
                p_buf = p_buf\<lparr>hdr_len := hdr_len p_buf + read_len r,
                               hdr_data := put_read 3 r (hdr_data p_buf)\<rparr>
            in vnd_xmit (STREAM_TO_UINT16 (hdr_data p_buf) 0) p p_buf s)
         else cfg_patch_done cfg p p_buf s)"

definition cfg_dl_minidriver :: "brcm_cfg \<Rightarrow> u16 \<Rightarrow> nat \<Rightarrow> hc_bt_hdr \<Rightarrow> brcm_st \<Rightarrow> u8 \<times> brcm_st" where
  "cfg_dl_minidriver cfg opcode p p_buf s =
     cfg_dl_fw_patch cfg opcode p p_buf (set_hw_state HW_CFG_DL_FW_PATCH (ms_delay 50 s))"

text \<open>\<open>case HW_CFG_SET_BD_ADDR\<close>: the configuration is complete.\<close>

definition cfg_set_bd_addr :: "nat \<Rightarrow> brcm_st \<Rightarrow> u8 \<times> brcm_st" where
  "cfg_set_bd_addr p s =
     (let s = vnd_notify (Fwcfg_cb BT_VND_OP_RESULT_SUCCESS) (vnd_dealloc p s);
          s = close_fw_fd (set_hw_state HW_CFG_IDLE s)
      in (C_TRUE, s))"

definition cfg_set_uart_baud_2 :: "brcm_cfg \<Rightarrow> nat \<Rightarrow> hc_bt_hdr \<Rightarrow> brcm_st \<Rightarrow> u8 \<times> brcm_st" where
  "cfg_set_uart_baud_2 cfg p p_buf s =
     (let s = userial_vendor_set_baud (line_speed_to_userial_baud (UART_TARGET_BAUD_RATE cfg)) s;
          (is_proceeding, s) =
            (if USE_CONTROLLER_BDADDR cfg then hw_config_read_bdaddr p p_buf s
             else hw_config_set_bdaddr p p_buf s)
      in if is_proceeding = C_TRUE then (is_proceeding, s) else cfg_set_bd_addr p s)"

definition cfg_read_bd_addr :: "hci_event \<Rightarrow> nat \<Rightarrow> hc_bt_hdr \<Rightarrow> brcm_st \<Rightarrow> u8 \<times> brcm_st" where
  "cfg_read_bd_addr e p p_buf s =
     (if take 6 (drop HCI_EVT_CMD_CMPL_LOCAL_BDADDR_ARRAY (evt_data e)) = replicate 6 0 then
        (let (is_proceeding, s) = hw_config_set_bdaddr p p_buf s in
         if is_proceeding = C_TRUE then (is_proceeding, s) else cfg_set_bd_addr p s)
      else cfg_set_bd_addr p s)"

section \<open>The callback\<close>

definition hw_config_switch ::
    "brcm_cfg \<Rightarrow> hci_event \<Rightarrow> u16 \<Rightarrow> nat \<Rightarrow> hc_bt_hdr \<Rightarrow> brcm_st \<Rightarrow> (u8 \<times> brcm_st) option" where
  "hw_config_switch cfg e opcode p p_buf s =
     (case hw_state (hw_cfg_cb s) of
        HW_CFG_SET_UART_BAUD_1 \<Rightarrow> Some (cfg_set_uart_baud_1 cfg p p_buf s)
      | HW_CFG_READ_LOCAL_NAME \<Rightarrow> cfg_read_local_name e p p_buf s
      | HW_CFG_DL_MINIDRIVER \<Rightarrow> Some (cfg_dl_minidriver cfg opcode p p_buf s)
      | HW_CFG_DL_FW_PATCH \<Rightarrow> Some (cfg_dl_fw_patch cfg opcode p p_buf s)
      | HW_CFG_START \<Rightarrow> Some (cfg_start cfg p p_buf s)
      | HW_CFG_SET_UART_CLOCK \<Rightarrow> Some (cfg_set_uart_clock cfg p p_buf s)
      | HW_CFG_SET_UART_BAUD_2 \<Rightarrow> Some (cfg_set_uart_baud_2 cfg p p_buf s)
      | HW_CFG_SET_BD_ADDR \<Rightarrow> Some (cfg_set_bd_addr p s)
      | HW_CFG_READ_BD_ADDR \<Rightarrow>
          (if USE_CONTROLLER_BDADDR cfg then Some (cfg_read_bd_addr e p p_buf s) else Some (C_FALSE, s))
      | HW_CFG_IDLE \<Rightarrow> Some (C_FALSE, s))"

text \<open>The abort at the end of the handler: free the command buffer, report the failure, close
  the patch file, forget the state.\<close>

definition hw_config_abort :: "nat option \<Rightarrow> brcm_st \<Rightarrow> brcm_st" where
  "hw_config_abort p s =
     (let s = (case p of None \<Rightarrow> s | Some a \<Rightarrow> vnd_dealloc a s);
          s = vnd_notify (Fwcfg_cb BT_VND_OP_RESULT_FAIL) s
      in set_hw_state HW_CFG_IDLE (close_fw_fd s))"

definition hw_config_cback :: "brcm_cfg \<Rightarrow> hci_event \<Rightarrow> brcm_st \<Rightarrow> brcm_st option" where
  "hw_config_cback cfg e s =
     (let status = evt_data e ! HCI_EVT_CMD_CMPL_STATUS_RET_BYTE;
          opcode = STREAM_TO_UINT16 (evt_data e) HCI_EVT_CMD_CMPL_OPCODE;
          (buf, s) = (if status = 0 then vnd_alloc HCI_CMD_MAX_LEN s else (None, s))
      in case (case buf of
                 None \<Rightarrow> Some (C_FALSE, s)
               | Some (p, mem) \<Rightarrow> hw_config_switch cfg e opcode p (fresh_cmd mem) s) of
           None \<Rightarrow> None
         | Some (is_proceeding, s) \<Rightarrow>
            (let s = vnd_dealloc (evt_addr e) s in
             Some (if is_proceeding = C_FALSE then hw_config_abort (map_option fst buf) s else s)))"

definition hw_config_start :: "brcm_st \<Rightarrow> brcm_st" where
  "hw_config_start s =
     (let s = upd_hw (\<lambda>h. h\<lparr>hw_state := HW_CFG_IDLE, fw_fd := -1, f_set_baud_2 := False\<rparr>) s;
          (buf, s) = vnd_alloc 3 s
      in case buf of
           Some (p, mem) \<Rightarrow>
             snd (vnd_xmit HCI_RESET p (set_cmd (UINT16_TO_STREAM HCI_RESET @ [0]) (fresh_cmd mem))
                    (set_hw_state HW_CFG_START s))
         | None \<Rightarrow> vnd_notify (Fwcfg_cb BT_VND_OP_RESULT_FAIL) s)"

section \<open>Low power mode and SCO\<close>

definition hw_lpm_ctrl_cback :: "hci_event \<Rightarrow> brcm_st \<Rightarrow> brcm_st" where
  "hw_lpm_ctrl_cback e s =
     (let status = (if evt_data e ! HCI_EVT_CMD_CMPL_STATUS_RET_BYTE = 0
                    then BT_VND_OP_RESULT_SUCCESS else BT_VND_OP_RESULT_FAIL)
      in vnd_dealloc (evt_addr e) (vnd_notify (Lpm_cb status) s))"

definition hw_lpm_enable :: "brcm_cfg \<Rightarrow> u8 \<Rightarrow> brcm_st \<Rightarrow> u8 \<times> brcm_st" where
  "hw_lpm_enable cfg turn_on s =
     (let (buf, s) = vnd_alloc (3 + 12) s;
          (ret, s) =
            (case buf of
               None \<Rightarrow> (C_FALSE, s)
             | Some (p, mem) \<Rightarrow>
                (let p_buf = set_cmd (UINT16_TO_STREAM HCI_VSC_WRITE_SLEEP_MODE @ [12]
                       @ (if turn_on \<noteq> 0 then lpm_param_bytes (lpm_param cfg) else replicate 12 0))
                       (fresh_cmd mem);
                     s = upio_set cfg UPIO_LPM_MODE (if turn_on \<noteq> 0 then UPIO_ASSERT else UPIO_DEASSERT) 0 s;
                     (ret, s) = vnd_xmit HCI_VSC_WRITE_SLEEP_MODE p p_buf s
                 in (ret, if ret = C_FALSE then vnd_dealloc p s else s)))
      in (ret, if ret = C_FALSE then vnd_notify (Lpm_cb BT_VND_OP_RESULT_FAIL) s else s))"

definition hw_lpm_get_idle_timeout :: "brcm_cfg \<Rightarrow> brcm_st \<Rightarrow> u32" where
  "hw_lpm_get_idle_timeout cfg s =
     (let timeout_ms = ucast (host_stack_idle_threshold (lpm_param cfg)) * LPM_IDLE_TIMEOUT_MULTIPLE cfg
      in if strstr (local_chip_name (hw_cfg_cb s)) ''BCM4325'' \<noteq> None then timeout_ms * 25
         else timeout_ms * 300)"

definition hw_lpm_set_wake_state :: "brcm_cfg \<Rightarrow> bool \<Rightarrow> brcm_st \<Rightarrow> brcm_st" where
  "hw_lpm_set_wake_state cfg wake_assert s =
     upio_set cfg UPIO_BT_WAKE (if wake_assert then UPIO_ASSERT else UPIO_DEASSERT)
       (bt_wake_polarity (lpm_param cfg)) s"

definition hw_sco_cfg_cback :: "brcm_cfg \<Rightarrow> hci_event \<Rightarrow> brcm_st \<Rightarrow> brcm_st" where
  "hw_sco_cfg_cback cfg e s =
     (let opcode = STREAM_TO_UINT16 (evt_data e) HCI_EVT_CMD_CMPL_OPCODE;
          s = vnd_dealloc (evt_addr e) s;
          (sent, s) =
            (if \<not> SCO_USE_I2S_INTERFACE cfg \<and> opcode = HCI_VSC_WRITE_SCO_PCM_INT_PARAM then
               (let (buf, s) = vnd_alloc (3 + 5) s in
                case buf of
                  None \<Rightarrow> (C_FALSE, s)
                | Some (p, mem) \<Rightarrow>
                    (let p_buf = set_cmd (UINT16_TO_STREAM HCI_VSC_WRITE_PCM_DATA_FORMAT_PARAM @ [5]
                           @ bt_pcm_data_fmt_param cfg) (fresh_cmd mem);
                         (ret, s) = vnd_xmit HCI_VSC_WRITE_PCM_DATA_FORMAT_PARAM p p_buf s
                     in (ret, if ret = C_FALSE then vnd_dealloc p s else s)))
             else (C_FALSE, s))
      in if sent \<noteq> C_FALSE then s else vnd_notify (Scocfg_cb BT_VND_OP_RESULT_SUCCESS) s)"

definition hw_sco_config :: "brcm_cfg \<Rightarrow> brcm_st \<Rightarrow> brcm_st" where
  "hw_sco_config cfg s =
     (let size = (if SCO_USE_I2S_INTERFACE cfg then 4 else 5);
          cmd = (if SCO_USE_I2S_INTERFACE cfg then HCI_VSC_WRITE_I2SPCM_INTERFACE_PARAM
                 else HCI_VSC_WRITE_SCO_PCM_INT_PARAM);
          (buf, s) = vnd_alloc (3 + size) s;
          (sent, s) =
            (case buf of
               None \<Rightarrow> (C_FALSE, s)
             | Some (p, mem) \<Rightarrow>
                (let p_buf = set_cmd (UINT16_TO_STREAM cmd @ [of_nat size] @ take size (bt_sco_param cfg))
                       (fresh_cmd mem);
                     (ret, s) = vnd_xmit cmd p p_buf s
                 in (ret, if ret = C_FALSE then vnd_dealloc p s else s)))
      in if sent \<noteq> C_FALSE then s else vnd_notify (Scocfg_cb BT_VND_OP_RESULT_FAIL) s)"

section \<open>Run-time configuration\<close>

text \<open>\<open>strcpy\<close> into char arrays of 256 and 128 bytes.\<close>

definition hw_set_patch_file_path :: "string \<Rightarrow> brcm_st \<Rightarrow> brcm_st option" where
  "hw_set_patch_file_path v s = map_option (\<lambda>v. s\<lparr>fw_patchfile_path := v\<rparr>) (strcpy_into 256 v)"

definition hw_set_patch_file_name :: "string \<Rightarrow> brcm_st \<Rightarrow> brcm_st option" where
  "hw_set_patch_file_name v s = map_option (\<lambda>v. s\<lparr>fw_patchfile_name := v\<rparr>) (strcpy_into 128 v)"

definition hw_set_patch_settlement_delay :: "string \<Rightarrow> brcm_st \<Rightarrow> brcm_st option" where
  "hw_set_patch_settlement_delay v s = Some (s\<lparr>fw_patch_settlement_delay := atoi v\<rparr>)"

section \<open>Vocabulary of the properties\<close>

text \<open>The number of descriptors the configuration block holds.\<close>

definition fd_count :: "brcm_st \<Rightarrow> int" where
  "fd_count s = (if fw_fd (hw_cfg_cb s) = -1 then 0 else 1)"

text \<open>The patch file is open in the download states, and possibly while the address is
  written (when the controller could not be switched to download mode).\<close>

definition cfg_inv :: "brcm_st \<Rightarrow> bool" where
  "cfg_inv s \<longleftrightarrow>
     (let st = hw_state (hw_cfg_cb s); fd = fw_fd (hw_cfg_cb s) in
      if st = HW_CFG_DL_MINIDRIVER \<or> st = HW_CFG_DL_FW_PATCH then fd \<noteq> -1
      else st = HW_CFG_SET_BD_ADDR \<or> fd = -1)"

text \<open>\<open>open\<close> returns a descriptor or \<open>-1\<close>.\<close>

definition open_ok :: "os_env \<Rightarrow> bool" where
  "open_ok e \<longleftrightarrow> (\<forall>h p m. os_open e h p m \<ge> -1)"

text \<open>A step that keeps every buffer, reports nothing and accounts for its descriptors.\<close>

definition silent :: "brcm_st \<Rightarrow> brcm_st \<Rightarrow> bool" where
  "silent s t \<longleftrightarrow> bt_vendor_cbacks t = bt_vendor_cbacks s \<and> os t = os s \<and>
     (\<exists>new. calls t = calls s @ new \<and> (\<forall>a. net new a = 0) \<and> fwcfg_results new = []
        \<and> open_fds new = fd_count t - fd_count s)"

text \<open>What every case of the handler guarantees about the command buffer \<open>p\<close>: it is given away
  exactly when the case proceeds, the only report is the final success, the descriptors are
  accounted for.\<close>

definition cfg_post :: "nat \<Rightarrow> brcm_st \<Rightarrow> u8 \<times> brcm_st \<Rightarrow> bool" where
  "cfg_post p s rt \<longleftrightarrow>
     (fst rt = C_FALSE \<or> fst rt = C_TRUE \<and> cfg_inv (snd rt))
     \<and> bt_vendor_cbacks (snd rt) = bt_vendor_cbacks s \<and> os (snd rt) = os s
     \<and> (\<exists>new. calls (snd rt) = calls s @ new
          \<and> (\<forall>a. net new a = (if fst rt = C_TRUE \<and> a = p then -1 else 0))
          \<and> fwcfg_results new = (if fst rt = C_TRUE \<and> hw_state (hw_cfg_cb (snd rt)) = HW_CFG_IDLE
                                 then [BT_VND_OP_RESULT_SUCCESS] else [])
          \<and> open_fds new = fd_count (snd rt) - fd_count s)"

section \<open>Facts\<close>

named_theorems silent_intros \<open>steps that keep every buffer\<close>
named_theorems post_intros \<open>what the cases of the handler guarantee\<close>

lemmas hw_simps = upd_hw_def fd_count_def

subsection \<open>Frames and accounting\<close>

lemma silent_post: "silent s t \<Longrightarrow> cfg_post p t rt \<Longrightarrow> cfg_post p s rt"
proof -
  assume st: "silent s t" and post: "cfg_post p t rt"
  from st obtain new1 where new1: "calls t = calls s @ new1" "\<And>a. net new1 a = 0" "fwcfg_results new1 = []"
    "open_fds new1 = fd_count t - fd_count s" by (auto simp: silent_def)
  from post obtain new2 where new2: "calls (snd rt) = calls t @ new2"
    "\<And>a. net new2 a = (if fst rt = C_TRUE \<and> a = p then -1 else 0)"
    "fwcfg_results new2 = (if fst rt = C_TRUE \<and> hw_state (hw_cfg_cb (snd rt)) = HW_CFG_IDLE
                           then [BT_VND_OP_RESULT_SUCCESS] else [])"
    "open_fds new2 = fd_count (snd rt) - fd_count t" unfolding cfg_post_def by blast
  show ?thesis unfolding cfg_post_def
  proof (intro conjI exI [of _ "new1 @ new2"])
    show "fst rt = C_FALSE \<or> fst rt = C_TRUE \<and> cfg_inv (snd rt)" using post unfolding cfg_post_def by blast
    show "bt_vendor_cbacks (snd rt) = bt_vendor_cbacks s" "os (snd rt) = os s"
      using st post by (simp_all add: silent_def cfg_post_def)
  qed (simp_all add: new1 new2)
qed

lemma silent_trans: "silent s t \<Longrightarrow> silent t u \<Longrightarrow> silent s u"
proof -
  assume st: "silent s t" and tu: "silent t u"
  from st obtain new1 where new1: "calls t = calls s @ new1" "\<And>a. net new1 a = 0" "fwcfg_results new1 = []"
    "open_fds new1 = fd_count t - fd_count s" by (auto simp: silent_def)
  from tu obtain new2 where new2: "calls u = calls t @ new2" "\<And>a. net new2 a = 0" "fwcfg_results new2 = []"
    "open_fds new2 = fd_count u - fd_count t" by (auto simp: silent_def)
  have "calls u = calls s @ (new1 @ new2)" "\<forall>a. net (new1 @ new2) a = 0" "fwcfg_results (new1 @ new2) = []"
    "open_fds (new1 @ new2) = fd_count u - fd_count s" by (simp_all add: new1 new2)
  moreover have "bt_vendor_cbacks u = bt_vendor_cbacks s" "os u = os s" using st tu by (simp_all add: silent_def)
  ultimately show ?thesis unfolding silent_def by blast
qed

lemma post_FALSE_silent: "cfg_post p s (C_FALSE, t) \<Longrightarrow> silent s t"
  by (auto simp: cfg_post_def silent_def)

lemma silent_upd_hw [silent_intros]:
  "(fw_fd (f (hw_cfg_cb s)) = fw_fd (hw_cfg_cb s)) \<Longrightarrow> silent s (upd_hw f s)"
  by (simp add: silent_def hw_simps)

lemma set_baud_hw [simp]:
  "hw_cfg_cb (userial_vendor_set_baud b s) = hw_cfg_cb s"
  "vnd_local_bd_addr (userial_vendor_set_baud b s) = vnd_local_bd_addr s"
  by (simp_all add: userial_vendor_set_baud_def userial_defs Let_def split: prod.splits)

lemma silent_set_baud [silent_intros]: "silent s (userial_vendor_set_baud b s)"
  by (simp add: silent_def set_baud_calls hw_simps)

lemma silent_ms_delay [silent_intros]: "silent s (ms_delay n s)"
  by (simp add: silent_def ms_delay_def hw_simps)

lemma silent_read [silent_intros]: "silent s (snd (sys_read fd n s))"
  by (simp add: silent_def sys_read_def hw_simps Let_def)

lemma silent_keeps:
  "silent s t \<Longrightarrow> bt_vendor_cbacks t = bt_vendor_cbacks s"
  "silent s t \<Longrightarrow> cbacks_ok s \<Longrightarrow> cbacks_ok t"
  by (auto simp: silent_def cbacks_ok_def)

lemma post_xmit:
  assumes "cbacks_ok s" and "cfg_inv s" and "hw_state (hw_cfg_cb s) \<noteq> HW_CFG_IDLE"
  shows "cfg_post p s (vnd_xmit op p b s)"
proof -
  from cbacks_ok_Some [OF assms(1)] obtain cb where cb: "bt_vendor_cbacks s = Some cb" "xmit_bool cb"
    by blast
  let ?r = "cb_xmit cb (calls s) op b"
  have "?r = C_FALSE \<or> ?r = C_TRUE" using cb(2) by (simp add: xmit_bool_def)
  then show ?thesis
    using assms(2,3) cb(1) by (auto simp: cfg_post_def vnd_xmit_def fd_count_def cfg_inv_def Let_def)
qed

lemma post_xmit_in_state [post_intros]:
  assumes "cbacks_ok s" and "cfg_inv (set_hw_state st s)" and "st \<noteq> HW_CFG_IDLE"
  shows "cfg_post p s (vnd_xmit op p b (set_hw_state st s))"
  by (rule silent_post [OF silent_upd_hw post_xmit])
    (use assms in \<open>simp_all add: cbacks_ok_def upd_hw_def\<close>)

lemma post_set_bdaddr [post_intros]: "cbacks_ok s \<Longrightarrow> cfg_post p s (hw_config_set_bdaddr p b s)"
  unfolding hw_config_set_bdaddr_def by (rule post_xmit_in_state) (auto simp: cfg_inv_def upd_hw_def)

lemma post_read_bdaddr [post_intros]:
  "cbacks_ok s \<Longrightarrow> fw_fd (hw_cfg_cb s) = -1 \<Longrightarrow> cfg_post p s (hw_config_read_bdaddr p b s)"
  unfolding hw_config_read_bdaddr_def by (rule post_xmit_in_state) (auto simp: cfg_inv_def upd_hw_def)

lemma post_set_uart_clock [post_intros]:
  "cbacks_ok s \<Longrightarrow> fw_fd (hw_cfg_cb s) = -1 \<Longrightarrow> cfg_post p s (cfg_set_uart_clock cfg p b s)"
  unfolding cfg_set_uart_clock_def by (rule post_xmit_in_state) (auto simp: cfg_inv_def upd_hw_def Let_def)

lemma post_start [post_intros]:
  "cbacks_ok s \<Longrightarrow> fw_fd (hw_cfg_cb s) = -1 \<Longrightarrow> cfg_post p s (cfg_start cfg p b s)"
  unfolding cfg_start_def
  by (cases "UART_TARGET_BAUD_RATE cfg > 3000000"; simp only: if_True if_False)
    (rule post_xmit_in_state post_set_uart_clock; simp add: cfg_inv_def upd_hw_def)+

lemma post_set_uart_baud_1 [post_intros]:
  "cbacks_ok s \<Longrightarrow> fw_fd (hw_cfg_cb s) = -1 \<Longrightarrow> cfg_post p s (cfg_set_uart_baud_1 cfg p b s)"
  unfolding cfg_set_uart_baud_1_def Let_def
  by (rule silent_post [OF silent_set_baud post_xmit_in_state]) (auto simp: cbacks_ok_def cfg_inv_def upd_hw_def)

lemma post_set_bd_addr [post_intros]: "cbacks_ok s \<Longrightarrow> cfg_post p s (cfg_set_bd_addr p s)"
  by (auto simp: cfg_post_def cfg_set_bd_addr_def close_fw_fd_def sys_close_def vnd_notify_def vnd_dealloc_def
      cfg_inv_def hw_simps Let_def cbacks_ok_def split: option.splits)

lemma post_or_set_bd_addr:
  assumes "cbacks_ok s" and "cfg_post p s (r, t)"
  shows "cfg_post p s (if r = C_TRUE then (r, t) else cfg_set_bd_addr p t)"
proof (cases "r = C_TRUE")
  case False
  with assms(2) have "r = C_FALSE" by (simp add: cfg_post_def)
  with assms(2) have st: "silent s t" by (auto intro: post_FALSE_silent)
  from silent_post [OF st post_set_bd_addr [OF silent_keeps(2) [OF st assms(1)]]]
  show ?thesis using False by simp
qed (use assms in simp)

lemma post_set_uart_baud_2 [post_intros]:
  assumes "cbacks_ok s" and "fw_fd (hw_cfg_cb s) = -1"
  shows "cfg_post p s (cfg_set_uart_baud_2 cfg p b s)"
proof -
  let ?s = "userial_vendor_set_baud (line_speed_to_userial_baud (UART_TARGET_BAUD_RATE cfg)) s"
  let ?rt = "if USE_CONTROLLER_BDADDR cfg then hw_config_read_bdaddr p b ?s else hw_config_set_bdaddr p b ?s"
  have ok: "cbacks_ok ?s" using assms(1) by (simp add: cbacks_ok_def)
  then have "cfg_post p ?s ?rt" using assms(2) by (auto intro: post_intros)
  then have "cfg_post p ?s (fst ?rt, snd ?rt)" by simp
  from silent_post [OF silent_set_baud post_or_set_bd_addr [OF ok this]]
  show ?thesis unfolding cfg_set_uart_baud_2_def Let_def split_beta .
qed

lemma post_read_bd_addr [post_intros]:
  "cbacks_ok s \<Longrightarrow> cfg_post p s (cfg_read_bd_addr e p b s)"
proof -
  assume ok: "cbacks_ok s"
  have "cfg_post p s (fst (hw_config_set_bdaddr p b s), snd (hw_config_set_bdaddr p b s))"
    using post_set_bdaddr [OF ok] by simp
  from post_or_set_bd_addr [OF ok this] post_set_bd_addr [OF ok, of p]
  show ?thesis unfolding cfg_read_bd_addr_def Let_def split_beta by (simp only: split: if_split) blast
qed

lemma post_patch_done [post_intros]:
  assumes "cbacks_ok s" and "fw_fd (hw_cfg_cb s) \<noteq> -1"
  shows "cfg_post p s (cfg_patch_done cfg p b s)"
proof -
  let ?a = "upd_hw (\<lambda>h. h\<lparr>fw_fd := -1\<rparr>) (sys_close (fw_fd (hw_cfg_cb s)) s)"
  let ?b = "userial_vendor_set_baud USERIAL_BAUD_115200 ?a"
  let ?c = "upd_hw (\<lambda>h. h\<lparr>f_set_baud_2 := True\<rparr>) ?b"
  let ?d = "ms_delay (look_up_fw_settlement_delay cfg ?c) ?c"
  have "silent s ?a" using assms(2) by (simp add: silent_def sys_close_def hw_simps)
  moreover have "silent ?a ?b" "silent ?b ?c" "silent ?c ?d"
    by (rule silent_intros; simp)+
  ultimately have "silent s ?d" by (blast intro: silent_trans)
  moreover have "fw_fd (hw_cfg_cb ?d) = -1" by (simp add: ms_delay_def upd_hw_def)
  ultimately show ?thesis
    unfolding cfg_patch_done_def Let_def using assms(1)
    by (blast intro: silent_post post_start silent_keeps(2))
qed

lemma sys_read_hw [simp]: "hw_cfg_cb (snd (sys_read fd n s)) = hw_cfg_cb s"
  "vnd_local_bd_addr (snd (sys_read fd n s)) = vnd_local_bd_addr s"
  by (simp_all add: sys_read_def Let_def)

lemma post_dl_fw_patch [post_intros]:
  assumes "cbacks_ok s" and "fw_fd (hw_cfg_cb s) \<noteq> -1" and "hw_state (hw_cfg_cb s) = HW_CFG_DL_FW_PATCH"
  shows "cfg_post p s (cfg_dl_fw_patch cfg opcode p b s)"
proof -
  let ?fd = "fw_fd (hw_cfg_cb s)"
  let ?a = "snd (sys_read ?fd 3 s)"
  have a: "silent s ?a" by (rule silent_read)
  have post: "cfg_post p s (vnd_xmit op p c (snd (sys_read ?fd n ?a)))" for op c n
    by (rule silent_post [OF silent_trans [OF a silent_read] post_xmit])
      (use assms in \<open>auto simp: cfg_inv_def intro: silent_keeps(2) [OF silent_trans [OF a silent_read]]\<close>)
  have "cfg_post p s (cfg_patch_done cfg p c ?a)" for c
    by (rule silent_post [OF a post_patch_done]) (use assms in \<open>auto intro: silent_keeps(2) [OF a]\<close>)
  with post show ?thesis by (simp add: cfg_dl_fw_patch_def Let_def split_beta)
qed

lemma post_dl_minidriver [post_intros]:
  assumes "cbacks_ok s" and "fw_fd (hw_cfg_cb s) \<noteq> -1"
  shows "cfg_post p s (cfg_dl_minidriver cfg opcode p b s)"
proof -
  let ?t = "set_hw_state HW_CFG_DL_FW_PATCH (ms_delay 50 s)"
  have t: "silent s ?t" by (rule silent_trans [OF silent_ms_delay silent_upd_hw]) simp
  show ?thesis unfolding cfg_dl_minidriver_def
    by (rule silent_post [OF t post_dl_fw_patch])
      (use assms silent_keeps(2) [OF t] in \<open>simp_all add: upd_hw_def ms_delay_def\<close>)
qed

lemma post_or_set_bdaddr:
  assumes "cbacks_ok s" and "cfg_post p s (r, t)"
  shows "cfg_post p s (if r = C_FALSE then hw_config_set_bdaddr p b t else (r, t))"
proof (cases "r = C_FALSE")
  case True
  with assms(2) have st: "silent s t" by (auto intro: post_FALSE_silent)
  from silent_post [OF st post_set_bdaddr [OF silent_keeps(2) [OF st assms(1)]]]
  show ?thesis using True by simp
qed (use assms in simp)

lemma post_open_patch [post_intros]:
  assumes "cbacks_ok s" and "fw_fd (hw_cfg_cb s) = -1" and "open_ok (os s)"
  shows "cfg_post p s (cfg_open_patch n p b s)"
proof -
  let ?path = "snd (hw_config_findpatch s n)"
  let ?fd = "fst (sys_open ?path O_RDONLY s)"
  let ?t = "upd_hw (\<lambda>h. h\<lparr>fw_fd := ?fd\<rparr>) (snd (sys_open ?path O_RDONLY s))"
  let ?cmd = "set_cmd (UINT16_TO_STREAM HCI_VSC_DOWNLOAD_MINIDRV @ [0]) b"
  let ?x = "vnd_xmit HCI_VSC_DOWNLOAD_MINIDRV p ?cmd (set_hw_state HW_CFG_DL_MINIDRIVER ?t)"
  have fd: "?fd \<ge> -1" using assms(3) by (simp add: sys_open_def open_ok_def Let_def)
  have t: "silent s ?t" using assms(2) fd
    by (auto simp: silent_def sys_open_def hw_simps Let_def)
  have ok: "cbacks_ok ?t" by (rule silent_keeps(2) [OF t assms(1)])
  have x: "cfg_post p ?t ?x" if "?fd \<noteq> -1"
    by (rule post_xmit_in_state [OF ok]) (use that in \<open>simp_all add: cfg_inv_def upd_hw_def\<close>)
  show ?thesis
  proof (cases "fst (hw_config_findpatch s n)")
    case True
    show ?thesis
    proof (cases "?fd = -1")
      case fd: True
      show ?thesis using True fd silent_post [OF t post_set_bdaddr [OF ok, of p b]]
        by (simp add: cfg_open_patch_def Let_def split_beta)
    next
      case False
      from x [OF False] have "cfg_post p ?t (fst ?x, snd ?x)" by simp
      from silent_post [OF t post_or_set_bdaddr [OF ok this, of ?cmd]] show ?thesis
        using True False unfolding cfg_open_patch_def Let_def split_beta
        by (simp only: if_True if_False fst_conv snd_conv)
    qed
  next
    case False
    then show ?thesis using post_set_bdaddr [OF assms(1), of p b]
      by (simp add: cfg_open_patch_def Let_def split_beta)
  qed
qed

lemma post_read_local_name:
  assumes "cbacks_ok s" and "fw_fd (hw_cfg_cb s) = -1" and "open_ok (os s)"
    and "cfg_read_local_name e p b s = Some rt"
  shows "cfg_post p s rt"
proof -
  from assms(4) obtain chip n where rt: "rt = cfg_open_patch n p b (upd_hw (\<lambda>h. h\<lparr>local_chip_name := chip\<rparr>) s)"
    by (auto simp: cfg_read_local_name_def Let_def split_beta split: option.splits)
  have st: "silent s (upd_hw (\<lambda>h. h\<lparr>local_chip_name := chip\<rparr>) s)" by (rule silent_upd_hw) simp
  show ?thesis unfolding rt
    by (rule silent_post [OF st post_open_patch])
      (use assms silent_keeps(2) [OF st] in \<open>simp_all add: upd_hw_def\<close>)
qed

lemma post_switch:
  assumes "cbacks_ok s" and "cfg_inv s" and "open_ok (os s)"
    and "hw_config_switch cfg e opcode p b s = Some rt"
  shows "cfg_post p s rt"
proof -
  have same: "cfg_post p s (C_FALSE, s)" by (simp add: cfg_post_def)
  show ?thesis
    using assms by (cases "hw_state (hw_cfg_cb s)")
      (auto simp: hw_config_switch_def cfg_inv_def same split: if_splits intro: post_intros post_read_local_name)
qed

lemma silent_refl: "silent s s"
  by (simp add: silent_def)

lemma abort_spec:
  assumes "bt_vendor_cbacks s \<noteq> None"
  shows "\<exists>new. calls (hw_config_abort p s) = calls s @ new
      \<and> (\<forall>a. net new a = (if p = Some a then -1 else 0)) \<and> fwcfg_results new = [BT_VND_OP_RESULT_FAIL]
      \<and> open_fds new = - fd_count s"
    and "hw_state (hw_cfg_cb (hw_config_abort p s)) = HW_CFG_IDLE" "fw_fd (hw_cfg_cb (hw_config_abort p s)) = -1"
    "bt_vendor_cbacks (hw_config_abort p s) = bt_vendor_cbacks s" "os (hw_config_abort p s) = os s"
  using assms by (auto simp: hw_config_abort_def vnd_dealloc_def vnd_notify_def close_fw_fd_def sys_close_def
      hw_simps Let_def split: option.splits)

text \<open>What one call of the handler guarantees.\<close>

definition cback_post :: "hci_event \<Rightarrow> brcm_st \<Rightarrow> brcm_st \<Rightarrow> bool" where
  "cback_post e s t \<longleftrightarrow> cfg_inv t \<and> bt_vendor_cbacks t = bt_vendor_cbacks s \<and> os t = os s \<and>
     (\<exists>new. calls t = calls s @ new \<and> (\<forall>a. net new a = (if a = evt_addr e then -1 else 0))
        \<and> (if hw_state (hw_cfg_cb t) = HW_CFG_IDLE then \<exists>r. fwcfg_results new = [r] else fwcfg_results new = [])
        \<and> open_fds new = fd_count t - fd_count s)"

lemma cback_finish:
  assumes "bt_vendor_cbacks s \<noteq> None" and "(r = C_FALSE \<and> b = None \<and> t = s) \<or> (\<exists>p. b = Some p \<and> cfg_post p s1 (r, t)
      \<and> s1 = s\<lparr>calls := calls s @ [Alloc n (Some p)]\<rparr>)"
  shows "cback_post e s (let u = vnd_dealloc (evt_addr e) t in if r = C_FALSE then hw_config_abort b u else u)"
proof -
  let ?u = "vnd_dealloc (evt_addr e) t"
  obtain new where new: "calls t = calls s @ new"
      "\<And>a. net new a = (if r = C_FALSE \<and> b = Some a then 1 else 0)"
      "fwcfg_results new = (if r = C_TRUE \<and> hw_state (hw_cfg_cb t) = HW_CFG_IDLE then [BT_VND_OP_RESULT_SUCCESS] else [])"
      "open_fds new = fd_count t - fd_count s"
    and t: "bt_vendor_cbacks t = bt_vendor_cbacks s" "os t = os s" "r = C_FALSE \<or> r = C_TRUE \<and> cfg_inv t"
    using assms(2)
  proof (elim disjE conjE exE)
    fix p assume b: "b = Some p" and post: "cfg_post p s1 (r, t)" and s1: "s1 = s\<lparr>calls := calls s @ [Alloc n (Some p)]\<rparr>"
    from post obtain new where "calls t = calls s1 @ new"
      "\<And>a. net new a = (if r = C_TRUE \<and> a = p then -1 else 0)"
      "fwcfg_results new = (if r = C_TRUE \<and> hw_state (hw_cfg_cb t) = HW_CFG_IDLE then [BT_VND_OP_RESULT_SUCCESS] else [])"
      "open_fds new = fd_count t - fd_count s1" unfolding cfg_post_def fst_conv snd_conv by blast
    moreover have "bt_vendor_cbacks t = bt_vendor_cbacks s" "os t = os s" "r = C_FALSE \<or> r = C_TRUE \<and> cfg_inv t"
      using post s1 by (simp_all add: cfg_post_def)
    ultimately show ?thesis using s1 b by (intro that [of "Alloc n (Some p) # new"]) (auto simp: fd_count_def)
  qed (use that [of "[]"] in auto)
  have u: "calls ?u = calls s @ new @ [Dealloc (evt_addr e)]" "bt_vendor_cbacks ?u \<noteq> None"
    "hw_cfg_cb ?u = hw_cfg_cb t" "os ?u = os s" "bt_vendor_cbacks ?u = bt_vendor_cbacks s"
    using assms(1) t new(1) by (auto simp: vnd_dealloc_def)
  show ?thesis
  proof (cases "r = C_FALSE")
    case True
    from abort_spec(1) [OF u(2), of b] obtain new' where new': "calls (hw_config_abort b ?u) = calls ?u @ new'"
      "\<And>a. net new' a = (if b = Some a then -1 else 0)" "fwcfg_results new' = [BT_VND_OP_RESULT_FAIL]"
      "open_fds new' = - fd_count ?u" by blast
    have "cback_post e s (hw_config_abort b ?u)" unfolding cback_post_def
    proof (intro conjI exI [of _ "new @ Dealloc (evt_addr e) # new'"])
      show "cfg_inv (hw_config_abort b ?u)" using abort_spec(2,3) [OF u(2)] by (simp add: cfg_inv_def)
      show "\<forall>a. net (new @ Dealloc (evt_addr e) # new') a = (if a = evt_addr e then - 1 else 0)"
        using True by (auto simp: new new')
    qed (use abort_spec(2-5) [OF u(2)] u new new' True in \<open>auto simp: fd_count_def\<close>)
    with True show ?thesis by (simp add: Let_def)
  next
    case False
    then have "r = C_TRUE" "cfg_inv t" using t(3) by auto
    then have "cback_post e s ?u" using u new by (auto simp: cback_post_def cfg_inv_def fd_count_def)
    with False show ?thesis by (simp add: Let_def)
  qed
qed

lemma hw_config_cback_post:
  assumes "cbacks_ok s" and "cfg_inv s" and "open_ok (os s)" and "hw_config_cback cfg e s = Some t"
  shows "cback_post e s t"
proof -
  from cbacks_ok_Some [OF assms(1)] obtain cb where cb: "bt_vendor_cbacks s = Some cb" by blast
  let ?ok = "evt_data e ! HCI_EVT_CMD_CMPL_STATUS_RET_BYTE = 0"
  let ?alloc = "cb_alloc cb (calls s) HCI_CMD_MAX_LEN"
  have fail: "cback_post e s (let u = vnd_dealloc (evt_addr e) s in if C_FALSE = C_FALSE then hw_config_abort None u else u)"
    by (rule cback_finish) (simp_all add: cb)
  show ?thesis
  proof (cases "?ok \<and> ?alloc \<noteq> None")
    case True
    then obtain p mem where a: "?alloc = Some (p, mem)" by auto
    let ?s = "s\<lparr>calls := calls s @ [Alloc HCI_CMD_MAX_LEN (Some p)]\<rparr>"
    from assms(4) True obtain r u where
      sw: "hw_config_switch cfg e (STREAM_TO_UINT16 (evt_data e) HCI_EVT_CMD_CMPL_OPCODE) p (fresh_cmd mem) ?s = Some (r, u)"
      and t: "t = (let v = vnd_dealloc (evt_addr e) u in if r = C_FALSE then hw_config_abort (Some p) v else v)"
      by (auto simp: hw_config_cback_def vnd_alloc_def cb a Let_def split: option.splits)
    have "cfg_post p ?s (r, u)"
      by (rule post_switch [OF _ _ _ sw]) (use assms in \<open>auto simp: cbacks_ok_def cfg_inv_def Let_def\<close>)
    then show ?thesis unfolding t by (intro cback_finish) (auto simp: cb)
  next
    case False
    show ?thesis
    proof (cases "?ok")
      case ok: True
      with False have none: "?alloc = None" by blast
      with ok have t: "t = (let u = vnd_dealloc (evt_addr e) (s\<lparr>calls := calls s @ [Alloc HCI_CMD_MAX_LEN None]\<rparr>)
                in hw_config_abort None u)"
        using assms(4) by (simp add: hw_config_cback_def vnd_alloc_def cb Let_def)
      let ?s = "s\<lparr>calls := calls s @ [Alloc HCI_CMD_MAX_LEN None]\<rparr>"
      have "cback_post e ?s (let u = vnd_dealloc (evt_addr e) ?s in if C_FALSE = C_FALSE then hw_config_abort None u else u)"
        by (rule cback_finish) (simp_all add: cb)
      then obtain new where "calls t = calls ?s @ new" and "cback_post e ?s t"
        using t by (auto simp: cback_post_def Let_def)
      then show ?thesis unfolding cback_post_def
        by (elim conjE exE) (intro conjI exI [of _ "Alloc HCI_CMD_MAX_LEN None # new"], auto simp: fd_count_def)
    qed (use assms(4) fail in \<open>auto simp: hw_config_cback_def Let_def\<close>)
  qed
qed

definition handler_ok :: "brcm_st \<Rightarrow> bool" where
  "handler_ok s \<longleftrightarrow> cbacks_ok s \<and> cfg_inv s \<and> open_ok (os s)"

lemma handler_ok_step: "handler_ok s \<Longrightarrow> hw_config_cback cfg e s = Some t \<Longrightarrow> handler_ok t"
  using hw_config_cback_post [of s cfg e t] by (auto simp: handler_ok_def cback_post_def cbacks_ok_def)

interpretation brcm_config: buffer_contract "\<lambda>s e t. hw_config_cback cfg e s = Some t" calls handler_ok for cfg
proof unfold_locales
  fix s e t
  assume "handler_ok s" "hw_config_cback cfg e s = Some t"
  then show "\<exists>new. calls t = calls s @ new \<and> (\<forall>a. net new a = (if a = evt_addr e then - 1 else 0))"
    using hw_config_cback_post [of s cfg e t] by (auto simp: handler_ok_def cback_post_def)
qed (rule handler_ok_step)

interpretation brcm_lpm: buffer_contract "\<lambda>s e t. hw_lpm_ctrl_cback e s = t" "calls :: brcm_st \<Rightarrow> history" cbacks_ok
  by unfold_locales
    (auto simp: hw_lpm_ctrl_cback_def vnd_notify_def vnd_dealloc_def cbacks_ok_def split: option.splits)

lemma sco_cback_contract:
  assumes "cbacks_ok s"
  shows "cbacks_ok (hw_sco_cfg_cback cfg e s) \<and> (\<exists>new. calls (hw_sco_cfg_cback cfg e s) = calls s @ new
    \<and> (\<forall>a. net new a = (if a = evt_addr e then -1 else 0)))"
proof -
  from cbacks_ok_Some [OF assms] obtain cb where "bt_vendor_cbacks s = Some cb" "xmit_bool cb" by blast
  then show ?thesis
    by (auto simp: hw_sco_cfg_cback_def vnd_notify_def vnd_dealloc_def vnd_alloc_def vnd_xmit_def cbacks_ok_def
        Let_def split_beta split: option.split)
qed

interpretation brcm_sco: buffer_contract "\<lambda>s e t. hw_sco_cfg_cback cfg e s = t" "calls :: brcm_st \<Rightarrow> history" cbacks_ok for cfg
  using sco_cback_contract by unfold_locales blast+

text \<open>The caseless comparison of the patch search.\<close>

lemma hw_strncmp_loop_0:
  "hw_strncmp_loop a b i n = 0 \<longleftrightarrow> (\<forall>k<n. char_toupper (cchar a (i + k)) = char_toupper (cchar b (i + k)))"
proof (induction n arbitrary: i)
  case (Suc n)
  have "(\<forall>k<Suc n. P k) \<longleftrightarrow> P 0 \<and> (\<forall>k<n. P (Suc k))" for P by (auto simp: less_Suc_eq_0_disj)
  then show ?case using Suc by simp
qed simp

lemma char_toupper_zero: "char_toupper c = char_of (0::nat) \<longleftrightarrow> c = char_of (0::nat)"
proof (cases "97 \<le> (of_char c :: nat) \<and> (of_char c :: nat) \<le> 122")
  case True
  let ?n = "of_char c :: nat"
  have "(?n - 32) mod 256 = ?n - 32" using True by (intro mod_less) linarith
  then have "(?n - 32) mod 256 \<noteq> 0" using True by linarith
  then have "char_of (?n - 32) \<noteq> (char_of (0::nat) :: char)" by (metis of_char_of mod_0)
  moreover have "c \<noteq> char_of (0::nat)" using True by auto
  ultimately show ?thesis using True by (simp add: char_toupper_def Let_def)
next
  case False
  then have "char_toupper c = c" by (auto simp: char_toupper_def Let_def)
  then show ?thesis by simp
qed

lemma caseless_prefix:
  assumes "char_of (0::nat) \<notin> set q" and "hw_strncmp (Some f) (Some q) (length q) = 0"
  shows "length q \<le> length f \<and> map char_toupper (take (length q) f) = map char_toupper q"
proof -
  from assms(2) have eq: "char_toupper (cchar f k) = char_toupper (q ! k)" if "k < length q" for k
    using that by (simp add: hw_strncmp_def hw_strncmp_loop_0 cchar_def)
  have len: "length q \<le> length f"
  proof (rule ccontr)
    assume "\<not> length q \<le> length f"
    then have "length f < length q" by simp
    from eq [OF this] have "char_toupper (q ! length f) = char_of (0::nat)"
      by (simp add: cchar_def char_toupper_def)
    then have "q ! length f = char_of (0::nat)" by (simp only: char_toupper_zero)
    with \<open>length f < length q\<close> assms(1) show False by (metis nth_mem)
  qed
  then show ?thesis using eq by (auto simp: list_eq_iff_nth_eq cchar_def)
qed

lemma strip_rev_suffix: "\<exists>pre. cs = pre @ strip_rev cs"
proof (induction cs)
  case (Cons c cs)
  then obtain pre where "cs = pre @ strip_rev cs" by blast
  then have "c # cs = (c # pre) @ strip_rev cs" by simp
  moreover have "c # cs = [] @ (c # cs)" by simp
  moreover have "strip_rev (c # cs) = strip_rev cs \<or> strip_rev (c # cs) = c # cs" by simp
  ultimately show ?case by metis
qed simp

lemma strip_rev_prefix: "3 < length (strip_rev (rev chip)) \<Longrightarrow>
    \<exists>post. chip = rev (tl (strip_rev (rev chip))) @ post \<and> 3 \<le> length (rev (tl (strip_rev (rev chip))))"
proof -
  assume len: "3 < length (strip_rev (rev chip))"
  obtain pre where pre: "rev chip = pre @ strip_rev (rev chip)" using strip_rev_suffix by blast
  obtain c cs where c: "strip_rev (rev chip) = c # cs" using len by (cases "strip_rev (rev chip)") auto
  from pre have "chip = rev (strip_rev (rev chip)) @ rev pre" by (metis rev_append rev_rev_ident)
  then show ?thesis using c len by auto
qed

text \<open>\<open>q\<close> is a version of the chip name tried by the search.\<close>

definition tried_name :: "string \<Rightarrow> string \<Rightarrow> bool" where
  "tried_name chip q \<longleftrightarrow> q = chip \<or> (3 \<le> length q \<and> (\<exists>post. chip = q @ post))"

lemma tried_name_trans: "tried_name chip q \<Longrightarrow> tried_name q r \<Longrightarrow> tried_name chip r"
  by (auto simp: tried_name_def)

lemma findpatch_in_sound:
  assumes "hw_config_findpatch_in path [] dir chip = (True, p)"
  shows "\<exists>entries f q. dir = Some entries \<and> f \<in> set entries \<and> p = join_path path f
     \<and> length f + length path \<le> FW_PATCHFILE_PATH_MAXLEN \<and> tried_name chip q \<and> is_patch_file q f"
  using assms
proof (induction path "[] :: string" dir chip rule: hw_config_findpatch_in.induct)
  case (1 path dir chip)
  from "1.prems" obtain entries where dir: "dir = Some entries"
    by (subst (asm) hw_config_findpatch_in.simps) (auto split: option.splits)
  let ?r = "strip_rev (rev chip)"
  show ?case
  proof (cases "\<exists>f. find (is_patch_file chip) entries = Some f \<and> length f + length path \<le> FW_PATCHFILE_PATH_MAXLEN")
    case True
    then obtain f where f: "find (is_patch_file chip) entries = Some f" "length f + length path \<le> FW_PATCHFILE_PATH_MAXLEN"
      by blast
    from f(1) have "is_patch_file chip f" "f \<in> set entries" by (auto simp: find_Some_iff)
    moreover have "p = join_path path f"
      using "1.prems" dir f by (subst (asm) hw_config_findpatch_in.simps) auto
    ultimately show ?thesis using dir f(2) by (intro exI [of _ entries] exI [of _ f] exI [of _ chip]) (simp add: tried_name_def)
  next
    case False
    then have rec: "3 < length ?r" "hw_config_findpatch_in path [] dir (rev (tl ?r)) = (True, p)"
      using "1.prems" dir
      by (subst (asm) hw_config_findpatch_in.simps; auto simp: Let_def split: option.splits if_splits)+
    from strip_rev_prefix [OF rec(1)] have tn: "tried_name chip (rev (tl ?r))" by (auto simp: tried_name_def)
    have "\<exists>entries f q. dir = Some entries \<and> f \<in> set entries \<and> p = join_path path f
       \<and> length f + length path \<le> FW_PATCHFILE_PATH_MAXLEN \<and> tried_name (rev (tl ?r)) q \<and> is_patch_file q f"
    proof (cases "find (is_patch_file chip) entries")
      case None
      from "1.hyps"(1) [OF _ dir None refl rec] show ?thesis by simp
    next
      case (Some f)
      with False have "length f + length path > FW_PATCHFILE_PATH_MAXLEN" by auto
      from "1.hyps"(2) [OF _ dir Some this refl rec] show ?thesis by simp
    qed
    then show ?thesis using tried_name_trans [OF tn] by blast
  qed
qed

end
