(* ===== verification/Brcm_Bringup.thy ===== *)
theory Brcm_Bringup
  imports Brcm_Hardware
begin

text \<open>
  The bring-up of the AP6210 controller as a protocol.  An abstract machine \<open>bringup_next\<close> says
  which command follows the completion of the previous one: reset, UART speed, chip name,
  download mode, every record of the firmware patch file, UART speed again, device address.  The
  handler \<open>hw_config_cback\<close> refines it: the relation \<open>at_stage\<close> ties the state of the
  configuration block and the unread part of the patch file to a stage, and one call of the
  handler on a successful completion event performs one step of the machine.
\<close>

section \<open>The abstract machine\<close>

text \<open>A patch file (\<open>.hcd\<close>) is a sequence of HCI commands: opcode, length, payload.\<close>

type_synonym hcd_record = "u16 \<times> u8 list"

definition hcd_bytes :: "hcd_record \<Rightarrow> u8 list" where
  "hcd_bytes r = UINT16_TO_STREAM (fst r) @ of_nat (length (snd r)) # snd r"

definition hcd_file :: "hcd_record list \<Rightarrow> u8 list" where
  "hcd_file rs = concat (map hcd_bytes rs)"

definition record_ok :: "hcd_record \<Rightarrow> bool" where
  "record_ok r \<longleftrightarrow> length (snd r) \<le> 255"

datatype stage =
    S_reset | S_clock bool | S_baud bool | S_name | S_patch "hcd_record list" | S_rdaddr | S_addr | S_done

type_synonym command = "u16 \<times> u8 list"

definition cmd_of :: "u16 \<Rightarrow> u8 list \<Rightarrow> command" where
  "cmd_of op params = (op, UINT16_TO_STREAM op @ of_nat (length params) # params)"

definition cmd_baud :: "brcm_cfg \<Rightarrow> command" where
  "cmd_baud cfg = cmd_of HCI_VSC_UPDATE_BAUDRATE ([0, 0] @ UINT32_TO_STREAM (UART_TARGET_BAUD_RATE cfg))"

definition cmd_addr :: "u8 list \<Rightarrow> command" where
  "cmd_addr addr = cmd_of HCI_VSC_WRITE_BD_ADDR (rev addr)"

definition bringup_speed :: "brcm_cfg \<Rightarrow> bool \<Rightarrow> stage \<times> command list" where
  "bringup_speed cfg again =
     (if UART_TARGET_BAUD_RATE cfg > 3000000
      then (S_clock again, [cmd_of HCI_VSC_WRITE_UART_CLOCK_SETTING [1]])
      else (S_baud again, [cmd_baud cfg]))"

text \<open>\<open>patch\<close> is the content of the patch file, if there is one that can be opened; \<open>otp\<close> says
  whether the controller has an address of its own.\<close>

fun bringup_next :: "brcm_cfg \<Rightarrow> u8 list \<Rightarrow> hcd_record list option \<Rightarrow> bool \<Rightarrow> stage \<Rightarrow> stage \<times> command list" where
  "bringup_next cfg addr patch otp S_reset = bringup_speed cfg False"
| "bringup_next cfg addr patch otp (S_clock again) = (S_baud again, [cmd_baud cfg])"
| "bringup_next cfg addr patch otp (S_baud again) =
     (if \<not> again then (S_name, [cmd_of HCI_READ_LOCAL_NAME []])
      else if USE_CONTROLLER_BDADDR cfg then (S_rdaddr, [cmd_of HCI_READ_LOCAL_BDADDR []])
      else (S_addr, [cmd_addr addr]))"
| "bringup_next cfg addr patch otp S_name =
     (case patch of None \<Rightarrow> (S_addr, [cmd_addr addr])
      | Some rs \<Rightarrow> (S_patch rs, [cmd_of HCI_VSC_DOWNLOAD_MINIDRV []]))"
| "bringup_next cfg addr patch otp (S_patch (r # rs)) = (S_patch rs, [(fst r, hcd_bytes r)])"
| "bringup_next cfg addr patch otp (S_patch []) = bringup_speed cfg True"
| "bringup_next cfg addr patch otp S_rdaddr = (if otp then (S_done, []) else (S_addr, [cmd_addr addr]))"
| "bringup_next cfg addr patch otp S_addr = (S_done, [])"
| "bringup_next cfg addr patch otp S_done = (S_done, [])"

section \<open>Relation to the code\<close>

text \<open>Surroundings in which nothing fails.\<close>

definition cooperative :: "brcm_st \<Rightarrow> bool" where
  "cooperative s \<longleftrightarrow>
     (\<exists>cb. bt_vendor_cbacks s = Some cb \<and> (\<forall>h n. cb_alloc cb h n \<noteq> None) \<and> (\<forall>h op b. cb_xmit cb h op b = C_TRUE))
     \<and> (\<forall>h fd. \<not> os_read_err (os s) h fd) \<and> length (vnd_local_bd_addr s) = 6"

definition same_env :: "brcm_st \<Rightarrow> brcm_st \<Rightarrow> bool" where
  "same_env s t \<longleftrightarrow> bt_vendor_cbacks t = bt_vendor_cbacks s \<and> os t = os s
     \<and> fw_patchfile_path t = fw_patchfile_path s \<and> fw_patchfile_name t = fw_patchfile_name s
     \<and> vnd_local_bd_addr t = vnd_local_bd_addr s"

text \<open>A command complete event for \<open>op\<close> with status 0.\<close>

definition completes :: "hci_event \<Rightarrow> u16 \<Rightarrow> bool" where
  "completes e op \<longleftrightarrow> evt_data e ! HCI_EVT_CMD_CMPL_STATUS_RET_BYTE = 0
     \<and> STREAM_TO_UINT16 (evt_data e) HCI_EVT_CMD_CMPL_OPCODE = op"

text \<open>The handler takes the completion of \<open>HCI_VSC_LAUNCH_RAM\<close> as the end of the patch.\<close>

fun accepts :: "stage \<Rightarrow> u16 \<Rightarrow> bool" where
  "accepts (S_patch (r # rs)) op = (op \<noteq> HCI_VSC_LAUNCH_RAM)"
| "accepts st op = (st \<noteq> S_done)"

fun at_stage :: "brcm_st \<Rightarrow> stage \<Rightarrow> bool" where
  "at_stage s S_reset = (hw_state (hw_cfg_cb s) = HW_CFG_START \<and> \<not> f_set_baud_2 (hw_cfg_cb s) \<and> fw_fd (hw_cfg_cb s) = -1)"
| "at_stage s (S_clock again) = (hw_state (hw_cfg_cb s) = HW_CFG_SET_UART_CLOCK
     \<and> f_set_baud_2 (hw_cfg_cb s) = again \<and> fw_fd (hw_cfg_cb s) = -1)"
| "at_stage s (S_baud again) = (hw_state (hw_cfg_cb s) = (if again then HW_CFG_SET_UART_BAUD_2 else HW_CFG_SET_UART_BAUD_1)
     \<and> f_set_baud_2 (hw_cfg_cb s) = again \<and> fw_fd (hw_cfg_cb s) = -1)"
| "at_stage s S_name = (hw_state (hw_cfg_cb s) = HW_CFG_READ_LOCAL_NAME \<and> \<not> f_set_baud_2 (hw_cfg_cb s) \<and> fw_fd (hw_cfg_cb s) = -1)"
| "at_stage s (S_patch rs) = ((hw_state (hw_cfg_cb s) = HW_CFG_DL_MINIDRIVER \<or> hw_state (hw_cfg_cb s) = HW_CFG_DL_FW_PATCH)
     \<and> fw_fd (hw_cfg_cb s) \<noteq> -1 \<and> fds s (fw_fd (hw_cfg_cb s)) = hcd_file rs \<and> list_all record_ok rs)"
| "at_stage s S_rdaddr = (hw_state (hw_cfg_cb s) = HW_CFG_READ_BD_ADDR \<and> fw_fd (hw_cfg_cb s) = -1)"
| "at_stage s S_addr = (hw_state (hw_cfg_cb s) = HW_CFG_SET_BD_ADDR \<and> fw_fd (hw_cfg_cb s) = -1)"
| "at_stage s S_done = (hw_state (hw_cfg_cb s) = HW_CFG_IDLE \<and> fw_fd (hw_cfg_cb s) = -1)"

text \<open>The patch file that the name event leads to, and what its opening returns.\<close>

definition patch_answer :: "brcm_st \<Rightarrow> hci_event \<Rightarrow> hcd_record list option \<Rightarrow> bool" where
  "patch_answer s e patch \<longleftrightarrow>
     (case name_toupper 0 (drop HCI_EVT_CMD_CMPL_LOCAL_NAME_STRING (evt_data e)) of
        None \<Rightarrow> False
      | Some area \<Rightarrow>
         (let (found, path) = hw_config_findpatch s (snd (chip_name (cstring_of area))) in
          case patch of
            None \<Rightarrow> found \<longrightarrow> (\<forall>h. os_open (os s) h path O_RDONLY = -1)
          | Some rs \<Rightarrow> found \<and> (\<forall>h. os_open (os s) h path O_RDONLY \<ge> 0)
              \<and> os_file (os s) path = hcd_file rs \<and> list_all record_ok rs))"

definition otp_answer :: "hci_event \<Rightarrow> bool" where
  "otp_answer e \<longleftrightarrow> take 6 (drop HCI_EVT_CMD_CMPL_LOCAL_BDADDR_ARRAY (evt_data e)) \<noteq> replicate 6 0"

text \<open>One step: the history grows by \<open>new\<close>, which transmits \<open>cmds\<close> and reports \<open>rs\<close>.\<close>

definition grows :: "brcm_st \<Rightarrow> brcm_st \<Rightarrow> command list \<Rightarrow> bt_vendor_op_result_t list \<Rightarrow> bool" where
  "grows s t cmds rs \<longleftrightarrow> same_env s t \<and> (\<exists>new. calls t = calls s @ new \<and> xmits new = cmds \<and> fwcfg_results new = rs)"

section \<open>Facts\<close>

lemma length_hcd_bytes: "length (hcd_bytes r) = 3 + length (snd r)"
  by (simp add: hcd_bytes_def)

lemma same_env_simps [simp]: "same_env s s"
  by (simp add: same_env_def)

lemma same_env_trans: "same_env s t \<Longrightarrow> same_env t u \<Longrightarrow> same_env s u"
  by (simp add: same_env_def)

lemma grows_trans: "grows s t c1 r1 \<Longrightarrow> grows t u c2 r2 \<Longrightarrow> grows s u (c1 @ c2) (r1 @ r2)"
  unfolding grows_def
proof (elim conjE exE)
  fix new1 new2
  assume "same_env s t" "same_env t u" "calls t = calls s @ new1" "calls u = calls t @ new2"
    "xmits new1 = c1" "xmits new2 = c2" "fwcfg_results new1 = r1" "fwcfg_results new2 = r2"
  then show "same_env s u \<and> (\<exists>new. calls u = calls s @ new \<and> xmits new = c1 @ c2 \<and> fwcfg_results new = r1 @ r2)"
    by (intro conjI exI [of _ "new1 @ new2"]) (auto intro: same_env_trans)
qed

lemma cooperative_env: "same_env s t \<Longrightarrow> cooperative s \<Longrightarrow> cooperative t"
  by (simp add: same_env_def cooperative_def)

lemma patch_answer_env: "same_env s t \<Longrightarrow> patch_answer s e p \<Longrightarrow> patch_answer t e p"
proof -
  assume env: "same_env s t" and p: "patch_answer s e p"
  from env have "hw_config_findpatch t = hw_config_findpatch s"
    by (auto simp: same_env_def hw_config_findpatch_def)
  moreover from env have "os t = os s" by (simp add: same_env_def)
  ultimately show ?thesis using p unfolding patch_answer_def by (simp only:)
qed

lemma wire_set_cmd_op [simp]:
  "length ps < 65000 \<Longrightarrow> wire (set_cmd (UINT16_TO_STREAM op @ ps) b) = UINT16_TO_STREAM op @ ps"
  by (rule wire_set_cmd) simp


definition stage_report :: "stage \<Rightarrow> bt_vendor_op_result_t list" where
  "stage_report st = (if st = S_done then [BT_VND_OP_RESULT_SUCCESS] else [])"

lemma coop_xmit:
  "cooperative s \<Longrightarrow> vnd_xmit op p b s = (C_TRUE, s\<lparr>calls := calls s @ [Xmit op p b C_TRUE]\<rparr>)"
  by (auto simp: cooperative_def vnd_xmit_def)

lemma coop_silent: "cooperative s \<Longrightarrow> same_env s t \<Longrightarrow>
    vnd_xmit op p b t = (C_TRUE, t\<lparr>calls := calls t @ [Xmit op p b C_TRUE]\<rparr>)"
  by (rule coop_xmit) (rule cooperative_env)

lemma set_baud_env: "same_env s (userial_vendor_set_baud b s)"
  by (simp add: same_env_def userial_vendor_set_baud_def userial_defs Let_def split: prod.splits)

lemma env_upd_hw [simp]: "same_env s (upd_hw f t) = same_env s t"
  by (simp add: same_env_def upd_hw_def)

lemma env_ms_delay [simp]: "same_env s (ms_delay n t) = same_env s t"
  by (simp add: same_env_def ms_delay_def)

lemma grows_xmit:
  assumes "grows s t [] []" and "cooperative s" and "length ps < 65000"
  shows "\<exists>u. vnd_xmit op p (set_cmd (UINT16_TO_STREAM op @ ps) b) t = (C_TRUE, u)
    \<and> grows s u [(op, UINT16_TO_STREAM op @ ps)] [] \<and> hw_cfg_cb u = hw_cfg_cb t \<and> fds u = fds t"
proof -
  let ?b = "set_cmd (UINT16_TO_STREAM op @ ps) b"
  let ?u = "t\<lparr>calls := calls t @ [Xmit op p ?b C_TRUE]\<rparr>"
  have "grows t ?u [(op, UINT16_TO_STREAM op @ ps)] []"
    using assms(3) by (simp add: grows_def same_env_def)
  from grows_trans [OF assms(1) this] have "grows s ?u [(op, UINT16_TO_STREAM op @ ps)] []" by simp
  moreover have "cooperative t" using assms(1,2) by (auto simp: grows_def intro: cooperative_env)
  ultimately show ?thesis by (simp add: coop_xmit)
qed

lemma grows_refl: "grows s s [] []"
  by (simp add: grows_def)

lemma grows_upd_hw [simp]: "grows s (upd_hw f t) c r = grows s t c r"
  by (simp add: grows_def) (simp add: upd_hw_def)

lemma grows_set_baud: "grows s t c r \<Longrightarrow> grows s (userial_vendor_set_baud b t) c r"
proof -
  assume st: "grows s t c r"
  have "grows t (userial_vendor_set_baud b t) [] []"
    by (simp add: grows_def set_baud_env set_baud_calls)
  from grows_trans [OF st this] show ?thesis by simp
qed

lemma grows_ms_delay: "grows s t c r \<Longrightarrow> grows s (ms_delay n t) c r"
proof -
  assume st: "grows s t c r"
  have "grows t (ms_delay n t) [] []" by (simp add: grows_def) (simp add: ms_delay_def)
  from grows_trans [OF st this] show ?thesis by simp
qed

lemma hw_upd_hw [simp]: "hw_cfg_cb (upd_hw f s) = f (hw_cfg_cb s)" "fds (upd_hw f s) = fds s"
  by (simp_all add: upd_hw_def)

lemma hw_ms_delay [simp]: "hw_cfg_cb (ms_delay n s) = hw_cfg_cb s" "fds (ms_delay n s) = fds s"
  by (simp_all add: ms_delay_def)

text \<open>The cases of the handler in cooperative surroundings.\<close>

lemma run_set_uart_clock:
  assumes "grows s t [] []" and "cooperative s" and "fw_fd (hw_cfg_cb t) = -1"
  shows "\<exists>u. cfg_set_uart_clock cfg p b t = (C_TRUE, u) \<and> grows s u [cmd_baud cfg] []
    \<and> at_stage u (S_baud (f_set_baud_2 (hw_cfg_cb t)))"
  using grows_xmit [of s "set_hw_state (if f_set_baud_2 (hw_cfg_cb t) then HW_CFG_SET_UART_BAUD_2
        else HW_CFG_SET_UART_BAUD_1) t" "[6, 0, 0] @ UINT32_TO_STREAM (UART_TARGET_BAUD_RATE cfg)"
      HCI_VSC_UPDATE_BAUDRATE p b] assms
  by (auto simp: cfg_set_uart_clock_def cmd_baud_def cmd_of_def)

lemma run_start:
  assumes "grows s t [] []" and "cooperative s" and "fw_fd (hw_cfg_cb t) = -1"
    and "f_set_baud_2 (hw_cfg_cb t) = again"
  shows "\<exists>u. cfg_start cfg p b t = (C_TRUE, u) \<and> grows s u (snd (bringup_speed cfg again)) []
    \<and> at_stage u (fst (bringup_speed cfg again))"
proof (cases "UART_TARGET_BAUD_RATE cfg > 3000000")
  case True
  then show ?thesis
    using grows_xmit [of s "set_hw_state HW_CFG_SET_UART_CLOCK t" "[1, 1]" HCI_VSC_WRITE_UART_CLOCK_SETTING p b] assms
    by (auto simp: cfg_start_def bringup_speed_def cmd_of_def)
next
  case False
  then show ?thesis using run_set_uart_clock [OF assms(1-3), of cfg p b] assms(4)
    by (simp add: cfg_start_def bringup_speed_def del: at_stage.simps)
qed

lemma run_set_uart_baud_1:
  assumes "cooperative s" and "at_stage s (S_baud False)"
  shows "\<exists>u. cfg_set_uart_baud_1 cfg p b s = (C_TRUE, u) \<and> grows s u [cmd_of HCI_READ_LOCAL_NAME []] []
    \<and> at_stage u S_name"
  using grows_xmit [of s "set_hw_state HW_CFG_READ_LOCAL_NAME
      (userial_vendor_set_baud (line_speed_to_userial_baud (UART_TARGET_BAUD_RATE cfg)) s)" "[0]" HCI_READ_LOCAL_NAME p b]
    assms grows_set_baud [OF grows_refl, of s "line_speed_to_userial_baud (UART_TARGET_BAUD_RATE cfg)"]
  by (auto simp: cfg_set_uart_baud_1_def cmd_of_def Let_def)

lemma rev6: "length (xs :: 'a list) = 6 \<Longrightarrow> rev xs = [xs ! 5, xs ! 4, xs ! 3, xs ! 2, xs ! 1, xs ! 0]"
  by (auto simp: numeral_eq_Suc length_Suc_conv)

lemma run_set_bdaddr:
  assumes "grows s t [] []" and "cooperative s"
  shows "\<exists>u. hw_config_set_bdaddr p b t = (C_TRUE, u) \<and> grows s u [cmd_addr (vnd_local_bd_addr s)] []
    \<and> hw_state (hw_cfg_cb u) = HW_CFG_SET_BD_ADDR \<and> fw_fd (hw_cfg_cb u) = fw_fd (hw_cfg_cb t)"
proof -
  have "vnd_local_bd_addr t = vnd_local_bd_addr s" "length (vnd_local_bd_addr s) = 6"
    using assms by (simp_all add: grows_def same_env_def cooperative_def)
  then show ?thesis
    using grows_xmit [of s "set_hw_state HW_CFG_SET_BD_ADDR t" "6 # rev (vnd_local_bd_addr s)" HCI_VSC_WRITE_BD_ADDR p b] assms
    by (auto simp: hw_config_set_bdaddr_def cmd_addr_def cmd_of_def rev6)
qed

lemma run_set_bd_addr:
  assumes "cooperative s" and "fw_fd (hw_cfg_cb s) = -1"
  shows "\<exists>u. cfg_set_bd_addr p s = (C_TRUE, u) \<and> grows s u [] [BT_VND_OP_RESULT_SUCCESS] \<and> at_stage u S_done"
  using assms by (auto simp: cfg_set_bd_addr_def vnd_notify_def vnd_dealloc_def close_fw_fd_def cooperative_def
      Let_def grows_def same_env_def upd_hw_def)

lemma run_set_uart_baud_2:
  assumes "cooperative s" and "at_stage s (S_baud True)"
  shows "\<exists>u. cfg_set_uart_baud_2 cfg p b s = (C_TRUE, u)
    \<and> grows s u (snd (bringup_next cfg (vnd_local_bd_addr s) patch otp (S_baud True))) []
    \<and> at_stage u (fst (bringup_next cfg (vnd_local_bd_addr s) patch otp (S_baud True)))"
proof -
  let ?t = "userial_vendor_set_baud (line_speed_to_userial_baud (UART_TARGET_BAUD_RATE cfg)) s"
  have t: "grows s ?t [] []" by (rule grows_set_baud [OF grows_refl])
  have "fw_fd (hw_cfg_cb ?t) = -1" using assms(2) by simp
  then show ?thesis
    using run_set_bdaddr [OF t assms(1), of p b]
      grows_xmit [of s "set_hw_state HW_CFG_READ_BD_ADDR ?t" "[0]" HCI_READ_LOCAL_BDADDR p b] t assms(1)
    by (auto simp: cfg_set_uart_baud_2_def hw_config_read_bdaddr_def cmd_of_def Let_def)
qed


lemma hcd_head:
  assumes "record_ok r"
  shows "take 3 (hcd_bytes r @ rest) = UINT16_TO_STREAM (fst r) @ [of_nat (length (snd r))]"
    and "drop 3 (hcd_bytes r @ rest) = snd r @ rest"
    and "unat (of_nat (length (snd r)) :: u8) = length (snd r)"
  using assms by (simp_all add: hcd_bytes_def UINT16_TO_STREAM_def record_ok_def unat_of_nat8)

lemma run_dl_record:
  assumes st: "grows s t [] []" and "cooperative s" and "record_ok r" and "opcode \<noteq> HCI_VSC_LAUNCH_RAM"
    and "fds t (fw_fd (hw_cfg_cb t)) = hcd_bytes r @ rest"
  shows "\<exists>u. cfg_dl_fw_patch cfg opcode p (fresh_cmd mem) t = (C_TRUE, u)
    \<and> grows s u [(fst r, hcd_bytes r)] [] \<and> hw_cfg_cb u = hw_cfg_cb t
    \<and> fds u (fw_fd (hw_cfg_cb t)) = rest"
proof -
  let ?fd = "fw_fd (hw_cfg_cb t)" and ?n = "length (snd r)"
  let ?hd = "UINT16_TO_STREAM (fst r) @ [of_nat ?n]"
  have coop: "cooperative t" using assms(1,2) by (auto simp: grows_def intro: cooperative_env)
  have n: "?n \<le> 255" using assms(3) by (simp add: record_ok_def)
  let ?t1 = "t\<lparr>calls := calls t @ [Sys_read ?fd 3], fds := (fds t)(?fd := snd r @ rest)\<rparr>"
  let ?t2 = "t\<lparr>calls := calls t @ [Sys_read ?fd 3, Sys_read ?fd ?n], fds := (fds t)(?fd := rest)\<rparr>"
  let ?b = "(fresh_cmd mem)\<lparr>hdr_len := 3 + of_nat ?n, hdr_data := hcd_bytes r @ drop (3 + ?n) mem\<rparr>"
  have r1: "sys_read ?fd 3 t = (Some ?hd, ?t1)"
    using coop assms(5) by (simp add: sys_read_def cooperative_def Let_def hcd_head [OF assms(3)]
        del: take_append drop_append)
  have r2: "sys_read ?fd ?n ?t1 = (Some (snd r), ?t2)"
    using coop by (simp add: sys_read_def cooperative_def Let_def)
  have hd3: "length ?hd = 3" by simp
  have nth2: "(?hd @ xs) ! 2 = of_nat ?n" for xs by (simp add: UINT16_TO_STREAM_def)
  have d: "put_read 3 (Some (snd r)) (put_read 0 (Some ?hd) mem) = hcd_bytes r @ drop (3 + ?n) mem"
    by (simp add: put_read_def put_bytes_def hcd_bytes_def UINT16_TO_STREAM_def numeral_3_eq_3)
  have op: "STREAM_TO_UINT16 (hcd_bytes r @ xs) 0 = fst r" for xs
    by (simp add: hcd_bytes_def STREAM_UINT16_roundtrip)
  have "unat (3 + of_nat ?n :: u16) = 3 + ?n"
    using n unat_of_nat16 [of "3 + ?n"] by simp
  then have w: "wire ?b = hcd_bytes r" by (simp add: wire_def fresh_cmd_def length_hcd_bytes)
  have "cfg_dl_fw_patch cfg opcode p (fresh_cmd mem) t = vnd_xmit (fst r) p ?b ?t2"
    using assms(4) r1 r2 d op nth2
    by (simp add: cfg_dl_fw_patch_def Let_def read_len_def fresh_cmd_def put_read_def [of 0] put_bytes_def
        hcd_head(3) [OF assms(3)])
  also have "\<dots> = (C_TRUE, ?t2\<lparr>calls := calls ?t2 @ [Xmit (fst r) p ?b C_TRUE]\<rparr>)"
    by (rule coop_xmit) (use coop in \<open>simp add: cooperative_def\<close>)
  finally have res: "cfg_dl_fw_patch cfg opcode p (fresh_cmd mem) t
      = (C_TRUE, ?t2\<lparr>calls := calls ?t2 @ [Xmit (fst r) p ?b C_TRUE]\<rparr>)" .
  have "grows t (?t2\<lparr>calls := calls ?t2 @ [Xmit (fst r) p ?b C_TRUE]\<rparr>) [(fst r, hcd_bytes r)] []"
    by (simp add: grows_def same_env_def w)
  from grows_trans [OF st this] have "grows s (?t2\<lparr>calls := calls ?t2 @ [Xmit (fst r) p ?b C_TRUE]\<rparr>)
      [(fst r, hcd_bytes r)] []" by simp
  moreover have "hw_cfg_cb (?t2\<lparr>calls := calls ?t2 @ [Xmit (fst r) p ?b C_TRUE]\<rparr>) = hw_cfg_cb t"
    "fds (?t2\<lparr>calls := calls ?t2 @ [Xmit (fst r) p ?b C_TRUE]\<rparr>) ?fd = rest" by simp_all
  ultimately show ?thesis using res by blast
qed

lemma run_patch_done:
  assumes st: "grows s t [] []" and "cooperative s"
  shows "\<exists>u. cfg_patch_done cfg p b t = (C_TRUE, u) \<and> grows s u (snd (bringup_speed cfg True)) []
    \<and> at_stage u (fst (bringup_speed cfg True))"
proof -
  let ?a = "upd_hw (\<lambda>h. h\<lparr>fw_fd := -1\<rparr>) (sys_close (fw_fd (hw_cfg_cb t)) t)"
  let ?c = "upd_hw (\<lambda>h. h\<lparr>f_set_baud_2 := True\<rparr>) (userial_vendor_set_baud USERIAL_BAUD_115200 ?a)"
  let ?d = "ms_delay (look_up_fw_settlement_delay cfg ?c) ?c"
  have "grows t (sys_close (fw_fd (hw_cfg_cb t)) t) [] []"
    by (simp add: grows_def sys_close_def same_env_def)
  from grows_trans [OF st this] have "grows s ?a [] []" by simp
  from grows_set_baud [OF this] have "grows s ?c [] []" by simp
  from grows_ms_delay [OF this] have "grows s ?d [] []" .
  from run_start [OF this assms(2), of True cfg p b] show ?thesis
    by (simp add: cfg_patch_done_def Let_def)
qed

lemma run_dl_end:
  assumes st: "grows s t [] []" and "cooperative s" and "fds t (fw_fd (hw_cfg_cb t)) = []"
  shows "\<exists>u. cfg_dl_fw_patch cfg opcode p (fresh_cmd mem) t = (C_TRUE, u)
    \<and> grows s u (snd (bringup_speed cfg True)) [] \<and> at_stage u (fst (bringup_speed cfg True))"
proof -
  let ?fd = "fw_fd (hw_cfg_cb t)"
  let ?t1 = "t\<lparr>calls := calls t @ [Sys_read ?fd 3], fds := (fds t)(?fd := [])\<rparr>"
  have coop: "cooperative t" using assms(1,2) by (auto simp: grows_def intro: cooperative_env)
  have "cfg_dl_fw_patch cfg opcode p (fresh_cmd mem) t
      = cfg_patch_done cfg p ((fresh_cmd mem)\<lparr>hdr_data := put_read 0 (Some []) mem\<rparr>) ?t1"
    using coop assms(3)
    by (simp add: cfg_dl_fw_patch_def sys_read_def cooperative_def Let_def read_len_def fresh_cmd_def)
  moreover have "grows t ?t1 [] []" by (simp add: grows_def same_env_def)
  ultimately show ?thesis
    using run_patch_done [OF grows_trans [OF st \<open>grows t ?t1 [] []\<close>, simplified] assms(2)] by simp
qed


lemma run_open_patch:
  assumes st: "grows s t [] []" and "cooperative s" and "fw_fd (hw_cfg_cb t) = -1" and "\<not> f_set_baud_2 (hw_cfg_cb t)"
    and "hw_config_findpatch s n = (found, path)"
    and "case patch of None \<Rightarrow> found \<longrightarrow> (\<forall>h. os_open (os s) h path O_RDONLY = -1)
          | Some rs \<Rightarrow> found \<and> (\<forall>h. os_open (os s) h path O_RDONLY \<ge> 0)
              \<and> os_file (os s) path = hcd_file rs \<and> list_all record_ok rs"
  shows "\<exists>u. cfg_open_patch n p b t = (C_TRUE, u)
    \<and> grows s u (snd (bringup_next cfg (vnd_local_bd_addr s) patch otp S_name)) []
    \<and> at_stage u (fst (bringup_next cfg (vnd_local_bd_addr s) patch otp S_name))"
proof -
  have fp: "hw_config_findpatch t n = (found, path)" and ost: "os t = os s"
    using st assms(5) by (simp_all add: hw_config_findpatch_def grows_def same_env_def)
  let ?fd = "os_open (os s) (calls t) path O_RDONLY"
  obtain t0 where so: "sys_open path O_RDONLY t = (?fd, t0)" using ost by (simp add: sys_open_def Let_def)
  let ?t1 = "upd_hw (\<lambda>h. h\<lparr>fw_fd := ?fd\<rparr>) t0"
  have "grows t t0 [] []" using so by (auto simp: sys_open_def grows_def same_env_def Let_def)
  from grows_trans [OF st this] have t1: "grows s ?t1 [] []" by simp
  show ?thesis
  proof (cases patch)
    case None
    show ?thesis
    proof (cases found)
      case True
      with assms(6) None have fd: "?fd = -1" by simp
      from run_set_bdaddr [OF t1 assms(2), of p b] fd True None so fp show ?thesis
        by (auto simp: cfg_open_patch_def Let_def)
    next
      case False
      from run_set_bdaddr [OF st assms(2), of p b] False None fp assms(3) show ?thesis
        by (auto simp: cfg_open_patch_def Let_def)
    qed
  next
    case (Some rs)
    from Some assms(6) have ge: "?fd \<ge> 0" by simp
    then have fd: "?fd \<ge> 0" "?fd \<noteq> -1" by linarith+
    have found: "found" and rs: "os_file (os s) path = hcd_file rs" "list_all record_ok rs"
      using assms(6) Some by auto
    have f: "fds t0 ?fd = hcd_file rs" using so fd(1) rs(1) ost by (auto simp: sys_open_def Let_def)
    from t1 have t2: "grows s (set_hw_state HW_CFG_DL_MINIDRIVER ?t1) [] []" by simp
    from grows_xmit [OF t2 assms(2), of "[0]" HCI_VSC_DOWNLOAD_MINIDRV p b]
    show ?thesis using so fp found fd(2) f rs(2) Some
      by (auto simp: cfg_open_patch_def Let_def cmd_of_def)
  qed
qed

lemma run_read_local_name:
  assumes "cooperative s" and "at_stage s S_name" and "patch_answer s e patch"
  shows "\<exists>u. cfg_read_local_name e p b s = Some (C_TRUE, u)
    \<and> grows s u (snd (bringup_next cfg (vnd_local_bd_addr s) patch otp S_name)) []
    \<and> at_stage u (fst (bringup_next cfg (vnd_local_bd_addr s) patch otp S_name))"
proof -
  from assms(3) obtain area where area:
      "name_toupper 0 (drop HCI_EVT_CMD_CMPL_LOCAL_NAME_STRING (evt_data e)) = Some area"
    by (auto simp: patch_answer_def split: option.splits)
  obtain chip n where cn: "chip_name (cstring_of area) = (chip, n)" by fastforce
  obtain found path where fp: "hw_config_findpatch s n = (found, path)" by fastforce
  let ?t = "upd_hw (\<lambda>h. h\<lparr>local_chip_name := chip\<rparr>) s"
  have t: "grows s ?t [] []" by (simp add: grows_refl)
  have "\<exists>u. cfg_open_patch n p b ?t = (C_TRUE, u)
    \<and> grows s u (snd (bringup_next cfg (vnd_local_bd_addr s) patch otp S_name)) []
    \<and> at_stage u (fst (bringup_next cfg (vnd_local_bd_addr s) patch otp S_name))"
    by (rule run_open_patch [OF t assms(1) _ _ fp])
      (use assms(2,3) area cn fp in \<open>simp_all add: patch_answer_def\<close>)
  then show ?thesis using area cn by (simp add: cfg_read_local_name_def Let_def del: at_stage.simps bringup_next.simps)
qed

text \<open>The two states of the patch download, one record of the file or its end.\<close>

lemma run_patch_state:
  fixes cfg and patch and otp
  assumes "cooperative s" and "at_stage s (S_patch rs)" and "accepts (S_patch rs) opcode"
  defines "nx \<equiv> bringup_next cfg (vnd_local_bd_addr s) patch otp (S_patch rs)"
  shows "\<exists>u. hw_config_switch cfg e opcode p (fresh_cmd mem) s = Some (C_TRUE, u)
    \<and> grows s u (snd nx) (stage_report (fst nx)) \<and> at_stage u (fst nx)"
proof -
  let ?t = "set_hw_state HW_CFG_DL_FW_PATCH (ms_delay 50 s)"
  have t: "grows s ?t [] []" by (simp add: grows_ms_delay grows_refl)
  have eq: "hw_config_switch cfg e opcode p (fresh_cmd mem) s
      = Some (cfg_dl_fw_patch cfg opcode p (fresh_cmd mem) (if hw_state (hw_cfg_cb s) = HW_CFG_DL_MINIDRIVER then ?t else s))"
    using assms(2) by (auto simp: hw_config_switch_def cfg_dl_minidriver_def)
  let ?s = "if hw_state (hw_cfg_cb s) = HW_CFG_DL_MINIDRIVER then ?t else s"
  have s: "grows s ?s [] []" using t grows_refl by simp
  have f: "fds ?s (fw_fd (hw_cfg_cb ?s)) = hcd_file rs" "hw_state (hw_cfg_cb ?s) = HW_CFG_DL_FW_PATCH"
     "fw_fd (hw_cfg_cb ?s) \<noteq> -1" "list_all record_ok rs"
    using assms(2) by auto
  show ?thesis
  proof (cases rs)
    case Nil
    with run_dl_end [OF s assms(1), of cfg opcode p mem] f show ?thesis unfolding eq
      by (auto simp: nx_def stage_report_def hcd_file_def bringup_speed_def split: if_splits)
  next
    case (Cons r rs')
    with f(1,4) have h: "record_ok r" "fds ?s (fw_fd (hw_cfg_cb ?s)) = hcd_bytes r @ hcd_file rs'"
      by (simp_all add: hcd_file_def)
    have "opcode \<noteq> HCI_VSC_LAUNCH_RAM" using assms(3) Cons by simp
    from run_dl_record [OF s assms(1) h(1) this h(2), of cfg p mem] obtain u where
      u: "cfg_dl_fw_patch cfg opcode p (fresh_cmd mem) ?s = (C_TRUE, u)" "grows s u [(fst r, hcd_bytes r)] []"
         "hw_cfg_cb u = hw_cfg_cb ?s" "fds u (fw_fd (hw_cfg_cb ?s)) = hcd_file rs'" by blast
    have "at_stage u (S_patch rs')" using f(2-4) u(3,4) Cons by (simp del: if_split)
    then show ?thesis unfolding eq u(1) using u(2) Cons by (simp add: nx_def stage_report_def)
  qed
qed

text \<open>One case of the switch is one step of the abstract machine.\<close>

lemma switch_refines:
  assumes "cooperative s" and "at_stage s st" and "accepts st opcode"
    and "st = S_name \<Longrightarrow> patch_answer s e patch" and "st = S_rdaddr \<Longrightarrow> USE_CONTROLLER_BDADDR cfg"
  defines "nx \<equiv> bringup_next cfg (vnd_local_bd_addr s) patch (otp_answer e) st"
  shows "\<exists>u. hw_config_switch cfg e opcode p (fresh_cmd mem) s = Some (C_TRUE, u)
    \<and> grows s u (snd nx) (stage_report (fst nx)) \<and> at_stage u (fst nx)"
proof (cases st)
  case S_reset
  then show ?thesis using run_start [OF grows_refl assms(1), of False cfg p "fresh_cmd mem"] assms(2)
    by (auto simp: nx_def hw_config_switch_def stage_report_def bringup_speed_def split: if_splits)
next
  case (S_clock again)
  then show ?thesis using run_set_uart_clock [OF grows_refl assms(1), of cfg p "fresh_cmd mem"] assms(2)
    by (auto simp: nx_def hw_config_switch_def stage_report_def)
next
  case (S_baud again)
  show ?thesis
  proof (cases again)
    case True
    then show ?thesis
      using S_baud run_set_uart_baud_2 [OF assms(1), of cfg p "fresh_cmd mem" patch "otp_answer e"] assms(2)
      by (cases "USE_CONTROLLER_BDADDR cfg") (auto simp: nx_def hw_config_switch_def stage_report_def)
  next
    case False
    then show ?thesis using S_baud run_set_uart_baud_1 [OF assms(1), of cfg p "fresh_cmd mem"] assms(2)
      by (auto simp: nx_def hw_config_switch_def stage_report_def)
  qed
next
  case S_name
  then have "patch_answer s e patch" using assms(4) by blast
  from run_read_local_name [OF assms(1) _ this, of p "fresh_cmd mem" cfg "otp_answer e"] S_name assms(2)
  show ?thesis by (cases patch) (auto simp: nx_def hw_config_switch_def stage_report_def)
next
  case (S_patch rs)
  then show ?thesis using run_patch_state [where rs = rs and opcode = opcode and cfg = cfg and patch = patch and otp = "otp_answer e" and e = e and p = p and mem = mem, OF assms(1)] assms(2,3)
    unfolding nx_def by blast
next
  case S_rdaddr
  then show ?thesis
    using run_set_bd_addr [OF assms(1), of p] run_set_bdaddr [OF grows_refl assms(1), of p "fresh_cmd mem"] assms(2,5)
    by (auto simp: nx_def hw_config_switch_def stage_report_def cfg_read_bd_addr_def otp_answer_def)
next
  case S_addr
  then show ?thesis using run_set_bd_addr [OF assms(1), of p] assms(2)
    by (auto simp: nx_def hw_config_switch_def stage_report_def)
next
  case S_done
  with assms(3) show ?thesis by simp
qed


lemma cback_refines:
  assumes "cooperative s" and "at_stage s st" and "completes e op" and "accepts st op"
    and "st = S_name \<Longrightarrow> patch_answer s e patch" and "st = S_rdaddr \<Longrightarrow> USE_CONTROLLER_BDADDR cfg"
  defines "nx \<equiv> bringup_next cfg (vnd_local_bd_addr s) patch (otp_answer e) st"
  shows "\<exists>t. hw_config_cback cfg e s = Some t \<and> grows s t (snd nx) (stage_report (fst nx)) \<and> at_stage t (fst nx)"
proof -
  from assms(1) obtain cb where cb: "bt_vendor_cbacks s = Some cb" "\<And>h n. cb_alloc cb h n \<noteq> None"
    by (auto simp: cooperative_def)
  from cb(2) obtain p mem where a: "cb_alloc cb (calls s) HCI_CMD_MAX_LEN = Some (p, mem)" by fastforce
  let ?s = "s\<lparr>calls := calls s @ [Alloc HCI_CMD_MAX_LEN (Some p)]\<rparr>"
  have env: "same_env s ?s" and g: "grows s ?s [] []" by (simp_all add: grows_def same_env_def)
  have at: "at_stage ?s st" using assms(2) by (cases st) simp_all
  have addr: "vnd_local_bd_addr ?s = vnd_local_bd_addr s" by simp
  have "\<exists>u. hw_config_switch cfg e op p (fresh_cmd mem) ?s = Some (C_TRUE, u)
      \<and> grows ?s u (snd nx) (stage_report (fst nx)) \<and> at_stage u (fst nx)"
    unfolding nx_def addr [symmetric]
    by (rule switch_refines [OF cooperative_env [OF env assms(1)] at assms(4)])
      (use assms(5,6) patch_answer_env [OF env] in auto)
  then obtain u where u: "hw_config_switch cfg e op p (fresh_cmd mem) ?s = Some (C_TRUE, u)"
      "grows ?s u (snd nx) (stage_report (fst nx))" "at_stage u (fst nx)" by blast
  have "hw_config_cback cfg e s = Some (vnd_dealloc (evt_addr e) u)"
    using assms(3) cb(1) a u(1) by (simp add: hw_config_cback_def vnd_alloc_def completes_def Let_def)
  moreover have "grows u (vnd_dealloc (evt_addr e) u) [] []" "at_stage (vnd_dealloc (evt_addr e) u) (fst nx)"
    using u(3) by (simp add: grows_def vnd_dealloc_def same_env_def,
        cases "fst nx") (simp_all add: vnd_dealloc_def)
  ultimately show ?thesis using grows_trans [OF g grows_trans [OF u(2)]] by fastforce
qed


abbreviation config_step :: "brcm_cfg \<Rightarrow> brcm_st \<Rightarrow> hci_event \<Rightarrow> brcm_st \<Rightarrow> bool" where
  "config_step cfg \<equiv> \<lambda>s e t. hw_config_cback cfg e s = Some t"

lemma grows_keeps:
  "grows s t c r \<Longrightarrow> cooperative s \<Longrightarrow> cooperative t"
  "grows s t c r \<Longrightarrow> vnd_local_bd_addr t = vnd_local_bd_addr s"
  "grows s t c r \<Longrightarrow> patch_answer s e p \<Longrightarrow> patch_answer t e p"
  by (auto simp: grows_def intro: cooperative_env patch_answer_env) (simp add: same_env_def)

text \<open>Extending a run by one step of the abstract machine.\<close>

lemma run_next:
  assumes "grows s0 s c0 r0" and "cooperative s0" and "at_stage s st" and "completes e op" and "accepts st op"
    and "st = S_name \<Longrightarrow> patch_answer s0 e patch" and "st = S_rdaddr \<Longrightarrow> USE_CONTROLLER_BDADDR cfg"
    and "bringup_next cfg (vnd_local_bd_addr s0) patch (otp_answer e) st = (st', c)"
  shows "\<exists>t. config_step cfg s e t \<and> grows s0 t (c0 @ c) (r0 @ stage_report st') \<and> at_stage t st'"
proof -
  have "\<exists>t. hw_config_cback cfg e s = Some t \<and>
      grows s t (snd (bringup_next cfg (vnd_local_bd_addr s) patch (otp_answer e) st))
        (stage_report (fst (bringup_next cfg (vnd_local_bd_addr s) patch (otp_answer e) st)))
      \<and> at_stage t (fst (bringup_next cfg (vnd_local_bd_addr s) patch (otp_answer e) st))"
    by (rule cback_refines) (use assms grows_keeps [OF assms(1)] in auto)
  then show ?thesis using assms(8) grows_keeps(2) [OF assms(1)] grows_trans [OF assms(1)] by fastforce
qed

lemma patch_run:
  assumes "list_all2 completes es (op # map fst rs)" and "rs \<noteq> [] \<Longrightarrow> op \<noteq> HCI_VSC_LAUNCH_RAM"
    and "HCI_VSC_LAUNCH_RAM \<notin> set (map fst (butlast rs))"
    and "grows s0 s c0 []" and "cooperative s0" and "at_stage s (S_patch rs)"
    and "\<not> UART_TARGET_BAUD_RATE cfg > 3000000"
  shows "\<exists>t. runs (config_step cfg) s es t
    \<and> grows s0 t (c0 @ map (\<lambda>r. (fst r, hcd_bytes r)) rs @ [cmd_baud cfg]) [] \<and> at_stage t (S_baud True)"
  using assms
proof (induction rs arbitrary: es op s c0)
  case Nil
  then obtain e where es: "es = [e]" "completes e op" by (auto simp: list_all2_Cons2)
  from run_next [OF Nil.prems(4-6) es(2), of None cfg] Nil.prems(7) obtain t where
    "config_step cfg s e t" "grows s0 t (c0 @ [cmd_baud cfg]) []" "at_stage t (S_baud True)"
    by (auto simp: bringup_speed_def stage_report_def)
  then show ?case using es(1) by (auto intro!: exI [of _ t] runs_cons runs_nil)
next
  case (Cons r rs)
  then obtain e es' where es: "es = e # es'" "completes e op" "list_all2 completes es' (fst r # map fst rs)"
    by (auto simp: list_all2_Cons2)
  from run_next [OF Cons.prems(4-6) es(2), of None cfg "S_patch rs" "[(fst r, hcd_bytes r)]"] Cons.prems(2) obtain t where
    t: "config_step cfg s e t" "grows s0 t (c0 @ [(fst r, hcd_bytes r)]) []" "at_stage t (S_patch rs)"
    by (auto simp: stage_report_def)
  have "rs \<noteq> [] \<Longrightarrow> fst r \<noteq> HCI_VSC_LAUNCH_RAM" "HCI_VSC_LAUNCH_RAM \<notin> set (map fst (butlast rs))"
    using Cons.prems(3) by (auto split: if_splits)
  from Cons.IH [OF es(3) this t(2) Cons.prems(5) t(3) Cons.prems(7)] t(1) es(1) show ?case
    by (auto intro: runs_cons)
qed

lemma start_stage:
  assumes "cooperative s"
  shows "grows s (hw_config_start s) [cmd_of HCI_RESET []] [] \<and> at_stage (hw_config_start s) S_reset"
proof -
  from assms obtain cb where cb: "bt_vendor_cbacks s = Some cb" "\<And>h n. cb_alloc cb h n \<noteq> None"
    "\<And>h op b. cb_xmit cb h op b = C_TRUE" by (auto simp: cooperative_def)
  then obtain p mem where a: "cb_alloc cb (calls s) 3 = Some (p, mem)" by fastforce
  then show ?thesis using cb
    by (simp add: hw_config_start_def vnd_alloc_def vnd_xmit_def upd_hw_def Let_def grows_def same_env_def cmd_of_def)
qed

definition bringup_script :: "brcm_cfg \<Rightarrow> u8 list \<Rightarrow> hcd_record list \<Rightarrow> command list" where
  "bringup_script cfg addr recs =
     [cmd_of HCI_RESET [], cmd_baud cfg, cmd_of HCI_READ_LOCAL_NAME [], cmd_of HCI_VSC_DOWNLOAD_MINIDRV []]
     @ map (\<lambda>r. (fst r, hcd_bytes r)) recs @ [cmd_baud cfg, cmd_addr addr]"

lemma bringup_run:
  assumes "cooperative s" and "\<not> UART_TARGET_BAUD_RATE cfg > 3000000" and "\<not> USE_CONTROLLER_BDADDR cfg"
    and "list_all2 completes es (map fst (bringup_script cfg (vnd_local_bd_addr s) recs))"
    and "patch_answer s (es ! 2) (Some recs)" and "HCI_VSC_LAUNCH_RAM \<notin> set (map fst (butlast recs))"
  shows "\<exists>t. runs (config_step cfg) (hw_config_start s) es t \<and> at_stage t S_done
    \<and> grows s t (bringup_script cfg (vnd_local_bd_addr s) recs) [BT_VND_OP_RESULT_SUCCESS]"
proof -
  let ?a = "vnd_local_bd_addr s"
  have "list_all2 completes es ([HCI_RESET, HCI_VSC_UPDATE_BAUDRATE, HCI_READ_LOCAL_NAME] @ (HCI_VSC_DOWNLOAD_MINIDRV
      # map fst recs) @ [HCI_VSC_UPDATE_BAUDRATE, HCI_VSC_WRITE_BD_ADDR])"
    using assms(4) by (simp add: bringup_script_def cmd_of_def cmd_baud_def cmd_addr_def comp_def)
  then obtain e1 e2 e3 ps e4 e5 where es: "es = [e1, e2, e3] @ ps @ [e4, e5]"
    and c: "completes e1 HCI_RESET" "completes e2 HCI_VSC_UPDATE_BAUDRATE" "completes e3 HCI_READ_LOCAL_NAME"
      "list_all2 completes ps (HCI_VSC_DOWNLOAD_MINIDRV # map fst recs)"
      "completes e4 HCI_VSC_UPDATE_BAUDRATE" "completes e5 HCI_VSC_WRITE_BD_ADDR"
    by (auto simp: list_all2_Cons2 list_all2_append2)
  from start_stage [OF assms(1)] have s0: "grows s (hw_config_start s) [cmd_of HCI_RESET []] []"
    "at_stage (hw_config_start s) S_reset" by auto
  from run_next [OF s0(1) assms(1) s0(2) c(1), of "Some recs" cfg] assms(2) obtain s1 where
    s1: "config_step cfg (hw_config_start s) e1 s1" "grows s s1 [cmd_of HCI_RESET [], cmd_baud cfg] []" "at_stage s1 (S_baud False)"
    by (auto simp: bringup_speed_def stage_report_def)
  from run_next [OF s1(2) assms(1) s1(3) c(2), of "Some recs" cfg] obtain s2 where
    s2: "config_step cfg s1 e2 s2" "grows s s2 [cmd_of HCI_RESET [], cmd_baud cfg, cmd_of HCI_READ_LOCAL_NAME []] []" "at_stage s2 S_name"
    by (auto simp: stage_report_def)
  have "patch_answer s e3 (Some recs)" using assms(5) es by simp
  with run_next [OF s2(2) assms(1) s2(3) c(3), of "Some recs" cfg] obtain s3 where
    s3: "config_step cfg s2 e3 s3" "grows s s3 [cmd_of HCI_RESET [], cmd_baud cfg, cmd_of HCI_READ_LOCAL_NAME [],
       cmd_of HCI_VSC_DOWNLOAD_MINIDRV []] []" "at_stage s3 (S_patch recs)"
    by (auto simp: stage_report_def)
  from patch_run [OF c(4) _ assms(6) s3(2) assms(1) s3(3) assms(2)] obtain s4 where
    s4: "runs (config_step cfg) s3 ps s4" "grows s s4 ([cmd_of HCI_RESET [], cmd_baud cfg, cmd_of HCI_READ_LOCAL_NAME [],
       cmd_of HCI_VSC_DOWNLOAD_MINIDRV []] @ map (\<lambda>r. (fst r, hcd_bytes r)) recs @ [cmd_baud cfg]) []" "at_stage s4 (S_baud True)"
    by auto
  from run_next [OF s4(2) assms(1) s4(3) c(5), of None cfg] assms(3) obtain s5 where
    s5: "config_step cfg s4 e4 s5" "grows s s5 (bringup_script cfg ?a recs) []" "at_stage s5 S_addr"
    by (auto simp: stage_report_def bringup_script_def)
  from run_next [OF s5(2) assms(1) s5(3) c(6), of None cfg] obtain s6 where
    s6: "config_step cfg s5 e5 s6" "grows s s6 (bringup_script cfg ?a recs) [BT_VND_OP_RESULT_SUCCESS]" "at_stage s6 S_done"
    by (auto simp: stage_report_def)
  have "runs (config_step cfg) (hw_config_start s) es s6"
    unfolding es using s1(1) s2(1) s3(1) s4(1) s5(1) s6(1)
    by (auto simp: runs_append intro!: runs_cons runs_nil)
  with s6 show ?thesis by blast
qed


text \<open>A file system with one patch file, and the library configured for it.\<close>

definition quiet_brcm :: "(string \<Rightarrow> u8 list option) \<Rightarrow> brcm_st" where
  "quiet_brcm content =
     \<lparr>bt_vendor_cbacks = Some quiet_cbacks, calls = [], os = quiet_os content, fds = (\<lambda>_. []),
      ttys = (\<lambda>_. quiet_termios),
      vnd_userial = \<lparr>userial_fd = 5, userial_termios = quiet_termios, port_name = ''/dev/ttyS2''\<rparr>,
      upio_state = [0, 0, 0], lpm_proc_cb = \<lparr>btwrite_active = False, timer_created = False\<rparr>,
      rfkill_id = -1, bt_emul_enable = 0, rfkill_state_path = None,
      hw_cfg_cb = \<lparr>hw_state = HW_CFG_IDLE, fw_fd = -1, f_set_baud_2 = False, local_chip_name = []\<rparr>,
      fw_patchfile_path = ''/etc/bluetooth/'', fw_patchfile_name = ''bcm20710a1.hcd'',
      fw_patch_settlement_delay = -1, vnd_local_bd_addr = [0, 1, 2, 3, 4, 5]\<rparr>"

definition evt_complete :: "nat \<Rightarrow> u16 \<Rightarrow> u8 \<Rightarrow> u8 list \<Rightarrow> hci_event" where
  "evt_complete a op status ret =
     \<lparr>evt_addr = a, evt_data = [0x0E, of_nat (4 + length ret), 1] @ UINT16_TO_STREAM op @ status # ret\<rparr>"

definition sample_patch :: "hcd_record list" where
  "sample_patch = [(0xFC4C, [0, 0, 8, 0, 1, 2]), (HCI_VSC_LAUNCH_RAM, [255, 255, 255, 255])]"

definition sample_events :: "hci_event list" where
  "sample_events =
     [evt_complete 100 HCI_RESET 0 [], evt_complete 101 HCI_VSC_UPDATE_BAUDRATE 0 [],
      evt_complete 102 HCI_READ_LOCAL_NAME 0 (bytes_of ''BCM20710A1'' @ replicate 30 0),
      evt_complete 103 HCI_VSC_DOWNLOAD_MINIDRV 0 [], evt_complete 104 0xFC4C 0 [],
      evt_complete 105 HCI_VSC_LAUNCH_RAM 0 [], evt_complete 106 HCI_VSC_UPDATE_BAUDRATE 0 [],
      evt_complete 107 HCI_VSC_WRITE_BD_ADDR 0 []]"

lemma cooperative_quiet: "cooperative (quiet_brcm content)"
  by (simp add: cooperative_def quiet_brcm_def quiet_cbacks_def quiet_os_def)

lemma completes_evt_complete: "completes (evt_complete a op 0 ret) op"
  using STREAM_UINT16_roundtrip [of op "0 # ret"]
  by (simp add: completes_def evt_complete_def STREAM_TO_UINT16_def UINT16_TO_STREAM_def)

lemma read_len_None: "read_len None = 65535"
  by (simp add: read_len_def)

lemma upio_set_no_lpm:
  "calls (upio_set cfg pio a p s) = calls s @ new \<Longrightarrow> Lpm_cb r \<notin> set new"
  using upio_set_io [of cfg pio a p s] by (auto simp: list_all_iff)

section \<open>Properties\<close>

text \<open>(C1) The bring-up of the controller.  In surroundings where nothing fails, when every
  command is answered by its successful completion event, \<open>hw_config_start\<close> and the callback
  transmit exactly the script: reset, new UART speed, read the chip name, switch to download
  mode, each record of the patch file unchanged and in order, new UART speed, device address.
  They end idle, with the patch file closed, having reported SUCCESS exactly once.  (A record
  \<open>HCI_VSC_LAUNCH_RAM\<close> may only be the last one.)\<close>

theorem brcm_bringup:
  assumes "cooperative s" and "UART_TARGET_BAUD_RATE cfg \<le> 3000000" and "\<not> USE_CONTROLLER_BDADDR cfg"
    and "list_all2 completes es (map fst (bringup_script cfg (vnd_local_bd_addr s) recs))"
    and "patch_answer s (es ! 2) (Some recs)" and "HCI_VSC_LAUNCH_RAM \<notin> set (map fst (butlast recs))"
  shows "\<exists>t new. runs (\<lambda>s e t. hw_config_cback cfg e s = Some t) (hw_config_start s) es t
    \<and> hw_state (hw_cfg_cb t) = HW_CFG_IDLE \<and> fw_fd (hw_cfg_cb t) = -1
    \<and> calls t = calls s @ new
    \<and> xmits new = bringup_script cfg (vnd_local_bd_addr s) recs
    \<and> fwcfg_results new = [BT_VND_OP_RESULT_SUCCESS]"
proof -
  from bringup_run [OF assms(1) _ assms(3-6)] assms(2) obtain t where
    "runs (config_step cfg) (hw_config_start s) es t" "at_stage t S_done"
    "grows s t (bringup_script cfg (vnd_local_bd_addr s) recs) [BT_VND_OP_RESULT_SUCCESS]"
    by (auto simp: not_less)
  then show ?thesis by (auto simp: grows_def)
qed

theorem brcm_bringup_witness:
  "\<exists>t new. runs (\<lambda>s e t. hw_config_cback gs702a_brcm_cfg e s = Some t)
       (hw_config_start (quiet_brcm [''/etc/bluetooth/bcm20710a1.hcd'' \<mapsto> hcd_file sample_patch])) sample_events t
    \<and> hw_state (hw_cfg_cb t) = HW_CFG_IDLE \<and> fw_fd (hw_cfg_cb t) = -1 \<and> calls t = new
    \<and> xmits new = bringup_script gs702a_brcm_cfg [0, 1, 2, 3, 4, 5] sample_patch
    \<and> fwcfg_results new = [BT_VND_OP_RESULT_SUCCESS]"
proof -
  let ?s = "quiet_brcm [''/etc/bluetooth/bcm20710a1.hcd'' \<mapsto> hcd_file sample_patch]"
  have a: "vnd_local_bd_addr ?s = [0, 1, 2, 3, 4, 5]" "calls ?s = []" by (simp_all add: quiet_brcm_def)
  have c: "UART_TARGET_BAUD_RATE gs702a_brcm_cfg \<le> 3000000" "\<not> USE_CONTROLLER_BDADDR gs702a_brcm_cfg"
    by (simp_all add: gs702a_brcm_cfg_def)
  have es: "list_all2 completes sample_events (map fst (bringup_script gs702a_brcm_cfg (vnd_local_bd_addr ?s) sample_patch))"
    by (simp add: sample_events_def bringup_script_def sample_patch_def cmd_of_def cmd_baud_def cmd_addr_def
        completes_evt_complete)
  have "name_toupper 0 (drop 6 (evt_data (sample_events ! 2))) \<noteq> None" by code_simp
  then obtain area where area: "name_toupper 0 (drop 6 (evt_data (sample_events ! 2))) = Some area" by blast
  have p: "patch_answer ?s (sample_events ! 2) (Some sample_patch)"
    by (simp add: patch_answer_def area hw_config_findpatch_def quiet_brcm_def quiet_os_def join_path_def
        hw_config_findpatch_in.simps sample_patch_def record_ok_def)
  have l: "HCI_VSC_LAUNCH_RAM \<notin> set (map fst (butlast sample_patch))" by (simp add: sample_patch_def)
  from brcm_bringup [OF cooperative_quiet c es p l] show ?thesis unfolding a by simp
qed

text \<open>(C2) Refinement: in cooperative surroundings one call of the handler on a successful
  completion event is one step of the abstract bring-up machine, for every stage: the code ends
  at the stage the machine says, has transmitted exactly the machine's commands, and reports
  success exactly when the machine is done.\<close>

theorem brcm_handler_refines:
  assumes "cooperative s" and "at_stage s st" and "completes e op" and "accepts st op"
    and "st = S_name \<longrightarrow> patch_answer s e patch" and "st = S_rdaddr \<longrightarrow> USE_CONTROLLER_BDADDR cfg"
  shows "\<exists>t new. hw_config_cback cfg e s = Some t
    \<and> at_stage t (fst (bringup_next cfg (vnd_local_bd_addr s) patch (otp_answer e) st))
    \<and> calls t = calls s @ new
    \<and> xmits new = snd (bringup_next cfg (vnd_local_bd_addr s) patch (otp_answer e) st)
    \<and> fwcfg_results new = (if fst (bringup_next cfg (vnd_local_bd_addr s) patch (otp_answer e) st) = S_done
                           then [BT_VND_OP_RESULT_SUCCESS] else [])"
  using cback_refines [OF assms(1-4), of patch cfg] assms(5,6) by (auto simp: grows_def stage_report_def)

theorem brcm_handler_refines_witness:
  "\<exists>t new. hw_config_cback gs702a_brcm_cfg (evt_complete 7 HCI_RESET 0 []) (hw_config_start (quiet_brcm Map.empty)) = Some t
    \<and> at_stage t (S_baud False) \<and> calls t = calls (hw_config_start (quiet_brcm Map.empty)) @ new
    \<and> xmits new = [cmd_baud gs702a_brcm_cfg]"
proof -
  let ?s = "hw_config_start (quiet_brcm Map.empty)"
  have g: "grows (quiet_brcm Map.empty) ?s [cmd_of HCI_RESET []] []" and at: "at_stage ?s S_reset"
    using start_stage [OF cooperative_quiet] by blast+
  note s = grows_keeps(1) [OF g cooperative_quiet] at
  from brcm_handler_refines [OF s completes_evt_complete, of HCI_RESET 7 "[]" None gs702a_brcm_cfg] show ?thesis
    by (auto simp: bringup_speed_def gs702a_brcm_cfg_def)
qed


text \<open>(C26) Buffer ownership of the configuration handler: over any sequence of events, with
  allocations and transmissions failing or not, the handler gives away every event buffer it
  receives exactly once and every command buffer it allocates exactly once (freed or handed to
  the transport): nothing leaks and nothing is freed twice.\<close>

theorem brcm_config_buffers:
  assumes "cbacks_ok s" and "cfg_inv s" and "open_ok (os s)"
    and "runs (\<lambda>s e t. hw_config_cback cfg e s = Some t) s es t"
  shows "\<exists>new. calls t = calls s @ new \<and> (\<forall>a. net new a = - int (count_list (map evt_addr es) a))"
  by (rule brcm_config.run_contract [OF assms(4)]) (use assms in \<open>simp add: handler_ok_def\<close>)

theorem brcm_config_buffers_witness:
  "\<exists>t new. runs (\<lambda>s e t. hw_config_cback gs702a_brcm_cfg e s = Some t)
       ((quiet_brcm Map.empty)\<lparr>hw_cfg_cb := \<lparr>hw_state = HW_CFG_SET_BD_ADDR, fw_fd = 4, f_set_baud_2 = True, local_chip_name = []\<rparr>\<rparr>)
       [evt_complete 9 HCI_VSC_WRITE_BD_ADDR 0 []] t
     \<and> calls t = new \<and> net new 9 = -1 \<and> net new 0 = 0"
proof -
  let ?s = "(quiet_brcm Map.empty)\<lparr>hw_cfg_cb := \<lparr>hw_state = HW_CFG_SET_BD_ADDR, fw_fd = 4, f_set_baud_2 = True,
    local_chip_name = []\<rparr>\<rparr>"
  let ?e = "evt_complete 9 HCI_VSC_WRITE_BD_ADDR 0 []"
  have s: "cbacks_ok ?s" "cfg_inv ?s" "open_ok (os ?s)"
    by (simp_all add: quiet_brcm_def cbacks_ok_def xmit_bool_def quiet_cbacks_def cfg_inv_def open_ok_def quiet_os_def)
  have "hw_config_cback gs702a_brcm_cfg ?e ?s \<noteq> None"
    by (simp add: hw_config_cback_def evt_complete_def UINT16_TO_STREAM_def vnd_alloc_def quiet_brcm_def quiet_cbacks_def
        hw_config_switch_def cfg_set_bd_addr_def Let_def)
  then obtain t where "hw_config_cback gs702a_brcm_cfg ?e ?s = Some t" by blast
  then have r: "runs (\<lambda>s e t. hw_config_cback gs702a_brcm_cfg e s = Some t) ?s [?e] t" by (simp add: runs_cons runs_nil)
  from brcm_config_buffers [OF s r] obtain new where
    "calls t = calls ?s @ new" "\<And>a. net new a = - int (count_list (map evt_addr [?e]) a)" by blast
  then have "calls t = new" "net new 9 = -1" "net new 0 = 0" by (simp_all add: quiet_brcm_def evt_complete_def)
  then show ?thesis by (intro exI [of _ t] exI [of _ new] conjI r)
qed

lemma config_run_fds:
  assumes "runs (config_step cfg) s es t" and "handler_ok s"
  shows "handler_ok t \<and> open_fds (calls t) - fd_count t = open_fds (calls s) - fd_count s"
  using assms
proof (induction rule: runs.induct)
  case (runs_cons s e t es u)
  have "cback_post e s t" using runs_cons.hyps(1) runs_cons.prems
    by (intro hw_config_cback_post) (auto simp: handler_ok_def)
  then have "open_fds (calls t) - fd_count t = open_fds (calls s) - fd_count s" by (auto simp: cback_post_def)
  with runs_cons.IH handler_ok_step [OF runs_cons.prems runs_cons.hyps(1)] show ?case by simp
qed simp

lemma start_fds:
  assumes "cbacks_ok s" and "open_ok (os s)"
  shows "handler_ok (hw_config_start s) \<and> open_fds (calls (hw_config_start s)) = open_fds (calls s)
    \<and> fd_count (hw_config_start s) = 0"
  using assms by (auto simp: hw_config_start_def vnd_alloc_def vnd_xmit_def vnd_notify_def handler_ok_def cbacks_ok_def
      cfg_inv_def hw_simps Let_def split: option.splits)



text \<open>Every call of the handler either reports nothing and the configuration goes on, or
  reports exactly one result and the configuration is over, with the patch file closed.\<close>

theorem brcm_one_report:
  assumes "cbacks_ok s" and "cfg_inv s" and "open_ok (os s)" and "hw_config_cback cfg e s = Some t"
  shows "\<exists>new. calls t = calls s @ new
     \<and> (if hw_state (hw_cfg_cb t) = HW_CFG_IDLE then fw_fd (hw_cfg_cb t) = -1 \<and> (\<exists>r. fwcfg_results new = [r])
        else fwcfg_results new = [])"
  using hw_config_cback_post [OF assms] by (auto simp: cback_post_def cfg_inv_def split: if_splits)

theorem brcm_one_report_witness:
  "\<exists>t. hw_config_cback gs702a_brcm_cfg (evt_complete 9 HCI_RESET 1 []) (quiet_brcm Map.empty) = Some t
     \<and> fw_fd (hw_cfg_cb t) = -1"
proof -
  let ?s = "quiet_brcm Map.empty" and ?e = "evt_complete 9 HCI_RESET 1 []"
  have s: "cbacks_ok ?s" "cfg_inv ?s" "open_ok (os ?s)"
    by (simp_all add: quiet_brcm_def cbacks_ok_def xmit_bool_def quiet_cbacks_def cfg_inv_def open_ok_def quiet_os_def)
  have "\<exists>t. hw_config_cback gs702a_brcm_cfg ?e ?s = Some t \<and> hw_state (hw_cfg_cb t) = HW_CFG_IDLE"
    by (simp add: hw_config_cback_def evt_complete_def UINT16_TO_STREAM_def hw_config_abort_def Let_def)
  then obtain t where t: "hw_config_cback gs702a_brcm_cfg ?e ?s = Some t" "hw_state (hw_cfg_cb t) = HW_CFG_IDLE"
    by blast
  from brcm_one_report [OF s t(1)] t show ?thesis by auto
qed

text \<open>(C31) A completion event with an error status aborts the configuration in every state:
  nothing is transmitted, FAIL is reported exactly once, the event buffer is freed, an open patch
  file is closed and the handler is idle.\<close>

theorem brcm_error_status_aborts:
  assumes "bt_vendor_cbacks s \<noteq> None" and "evt_data e ! 5 \<noteq> 0"
  shows "\<exists>t. hw_config_cback cfg e s = Some t \<and> hw_state (hw_cfg_cb t) = HW_CFG_IDLE \<and> fw_fd (hw_cfg_cb t) = -1
    \<and> calls t = calls s @ [Dealloc (evt_addr e), Fwcfg_cb BT_VND_OP_RESULT_FAIL]
        @ (if fw_fd (hw_cfg_cb s) = -1 then [] else [Sys_close (fw_fd (hw_cfg_cb s))])"
  using assms by (auto simp: hw_config_cback_def hw_config_abort_def vnd_dealloc_def vnd_notify_def close_fw_fd_def
      sys_close_def upd_hw_def Let_def)

theorem brcm_error_status_aborts_witness:
  "\<exists>t. hw_config_cback gs702a_brcm_cfg (evt_complete 9 HCI_RESET 1 []) (quiet_brcm Map.empty) = Some t
     \<and> calls t = [Dealloc 9, Fwcfg_cb BT_VND_OP_RESULT_FAIL]"
  using brcm_error_status_aborts [of "quiet_brcm Map.empty" "evt_complete 9 HCI_RESET 1 []" gs702a_brcm_cfg]
  by (auto simp: quiet_brcm_def evt_complete_def UINT16_TO_STREAM_def)

lemma chip_prefix_not_zero:
  "char_of (0::nat) \<notin> set chip \<Longrightarrow> tried_name chip q \<Longrightarrow> char_of (0::nat) \<notin> set q"
  by (auto simp: tried_name_def)



text \<open>A failing read of the patch file is not recognised: \<open>read\<close> returns \<open>-1\<close>, which the
  16 bit length field turns into 65535, so the handler goes on and hands the transport a command
  whose length field is 65534, far beyond the buffer of 258 bytes.\<close>

theorem patch_read_error_sends_garbage:
  assumes "bt_vendor_cbacks s = Some cb" and "\<forall>h fd. os_read_err (os s) h fd"
    and "cb_alloc cb (calls s) 258 = Some (p, mem)" and "hw_state (hw_cfg_cb s) = HW_CFG_DL_FW_PATCH"
    and "evt_data e ! 5 = 0" and "STREAM_TO_UINT16 (evt_data e) 3 \<noteq> HCI_VSC_LAUNCH_RAM"
  shows "\<exists>t op b r. hw_config_cback cfg e s = Some t \<and> Xmit op p b r \<in> set (calls t) \<and> hdr_len b = 65534
    \<and> hdr_data b = mem"
proof -
  let ?fd = "fw_fd (hw_cfg_cb s)" and ?n = "unat (mem ! 2)"
  let ?b = "(fresh_cmd mem)\<lparr>hdr_len := 65534\<rparr>" and ?op = "STREAM_TO_UINT16 mem 0"
  let ?s = "s\<lparr>calls := calls s @ [Alloc 258 (Some p), Sys_read ?fd 3, Sys_read ?fd ?n]\<rparr>"
  obtain r where x: "vnd_xmit ?op p ?b ?s = (r, ?s\<lparr>calls := calls ?s @ [Xmit ?op p ?b r]\<rparr>)"
    using assms(1) by (simp add: vnd_xmit_def Let_def)
  let ?u = "?s\<lparr>calls := calls ?s @ [Xmit ?op p ?b r]\<rparr>"
  have wrap: "(131070 :: u16) = 65534" by simp
  have "hw_config_switch cfg e (STREAM_TO_UINT16 (evt_data e) 3) p (fresh_cmd mem) (s\<lparr>calls := calls s @ [Alloc 258 (Some p)]\<rparr>)
      = Some (r, ?u)"
    unfolding x [symmetric] using assms(2,4,6) read_len_None
    by (simp add: hw_config_switch_def cfg_dl_fw_patch_def sys_read_def put_read_def fresh_cmd_def Let_def wrap)
  then have "hw_config_cback cfg e s = Some (let v = vnd_dealloc (evt_addr e) ?u in
      if r = C_FALSE then hw_config_abort (Some p) v else v)"
    using assms(1,3,5) by (simp add: hw_config_cback_def vnd_alloc_def Let_def)
  moreover have "Xmit ?op p ?b r \<in> set (calls (let v = vnd_dealloc (evt_addr e) ?u in
      if r = C_FALSE then hw_config_abort (Some p) v else v))"
    using assms(1) by (simp add: vnd_dealloc_def hw_config_abort_def vnd_notify_def close_fw_fd_def sys_close_def upd_hw_def Let_def)
  ultimately show ?thesis by (intro exI conjI) (assumption+, simp_all add: fresh_cmd_def)
qed

theorem patch_read_error_sends_garbage_witness:
  "\<exists>t op b r. hw_config_cback gs702a_brcm_cfg (evt_complete 9 0xFC4C 0 [])
       ((quiet_brcm Map.empty)\<lparr>os := (quiet_os Map.empty)\<lparr>os_read_err := (\<lambda>h fd. True)\<rparr>,
          hw_cfg_cb := \<lparr>hw_state = HW_CFG_DL_FW_PATCH, fw_fd = 4, f_set_baud_2 = False, local_chip_name = []\<rparr>\<rparr>) = Some t
     \<and> Xmit op 0 b r \<in> set (calls t) \<and> hdr_len b = 65534 \<and> hdr_data b = []"
  by (rule patch_read_error_sends_garbage [where cb = quiet_cbacks])
    (simp_all add: quiet_brcm_def quiet_cbacks_def evt_complete_def UINT16_TO_STREAM_def STREAM_TO_UINT16_def)

lemma name_toupper_None: "name_toupper i bs = None \<longleftrightarrow> (\<forall>k < length bs. 32 \<le> i + k \<longrightarrow> bs ! k \<noteq> 0)"
proof (induction bs arbitrary: i)
  case (Cons b bs)
  have "(\<forall>k < length (b # bs). P k) \<longleftrightarrow> P 0 \<and> (\<forall>k < length bs. P (Suc k))" for P
    by (auto simp: less_Suc_eq_0_disj)
  then show ?case using Cons by auto
qed simp

text \<open>Upper-casing the chip name stays inside the event exactly when the name field has a
  zero byte at index 32 or later: the loop runs on while the index is below 32 or the byte is
  not zero, so a name that ends earlier does not stop it.\<close>

theorem local_name_overrun:
  assumes "bt_vendor_cbacks s = Some cb" and "cb_alloc cb (calls s) 258 \<noteq> None"
    and "hw_state (hw_cfg_cb s) = HW_CFG_READ_LOCAL_NAME" and "evt_data e ! 5 = 0"
  shows "hw_config_cback cfg e s = None \<longleftrightarrow>
     (\<forall>k < length (evt_data e) - 6. 32 \<le> k \<longrightarrow> evt_data e ! (6 + k) \<noteq> 0)"
proof -
  from assms(2) obtain p mem where a: "cb_alloc cb (calls s) 258 = Some (p, mem)" by fastforce
  have "hw_config_cback cfg e s = None \<longleftrightarrow> name_toupper 0 (drop 6 (evt_data e)) = None"
    using assms a by (auto simp: hw_config_cback_def vnd_alloc_def hw_config_switch_def cfg_read_local_name_def Let_def
        split: option.splits prod.splits)
  then show ?thesis by (simp add: name_toupper_None)
qed

theorem local_name_overrun_witness:
  "hw_config_cback gs702a_brcm_cfg (evt_complete 9 HCI_READ_LOCAL_NAME 0 (bytes_of ''BCM20710A1'' @ [0]))
     ((quiet_brcm Map.empty)\<lparr>hw_cfg_cb := \<lparr>hw_state = HW_CFG_READ_LOCAL_NAME, fw_fd = -1, f_set_baud_2 = False,
        local_chip_name = []\<rparr>\<rparr>) = None"
  by (subst local_name_overrun [where cb = quiet_cbacks])
    (simp_all add: quiet_brcm_def quiet_cbacks_def evt_complete_def UINT16_TO_STREAM_def bytes_of_def)

text \<open>Switching the low power mode: one command \<open>HCI_VSC_WRITE_SLEEP_MODE\<close> with 12
  parameter bytes, the configured ones or zeros; the buffer is handed over or freed, exactly
  once; FAIL is reported at once exactly when nothing could be sent, which is also the return
  value.\<close>

theorem lpm_enable_spec:
  assumes "cbacks_ok s"
  shows "\<exists>new. calls (snd (hw_lpm_enable cfg on s)) = calls s @ new \<and> (\<forall>a. net new a = 0)
    \<and> (fst (hw_lpm_enable cfg on s) = 0 \<longleftrightarrow> Lpm_cb BT_VND_OP_RESULT_FAIL \<in> set new)
    \<and> (fst (hw_lpm_enable cfg on s) \<noteq> 0 \<longrightarrow> xmits new = [cmd_of HCI_VSC_WRITE_SLEEP_MODE
          (if on \<noteq> 0 then lpm_param_bytes (lpm_param cfg) else replicate 12 0)])"
proof -
  from cbacks_ok_Some [OF assms] obtain cb where cb: "bt_vendor_cbacks s = Some cb" by blast
  let ?params = "if on \<noteq> 0 then lpm_param_bytes (lpm_param cfg) else replicate 12 0"
  have len: "length ?params = 12" by (simp add: lpm_param_bytes_def)
  show ?thesis
  proof (cases "cb_alloc cb (calls s) 15")
    case None
    then show ?thesis using cb by (simp add: hw_lpm_enable_def vnd_alloc_def vnd_notify_def Let_def)
  next
    case (Some pm)
    obtain p mem where pm: "pm = (p, mem)" by fastforce
    let ?s = "s\<lparr>calls := calls s @ [Alloc 15 (Some p)]\<rparr>"
    let ?t = "upio_set cfg UPIO_LPM_MODE (if on \<noteq> 0 then UPIO_ASSERT else UPIO_DEASSERT) 0 ?s"
    from upio_set_calls [of cfg UPIO_LPM_MODE "if on \<noteq> 0 then UPIO_ASSERT else UPIO_DEASSERT" 0 ?s]
    obtain new where new: "calls ?t = calls ?s @ new" "\<And>x. net new x = 0" "xmits new = []"
        by blast
    have lpm: "Lpm_cb r \<notin> set new" for r
      using upio_set_no_lpm [of cfg UPIO_LPM_MODE "if on \<noteq> 0 then UPIO_ASSERT else UPIO_DEASSERT" 0 ?s new r] new(1)
      by simp
    have tcb: "bt_vendor_cbacks ?t = Some cb" using cb by simp
    define b where "b = set_cmd (UINT16_TO_STREAM HCI_VSC_WRITE_SLEEP_MODE @ [12] @ ?params) (fresh_cmd mem)"
    have w: "wire b = UINT16_TO_STREAM HCI_VSC_WRITE_SLEEP_MODE @ 12 # ?params"
      unfolding b_def using len by (subst wire_set_cmd) simp_all
    have "hw_lpm_enable cfg on s = (let r = cb_xmit cb (calls ?t) HCI_VSC_WRITE_SLEEP_MODE b;
         u = ?t\<lparr>calls := calls ?t @ [Xmit HCI_VSC_WRITE_SLEEP_MODE p b r]\<rparr> in
         (r, if r = 0 then u\<lparr>calls := calls u @ [Dealloc p, Lpm_cb BT_VND_OP_RESULT_FAIL]\<rparr> else u))"
      using Some pm cb tcb unfolding b_def
      by (simp add: hw_lpm_enable_def vnd_alloc_def vnd_xmit_def vnd_dealloc_def vnd_notify_def Let_def)
    then show ?thesis using new w len lpm by (auto simp: Let_def cmd_of_def)
  qed
qed

theorem lpm_enable_spec_witness:
  "\<exists>new. calls (snd (hw_lpm_enable gs702a_brcm_cfg 1 (quiet_brcm (\<lambda>_. Some [])))) = new \<and> (\<forall>a. net new a = 0)"
  using lpm_enable_spec [of "quiet_brcm (\<lambda>_. Some [])" gs702a_brcm_cfg 1]
  by (auto simp: quiet_brcm_def cbacks_ok_def xmit_bool_def quiet_cbacks_def)

end
