(* ===== verification/Vendor_Interface.thy ===== *)
theory Vendor_Interface
  imports Upio
begin

text \<open>
  The interface \<open>bt_vendor_interface_t\<close> between the Bluetooth stack and a vendor library: the
  requests of \<open>op\<close> with their parameters, what a request writes through its parameter, and the
  contract every library keeps towards the stack, the locale \<open>vendor_lib\<close>: a request neither
  registers nor unregisters the callbacks, and a library without registered callbacks makes no
  call into the stack.
\<close>

section \<open>Requests\<close>

datatype vnd_power = BT_VND_PWR_OFF | BT_VND_PWR_ON | Pwr_other

datatype vnd_wake = BT_VND_LPM_WAKE_ASSERT | BT_VND_LPM_WAKE_DEASSERT

datatype vnd_op =
    BT_VND_OP_POWER_CTRL vnd_power | BT_VND_OP_FW_CFG | BT_VND_OP_SCO_CFG | BT_VND_OP_USERIAL_OPEN
  | BT_VND_OP_USERIAL_CLOSE | BT_VND_OP_GET_LPM_IDLE_TIMEOUT | BT_VND_OP_LPM_SET_MODE u8
  | BT_VND_OP_LPM_WAKE_SET_STATE vnd_wake

text \<open>What a request stores through \<open>param\<close>.\<close>

datatype vnd_out = Out_none | Out_fds "int list" | Out_timeout u32

text \<open>Calls into the stack.\<close>

fun is_stack_call :: "call \<Rightarrow> bool" where
  "is_stack_call (Alloc n r) = True"
| "is_stack_call (Dealloc a) = True"
| "is_stack_call (Xmit op a b r) = True"
| "is_stack_call (Fwcfg_cb r) = True"
| "is_stack_call (Scocfg_cb r) = True"
| "is_stack_call (Lpm_cb r) = True"
| "is_stack_call _ = False"

section \<open>The contract\<close>

locale vendor_lib =
  fixes request :: "'s \<Rightarrow> vnd_op \<Rightarrow> 's \<Rightarrow> bool"
    and hist :: "'s \<Rightarrow> history"
    and registered :: "'s \<Rightarrow> bool"
  assumes request_registered: "request s r t \<Longrightarrow> registered t = registered s"
    and request_hist: "request s r t \<Longrightarrow> \<exists>new. hist t = hist s @ new
          \<and> (\<not> registered s \<longrightarrow> list_all (\<lambda>c. \<not> is_stack_call c) new)"
begin

lemma run_registered: "runs request s rs t \<Longrightarrow> registered t = registered s"
  by (induction rule: runs.induct) (auto dest: request_registered)

lemma run_unregistered_quiet:
  "runs request s rs t \<Longrightarrow> \<not> registered s \<Longrightarrow>
     \<exists>new. hist t = hist s @ new \<and> list_all (\<lambda>c. \<not> is_stack_call c) new"
proof (induction rule: runs.induct)
  case (runs_cons s e t es u)
  from request_hist [OF runs_cons.hyps(1)] runs_cons.prems obtain new1 where
    1: "hist t = hist s @ new1" "list_all (\<lambda>c. \<not> is_stack_call c) new1" by blast
  from runs_cons.IH request_registered [OF runs_cons.hyps(1)] runs_cons.prems obtain new2 where
    2: "hist u = hist t @ new2" "list_all (\<lambda>c. \<not> is_stack_call c) new2" by blast
  show ?case using 1 2 by (intro exI [of _ "new1 @ new2"]) simp
qed simp

end

section \<open>Power control and serial port as parts of a request\<close>

text \<open>A part of a request that only talks to the system.\<close>

definition sys_only :: "'a platform_scheme \<Rightarrow> 'a platform_scheme \<Rightarrow> bool" where
  "sys_only s t \<longleftrightarrow> bt_vendor_cbacks t = bt_vendor_cbacks s
     \<and> (\<exists>new. calls t = calls s @ new \<and> list_all (\<lambda>c. \<not> is_stack_call c) new)"

lemma sys_only_refl [simp]: "sys_only s s"
  by (simp add: sys_only_def)

lemma sys_only_trans: "sys_only s t \<Longrightarrow> sys_only t u \<Longrightarrow> sys_only s u"
  unfolding sys_only_def
proof (elim conjE exE)
  fix new1 new2
  assume "bt_vendor_cbacks t = bt_vendor_cbacks s" "bt_vendor_cbacks u = bt_vendor_cbacks t"
    "calls t = calls s @ new1" "calls u = calls t @ new2"
    "list_all (\<lambda>c. \<not> is_stack_call c) new1" "list_all (\<lambda>c. \<not> is_stack_call c) new2"
  then show "bt_vendor_cbacks u = bt_vendor_cbacks s
      \<and> (\<exists>new. calls u = calls s @ new \<and> list_all (\<lambda>c. \<not> is_stack_call c) new)"
    by (intro conjI exI [of _ "new1 @ new2"]) simp_all
qed

lemma sys_only_sys [simp]:
  "sys_only s (snd (sys_open p m s))" "sys_only s (snd (sys_read fd n s))"
  "sys_only s (snd (sys_write fd bs s))" "sys_only s (sys_close fd s)"
  by (simp_all add: sys_only_def sys_open_def sys_read_def sys_write_def sys_close_def Let_def)

lemma if_Some_cases:
  "(if a then Some x else if b then Some y else z) = Some r \<Longrightarrow> r = x \<or> r = y \<or> z = Some r"
  by (auto split: if_splits)

lemma init_rfkill_loop_sys_only:
  fixes s :: "'a upio_st_scheme"
  assumes "init_rfkill_loop i s = Some (r, t)"
  shows "sys_only s t"
proof -
  have "sys_only s (snd (r, t))"
  proof (rule init_rfkill_loop.raw_induct [where P = "\<lambda>i s rt. sys_only s (snd rt)", OF _ assms])
    fix loop :: "nat \<Rightarrow> 'a upio_st_scheme \<Rightarrow> (int \<times> 'a upio_st_scheme) option" and i s rt
    assume 1: "\<And>i s y. loop i s = Some y \<Longrightarrow> sys_only s (snd y)"
      "(let r1 = sys_open (rfkill_type_path i) O_RDONLY s; fd = fst r1; s1 = snd r1 in
      if fd < 0 then Some (-1, s1)
      else
        let r2 = sys_read fd 16 s1; s2 = sys_close fd (snd r2) in
        if is_bluetooth_type (fst r2)
        then Some (0, s2\<lparr>rfkill_id := int i, rfkill_state_path := Some (rfkill_state_name i)\<rparr>)
        else loop (Suc i) s2) = Some rt"
    let ?s1 = "snd (sys_open (rfkill_type_path i) O_RDONLY s)" and ?fd = "fst (sys_open (rfkill_type_path i) O_RDONLY s)"
    let ?s2 = "sys_close ?fd (snd (sys_read ?fd 16 ?s1))"
    have 2: "sys_only s ?s2" by (meson sys_only_sys sys_only_trans)
    have eq: "(if ?fd < 0 then Some (-1, ?s1) else if is_bluetooth_type (fst (sys_read ?fd 16 ?s1))
        then Some (0, ?s2\<lparr>rfkill_id := int i, rfkill_state_path := Some (rfkill_state_name i)\<rparr>)
        else loop (Suc i) ?s2) = Some rt"
      using "1"(2) by (simp only: Let_def)
    consider "rt = (-1, ?s1)" | "rt = (0, ?s2\<lparr>rfkill_id := int i, rfkill_state_path := Some (rfkill_state_name i)\<rparr>)"
      | "loop (Suc i) ?s2 = Some rt"
      using if_Some_cases [OF eq] by blast
    then show "sys_only s (snd rt)"
    proof cases
      case 2
      with \<open>sys_only s ?s2\<close> show ?thesis by (simp add: sys_only_def)
    next
      case 3
      from 2 "1"(1) [OF 3] show ?thesis by (rule sys_only_trans)
    qed simp
  qed
  then show ?thesis by simp
qed

lemma power_write_sys_only: "sys_only s (snd (power_write on s))"
  by (auto simp: power_write_def sys_only_def sys_open_def sys_write_def sys_close_def Let_def)

lemma set_power_sys_only: "upio_set_bluetooth_power on s = Some (r, t) \<Longrightarrow> sys_only s t"
proof -
  assume *: "upio_set_bluetooth_power on s = Some (r, t)"
  have 1: "sys_only s v" if "init_rfkill s = Some (x, v)" for x v
    using that init_rfkill_loop_sys_only by (auto simp: init_rfkill_def split: if_splits)
  have 2: "sys_only u t" if "power_write on u = (r, t)" for u
    using power_write_sys_only [of u on] that by simp
  have 3: "sys_only s (s\<lparr>bt_emul_enable := on\<rparr>)" by (simp add: sys_only_def)
  show ?thesis using * 3 sys_only_trans [OF 1 2]
    by (auto simp: upio_set_bluetooth_power_def split: if_splits option.splits intro: 1 2)
qed

lemma io_call_sys: "list_all io_call cs \<Longrightarrow> list_all (\<lambda>c. \<not> is_stack_call c) cs"
proof (induction cs)
  case (Cons c cs)
  then show ?case by (cases c) auto
qed simp

lemma upio_set_sys_only: "sys_only s (upio_set cfg pio a p s)"
  using upio_set_io [of cfg pio a p s] by (auto simp: sys_only_def io_call_sys)

lemma upio_cleanup_hist:
  "sys_only s (upio_cleanup cfg s)"
  by (auto simp: sys_only_def upio_cleanup_def delete_timer_def set_timer_created_def)

lemma sys_only_userial [intro!]:
  "sys_only s t \<Longrightarrow> sys_only s (tcflush fd t)"
  "sys_only s t \<Longrightarrow> sys_only s (userial_tcsetattr t)"
  "sys_only s t \<Longrightarrow> sys_only s (userial_tcgetattr t)"
  "sys_only s t \<Longrightarrow> sys_only s (set_userial_termios tio t)"
  "sys_only s t \<Longrightarrow> sys_only s (set_userial_fd fd t)"
  "sys_only s t \<Longrightarrow> sys_only s (userial_ioctl_init_bt_wake fd t)"
  by (erule sys_only_trans, simp add: sys_only_def userial_defs Let_def)+

lemma userial_apply_sys_only [intro!]: "sys_only s t \<Longrightarrow> sys_only s (userial_apply b t)"
  by (auto simp: userial_apply_def Let_def)

lemma userial_open_sys_only: "sys_only s (snd (userial_vendor_open cfg c s))"
proof -
  have "sys_only s (set_userial_fd (-1) s)" by (rule sys_only_userial(5)) simp
  then have "sys_only s (snd (sys_open p m (set_userial_fd (-1) s)))" for p m by (rule sys_only_trans) simp
  then show ?thesis by (auto simp: userial_vendor_open_def Let_def split_beta split: option.split)
qed

lemma rtk_userial_open_sys_only: "sys_only s (snd (rtk_userial_vendor_open cfg c s))"
proof -
  have "sys_only s (set_userial_fd (-1) s)" by (rule sys_only_userial(5)) simp
  then have "sys_only s (snd (sys_open p m (set_userial_fd (-1) s)))" for p m by (rule sys_only_trans) simp
  then show ?thesis by (auto simp: rtk_userial_vendor_open_def Let_def split_beta split: option.split)
qed

lemma userial_close_sys_only: "sys_only s (userial_vendor_close cfg s)"
  by (auto simp: sys_only_def userial_vendor_close_def set_userial_fd_def sys_ioctl_def sys_close_def Let_def)

end
