(* ===== verification/Brcm_Vendor.thy ===== *)
theory Brcm_Vendor
  imports Brcm_Bringup Vendor_Interface
begin

text \<open>
  The run-time configuration of the AP6210 library (\<open>conf.c\<close>: \<open>bt_vendor.conf\<close> read line by line,
  split by \<open>strtok\<close>, dispatched through a table of actions) and its entry points
  (\<open>bt_vendor_brcm.c\<close>: \<open>init\<close>, \<open>op\<close>, \<open>cleanup\<close>).  The library keeps the contract
  \<open>vendor_lib\<close>.
\<close>

section \<open>Reading lines and tokens\<close>

abbreviation (input) CONF_COMMENT :: char where "CONF_COMMENT \<equiv> CHR ''#''"
abbreviation (input) CONF_MAX_LINE_LEN :: nat where "CONF_MAX_LINE_LEN \<equiv> 255"

definition CONF_DELIMITERS :: string where
  "CONF_DELIMITERS = [CHR '' '', CHR ''='', LF, CHR 0x0D, CHR 0x09]"

function conf_lines :: "string \<Rightarrow> string list" where
  "conf_lines cs =
     (if cs = [] then []
      else (let (l, r) = fgets CONF_MAX_LINE_LEN cs in l # conf_lines r))"
  by pat_completeness auto
termination
proof (relation "measure length")
  fix cs :: string and lr l r
  assume "cs \<noteq> []" "lr = fgets CONF_MAX_LINE_LEN cs" "(l, r) = lr"
  then show "(r, cs) \<in> measure length"
    using fgets_shorter [of cs CONF_MAX_LINE_LEN] by (metis in_measure snd_conv zero_less_numeral)
qed simp

declare conf_lines.simps [simp del]

text \<open>\<open>strtok\<close>: skip delimiters, then the longest token; \<open>None\<close> at the end of the string.  The
  delimiter behind the token is consumed.\<close>

definition strtok :: "string \<Rightarrow> (string \<times> string) option" where
  "strtok s =
     (let t = dropWhile (\<lambda>c. c \<in> set CONF_DELIMITERS) s in
      if t = [] then None
      else Some (takeWhile (\<lambda>c. c \<notin> set CONF_DELIMITERS) t, drop 1 (dropWhile (\<lambda>c. c \<notin> set CONF_DELIMITERS) t)))"

section \<open>The configuration file\<close>

definition conf_table :: "brcm_cfg \<Rightarrow> (string \<times> (string \<Rightarrow> brcm_st \<Rightarrow> brcm_st option)) list" where
  "conf_table cfg =
     [(''UartPort'', userial_set_port), (''FwPatchFilePath'', hw_set_patch_file_path),
      (''FwPatchFileName'', hw_set_patch_file_name)]
     @ (if VENDOR_LIB_RUNTIME_TUNING_ENABLED cfg
        then [(''FwPatchSettlementDelay'', hw_set_patch_settlement_delay)] else [])"

text \<open>The body of the loop on one line, a C string.  \<open>None\<close> when an action overflows its
  array.\<close>

definition conf_line :: "brcm_cfg \<Rightarrow> string \<Rightarrow> brcm_st \<Rightarrow> brcm_st option" where
  "conf_line cfg buf s =
     (let line = takeWhile (\<lambda>c. c \<noteq> char_of (0::nat)) buf in
      if cchar line 0 = CONF_COMMENT then Some s
      else case strtok line of
        None \<Rightarrow> Some s
      | Some (p_name, rest) \<Rightarrow>
         (case strtok rest of
            None \<Rightarrow> Some s
          | Some (p_value, _) \<Rightarrow>
             (case map_of (conf_table cfg) p_name of
                None \<Rightarrow> Some s
              | Some p_action \<Rightarrow> p_action p_value s)))"

fun conf_loop :: "brcm_cfg \<Rightarrow> string list \<Rightarrow> brcm_st \<Rightarrow> brcm_st option" where
  "conf_loop cfg [] s = Some s"
| "conf_loop cfg (l # ls) s = (case conf_line cfg l s of None \<Rightarrow> None | Some t \<Rightarrow> conf_loop cfg ls t)"

definition vnd_load_conf :: "brcm_cfg \<Rightarrow> string \<Rightarrow> brcm_st \<Rightarrow> brcm_st option" where
  "vnd_load_conf cfg p_path s =
     (let (fd, s) = sys_open p_path O_RDONLY s in
      if fd < 0 then Some s
      else map_option (sys_close fd) (conf_loop cfg (conf_lines (chars_of (fds s fd))) s))"

section \<open>Entry points\<close>

definition VENDOR_LIB_CONF_FILE :: string where
  "VENDOR_LIB_CONF_FILE = ''/etc/bluetooth/bt_vendor.conf''"

definition userial_init_cfg :: tUSERIAL_CFG where
  "userial_init_cfg = \<lparr>cfg_fmt = USERIAL_DATABITS_8 OR USERIAL_PARITY_NONE OR USERIAL_STOPBITS_1,
     cfg_baud = USERIAL_BAUD_115200, cfg_hw_fctrl = 0\<rparr>"

definition brcm_init ::
    "brcm_cfg \<Rightarrow> bt_vendor_callbacks_t option \<Rightarrow> u8 list \<Rightarrow> brcm_st \<Rightarrow> (int \<times> brcm_st) option" where
  "brcm_init cfg p_cb local_bdaddr s =
     (case p_cb of
        None \<Rightarrow> Some (-1, s)
      | Some cb \<Rightarrow>
         (case vnd_load_conf cfg VENDOR_LIB_CONF_FILE (upio_init cfg (userial_vendor_init cfg s)) of
            None \<Rightarrow> None
          | Some s \<Rightarrow> Some (0, s\<lparr>bt_vendor_cbacks := Some cb, vnd_local_bd_addr := take 6 local_bdaddr\<rparr>)))"

text \<open>\<open>ch_max\<close> is \<open>CH_MAX\<close> of the stack's interface header.\<close>

definition brcm_op :: "brcm_cfg \<Rightarrow> nat \<Rightarrow> vnd_op \<Rightarrow> brcm_st \<Rightarrow> (int \<times> vnd_out \<times> brcm_st) option" where
  "brcm_op cfg ch_max opcode s =
     (case opcode of
        BT_VND_OP_POWER_CTRL st \<Rightarrow>
          (case st of
             BT_VND_PWR_OFF \<Rightarrow> map_option (\<lambda>(r, s). (0, Out_none, s)) (upio_set_bluetooth_power UPIO_BT_POWER_OFF s)
           | BT_VND_PWR_ON \<Rightarrow> map_option (\<lambda>(r, s). (0, Out_none, s)) (upio_set_bluetooth_power UPIO_BT_POWER_ON s)
           | Pwr_other \<Rightarrow> Some (0, Out_none, s))
      | BT_VND_OP_FW_CFG \<Rightarrow> Some (0, Out_none, hw_config_start s)
      | BT_VND_OP_SCO_CFG \<Rightarrow>
          (if SCO_CFG_INCLUDED cfg then Some (0, Out_none, hw_sco_config cfg s) else Some (-1, Out_none, s))
      | BT_VND_OP_USERIAL_OPEN \<Rightarrow>
          (let (fd, s) = userial_vendor_open cfg userial_init_cfg s in
           if fd \<noteq> -1 then Some (1, Out_fds (replicate ch_max fd), s) else Some (0, Out_none, s))
      | BT_VND_OP_USERIAL_CLOSE \<Rightarrow> Some (0, Out_none, userial_vendor_close cfg s)
      | BT_VND_OP_GET_LPM_IDLE_TIMEOUT \<Rightarrow> Some (0, Out_timeout (hw_lpm_get_idle_timeout cfg s), s)
      | BT_VND_OP_LPM_SET_MODE mode \<Rightarrow>
          (let (ret, s) = hw_lpm_enable cfg mode s in Some (int (unat ret), Out_none, s))
      | BT_VND_OP_LPM_WAKE_SET_STATE state \<Rightarrow>
          Some (0, Out_none, hw_lpm_set_wake_state cfg (state = BT_VND_LPM_WAKE_ASSERT) s))"

definition brcm_cleanup :: "brcm_cfg \<Rightarrow> brcm_st \<Rightarrow> brcm_st" where
  "brcm_cleanup cfg s = (upio_cleanup cfg s)\<lparr>bt_vendor_cbacks := None\<rparr>"

definition brcm_request :: "brcm_cfg \<Rightarrow> nat \<Rightarrow> brcm_st \<Rightarrow> vnd_op \<Rightarrow> brcm_st \<Rightarrow> bool" where
  "brcm_request cfg ch_max s r t \<longleftrightarrow> (\<exists>ret out. brcm_op cfg ch_max r s = Some (ret, out, t))"

section \<open>Facts\<close>

lemma hw_config_start_request:
  "\<exists>new. calls (hw_config_start s) = calls s @ new \<and> bt_vendor_cbacks (hw_config_start s) = bt_vendor_cbacks s
     \<and> (bt_vendor_cbacks s = None \<longrightarrow> new = [])"
  by (auto simp: hw_config_start_def vnd_alloc_def vnd_xmit_def vnd_notify_def upd_hw_def Let_def split: option.split)

lemma hw_sco_config_request:
  "\<exists>new. calls (hw_sco_config cfg s) = calls s @ new \<and> bt_vendor_cbacks (hw_sco_config cfg s) = bt_vendor_cbacks s
     \<and> (bt_vendor_cbacks s = None \<longrightarrow> new = [])"
  by (cases "bt_vendor_cbacks s")
    (auto simp: hw_sco_config_def vnd_alloc_def vnd_xmit_def vnd_notify_def vnd_dealloc_def Let_def split_beta
      split: option.split)

lemma hw_lpm_enable_request:
  "\<exists>new. calls (snd (hw_lpm_enable cfg on s)) = calls s @ new
     \<and> bt_vendor_cbacks (snd (hw_lpm_enable cfg on s)) = bt_vendor_cbacks s
     \<and> (bt_vendor_cbacks s = None \<longrightarrow> new = [])"
proof (cases "bt_vendor_cbacks s")
  case None
  then show ?thesis by (simp add: hw_lpm_enable_def vnd_alloc_def vnd_notify_def Let_def)
next
  case (Some cb)
  have "\<exists>new. calls (upio_set cfg p a q t) = calls t @ new" for p a q and t :: brcm_st using upio_set_calls by blast
  then obtain f where f: "\<And>p a q t. calls (upio_set cfg p a q (t :: brcm_st)) = calls t @ f p a q t" by metis
  show ?thesis using Some
    by (auto simp: hw_lpm_enable_def vnd_alloc_def vnd_xmit_def vnd_notify_def vnd_dealloc_def Let_def split_beta f
        split: option.split)
qed

lemma brcm_request_step:
  assumes "brcm_request cfg ch_max s r t"
  shows "bt_vendor_cbacks t = bt_vendor_cbacks s" (is ?cb)
    and "\<exists>new. calls t = calls s @ new \<and> (bt_vendor_cbacks s = None \<longrightarrow> list_all (\<lambda>c. \<not> is_stack_call c) new)" (is ?hist)
proof -
  from assms obtain ret out where op: "brcm_op cfg ch_max r s = Some (ret, out, t)" by (auto simp: brcm_request_def)
  have sys: "?cb \<and> ?hist" if "sys_only s t" using that by (auto simp: sys_only_def)
  have "?cb \<and> ?hist"
  proof (cases r)
    case (BT_VND_OP_POWER_CTRL p)
    show ?thesis by (rule sys, cases p) (use op BT_VND_OP_POWER_CTRL set_power_sys_only in \<open>auto simp: brcm_op_def\<close>)
  next
    case BT_VND_OP_FW_CFG
    then show ?thesis using op hw_config_start_request [of s] by (auto simp: brcm_op_def)
  next
    case BT_VND_OP_SCO_CFG
    then show ?thesis using op hw_sco_config_request [of cfg s] by (auto simp: brcm_op_def split: if_splits)
  next
    case BT_VND_OP_USERIAL_OPEN
    then show ?thesis using op userial_open_sys_only [of s cfg userial_init_cfg]
      by (intro sys) (auto simp: brcm_op_def Let_def split: prod.splits if_splits)
  next
    case BT_VND_OP_USERIAL_CLOSE
    then show ?thesis using op userial_close_sys_only [of s cfg] by (intro sys) (auto simp: brcm_op_def)
  next
    case (BT_VND_OP_LPM_SET_MODE m)
    then show ?thesis using op hw_lpm_enable_request [of cfg m s] by (auto simp: brcm_op_def split_beta)
  next
    case (BT_VND_OP_LPM_WAKE_SET_STATE w)
    then show ?thesis using op
      by (intro sys) (auto simp: brcm_op_def hw_lpm_set_wake_state_def intro: upio_set_sys_only)
  qed (use op in \<open>auto simp: brcm_op_def\<close>)
  then show ?cb ?hist by auto
qed

interpretation brcm_lib: vendor_lib "brcm_request cfg ch_max" calls "\<lambda>s. bt_vendor_cbacks s \<noteq> None" for cfg ch_max
  by unfold_locales (use brcm_request_step in \<open>auto\<close>)


subsection \<open>Configuration files\<close>

definition clean_word :: "string \<Rightarrow> bool" where
  "clean_word w \<longleftrightarrow> w \<noteq> [] \<and> (\<forall>c \<in> set w. c \<notin> set CONF_DELIMITERS \<and> c \<noteq> char_of (0::nat))"

definition entry_ok :: "string \<times> string \<Rightarrow> bool" where
  "entry_ok nv \<longleftrightarrow> clean_word (fst nv) \<and> clean_word (snd nv) \<and> hd (fst nv) \<noteq> CONF_COMMENT
     \<and> length (fst nv) + length (snd nv) \<le> 253"

definition print_entry :: "string \<times> string \<Rightarrow> string" where
  "print_entry nv = fst nv @ CHR ''='' # snd nv @ [LF]"

definition print_conf :: "(string \<times> string) list \<Rightarrow> string" where
  "print_conf es = concat (map print_entry es)"

text \<open>What the entries of a file mean: the actions of the known names, in order.\<close>

fun conf_apply :: "brcm_cfg \<Rightarrow> (string \<times> string) list \<Rightarrow> brcm_st \<Rightarrow> brcm_st option" where
  "conf_apply cfg [] s = Some s"
| "conf_apply cfg ((n, v) # es) s =
     (case map_of (conf_table cfg) n of
        None \<Rightarrow> conf_apply cfg es s
      | Some act \<Rightarrow> (case act v s of None \<Rightarrow> None | Some t \<Rightarrow> conf_apply cfg es t))"

lemma conf_lines_print:
  "list_all entry_ok es \<Longrightarrow> conf_lines (print_conf es) = map print_entry es"
proof (induction es)
  case Nil
  show ?case by (subst conf_lines.simps) (simp add: print_conf_def)
next
  case (Cons nv es)
  let ?l = "fst nv @ CHR ''='' # snd nv"
  from Cons.prems have ok: "entry_ok nv" by simp
  then have "LF \<notin> set ?l" "length ?l < CONF_MAX_LINE_LEN"
    by (auto simp: entry_ok_def clean_word_def CONF_DELIMITERS_def)
  from fgets_line [OF this, of "print_conf es"]
  have "fgets CONF_MAX_LINE_LEN (print_conf (nv # es)) = (print_entry nv, print_conf es)"
    by (simp add: print_conf_def print_entry_def)
  moreover have "print_conf (nv # es) \<noteq> []" by (simp add: print_conf_def print_entry_def)
  ultimately show ?case using Cons by (subst conf_lines.simps) simp
qed

lemma strtok_word:
  assumes "clean_word w" and "c \<in> set CONF_DELIMITERS"
  shows "strtok (w @ c # rest) = Some (w, rest)"
proof -
  from assms(1) have w: "w \<noteq> []" "\<And>x. x \<in> set w \<Longrightarrow> x \<notin> set CONF_DELIMITERS" by (auto simp: clean_word_def)
  have 1: "dropWhile (\<lambda>c. c \<in> set CONF_DELIMITERS) (w @ c # rest) = w @ c # rest"
    using w by (cases w) auto
  have 2: "takeWhile (\<lambda>c. c \<notin> set CONF_DELIMITERS) (w @ c # rest) = w"
    using w(2) assms(2) by (simp add: takeWhile_append2)
  have 3: "dropWhile (\<lambda>c. c \<notin> set CONF_DELIMITERS) (w @ c # rest) = c # rest"
    using w(2) assms(2) by (simp add: dropWhile_append2)
  show ?thesis unfolding strtok_def Let_def 1 2 3 using w(1) by simp
qed

lemma conf_line_entry:
  assumes "entry_ok nv"
  shows "conf_line cfg (print_entry nv) s
      = (case map_of (conf_table cfg) (fst nv) of None \<Rightarrow> Some s | Some act \<Rightarrow> act (snd nv) s)"
proof -
  from assms have n: "clean_word (fst nv)" and v: "clean_word (snd nv)" and c: "hd (fst nv) \<noteq> CONF_COMMENT"
    by (simp_all add: entry_ok_def)
  have "x \<noteq> char_of (0::nat)" if "x \<in> set (print_entry nv)" for x
  proof -
    have "LF \<noteq> char_of (0::nat)" "CHR ''='' \<noteq> char_of (0::nat)" by code_simp+
    then show ?thesis using that n v by (auto simp: print_entry_def clean_word_def)
  qed
  then have 0: "takeWhile (\<lambda>c. c \<noteq> char_of (0::nat)) (print_entry nv) = print_entry nv" by simp
  have 1: "cchar (print_entry nv) 0 \<noteq> CONF_COMMENT"
    using n c by (cases "fst nv") (auto simp: print_entry_def cchar_def clean_word_def)
  have 2: "strtok (print_entry nv) = Some (fst nv, snd nv @ [LF])"
    unfolding print_entry_def by (rule strtok_word [OF n]) (simp add: CONF_DELIMITERS_def)
  have 3: "strtok (snd nv @ [LF]) = Some (snd nv, [])"
    by (rule strtok_word [OF v]) (simp add: CONF_DELIMITERS_def)
  show ?thesis unfolding conf_line_def Let_def 0 2 using 1 3 by simp
qed

lemma conf_loop_apply:
  "list_all entry_ok es \<Longrightarrow> conf_loop cfg (map print_entry es) s = conf_apply cfg es s"
proof (induction es arbitrary: s)
  case (Cons nv es)
  then show ?case by (cases nv) (auto simp: conf_line_entry split: option.split)
qed simp

text \<open>An action overflows only for a file name of 128 or more characters.\<close>

lemma conf_lines_max: "l \<in> set (conf_lines cs) \<Longrightarrow> length l \<le> CONF_MAX_LINE_LEN"
proof (induction cs rule: conf_lines.induct)
  case (1 cs)
  then show ?case
  proof (cases "cs = []")
    case False
    obtain l' r where f: "fgets CONF_MAX_LINE_LEN cs = (l', r)" by fastforce
    have "length l' \<le> CONF_MAX_LINE_LEN" using fgets_max [of CONF_MAX_LINE_LEN cs] f by simp
    moreover have "l = l' \<or> l \<in> set (conf_lines r)"
      using "1.prems" False f by (subst (asm) conf_lines.simps) auto
    ultimately show ?thesis using "1.IH" [OF False] f by auto
  qed (simp add: conf_lines.simps)
qed

lemma strtok_length: "strtok s = Some (w, r) \<Longrightarrow> length w \<le> length s \<and> length r \<le> length s"
proof -
  assume *: "strtok s = Some (w, r)"
  let ?t = "dropWhile (\<lambda>c. c \<in> set CONF_DELIMITERS) s"
  from * have "w = takeWhile (\<lambda>c. c \<notin> set CONF_DELIMITERS) ?t"
    "r = drop 1 (dropWhile (\<lambda>c. c \<notin> set CONF_DELIMITERS) ?t)" by (auto simp: strtok_def Let_def split: if_splits)
  moreover have "length ?t \<le> length s" by (rule length_dropWhile_le)
  moreover have "length (takeWhile (\<lambda>c. c \<notin> set CONF_DELIMITERS) ?t) \<le> length ?t" by (rule length_takeWhile_le)
  moreover have "length (dropWhile (\<lambda>c. c \<notin> set CONF_DELIMITERS) ?t) \<le> length ?t" by (rule length_dropWhile_le)
  ultimately show ?thesis by (simp only: length_drop) linarith
qed


lemma conf_line_overflow:
  assumes "conf_line cfg l s = None" and "length l \<le> CONF_MAX_LINE_LEN"
  shows "\<exists>v rest rest'. strtok (takeWhile (\<lambda>c. c \<noteq> char_of (0::nat)) l) = Some (''FwPatchFileName'', rest)
     \<and> strtok rest = Some (v, rest') \<and> 128 \<le> length v"
proof -
  let ?l = "takeWhile (\<lambda>c. c \<noteq> char_of (0::nat)) l"
  from assms(1) obtain n rest v rest' act where t: "strtok ?l = Some (n, rest)" "strtok rest = Some (v, rest')"
     "map_of (conf_table cfg) n = Some act" "act v s = None"
    by (auto simp: conf_line_def Let_def split: if_splits option.splits)
  have "length ?l \<le> length l" by (rule length_takeWhile_le)
  then have v: "length v < 256" using strtok_length [OF t(1)] strtok_length [OF t(2)] assms(2) by linarith
  have "n = ''FwPatchFileName''" "128 \<le> length v"
    using t(3,4) v by (auto simp: conf_table_def userial_set_port_def hw_set_patch_file_path_def hw_set_patch_file_name_def
        hw_set_patch_settlement_delay_def strcpy_into_def split: if_splits)
  then show ?thesis using t by blast
qed

lemma conf_loop_overflow:
  "conf_loop cfg ls s = None \<Longrightarrow> \<exists>l \<in> set ls. \<exists>u. conf_line cfg l u = None"
  by (induction cfg ls s rule: conf_loop.induct) (auto split: option.splits)

definition board_conf :: string where
  "board_conf = ''FwPatchFilePath=/etc/bluetooth/'' @ [LF, LF] @ ''FwPatchFileName=bcm20710a1.hcd'' @ [LF, LF]
     @ ''UartPort=/dev/ttyS2'' @ [LF, LF] @ ''#VendorBaudrate=2000000'' @ [LF, LF] @ ''RegonDelay=500''"

lemma board_lines:
  "conf_lines board_conf = [print_entry (''FwPatchFilePath'', ''/etc/bluetooth/''), [LF],
     print_entry (''FwPatchFileName'', ''bcm20710a1.hcd''), [LF], print_entry (''UartPort'', ''/dev/ttyS2''), [LF],
     ''#VendorBaudrate=2000000'' @ [LF], [LF], ''RegonDelay=500'']"
  by code_simp

lemma conf_line_skips:
  "conf_line cfg [LF] s = Some s"
  "conf_line cfg (''#VendorBaudrate=2000000'' @ [LF]) s = Some s"
  "conf_line cfg ''RegonDelay=500'' s = Some s"
proof -
  have c0: "takeWhile (\<lambda>c. c \<noteq> char_of (0::nat)) [LF] = [LF]" "strtok [LF] = None" by code_simp+
  show "conf_line cfg [LF] s = Some s" unfolding conf_line_def Let_def c0 by simp
  have c1: "takeWhile (\<lambda>c. c \<noteq> char_of (0::nat)) (''#VendorBaudrate=2000000'' @ [LF]) = ''#VendorBaudrate=2000000'' @ [LF]"
    "cchar (''#VendorBaudrate=2000000'' @ [LF]) 0 = CONF_COMMENT" by code_simp+
  show "conf_line cfg (''#VendorBaudrate=2000000'' @ [LF]) s = Some s" unfolding conf_line_def Let_def c1 by simp
  have c2: "takeWhile (\<lambda>c. c \<noteq> char_of (0::nat)) ''RegonDelay=500'' = ''RegonDelay=500''"
    "strtok ''RegonDelay=500'' = Some (''RegonDelay'', ''500'')" "strtok ''500'' = Some (''500'', [])" by code_simp+
  have c3: "map_of (conf_table cfg) ''RegonDelay'' = None" by (simp add: conf_table_def)
  show "conf_line cfg ''RegonDelay=500'' s = Some s"
    unfolding conf_line_def Let_def c2(1,2) by (simp add: c2(3) c3)
qed

section \<open>Properties\<close>

text \<open>(C32) The configuration file round trip: a file that lists entries \<open>name=value\<close>, one per
  line of at most 255 characters with names and values free of delimiters, has exactly the
  effect of the actions of its entries in order, entries with unknown names being ignored; the
  file is closed again.\<close>

theorem conf_roundtrip:
  assumes "list_all entry_ok es" and "os_open (os s) (calls s) p O_RDONLY = fd" and "0 \<le> fd"
    and "os_file (os s) p = bytes_of (print_conf es)"
  shows "vnd_load_conf cfg p s = map_option (sys_close fd) (conf_apply cfg es (snd (sys_open p O_RDONLY s)))"
  using assms by (simp add: vnd_load_conf_def sys_open_def Let_def conf_lines_print conf_loop_apply)

theorem conf_roundtrip_witness:
  "\<exists>t. vnd_load_conf gs702a_brcm_cfg ''f'' (quiet_brcm [''f'' \<mapsto> bytes_of (print_conf [(''UartPort'', ''/dev/ttyS1'')])])
     = Some t \<and> port_name (vnd_userial t) = ''/dev/ttyS1''"
proof -
  let ?es = "[(''UartPort'', ''/dev/ttyS1'')]"
  let ?s = "quiet_brcm [''f'' \<mapsto> bytes_of (print_conf ?es)]"
  have 1: "list_all entry_ok ?es" by code_simp
  have 2: "os_open (os ?s) (calls ?s) ''f'' O_RDONLY = 3" "os_file (os ?s) ''f'' = bytes_of (print_conf ?es)"
    by (simp_all add: quiet_brcm_def quiet_os_def)
  from conf_roundtrip [OF 1 2(1) _ 2(2), of gs702a_brcm_cfg] show ?thesis
    by (simp add: conf_table_def userial_set_port_def strcpy_into_def sys_close_def)
qed

text \<open>The configuration shipped for this board, comment and unknown entry included, sets
  the patch directory, the patch file and the serial port.\<close>

theorem board_conf_loads:
  "\<exists>t. vnd_load_conf gs702a_brcm_cfg VENDOR_LIB_CONF_FILE (quiet_brcm [VENDOR_LIB_CONF_FILE \<mapsto> bytes_of board_conf]) = Some t
     \<and> fw_patchfile_path t = ''/etc/bluetooth/'' \<and> fw_patchfile_name t = ''bcm20710a1.hcd''
     \<and> port_name (vnd_userial t) = ''/dev/ttyS2''"
proof -
  let ?s = "quiet_brcm [VENDOR_LIB_CONF_FILE \<mapsto> bytes_of board_conf]"
  have ok: "entry_ok (''FwPatchFilePath'', ''/etc/bluetooth/'')" "entry_ok (''FwPatchFileName'', ''bcm20710a1.hcd'')"
    "entry_ok (''UartPort'', ''/dev/ttyS2'')" by code_simp+
  have f: "os_open (os ?s) (calls ?s) VENDOR_LIB_CONF_FILE O_RDONLY = 3"
    "os_file (os ?s) VENDOR_LIB_CONF_FILE = bytes_of board_conf" by (simp_all add: quiet_brcm_def quiet_os_def)
  show ?thesis
    by (simp add: vnd_load_conf_def sys_open_def f board_lines conf_line_entry ok conf_line_skips Let_def conf_table_def
        userial_set_port_def hw_set_patch_file_path_def hw_set_patch_file_name_def strcpy_into_def sys_close_def
        del: append_Cons append_Nil)
qed

text \<open>Memory safety of the configuration file: whatever the file contains, loading it stays
  inside its arrays unless a line gives \<open>FwPatchFileName\<close> a value of 128 or more characters
  (the array holds 128 bytes, a line up to 255).\<close>

theorem conf_overflow_only_name:
  assumes "vnd_load_conf cfg p s = None"
  shows "\<exists>l v rest rest'. l \<in> set (conf_lines (chars_of (os_file (os s) p)))
     \<and> strtok (takeWhile (\<lambda>c. c \<noteq> char_of (0::nat)) l) = Some (''FwPatchFileName'', rest)
     \<and> strtok rest = Some (v, rest') \<and> 128 \<le> length v"
proof -
  from assms have "\<exists>t. conf_loop cfg (conf_lines (chars_of (os_file (os s) p))) t = None"
    by (auto simp: vnd_load_conf_def sys_open_def Let_def split: if_splits)
  then obtain l u where l: "l \<in> set (conf_lines (chars_of (os_file (os s) p)))" "conf_line cfg l u = None"
    by (auto dest: conf_loop_overflow)
  from conf_line_overflow [OF l(2) conf_lines_max [OF l(1)]] l(1) show ?thesis by blast
qed

theorem conf_overflow_only_name_witness:
  "\<exists>l v rest rest'. l \<in> set (conf_lines (print_conf [(''FwPatchFileName'', replicate 128 (CHR ''x''))]))
     \<and> strtok (takeWhile (\<lambda>c. c \<noteq> char_of (0::nat)) l) = Some (''FwPatchFileName'', rest)
     \<and> strtok rest = Some (v, rest') \<and> 128 \<le> length v"
proof -
  let ?es = "[(''FwPatchFileName'', replicate 128 (CHR ''x''))]"
  let ?s = "quiet_brcm [''f'' \<mapsto> bytes_of (print_conf ?es)]"
  have ok: "list_all entry_ok ?es" by code_simp
  have f: "os_open (os ?s) (calls ?s) ''f'' O_RDONLY = 3" "os_file (os ?s) ''f'' = bytes_of (print_conf ?es)"
    by (simp_all add: quiet_brcm_def quiet_os_def)
  have "vnd_load_conf gs702a_brcm_cfg ''f'' ?s = None"
    using ok by (simp add: vnd_load_conf_def sys_open_def f Let_def conf_lines_print conf_line_entry conf_table_def
        hw_set_patch_file_name_def strcpy_into_def)
  from conf_overflow_only_name [OF this] show ?thesis unfolding f chars_of_bytes .
qed

text \<open>After \<open>cleanup\<close> the library makes no call into the stack whatever is requested of it:
  no buffer is allocated or freed, nothing is transmitted, no result is reported.\<close>

theorem brcm_quiet_after_cleanup:
  assumes "runs (\<lambda>s r t. \<exists>ret out. brcm_op cfg ch_max r s = Some (ret, out, t)) (brcm_cleanup cfg s) rs t"
  shows "\<exists>new. calls t = calls (brcm_cleanup cfg s) @ new \<and> (\<forall>c \<in> set new. \<not> is_stack_call c)"
proof -
  have "runs (brcm_request cfg ch_max) (brcm_cleanup cfg s) rs t"
    using assms by (simp add: brcm_request_def [abs_def])
  from brcm_lib.run_unregistered_quiet [OF this] show ?thesis
    by (simp add: brcm_cleanup_def list_all_iff)
qed

theorem brcm_quiet_after_cleanup_witness:
  "\<exists>new. calls (hw_config_start (brcm_cleanup gs702a_brcm_cfg (quiet_brcm Map.empty)))
       = calls (brcm_cleanup gs702a_brcm_cfg (quiet_brcm Map.empty)) @ new \<and> (\<forall>c \<in> set new. \<not> is_stack_call c)"
  by (rule brcm_quiet_after_cleanup [where rs = "[BT_VND_OP_FW_CFG]" and ch_max = 4])
    (auto intro!: runs_cons runs_nil simp: brcm_op_def)

end
