(* ===== verification/Rtk_Hardware.thy ===== *)
theory Rtk_Hardware
  imports Vendor_Interface
begin

text \<open>
  Controller specific functions of the RTL8723 (Realtek) Bluetooth library,
  \<open>bluetooth/rtk8723/libbt/src/hardware.c\<close>: the table of UART speeds, the parser of the vendor
  configuration file, loading of the configuration and firmware files, and the callback that
  changes the UART speed and downloads the firmware in packets of 252 bytes.  The static
  variables of \<open>hw_config_cback\<close> are fields of the state \<open>rtk_st\<close>; the packet counters keep
  their width of 8 bits.  Names that the AP6210 library uses too have the prefix \<open>rtk_\<close>.

  A result \<open>None\<close> of the parser or of the handler stands for an access outside of a buffer.
  Memory blocks are accounted in the history (\<open>Malloc\<close>, \<open>Free\<close>); a pointer into the firmware
  buffer is an offset.  The function \<open>rtk_download_fw_config\<close> is not called by the library and
  is left out.
\<close>

section \<open>Constants and state\<close>

abbreviation (input) PATCH_DATA_FIELD_MAX_SIZE :: nat where "PATCH_DATA_FIELD_MAX_SIZE \<equiv> 252"
abbreviation (input) RTK_VENDOR_CONFIG_MAGIC :: u32 where "RTK_VENDOR_CONFIG_MAGIC \<equiv> 0x8723ab55"
abbreviation (input) RTK_HCI_VSC_UPDATE_BAUDRATE :: u16 where "RTK_HCI_VSC_UPDATE_BAUDRATE \<equiv> 0xFC17"
abbreviation (input) HCI_VSC_DOWNLOAD_FW_PATCH :: u16 where "HCI_VSC_DOWNLOAD_FW_PATCH \<equiv> 0xFC20"
abbreviation (input) HCI_VSC_H5_INIT :: u16 where "HCI_VSC_H5_INIT \<equiv> 0xFCEE"
abbreviation (input) RTK_HCI_CMD_MAX_LEN :: nat where "RTK_HCI_CMD_MAX_LEN \<equiv> 258"
abbreviation (input) RTK_STATUS_RET_BYTE :: nat where "RTK_STATUS_RET_BYTE \<equiv> 5"
abbreviation (input) RTK_EVT_OPCODE :: nat where "RTK_EVT_OPCODE \<equiv> 3"

datatype rtk_hw_state =
    RTK_CFG_IDLE | RTK_CFG_H5_INIT | RTK_CFG_START | RTK_CFG_SET_UART_BAUD_HOST
  | RTK_CFG_SET_UART_BAUD_CONTROLLER | RTK_CFG_DL_FW_PATCH

record rtk_cfg = buildcfg +
  stack_junk :: termios

record rtk_st = upio_st +
  rtk_state :: rtk_hw_state
  rtk_fw_fd :: int
  gHwFlowControlEnable :: int
  nTotal :: int
  buf_len :: int
  buf :: "(nat \<times> u8 list) option"
  baudrate :: u32
  iCurIndex :: u8
  iCurLen :: u8
  iEndIndex :: u8
  iLastPacketLen :: u8
  iAdditionPkt :: u8
  iTotalIndex :: u8
  bufpatch :: "nat option"
  iIndexRx :: u8
  rtk_local_bd_addr :: "u8 list"

section \<open>UART speeds\<close>

definition baudrates :: "(u32 \<times> u32) list" where
  "baudrates = [(0x00006004, 921600), (0x05F75004, 921600), (0x00004003, 1500000), (0x04928002, 1500000),
     (0x00005002, 2000000), (0x00008001, 3000000), (0x04928001, 3000000), (0x00007001, 3500000),
     (0x052A6001, 3500000), (0x00005001, 4000000), (0x0000701d, 115200), (0x0252C002, 115200)]"

definition rtk_speed_to_uart_speed :: "u32 \<Rightarrow> u32" where
  "rtk_speed_to_uart_speed rtk_speed =
     (case find (\<lambda>b. fst b = rtk_speed) baudrates of None \<Rightarrow> 115200 | Some b \<Rightarrow> snd b)"

definition uart_speed_to_rtk_speed :: "u32 \<Rightarrow> u32" where
  "uart_speed_to_rtk_speed uart_speed =
     (case find (\<lambda>b. snd b = uart_speed) baudrates of None \<Rightarrow> 0x701D | Some b \<Rightarrow> fst b)"

definition rtk_line_speed_to_userial_baud :: "u32 \<Rightarrow> u8" where
  "rtk_line_speed_to_userial_baud line_speed =
     (if line_speed = 4000000 then USERIAL_BAUD_4M
      else if line_speed = 3000000 then USERIAL_BAUD_3M
      else if line_speed = 2000000 then USERIAL_BAUD_2M
      else if line_speed = 1500000 then USERIAL_BAUD_1_5M
      else if line_speed = 1000000 then USERIAL_BAUD_1M
      else if line_speed = 921600 then USERIAL_BAUD_921600
      else if line_speed = 460800 then USERIAL_BAUD_460800
      else if line_speed = 230400 then USERIAL_BAUD_230400
      else if line_speed = 115200 then USERIAL_BAUD_115200
      else if line_speed = 57600 then USERIAL_BAUD_57600
      else if line_speed = 19200 then USERIAL_BAUD_19200
      else if line_speed = 9600 then USERIAL_BAUD_9600
      else if line_speed = 1200 then USERIAL_BAUD_1200
      else if line_speed = 600 then USERIAL_BAUD_600
      else USERIAL_BAUD_115200)"

definition rtk_ms_delay :: "u32 \<Rightarrow> 'a platform_scheme \<Rightarrow> 'a platform_scheme" where
  "rtk_ms_delay timeout s = (if timeout = 0 then s else log_call (Ms_delay timeout) s)"

text \<open>The parameter \<open>baudrate\<close> of \<open>hw_config_set_controller_baudrate\<close> is a \<open>uint16_t\<close>: the caller's
  32 bit value is truncated before it is stored as four bytes.\<close>

definition hw_config_set_controller_baudrate :: "nat \<Rightarrow> hc_bt_hdr \<Rightarrow> u16 \<Rightarrow> rtk_st \<Rightarrow> u8 \<times> rtk_st" where
  "hw_config_set_controller_baudrate p p_buf baud s =
     vnd_xmit RTK_HCI_VSC_UPDATE_BAUDRATE p
       (set_cmd (UINT16_TO_STREAM RTK_HCI_VSC_UPDATE_BAUDRATE @ [4] @ UINT32_TO_STREAM (ucast baud)) p_buf)
       (s\<lparr>rtk_state := RTK_CFG_SET_UART_BAUD_HOST\<rparr>)"

section \<open>Configuration and firmware files\<close>

definition get_firmware_name :: string where
  "get_firmware_name = ''/system/etc/firmware/rtl8723as/rlt8723a_chip_b_cut_bt40_fw''"

definition bt_config_file_name :: string where
  "bt_config_file_name = ''/system/etc/firmware/rtl8723as/rtk8723_bt_config''"

text \<open>The loop over the entries: \<open>i\<close> bytes of the \<open>config_len\<close> bytes behind the header of six
  bytes are done.  The log message of an entry \<open>0xc\<close> reads \<open>entry_data[12]\<close> whatever the length
  of the entry.  The pair is the speed and the flow control flag.\<close>

function rtk_parse_entries :: "u8 list \<Rightarrow> nat \<Rightarrow> nat \<Rightarrow> u32 \<times> int \<Rightarrow> (u32 \<times> int) option" where
  "rtk_parse_entries b config_len i bf =
     (if \<not> i < config_len then Some bf
      else if length b < 6 + i + 3 then None
      else
        (let offset = STREAM_TO_UINT16 b (6 + i); entry_len = unat (b ! (6 + i + 2)); d = 6 + i + 3 in
         if offset = 0xc then
           (if length b < d + 13 then None
            else rtk_parse_entries b config_len (i + (entry_len + 3))
              (STREAM_TO_UINT32 b d,
               if entry_len \<ge> 12 then (if b ! (d + 12) AND 4 \<noteq> 0 then 1 else 0) else snd bf))
         else rtk_parse_entries b config_len (i + (entry_len + 3)) bf))"
  by pat_completeness auto
termination
  by (relation "measure (\<lambda>(b, n, i, bf). n - i)") (auto simp: Let_def)

declare rtk_parse_entries.simps [simp del]

definition rtk_parse_config_file :: "u8 list \<Rightarrow> int \<Rightarrow> (u32 \<times> int) option" where
  "rtk_parse_config_file b fc =
     (if length b < 6 then None
      else if STREAM_TO_UINT32 b 0 \<noteq> RTK_VENDOR_CONFIG_MAGIC then Some (0, fc)
      else
        (let config_len = unat (STREAM_TO_UINT16 b 4) in
         if config_len \<noteq> length b - 6 then Some (0, fc)
         else rtk_parse_entries b config_len 0 (0, fc)))"

text \<open>A \<open>uint32_t\<close> result stored in an \<open>int\<close>.\<close>

definition as_int :: "nat \<Rightarrow> int" where
  "as_int n = sint (of_nat n :: u32)"

text \<open>Returned value, the pointer left in \<open>config_buf\<close> with the block's content, and the speed.
  After a short read the block is freed, but the pointer is left.\<close>

definition rtk_get_bt_config :: "rtk_st \<Rightarrow> (int \<times> (nat \<times> u8 list) option \<times> u32 \<times> rtk_st) option" where
  "rtk_get_bt_config s =
     (case os_stat (os s) bt_config_file_name of
        None \<Rightarrow> Some (-1, None, 0, s)
      | Some filelen \<Rightarrow>
         (let (fd, s) = sys_open bt_config_file_name O_RDONLY s in
          if fd < 0 then Some (-1, None, 0, s)
          else
            (let (m, s) = sys_malloc filelen s in
             case m of
               None \<Rightarrow> Some (-1, None, 0, s)
             | Some a \<Rightarrow>
                (let (r, s) = sys_read fd filelen s in
                 case r of
                   None \<Rightarrow> Some (-1, Some (a, []), 0, sys_close fd (sys_free a s))
                 | Some bs \<Rightarrow>
                    (if length bs < filelen then Some (-1, Some (a, []), 0, sys_close fd (sys_free a s))
                     else
                       (case rtk_parse_config_file bs (gHwFlowControlEnable s) of
                          None \<Rightarrow> None
                        | Some (baud, fc) \<Rightarrow>
                           Some (as_int filelen, Some (a, bs), baud,
                                 sys_close fd (s\<lparr>gHwFlowControlEnable := fc\<rparr>))))))))"

text \<open>Returned value and the buffer with the firmware at its start.  The descriptor is not
  closed on any path.\<close>

definition rtk_get_bt_firmware :: "nat \<Rightarrow> rtk_st \<Rightarrow> int \<times> (nat \<times> u8 list) option \<times> rtk_st" where
  "rtk_get_bt_firmware addi_len s =
     (case os_stat (os s) get_firmware_name of
        None \<Rightarrow> (-1, None, s)
      | Some fwsize \<Rightarrow>
         (let (fd, s) = sys_open get_firmware_name O_RDONLY s in
          if fd < 0 then (-1, None, s)
          else
            (let (m, s) = sys_malloc (fwsize + addi_len) s in
             case m of
               None \<Rightarrow> (-1, None, s)
             | Some a \<Rightarrow>
                (let (r, s) = sys_read fd fwsize s in
                 case r of
                   None \<Rightarrow> (-1, None, sys_free a s)
                 | Some bs \<Rightarrow>
                    (if length bs < fwsize then (-1, None, sys_free a s)
                     else (as_int (fwsize + addi_len), Some (a, bs), s))))))"

definition hci_download_patch_h4 :: "nat \<Rightarrow> hc_bt_hdr \<Rightarrow> u8 \<Rightarrow> u8 list \<Rightarrow> rtk_st \<Rightarrow> u8 \<times> rtk_st" where
  "hci_download_patch_h4 p p_buf index data s =
     vnd_xmit HCI_VSC_DOWNLOAD_FW_PATCH p
       (set_cmd (UINT16_TO_STREAM HCI_VSC_DOWNLOAD_FW_PATCH @ [1 + of_nat (length data), index] @ data) p_buf)
       (s\<lparr>rtk_state := RTK_CFG_DL_FW_PATCH\<rparr>)"

section \<open>The callback\<close>

text \<open>Counters of the download for \<open>n\<close> bytes: last data packet, its length, padding packets (so
  that the number of commands, with the speed change if there is one, is a multiple of 8).\<close>

definition rtk_init_counters :: "nat \<Rightarrow> rtk_st \<Rightarrow> rtk_st" where
  "rtk_init_counters n s =
     (let e = of_nat ((n - 1) div PATCH_DATA_FIELD_MAX_SIZE) :: u8;
          l = of_nat (n mod PATCH_DATA_FIELD_MAX_SIZE) :: u8;
          k = unat e + (if baudrate s \<noteq> 0 then 2 else 1);
          a = (if k mod 8 \<noteq> 0 then of_nat (8 - k mod 8) else 0) :: u8;
          t = a + e
      in s\<lparr>iEndIndex := e, iLastPacketLen := (if l = 0 then of_nat PATCH_DATA_FIELD_MAX_SIZE else l),
            iAdditionPkt := a, iTotalIndex := t, nTotal := int (unat t), bufpatch := Some 0\<rparr>)"

definition rtk_reset_static :: "rtk_st \<Rightarrow> rtk_st" where
  "rtk_reset_static s =
     s\<lparr>buf_len := 0, buf := None, baudrate := 0, iCurIndex := 0, iCurLen := 0, iEndIndex := 0,
       iLastPacketLen := 0, iAdditionPkt := 0, iTotalIndex := 0, bufpatch := None, iIndexRx := 0\<rparr>"

text \<open>The choice of the next packet: index with the end flag, length.\<close>

definition rtk_next_packet :: "rtk_st \<Rightarrow> rtk_st" where
  "rtk_next_packet s =
     (if iCurIndex s < iEndIndex s then
        s\<lparr>iCurIndex := iCurIndex s AND 0x7F, iCurLen := of_nat PATCH_DATA_FIELD_MAX_SIZE\<rparr>
      else if iCurIndex s = iEndIndex s then
        s\<lparr>iCurIndex := (if iCurIndex s = iTotalIndex s then iCurIndex s OR 0x80 else iCurIndex s AND 0x7F),
          iCurLen := iLastPacketLen s\<rparr>
      else if iCurIndex s < iTotalIndex s then
        s\<lparr>iCurIndex := iCurIndex s AND 0x7F, bufpatch := None, iCurLen := 0\<rparr>
      else s\<lparr>bufpatch := None, iCurLen := 0, iCurIndex := iCurIndex s OR 0x80\<rparr>)"

text \<open>The bytes \<open>memcpy\<close> copies from \<open>bufpatch\<close>; \<open>None\<close> when they are not inside the buffer.\<close>

definition rtk_packet_data :: "rtk_st \<Rightarrow> u8 list option" where
  "rtk_packet_data s =
     (if iCurLen s = 0 then Some []
      else case (bufpatch s, buf s) of
        (Some off, Some (a, bs)) \<Rightarrow>
          (if off + unat (iCurLen s) \<le> length bs then Some (take (unat (iCurLen s)) (drop off bs)) else None)
      | _ \<Rightarrow> None)"

definition rtk_fw_done :: "rtk_cfg \<Rightarrow> nat \<Rightarrow> rtk_st \<Rightarrow> u8 \<times> rtk_st" where
  "rtk_fw_done cfg p s =
     (let s = (case buf s of None \<Rightarrow> s | Some (a, _) \<Rightarrow> (sys_free a s)\<lparr>buf := None\<rparr>);
          s = vnd_notify (Fwcfg_cb BT_VND_OP_RESULT_SUCCESS) (vnd_dealloc p s);
          s = s\<lparr>rtk_state := RTK_CFG_IDLE\<rparr>;
          s = userial_vendor_set_hw_fctrl (stack_junk cfg) (if gHwFlowControlEnable s \<noteq> 0 then 1 else 0) s;
          s = (if rtk_fw_fd s \<noteq> -1 then (sys_close (rtk_fw_fd s) s)\<lparr>rtk_fw_fd := -1\<rparr> else s)
      in (C_TRUE, s))"

text \<open>Label \<open>DOWNLOAD_FW\<close> and \<open>case HW_CFG_DL_FW_PATCH\<close>; the pointer may only advance inside the
  buffer.\<close>

definition rtk_download_fw ::
    "rtk_cfg \<Rightarrow> hci_event \<Rightarrow> u16 \<Rightarrow> nat \<Rightarrow> hc_bt_hdr \<Rightarrow> rtk_st \<Rightarrow> (u8 \<times> rtk_st) option" where
  "rtk_download_fw cfg e opcode p p_buf s =
     (let adv = (if opcode \<noteq> HCI_VSC_DOWNLOAD_FW_PATCH then Some s
                 else
                   (let s = s\<lparr>iIndexRx := evt_data e ! (RTK_STATUS_RET_BYTE + 1)\<rparr> in
                    if iCurIndex s < iEndIndex s
                    then (case bufpatch s of
                            None \<Rightarrow> None
                          | Some off \<Rightarrow> Some (s\<lparr>bufpatch := Some (off + PATCH_DATA_FIELD_MAX_SIZE),
                                                  iCurIndex := iCurIndex s + 1\<rparr>))
                    else Some (s\<lparr>iCurIndex := iCurIndex s + 1\<rparr>)))
      in case adv of
           None \<Rightarrow> None
         | Some s \<Rightarrow>
            (if opcode = HCI_VSC_DOWNLOAD_FW_PATCH \<and> (iIndexRx s AND 0x80 \<noteq> 0 \<or> iIndexRx s = iTotalIndex s)
             then Some (rtk_fw_done cfg p s)
             else
               (let s = rtk_next_packet s in
                case rtk_packet_data s of
                  None \<Rightarrow> None
                | Some data \<Rightarrow> Some (hci_download_patch_h4 p p_buf (iCurIndex s) data s))))"

text \<open>The first part of \<open>case HW_CFG_START\<close>: reset the static variables, load the two files, put the
  configuration behind the firmware, free the configuration.  The result is \<open>config_len\<close>.\<close>

definition rtk_load_files :: "rtk_st \<Rightarrow> (int \<times> rtk_st) option" where
  "rtk_load_files s =
     (case rtk_get_bt_config (rtk_reset_static s) of
        None \<Rightarrow> None
      | Some (r, config_file_buf, baud, s) \<Rightarrow>
         (let s = s\<lparr>baudrate := baud\<rparr>;
              config_len = (if r < 0 then 0 else r);
              (n, fw, s) = rtk_get_bt_firmware (nat config_len) s;
              s = s\<lparr>buf_len := n,
                    buf := (case fw of
                              None \<Rightarrow> None
                            | Some (a, bs) \<Rightarrow>
                                Some (a, bs @ (if config_len \<noteq> 0
                                               then (case config_file_buf of None \<Rightarrow> [] | Some (_, cs) \<Rightarrow> cs)
                                               else [])))\<rparr>;
              s = (case config_file_buf of None \<Rightarrow> s | Some (a, _) \<Rightarrow> sys_free a s)
          in Some (config_len, s)))"

definition rtk_set_controller_baud :: "nat \<Rightarrow> hc_bt_hdr \<Rightarrow> rtk_st \<Rightarrow> u8 \<times> rtk_st" where
  "rtk_set_controller_baud p p_buf s = hw_config_set_controller_baudrate p p_buf (ucast (baudrate s)) s"

definition rtk_cfg_start ::
    "rtk_cfg \<Rightarrow> hci_event \<Rightarrow> u16 \<Rightarrow> nat \<Rightarrow> hc_bt_hdr \<Rightarrow> rtk_st \<Rightarrow> (u8 \<times> rtk_st) option" where
  "rtk_cfg_start cfg e opcode p p_buf s =
     (case rtk_load_files s of
        None \<Rightarrow> None
      | Some (config_len, s) \<Rightarrow>
         (if buf_len s > 0 then
            (let s = rtk_init_counters (nat (buf_len s)) s in
             if config_len = 0 then rtk_download_fw cfg e opcode p p_buf s
             else Some (rtk_set_controller_baud p p_buf s))
          else
            (let s = vnd_notify (Fwcfg_cb BT_VND_OP_RESULT_SUCCESS) (vnd_dealloc p s)
             in Some (C_TRUE, s\<lparr>rtk_state := RTK_CFG_IDLE\<rparr>))))"

definition rtk_set_host_baud :: "rtk_st \<Rightarrow> rtk_st" where
  "rtk_set_host_baud s =
     (let HostBaudRate = rtk_speed_to_uart_speed (baudrate s)
      in rtk_ms_delay 100 (rtk_userial_vendor_set_baud (rtk_line_speed_to_userial_baud HostBaudRate) s))"

definition rtk_config_switch ::
    "rtk_cfg \<Rightarrow> hci_event \<Rightarrow> u16 \<Rightarrow> nat \<Rightarrow> hc_bt_hdr \<Rightarrow> rtk_st \<Rightarrow> (u8 \<times> rtk_st) option" where
  "rtk_config_switch cfg e opcode p p_buf s =
     (case rtk_state s of
        RTK_CFG_START \<Rightarrow> rtk_cfg_start cfg e opcode p p_buf s
      | RTK_CFG_SET_UART_BAUD_CONTROLLER \<Rightarrow> Some (rtk_set_controller_baud p p_buf s)
      | RTK_CFG_SET_UART_BAUD_HOST \<Rightarrow> rtk_download_fw cfg e opcode p p_buf (rtk_set_host_baud s)
      | RTK_CFG_DL_FW_PATCH \<Rightarrow> rtk_download_fw cfg e opcode p p_buf s
      | _ \<Rightarrow> Some (C_FALSE, s))"

definition rtk_config_abort :: "nat option \<Rightarrow> rtk_st \<Rightarrow> rtk_st" where
  "rtk_config_abort p s =
     (let s = (case p of None \<Rightarrow> s | Some a \<Rightarrow> vnd_dealloc a s);
          s = vnd_notify (Fwcfg_cb BT_VND_OP_RESULT_FAIL) s;
          s = (if rtk_fw_fd s \<noteq> -1 then (sys_close (rtk_fw_fd s) s)\<lparr>rtk_fw_fd := -1\<rparr> else s)
      in s\<lparr>rtk_state := RTK_CFG_IDLE\<rparr>)"

definition rtk_config_cback :: "rtk_cfg \<Rightarrow> hci_event \<Rightarrow> rtk_st \<Rightarrow> rtk_st option" where
  "rtk_config_cback cfg e s =
     (let status = evt_data e ! RTK_STATUS_RET_BYTE;
          opcode = STREAM_TO_UINT16 (evt_data e) RTK_EVT_OPCODE;
          (b, s) = (if status = 0 then vnd_alloc RTK_HCI_CMD_MAX_LEN s else (None, s))
      in case (case b of
                 None \<Rightarrow> Some (C_FALSE, s)
               | Some (p, mem) \<Rightarrow> rtk_config_switch cfg e opcode p (fresh_cmd mem) s) of
           None \<Rightarrow> None
         | Some (is_proceeding, s) \<Rightarrow>
            (let s = vnd_dealloc (evt_addr e) s in
             Some (if is_proceeding = C_FALSE then rtk_config_abort (map_option fst b) s else s)))"

definition rtk_config_start :: "rtk_st \<Rightarrow> rtk_st" where
  "rtk_config_start s =
     (let s = s\<lparr>rtk_state := RTK_CFG_IDLE, rtk_fw_fd := -1\<rparr>;
          (b, s) = vnd_alloc 2 s
      in case b of
           Some (p, mem) \<Rightarrow>
             snd (vnd_xmit HCI_VSC_H5_INIT p (set_cmd (UINT16_TO_STREAM HCI_VSC_H5_INIT) (fresh_cmd mem))
                    (s\<lparr>rtk_state := RTK_CFG_START\<rparr>))
         | None \<Rightarrow> vnd_notify (Fwcfg_cb BT_VND_OP_RESULT_FAIL) s)"

definition rtk_lpm_ctrl_cback :: "hci_event \<Rightarrow> rtk_st \<Rightarrow> rtk_st" where
  "rtk_lpm_ctrl_cback e s =
     (let status = (if evt_data e ! RTK_STATUS_RET_BYTE = 0
                    then BT_VND_OP_RESULT_SUCCESS else BT_VND_OP_RESULT_FAIL)
      in vnd_dealloc (evt_addr e) (vnd_notify (Lpm_cb status) s))"

section \<open>Entry points\<close>

definition rtk_userial_init_cfg :: tUSERIAL_CFG where
  "rtk_userial_init_cfg = \<lparr>cfg_fmt = USERIAL_DATABITS_8 OR USERIAL_PARITY_EVEN OR USERIAL_STOPBITS_1,
     cfg_baud = USERIAL_BAUD_115200, cfg_hw_fctrl = 0\<rparr>"

definition rtk_init :: "rtk_cfg \<Rightarrow> bt_vendor_callbacks_t option \<Rightarrow> u8 list \<Rightarrow> rtk_st \<Rightarrow> int \<times> rtk_st" where
  "rtk_init cfg p_cb local_bdaddr s =
     (case p_cb of
        None \<Rightarrow> (-1, s)
      | Some cb \<Rightarrow>
         (0, (upio_init cfg (userial_vendor_init cfg s))
               \<lparr>bt_vendor_cbacks := Some cb, rtk_local_bd_addr := take 6 local_bdaddr\<rparr>))"

definition rtk_op :: "rtk_cfg \<Rightarrow> nat \<Rightarrow> vnd_op \<Rightarrow> rtk_st \<Rightarrow> (int \<times> vnd_out \<times> rtk_st) option" where
  "rtk_op cfg ch_max opcode s =
     (case opcode of
        BT_VND_OP_POWER_CTRL st \<Rightarrow>
          (case st of
             BT_VND_PWR_OFF \<Rightarrow> map_option (\<lambda>(r, s). (0, Out_none, s)) (upio_set_bluetooth_power UPIO_BT_POWER_OFF s)
           | BT_VND_PWR_ON \<Rightarrow> map_option (\<lambda>(r, s). (0, Out_none, s)) (upio_set_bluetooth_power UPIO_BT_POWER_ON s)
           | Pwr_other \<Rightarrow> Some (0, Out_none, s))
      | BT_VND_OP_FW_CFG \<Rightarrow> Some (0, Out_none, rtk_config_start s)
      | BT_VND_OP_SCO_CFG \<Rightarrow> Some (-1, Out_none, s)
      | BT_VND_OP_USERIAL_OPEN \<Rightarrow>
          (let (fd, s) = rtk_userial_vendor_open cfg rtk_userial_init_cfg s in
           if fd \<noteq> -1 then Some (1, Out_fds (replicate ch_max fd), s) else Some (0, Out_none, s))
      | BT_VND_OP_USERIAL_CLOSE \<Rightarrow> Some (0, Out_none, userial_vendor_close cfg s)
      | BT_VND_OP_GET_LPM_IDLE_TIMEOUT \<Rightarrow> Some (0, Out_none, s)
      | BT_VND_OP_LPM_SET_MODE mode \<Rightarrow> Some (0, Out_none, s)
      | BT_VND_OP_LPM_WAKE_SET_STATE state \<Rightarrow> Some (0, Out_none, s))"

definition rtk_cleanup :: "rtk_cfg \<Rightarrow> rtk_st \<Rightarrow> rtk_st" where
  "rtk_cleanup cfg s = (upio_cleanup cfg s)\<lparr>bt_vendor_cbacks := None\<rparr>"

definition rtk_request :: "rtk_cfg \<Rightarrow> nat \<Rightarrow> rtk_st \<Rightarrow> vnd_op \<Rightarrow> rtk_st \<Rightarrow> bool" where
  "rtk_request cfg ch_max s r t \<longleftrightarrow> (\<exists>ret out. rtk_op cfg ch_max r s = Some (ret, out, t))"


section \<open>Facts\<close>

subsection \<open>Buffers\<close>

text \<open>What every case of the handler guarantees about the command buffer \<open>p\<close>.\<close>

definition rtk_post :: "nat \<Rightarrow> rtk_st \<Rightarrow> u8 \<times> rtk_st \<Rightarrow> bool" where
  "rtk_post p s rt \<longleftrightarrow>
     (fst rt = C_FALSE \<or> fst rt = C_TRUE) \<and> bt_vendor_cbacks (snd rt) = bt_vendor_cbacks s
     \<and> (\<exists>new. calls (snd rt) = calls s @ new
          \<and> (\<forall>a. net new a = (if fst rt = C_TRUE \<and> a = p then -1 else 0))
          \<and> fwcfg_results new = (if fst rt = C_TRUE \<and> rtk_state (snd rt) = RTK_CFG_IDLE
                                 then [BT_VND_OP_RESULT_SUCCESS] else []))"

lemma no_stack_call:
  "list_all (\<lambda>c. \<not> is_stack_call c) new \<Longrightarrow> net new a = 0 \<and> fwcfg_results new = [] \<and> xmits new = []"
proof (induction new)
  case (Cons c new)
  then show ?case by (cases c) auto
qed simp

lemma sys_only_post: "sys_only s t \<Longrightarrow> rtk_post p t rt \<Longrightarrow> rtk_post p s rt"
proof -
  assume st: "sys_only s t" and post: "rtk_post p t rt"
  from st obtain new1 where new1: "calls t = calls s @ new1" "list_all (\<lambda>c. \<not> is_stack_call c) new1"
    "bt_vendor_cbacks t = bt_vendor_cbacks s" by (auto simp: sys_only_def)
  from post obtain new2 where new2: "calls (snd rt) = calls t @ new2"
    "\<And>a. net new2 a = (if fst rt = C_TRUE \<and> a = p then -1 else 0)"
    "fwcfg_results new2 = (if fst rt = C_TRUE \<and> rtk_state (snd rt) = RTK_CFG_IDLE then [BT_VND_OP_RESULT_SUCCESS] else [])"
    unfolding rtk_post_def by blast
  note q = no_stack_call [OF new1(2)]
  have "calls (snd rt) = calls s @ (new1 @ new2)" "\<forall>a. net (new1 @ new2) a = (if fst rt = C_TRUE \<and> a = p then -1 else 0)"
    "fwcfg_results (new1 @ new2) = (if fst rt = C_TRUE \<and> rtk_state (snd rt) = RTK_CFG_IDLE then [BT_VND_OP_RESULT_SUCCESS] else [])"
    using new1(1) new2 q by simp_all
  then show ?thesis using post new1(3) unfolding rtk_post_def by auto
qed

lemma rtk_post_xmit:
  assumes "cbacks_ok s" and "st \<noteq> RTK_CFG_IDLE"
  shows "rtk_post p s (vnd_xmit op p b (s\<lparr>rtk_state := st\<rparr>))"
proof -
  from cbacks_ok_Some [OF assms(1)] obtain cb where cb: "bt_vendor_cbacks s = Some cb" "xmit_bool cb" by blast
  then have "cb_xmit cb (calls s) op b = C_FALSE \<or> cb_xmit cb (calls s) op b = C_TRUE" by (simp add: xmit_bool_def)
  with cb(1) assms(2) show ?thesis by (auto simp: rtk_post_def vnd_xmit_def Let_def)
qed

lemma sys_only_cbacks_ok: "sys_only s t \<Longrightarrow> cbacks_ok s \<Longrightarrow> cbacks_ok t"
  by (simp add: sys_only_def cbacks_ok_def)

lemma sys_only_malloc [simp]: "sys_only s (snd (sys_malloc n s))" "sys_only s (sys_free a s)"
  by (simp_all add: sys_only_def sys_malloc_def sys_free_def Let_def)

lemma sys_only_chain:
  "sys_only s t \<Longrightarrow> sys_only s (snd (sys_open p m t))" "sys_only s t \<Longrightarrow> sys_only s (snd (sys_read fd n t))"
  "sys_only s t \<Longrightarrow> sys_only s (sys_close fd t)" "sys_only s t \<Longrightarrow> sys_only s (snd (sys_malloc n t))"
  "sys_only s t \<Longrightarrow> sys_only s (sys_free a t)"
  by (erule sys_only_trans, simp)+

lemma get_config_sys_only: "rtk_get_bt_config s = Some (r, c, b, t) \<Longrightarrow> sys_only s t"
proof -
  assume *: "rtk_get_bt_config s = Some (r, c, b, t)"
  have fc: "sys_only s (t\<lparr>gHwFlowControlEnable := x\<rparr>) = sys_only s t" for t :: rtk_st and x by (simp add: sys_only_def)
  let ?o = "snd (sys_open bt_config_file_name O_RDONLY s)"
  have o: "sys_only s ?o" by simp
  show ?thesis using *
    by (auto simp: rtk_get_bt_config_def Let_def split_beta fc split: option.splits if_splits
        intro!: sys_only_chain o)
qed

lemma get_firmware_sys_only: "sys_only s (snd (snd (rtk_get_bt_firmware n s)))"
  by (auto simp: rtk_get_bt_firmware_def Let_def split_beta split: option.splits intro!: sys_only_chain)

lemma load_files_sys_only: "rtk_load_files s = Some (n, t) \<Longrightarrow> sys_only s t"
proof -
  assume *: "rtk_load_files s = Some (n, t)"
  have upd: "sys_only u (v\<lparr>baudrate := x\<rparr>) = sys_only u v" "sys_only u (v\<lparr>buf_len := y, buf := z\<rparr>) = sys_only u v"
    for u v :: rtk_st and x y z by (simp_all add: sys_only_def)
  from * obtain r c b u where u: "rtk_get_bt_config (rtk_reset_static s) = Some (r, c, b, u)"
    by (auto simp: rtk_load_files_def split: option.splits)
  have 0: "sys_only s (rtk_reset_static s)" by (simp add: sys_only_def rtk_reset_static_def)
  have 1: "sys_only s (u\<lparr>baudrate := b\<rparr>)" using sys_only_trans [OF 0 get_config_sys_only [OF u]] by (simp add: upd)
  let ?f = "rtk_get_bt_firmware (nat (if r < 0 then 0 else r)) (u\<lparr>baudrate := b\<rparr>)"
  have 2: "sys_only s (snd (snd ?f))" by (rule sys_only_trans [OF 1 get_firmware_sys_only])
  show ?thesis using * u 2
    by (auto simp: rtk_load_files_def Let_def split_beta upd split: option.splits intro!: sys_only_chain)
qed

lemma post_sys_only:
  assumes "rtk_post p s (r, t)" and "sys_only t u" and "rtk_state u = rtk_state t"
  shows "rtk_post p s (r, u)"
proof -
  from assms(2) obtain new where new: "calls u = calls t @ new" "list_all (\<lambda>c. \<not> is_stack_call c) new"
    "bt_vendor_cbacks u = bt_vendor_cbacks t" by (auto simp: sys_only_def)
  with assms(1,3) no_stack_call [OF new(2)] show ?thesis by (auto simp: rtk_post_def)
qed

lemma set_hw_fctrl_sys_only: "sys_only s (userial_vendor_set_hw_fctrl j f s)"
  by (simp add: sys_only_def userial_vendor_set_hw_fctrl_def tc_set_def Let_def)

lemma set_hw_fctrl_rtk [simp]:
  "rtk_state (userial_vendor_set_hw_fctrl j f s) = rtk_state s" "rtk_fw_fd (userial_vendor_set_hw_fctrl j f s) = rtk_fw_fd s"
  "buf (userial_vendor_set_hw_fctrl j f s) = buf s"
  by (simp_all add: userial_vendor_set_hw_fctrl_def tc_set_def Let_def)

lemma post_fw_done:
  assumes "cbacks_ok s"
  shows "rtk_post p s (rtk_fw_done cfg p s)"
proof -
  let ?a = "case buf s of None \<Rightarrow> s | Some (a, _) \<Rightarrow> (sys_free a s)\<lparr>buf := None\<rparr>"
  let ?b = "(vnd_notify (Fwcfg_cb BT_VND_OP_RESULT_SUCCESS) (vnd_dealloc p ?a))\<lparr>rtk_state := RTK_CFG_IDLE\<rparr>"
  let ?c = "userial_vendor_set_hw_fctrl (stack_junk cfg) (if gHwFlowControlEnable ?b \<noteq> 0 then 1 else 0) ?b"
  let ?d = "if rtk_fw_fd ?c \<noteq> -1 then (sys_close (rtk_fw_fd ?c) ?c)\<lparr>rtk_fw_fd := -1\<rparr> else ?c"
  have a: "sys_only s ?a" by (auto simp: sys_only_def sys_free_def split: option.split)
  obtain cb where "bt_vendor_cbacks ?a = Some cb" using cbacks_ok_Some [OF sys_only_cbacks_ok [OF a assms]] by blast
  then have "rtk_post p ?a (C_TRUE, ?b)" by (simp add: rtk_post_def vnd_notify_def vnd_dealloc_def)
  then have b: "rtk_post p s (C_TRUE, ?b)" by (rule sys_only_post [OF a])
  have c: "rtk_post p s (C_TRUE, ?c)" by (rule post_sys_only [OF b set_hw_fctrl_sys_only]) simp
  have "rtk_post p s (C_TRUE, ?d)"
    by (rule post_sys_only [OF c]) (simp_all add: sys_only_def sys_close_def)
  then show ?thesis unfolding rtk_fw_done_def Let_def .
qed

lemma post_download:
  assumes "cbacks_ok s" and "rtk_download_fw cfg e opcode p b s = Some rt"
  shows "rtk_post p s rt"
proof -
  have upd: "sys_only s (s\<lparr>iIndexRx := x, bufpatch := y, iCurIndex := z\<rparr>)" "sys_only s (s\<lparr>iIndexRx := x, iCurIndex := z\<rparr>)"
    for x y z by (simp_all add: sys_only_def)
  from assms(2) obtain u where u: "sys_only s u" and
    rt: "rt = rtk_fw_done cfg p u \<or> (\<exists>data. rt = hci_download_patch_h4 p b (iCurIndex (rtk_next_packet u)) data (rtk_next_packet u))"
    by (auto simp: rtk_download_fw_def Let_def split: if_splits option.splits intro: upd sys_only_refl)
  have ok: "cbacks_ok u" by (rule sys_only_cbacks_ok [OF u assms(1)])
  have next_only: "sys_only u (rtk_next_packet u)" by (simp add: sys_only_def rtk_next_packet_def)
  have fin: "rtk_post p u (rtk_fw_done cfg p u)" by (rule post_fw_done [OF ok])
  from rt show ?thesis
  proof (elim disjE exE)
    assume "rt = rtk_fw_done cfg p u"
    then show ?thesis using sys_only_post [OF u fin] by simp
  next
    fix data assume rt: "rt = hci_download_patch_h4 p b (iCurIndex (rtk_next_packet u)) data (rtk_next_packet u)"
    show ?thesis unfolding rt hci_download_patch_h4_def
      by (rule sys_only_post [OF u sys_only_post [OF next_only rtk_post_xmit]])
        (simp_all add: sys_only_cbacks_ok [OF next_only ok])
  qed
qed

lemma post_rtk_switch:
  assumes "cbacks_ok s" and "rtk_config_switch cfg e opcode p b s = Some rt"
  shows "rtk_post p s rt"
proof (cases "rtk_state s")
  case RTK_CFG_START
  with assms(2) obtain n u where u: "rtk_load_files s = Some (n, u)"
    by (auto simp: rtk_config_switch_def rtk_cfg_start_def split: option.splits)
  let ?v = "rtk_init_counters (nat (buf_len u)) u"
  have su: "sys_only s u" by (rule load_files_sys_only [OF u])
  have sv: "sys_only s ?v" using su by (simp add: sys_only_def rtk_init_counters_def Let_def)
  note oku = sys_only_cbacks_ok [OF su assms(1)] and okv = sys_only_cbacks_ok [OF sv assms(1)]
  have nofw: "rtk_post p u (C_TRUE, (vnd_notify (Fwcfg_cb BT_VND_OP_RESULT_SUCCESS) (vnd_dealloc p u))\<lparr>rtk_state := RTK_CFG_IDLE\<rparr>)"
    using cbacks_ok_Some [OF oku] by (auto simp: rtk_post_def vnd_notify_def vnd_dealloc_def)
  have baud: "rtk_post p ?v (rtk_set_controller_baud p b ?v)"
    unfolding rtk_set_controller_baud_def hw_config_set_controller_baudrate_def by (rule rtk_post_xmit [OF okv]) simp
  show ?thesis
    using assms(2) RTK_CFG_START u sys_only_post [OF su nofw] sys_only_post [OF sv baud]
      sys_only_post [OF sv post_download [OF okv]]
    by (auto simp: rtk_config_switch_def rtk_cfg_start_def Let_def split: if_splits)
next
  case RTK_CFG_SET_UART_BAUD_CONTROLLER
  then show ?thesis using assms rtk_post_xmit [OF assms(1)]
    by (auto simp: rtk_config_switch_def rtk_set_controller_baud_def hw_config_set_controller_baudrate_def)
next
  case RTK_CFG_SET_UART_BAUD_HOST
  have h: "sys_only s (rtk_set_host_baud s)"
    by (simp add: sys_only_def rtk_set_host_baud_def rtk_ms_delay_def rtk_set_baud_calls Let_def)
  show ?thesis using sys_only_post [OF h post_download [OF sys_only_cbacks_ok [OF h assms(1)]]]
      assms(2) RTK_CFG_SET_UART_BAUD_HOST by (simp add: rtk_config_switch_def)
next
  case RTK_CFG_DL_FW_PATCH
  then show ?thesis using post_download [OF assms(1)] assms(2) by (simp add: rtk_config_switch_def)
qed (use assms(2) in \<open>auto simp: rtk_config_switch_def rtk_post_def\<close>)


lemma rtk_abort_spec:
  assumes "bt_vendor_cbacks s \<noteq> None"
  shows "\<exists>new. calls (rtk_config_abort p s) = calls s @ new
      \<and> (\<forall>a. net new a = (if p = Some a then -1 else 0)) \<and> fwcfg_results new = [BT_VND_OP_RESULT_FAIL]"
    and "rtk_state (rtk_config_abort p s) = RTK_CFG_IDLE"
    and "bt_vendor_cbacks (rtk_config_abort p s) = bt_vendor_cbacks s"
  using assms by (auto simp: rtk_config_abort_def vnd_dealloc_def vnd_notify_def sys_close_def Let_def split: option.splits)

text \<open>What one call of the handler guarantees.\<close>

definition rtk_cback_post :: "hci_event \<Rightarrow> rtk_st \<Rightarrow> rtk_st \<Rightarrow> bool" where
  "rtk_cback_post e s t \<longleftrightarrow> bt_vendor_cbacks t = bt_vendor_cbacks s \<and>
     (\<exists>new. calls t = calls s @ new \<and> (\<forall>a. net new a = (if a = evt_addr e then -1 else 0))
        \<and> (if rtk_state t = RTK_CFG_IDLE then \<exists>r. fwcfg_results new = [r] else fwcfg_results new = []))"

lemma rtk_cback_finish:
  assumes "bt_vendor_cbacks s \<noteq> None"
    and "bt_vendor_cbacks t = bt_vendor_cbacks s" and "calls t = calls s @ new" and "r = C_FALSE \<or> r = C_TRUE"
    and "\<And>a. net new a = (if r = C_FALSE \<and> b = Some a then 1 else 0)"
    and "fwcfg_results new = (if r = C_TRUE \<and> rtk_state t = RTK_CFG_IDLE then [BT_VND_OP_RESULT_SUCCESS] else [])"
  shows "rtk_cback_post e s (let u = vnd_dealloc (evt_addr e) t in if r = C_FALSE then rtk_config_abort b u else u)"
proof -
  let ?u = "vnd_dealloc (evt_addr e) t"
  have u: "calls ?u = calls s @ new @ [Dealloc (evt_addr e)]" "bt_vendor_cbacks ?u \<noteq> None" "rtk_state ?u = rtk_state t"
    "bt_vendor_cbacks ?u = bt_vendor_cbacks s"
    using assms(1-3) by (auto simp: vnd_dealloc_def)
  show ?thesis
  proof (cases "r = C_FALSE")
    case True
    from rtk_abort_spec(1) [OF u(2), of b] obtain new' where new': "calls (rtk_config_abort b ?u) = calls ?u @ new'"
      "\<And>a. net new' a = (if b = Some a then -1 else 0)" "fwcfg_results new' = [BT_VND_OP_RESULT_FAIL]" by blast
    have "rtk_cback_post e s (rtk_config_abort b ?u)" unfolding rtk_cback_post_def
      by (intro conjI exI [of _ "new @ Dealloc (evt_addr e) # new'"])
        (use rtk_abort_spec(2,3) [OF u(2), of b] u assms(5,6) new' True in auto)
    with True show ?thesis by (simp add: Let_def)
  next
    case False
    then have "rtk_cback_post e s ?u" using u assms(4-6) by (auto simp: rtk_cback_post_def)
    with False show ?thesis by (simp add: Let_def)
  qed
qed

lemma rtk_config_cback_post:
  assumes "cbacks_ok s" and "rtk_config_cback cfg e s = Some t"
  shows "rtk_cback_post e s t"
proof -
  from cbacks_ok_Some [OF assms(1)] obtain cb where cb: "bt_vendor_cbacks s = Some cb" by blast
  let ?ok = "evt_data e ! RTK_STATUS_RET_BYTE = 0"
  let ?alloc = "cb_alloc cb (calls s) RTK_HCI_CMD_MAX_LEN"
  consider "\<not> ?ok" | "?ok" "?alloc = None" | p mem where "?ok" "?alloc = Some (p, mem)" by fastforce
  then show ?thesis
  proof cases
    case 1
    then have t: "t = (let u = vnd_dealloc (evt_addr e) s in if C_FALSE = C_FALSE then rtk_config_abort None u else u)"
      using assms(2) by (simp add: rtk_config_cback_def Let_def)
    show ?thesis unfolding t by (rule rtk_cback_finish [where new = "[]"]) (simp_all add: cb)
  next
    case 2
    then have t: "t = (let u = vnd_dealloc (evt_addr e) (s\<lparr>calls := calls s @ [Alloc RTK_HCI_CMD_MAX_LEN None]\<rparr>)
       in if C_FALSE = C_FALSE then rtk_config_abort None u else u)"
      using assms(2) by (simp add: rtk_config_cback_def vnd_alloc_def cb Let_def)
    show ?thesis unfolding t
      by (rule rtk_cback_finish [where new = "[Alloc RTK_HCI_CMD_MAX_LEN None]"]) (simp_all add: cb)
  next
    case 3
    let ?s = "s\<lparr>calls := calls s @ [Alloc RTK_HCI_CMD_MAX_LEN (Some p)]\<rparr>"
    from assms(2) 3 obtain r u where
      sw: "rtk_config_switch cfg e (STREAM_TO_UINT16 (evt_data e) RTK_EVT_OPCODE) p (fresh_cmd mem) ?s = Some (r, u)"
      and t: "t = (let v = vnd_dealloc (evt_addr e) u in if r = C_FALSE then rtk_config_abort (Some p) v else v)"
      by (auto simp: rtk_config_cback_def vnd_alloc_def cb Let_def split: option.splits)
    have "rtk_post p ?s (r, u)"
      by (rule post_rtk_switch [OF _ sw]) (use assms(1) in \<open>simp add: cbacks_ok_def\<close>)
    then obtain new where "calls u = calls ?s @ new" "\<And>a. net new a = (if r = C_TRUE \<and> a = p then -1 else 0)"
      "fwcfg_results new = (if r = C_TRUE \<and> rtk_state u = RTK_CFG_IDLE then [BT_VND_OP_RESULT_SUCCESS] else [])"
      and "r = C_FALSE \<or> r = C_TRUE" "bt_vendor_cbacks u = bt_vendor_cbacks s" by (auto simp: rtk_post_def)
    then show ?thesis unfolding t
      by (intro rtk_cback_finish [where new = "Alloc RTK_HCI_CMD_MAX_LEN (Some p) # new"]) (auto simp: cb)
  qed
qed

interpretation rtk_config: buffer_contract "\<lambda>s e t. rtk_config_cback cfg e s = Some t" calls cbacks_ok for cfg
proof unfold_locales
  fix s e t
  assume "cbacks_ok s" "rtk_config_cback cfg e s = Some t"
  from rtk_config_cback_post [OF this] this(1)
  show "\<exists>new. calls t = calls s @ new \<and> (\<forall>a. net new a = (if a = evt_addr e then - 1 else 0))" "cbacks_ok t"
    by (auto simp: rtk_cback_post_def cbacks_ok_def)
qed

interpretation rtk_lpm: buffer_contract "\<lambda>s e t. rtk_lpm_ctrl_cback e s = t" "calls :: rtk_st \<Rightarrow> history" cbacks_ok
  by unfold_locales
    (auto simp: rtk_lpm_ctrl_cback_def vnd_notify_def vnd_dealloc_def cbacks_ok_def split: option.splits)

subsection \<open>Requests\<close>

lemma rtk_config_start_request:
  "\<exists>new. calls (rtk_config_start s) = calls s @ new \<and> bt_vendor_cbacks (rtk_config_start s) = bt_vendor_cbacks s
     \<and> (bt_vendor_cbacks s = None \<longrightarrow> new = [])"
  by (auto simp: rtk_config_start_def vnd_alloc_def vnd_xmit_def vnd_notify_def Let_def split: option.split)

lemma rtk_request_step:
  assumes "rtk_request cfg ch_max s r t"
  shows "bt_vendor_cbacks t = bt_vendor_cbacks s" (is ?cb)
    and "\<exists>new. calls t = calls s @ new \<and> (bt_vendor_cbacks s = None \<longrightarrow> list_all (\<lambda>c. \<not> is_stack_call c) new)" (is ?hist)
proof -
  from assms obtain ret out where op: "rtk_op cfg ch_max r s = Some (ret, out, t)" by (auto simp: rtk_request_def)
  have sys: "?cb \<and> ?hist" if "sys_only s t" using that by (auto simp: sys_only_def)
  have "?cb \<and> ?hist"
  proof (cases r)
    case (BT_VND_OP_POWER_CTRL p)
    show ?thesis by (rule sys, cases p) (use op BT_VND_OP_POWER_CTRL set_power_sys_only in \<open>auto simp: rtk_op_def\<close>)
  next
    case BT_VND_OP_FW_CFG
    then show ?thesis using op rtk_config_start_request [of s] by (auto simp: rtk_op_def)
  next
    case BT_VND_OP_USERIAL_OPEN
    then show ?thesis using op rtk_userial_open_sys_only [of s cfg rtk_userial_init_cfg]
      by (intro sys) (auto simp: rtk_op_def Let_def split: prod.splits if_splits)
  next
    case BT_VND_OP_USERIAL_CLOSE
    then show ?thesis using op userial_close_sys_only [of s cfg] by (intro sys) (auto simp: rtk_op_def)
  qed (use op in \<open>auto simp: rtk_op_def\<close>)
  then show ?cb ?hist by auto
qed

interpretation rtk_lib: vendor_lib "rtk_request cfg ch_max" calls "\<lambda>s. bt_vendor_cbacks s \<noteq> None" for cfg ch_max
  by unfold_locales (use rtk_request_step in \<open>auto\<close>)

end
