(* ===== verification/Rtk_Download.thy ===== *)
theory Rtk_Download
  imports Rtk_Hardware
begin

text \<open>
  The firmware download of the RTL8723 library as a protocol: the image (firmware followed by
  the configuration file) is cut into packets of 252 bytes, numbered from 0, followed by empty
  packets up to a total that makes the number of commands a multiple of 8; the last packet
  carries bit 7 in its index.  The handler sends packet \<open>k + 1\<close> when packet \<open>k\<close> is acknowledged.
  The counters are 8 bits wide and the index field has 7 bits: the theorems are for images whose
  total stays below 128.
\<close>

section \<open>The packets\<close>

definition dl_end :: "nat \<Rightarrow> nat" where
  "dl_end n = (n - 1) div PATCH_DATA_FIELD_MAX_SIZE"

text \<open>Number of the last packet; \<open>chg\<close> says whether a speed change precedes the download.\<close>

definition dl_total :: "nat \<Rightarrow> bool \<Rightarrow> nat" where
  "dl_total n chg = (let k = dl_end n + (if chg then 2 else 1) in dl_end n + (8 - k mod 8) mod 8)"

definition packet_index :: "nat \<Rightarrow> nat \<Rightarrow> u8" where
  "packet_index T k = (if k = T then of_nat k OR 0x80 else of_nat k)"

definition packet_data :: "u8 list \<Rightarrow> nat \<Rightarrow> u8 list" where
  "packet_data B k = take PATCH_DATA_FIELD_MAX_SIZE (drop (PATCH_DATA_FIELD_MAX_SIZE * k) B)"

definition packet_cmd :: "u8 list \<Rightarrow> nat \<Rightarrow> nat \<Rightarrow> u16 \<times> u8 list" where
  "packet_cmd B T k = (HCI_VSC_DOWNLOAD_FW_PATCH,
     UINT16_TO_STREAM HCI_VSC_DOWNLOAD_FW_PATCH @ [1 + of_nat (length (packet_data B k)), packet_index T k]
       @ packet_data B k)"

text \<open>The event that acknowledges packet \<open>k\<close>, and the completion of another command.\<close>

definition acks :: "hci_event \<Rightarrow> u8 \<Rightarrow> bool" where
  "acks e i \<longleftrightarrow> evt_data e ! RTK_STATUS_RET_BYTE = 0
     \<and> STREAM_TO_UINT16 (evt_data e) RTK_EVT_OPCODE = HCI_VSC_DOWNLOAD_FW_PATCH
     \<and> evt_data e ! (RTK_STATUS_RET_BYTE + 1) = i"

definition rtk_completes :: "hci_event \<Rightarrow> u16 \<Rightarrow> bool" where
  "rtk_completes e op \<longleftrightarrow> evt_data e ! RTK_STATUS_RET_BYTE = 0
     \<and> STREAM_TO_UINT16 (evt_data e) RTK_EVT_OPCODE = op"

definition stack_ok :: "rtk_st \<Rightarrow> bool" where
  "stack_ok s \<longleftrightarrow> (\<exists>cb. bt_vendor_cbacks s = Some cb \<and> (\<forall>h n. cb_alloc cb h n \<noteq> None)
     \<and> (\<forall>h op b. cb_xmit cb h op b = C_TRUE))"

text \<open>The counters describe image \<open>B\<close> with last packet \<open>T\<close>.\<close>

definition dl_counters :: "rtk_st \<Rightarrow> u8 list \<Rightarrow> nat \<Rightarrow> bool" where
  "dl_counters s B T \<longleftrightarrow> B \<noteq> [] \<and> dl_end (length B) \<le> T \<and> T \<le> 127
     \<and> (\<exists>a. buf s = Some (a, B)) \<and> iEndIndex s = of_nat (dl_end (length B)) \<and> iTotalIndex s = of_nat T
     \<and> iLastPacketLen s = of_nat (length B - PATCH_DATA_FIELD_MAX_SIZE * dl_end (length B))"

text \<open>Packet \<open>k\<close> is the next one to send, respectively is on its way.\<close>

definition dl_before :: "rtk_st \<Rightarrow> u8 list \<Rightarrow> nat \<Rightarrow> nat \<Rightarrow> bool" where
  "dl_before s B T k \<longleftrightarrow> dl_counters s B T \<and> k \<le> T \<and> iCurIndex s = of_nat k
     \<and> (k \<le> dl_end (length B) \<longrightarrow> bufpatch s = Some (PATCH_DATA_FIELD_MAX_SIZE * k))"

definition dl_sent :: "rtk_st \<Rightarrow> u8 list \<Rightarrow> nat \<Rightarrow> nat \<Rightarrow> bool" where
  "dl_sent s B T k \<longleftrightarrow> dl_counters s B T \<and> k \<le> T \<and> iCurIndex s = packet_index T k
     \<and> rtk_state s = RTK_CFG_DL_FW_PATCH
     \<and> (k \<le> dl_end (length B) \<longrightarrow> bufpatch s = Some (PATCH_DATA_FIELD_MAX_SIZE * k))"

section \<open>Facts\<close>

lemma small_less: "k \<le> 127 \<Longrightarrow> m \<le> 127 \<Longrightarrow> (of_nat k :: u8) < of_nat m \<longleftrightarrow> k < m"
  by (simp add: word_less_nat_alt unat_of_nat8)

lemma small_eq: "k \<le> 127 \<Longrightarrow> m \<le> 127 \<Longrightarrow> (of_nat k :: u8) = of_nat m \<longleftrightarrow> k = m"
  by (simp add: word_unat_eq_iff unat_of_nat8)

lemma small_and_7F: "k \<le> 127 \<Longrightarrow> (of_nat k :: u8) AND 0x7F = of_nat k"
proof -
  assume k: "k \<le> 127"
  have "(of_nat k :: u8) AND mask 7 = of_nat (take_bit 7 k)"
    by (simp only: take_bit_eq_mask [symmetric] take_bit_of_nat)
  moreover have "take_bit 7 k = k" using k by (simp add: take_bit_eq_mod)
  moreover have "mask 7 = (0x7F :: u8)" by (simp add: mask_eq_exp_minus_1)
  ultimately show ?thesis by simp
qed

lemma small_and_80: "k \<le> 127 \<Longrightarrow> (of_nat k :: u8) AND 0x80 = 0"
proof -
  assume "k \<le> 127"
  then have "(of_nat k :: u8) AND 0x80 = (of_nat k AND 0x7F) AND 0x80" by (simp only: small_and_7F)
  also have "\<dots> = of_nat k AND (0x7F AND 0x80)" by (simp only: and.assoc)
  finally show ?thesis by simp
qed

lemma or_and_80: "((x :: u8) OR 0x80) AND 0x80 \<noteq> 0"
proof -
  have "(x OR 0x80) AND 0x80 = 0x80" by (simp add: and.commute [of _ "0x80"] bit.conj_disj_distrib)
  then show ?thesis by simp
qed

lemma packet_data_bounds:
  assumes "B \<noteq> []" and "k \<le> dl_end (length B)"
  shows "length (packet_data B k) = (if k < dl_end (length B) then PATCH_DATA_FIELD_MAX_SIZE
        else length B - PATCH_DATA_FIELD_MAX_SIZE * k)"
    and "k = dl_end (length B) \<Longrightarrow> 0 < length B - PATCH_DATA_FIELD_MAX_SIZE * k
        \<and> length B - PATCH_DATA_FIELD_MAX_SIZE * k \<le> PATCH_DATA_FIELD_MAX_SIZE"
proof -
  let ?n = "length B"
  have n: "0 < ?n" using assms(1) by simp
  let ?m = "length B - 1"
  have "252 * (?m div 252) + ?m mod 252 = ?m" by simp
  moreover have "?m mod 252 < 252" by simp
  ultimately have q: "252 * dl_end ?n \<le> ?m" "?m < 252 * dl_end ?n + 252" unfolding dl_end_def by linarith+
  then have last: "0 < ?n - 252 * dl_end ?n" "?n - 252 * dl_end ?n \<le> 252" using n by linarith+
  then show "k = dl_end ?n \<Longrightarrow> 0 < ?n - 252 * k \<and> ?n - 252 * k \<le> 252" by simp
  show "length (packet_data B k) = (if k < dl_end ?n then 252 else ?n - 252 * k)"
  proof (cases "k < dl_end ?n")
    case True
    then have "252 * Suc k \<le> 252 * dl_end ?n" by (intro mult_le_mono2) simp
    moreover have "?m \<le> ?n" by simp
    ultimately have "252 * Suc k \<le> ?n" using q(1) by linarith
    then have "252 * k + 252 \<le> ?n" by simp
    then show ?thesis using True by (simp add: packet_data_def)
  next
    case False
    then have "k = dl_end ?n" using assms(2) by simp
    then show ?thesis using last by (simp add: packet_data_def)
  qed
qed

lemma packet_data_padding:
  assumes "B \<noteq> []" and "dl_end (length B) < k"
  shows "packet_data B k = []"
proof -
  have "(length B - 1) div 252 < k" using assms(2) by (simp add: dl_end_def)
  then have "length B - 1 < 252 * k" by (metis div_less_iff_less_mult mult.commute zero_less_numeral)
  then show ?thesis by (simp add: packet_data_def)
qed


lemma next_packet_frame [simp]:
  "buf (rtk_next_packet s) = buf s" "iEndIndex (rtk_next_packet s) = iEndIndex s"
  "iTotalIndex (rtk_next_packet s) = iTotalIndex s" "iLastPacketLen (rtk_next_packet s) = iLastPacketLen s"
  "bt_vendor_cbacks (rtk_next_packet s) = bt_vendor_cbacks s" "calls (rtk_next_packet s) = calls s"
  by (simp_all add: rtk_next_packet_def)

lemma dl_counters_cong:
  "\<lbrakk>buf t = buf s; iEndIndex t = iEndIndex s; iTotalIndex t = iTotalIndex s; iLastPacketLen t = iLastPacketLen s\<rbrakk>
     \<Longrightarrow> dl_counters t B T = dl_counters s B T"
  by (simp add: dl_counters_def)

text \<open>The packet chosen is packet \<open>k\<close>.\<close>

lemma next_packet:
  assumes "dl_before s B T k"
  shows "iCurIndex (rtk_next_packet s) = packet_index T k"
    and "rtk_packet_data (rtk_next_packet s) = Some (packet_data B k)"
    and "k \<le> dl_end (length B) \<Longrightarrow> bufpatch (rtk_next_packet s) = Some (PATCH_DATA_FIELD_MAX_SIZE * k)"
proof -
  let ?E = "dl_end (length B)"
  from assms obtain a where c: "B \<noteq> []" "?E \<le> T" "T \<le> 127" "buf s = Some (a, B)" "iEndIndex s = of_nat ?E"
      "iTotalIndex s = of_nat T" "iLastPacketLen s = of_nat (length B - 252 * ?E)" and k: "k \<le> T"
      "iCurIndex s = of_nat k" "k \<le> ?E \<Longrightarrow> bufpatch s = Some (252 * k)"
    by (auto simp: dl_before_def dl_counters_def)
  have small: "k \<le> 127" "?E \<le> 127" using c k by linarith+
  note cmp = small_less [OF small] small_less [OF small(1) c(3)] small_eq [OF small] small_eq [OF small(1) c(3)]
    small_and_7F [OF small(1)]
  consider "k < ?E" | "k = ?E" | "?E < k" by linarith
  then have "iCurIndex (rtk_next_packet s) = packet_index T k \<and> rtk_packet_data (rtk_next_packet s) = Some (packet_data B k)
    \<and> (k \<le> ?E \<longrightarrow> bufpatch (rtk_next_packet s) = Some (252 * k))"
  proof cases
    case 1
    then have "length (packet_data B k) = 252" using packet_data_bounds(1) [OF c(1), of k] by simp
    then have "252 * k + 252 \<le> length B" by (simp add: packet_data_def)
    with 1 c k cmp show ?thesis
      by (simp add: rtk_next_packet_def rtk_packet_data_def packet_index_def packet_data_def)
  next
    case 2
    let ?l = "length B - 252 * k"
    from 2 packet_data_bounds(2) [OF c(1), of k] have l: "0 < ?l" "?l \<le> 252" by simp_all
    then have u: "unat (of_nat ?l :: u8) = ?l" by (intro unat_of_nat8) simp
    then have nz: "(of_nat ?l :: u8) \<noteq> 0" using l(1) by (metis unat_0 less_not_refl)
    have "252 * k + ?l = length B" using l(1) by simp
    with 2 c k cmp u nz l show ?thesis
      by (auto simp: rtk_next_packet_def rtk_packet_data_def packet_index_def packet_data_def)
  next
    case 3
    then show ?thesis using c k cmp packet_data_padding [OF c(1) 3]
      by (auto simp: rtk_next_packet_def rtk_packet_data_def packet_index_def)
  qed
  then show "iCurIndex (rtk_next_packet s) = packet_index T k"
    and "rtk_packet_data (rtk_next_packet s) = Some (packet_data B k)"
    and "k \<le> ?E \<Longrightarrow> bufpatch (rtk_next_packet s) = Some (252 * k)" by auto
qed

text \<open>One step: the history grows by \<open>new\<close>, which transmits \<open>cmds\<close> and reports \<open>rs\<close>.\<close>

definition rtk_grows :: "rtk_st \<Rightarrow> rtk_st \<Rightarrow> (u16 \<times> u8 list) list \<Rightarrow> bt_vendor_op_result_t list \<Rightarrow> bool" where
  "rtk_grows s t cmds rs \<longleftrightarrow> bt_vendor_cbacks t = bt_vendor_cbacks s
     \<and> (\<exists>new. calls t = calls s @ new \<and> xmits new = cmds \<and> fwcfg_results new = rs)"

lemma rtk_grows_trans: "rtk_grows s t c1 r1 \<Longrightarrow> rtk_grows t u c2 r2 \<Longrightarrow> rtk_grows s u (c1 @ c2) (r1 @ r2)"
  unfolding rtk_grows_def
proof (elim conjE exE)
  fix new1 new2
  assume "bt_vendor_cbacks t = bt_vendor_cbacks s" "bt_vendor_cbacks u = bt_vendor_cbacks t"
    "calls t = calls s @ new1" "calls u = calls t @ new2"
    "xmits new1 = c1" "xmits new2 = c2" "fwcfg_results new1 = r1" "fwcfg_results new2 = r2"
  then show "bt_vendor_cbacks u = bt_vendor_cbacks s
      \<and> (\<exists>new. calls u = calls s @ new \<and> xmits new = c1 @ c2 \<and> fwcfg_results new = r1 @ r2)"
    by (intro conjI exI [of _ "new1 @ new2"]) simp_all
qed

lemma sys_only_grows: "sys_only s t \<Longrightarrow> rtk_grows s t [] []"
  using no_stack_call by (auto simp: sys_only_def rtk_grows_def)

lemma grows_stack_ok: "rtk_grows s t c r \<Longrightarrow> stack_ok s \<Longrightarrow> stack_ok t"
  by (simp add: rtk_grows_def stack_ok_def)

lemma stack_ok_xmit:
  "stack_ok s \<Longrightarrow> vnd_xmit op p b s = (C_TRUE, s\<lparr>calls := calls s @ [Xmit op p b C_TRUE]\<rparr>)"
  by (auto simp: stack_ok_def vnd_xmit_def)

lemma send_packet:
  assumes "stack_ok s" and "dl_before s B T k"
  shows "\<exists>u. hci_download_patch_h4 p b (iCurIndex (rtk_next_packet s)) (packet_data B k) (rtk_next_packet s) = (C_TRUE, u)
    \<and> rtk_grows s u [packet_cmd B T k] [] \<and> dl_sent u B T k"
proof -
  let ?n = "rtk_next_packet s"
  let ?cmd = "UINT16_TO_STREAM HCI_VSC_DOWNLOAD_FW_PATCH @ [1 + of_nat (length (packet_data B k)), packet_index T k]
       @ packet_data B k"
  let ?u = "?n\<lparr>rtk_state := RTK_CFG_DL_FW_PATCH, calls := calls s @ [Xmit HCI_VSC_DOWNLOAD_FW_PATCH p (set_cmd ?cmd b) C_TRUE]\<rparr>"
  have w: "wire (set_cmd ?cmd b) = ?cmd"
    by (rule wire_set_cmd) (simp add: packet_data_def)
  have "hci_download_patch_h4 p b (iCurIndex ?n) (packet_data B k) ?n = (C_TRUE, ?u)"
    using stack_ok_xmit [of "?n\<lparr>rtk_state := RTK_CFG_DL_FW_PATCH\<rparr>"] assms(1) next_packet(1) [OF assms(2)]
    by (simp add: hci_download_patch_h4_def stack_ok_def)
  moreover have "rtk_grows s ?u [packet_cmd B T k] []" using w by (simp add: rtk_grows_def packet_cmd_def)
  moreover have "dl_counters ?u B T" using assms(2) by (simp add: dl_before_def dl_counters_def)
  then have "dl_sent ?u B T k"
    using assms(2) next_packet(1,3) [OF assms(2)] by (simp add: dl_sent_def dl_before_def)
  ultimately show ?thesis by blast
qed

lemma fw_done_no_xmit: "calls (snd (rtk_fw_done cfg p s)) = calls s @ new \<Longrightarrow> xmits new = []"
proof -
  let ?a = "case buf s of None \<Rightarrow> s | Some (a, _) \<Rightarrow> (sys_free a s)\<lparr>buf := None\<rparr>"
  let ?b = "(vnd_notify (Fwcfg_cb BT_VND_OP_RESULT_SUCCESS) (vnd_dealloc p ?a))\<lparr>rtk_state := RTK_CFG_IDLE\<rparr>"
  let ?c = "userial_vendor_set_hw_fctrl (stack_junk cfg) (if gHwFlowControlEnable ?b \<noteq> 0 then 1 else 0) ?b"
  let ?d = "if rtk_fw_fd ?c \<noteq> -1 then (sys_close (rtk_fw_fd ?c) ?c)\<lparr>rtk_fw_fd := -1\<rparr> else ?c"
  assume new: "calls (snd (rtk_fw_done cfg p s)) = calls s @ new"
  have "\<exists>n. calls ?b = calls s @ n \<and> xmits n = []"
    by (auto simp: vnd_notify_def vnd_dealloc_def sys_free_def split: option.split)
  then obtain n1 where 1: "calls ?b = calls s @ n1" "xmits n1 = []" by blast
  have c: "sys_only ?b ?c" by (rule set_hw_fctrl_sys_only)
  have "sys_only ?c ?d" by (simp add: sys_only_def sys_close_def)
  from sys_only_trans [OF c this] obtain n2 where 2: "calls ?d = calls ?b @ n2" "list_all (\<lambda>c. \<not> is_stack_call c) n2"
    by (auto simp: sys_only_def)
  have "snd (rtk_fw_done cfg p s) = ?d" unfolding rtk_fw_done_def Let_def by simp
  with new 1(1) 2(1) have "new = n1 @ n2" by simp
  with 1(2) no_stack_call [OF 2(2)] show "xmits new = []" by simp
qed

lemma first_packet:
  assumes "stack_ok s" and "dl_before s B T 0" and "opcode \<noteq> HCI_VSC_DOWNLOAD_FW_PATCH"
  shows "\<exists>u. rtk_download_fw cfg e opcode p b s = Some (C_TRUE, u) \<and> rtk_grows s u [packet_cmd B T 0] [] \<and> dl_sent u B T 0"
  using send_packet [OF assms(1,2), of p b] assms(3) next_packet(2) [OF assms(2)]
  by (simp add: rtk_download_fw_def Let_def)

text \<open>Acknowledging packet \<open>k\<close>: the counters point to packet \<open>k + 1\<close>.\<close>

lemma next_ack:
  assumes "stack_ok s" and "dl_sent s B T k" and "k < T" and "acks e (packet_index T k)"
  shows "\<exists>u. rtk_download_fw cfg e HCI_VSC_DOWNLOAD_FW_PATCH p b s = Some (C_TRUE, u)
    \<and> rtk_grows s u [packet_cmd B T (Suc k)] [] \<and> dl_sent u B T (Suc k)"
proof -
  let ?E = "dl_end (length B)"
  from assms(2) have c: "dl_counters s B T" "T \<le> 127" "?E \<le> T" "iEndIndex s = of_nat ?E" "iTotalIndex s = of_nat T"
    and idx: "iCurIndex s = of_nat k" and bp: "k \<le> ?E \<Longrightarrow> bufpatch s = Some (252 * k)"
    using assms(3) by (auto simp: dl_sent_def dl_counters_def packet_index_def)
  from assms(3,4) have rx: "evt_data e ! (RTK_STATUS_RET_BYTE + 1) = of_nat k" by (simp add: acks_def packet_index_def)
  have small: "k \<le> 127" "?E \<le> 127" using c assms(3) by linarith+
  let ?t = "if k < ?E then s\<lparr>iIndexRx := of_nat k, bufpatch := Some (252 * Suc k), iCurIndex := of_nat (Suc k)\<rparr>
            else s\<lparr>iIndexRx := of_nat k, iCurIndex := of_nat (Suc k)\<rparr>"
  have before: "dl_before ?t B T (Suc k)"
    using c(1) assms(3) by (auto simp: dl_before_def dl_counters_def)
  have ok: "stack_ok ?t" using assms(1) by (simp add: stack_ok_def)
  have st: "rtk_grows s ?t [] []" by (simp add: rtk_grows_def)
  have fin: "\<not> (iIndexRx ?t AND 0x80 \<noteq> 0 \<or> iIndexRx ?t = iTotalIndex ?t)"
    using small_and_80 [OF small(1)] small_eq [OF small(1) c(2)] c(5) assms(3) by simp
  have "rtk_download_fw cfg e HCI_VSC_DOWNLOAD_FW_PATCH p b s
      = Some (hci_download_patch_h4 p b (iCurIndex (rtk_next_packet ?t)) (packet_data B (Suc k)) (rtk_next_packet ?t))"
  proof (cases "k < ?E")
    case True
    then show ?thesis
      using rx idx bp c(4) small_less [OF small] fin next_packet(2) [OF before]
      by (simp add: rtk_download_fw_def Let_def add.commute)
  next
    case False
    then show ?thesis
      using rx idx c(4) small_less [OF small] fin next_packet(2) [OF before]
      by (simp add: rtk_download_fw_def Let_def add.commute)
  qed
  with send_packet [OF ok before, of p b] show ?thesis using rtk_grows_trans [OF st] by fastforce
qed

lemma last_ack:
  assumes "stack_ok s" and "dl_sent s B T T" and "acks e (packet_index T T)"
  shows "\<exists>u. rtk_download_fw cfg e HCI_VSC_DOWNLOAD_FW_PATCH p b s = Some (C_TRUE, u)
    \<and> rtk_grows s u [] [BT_VND_OP_RESULT_SUCCESS] \<and> rtk_state u = RTK_CFG_IDLE \<and> buf u = None"
proof -
  let ?E = "dl_end (length B)"
  from assms(2) have c: "?E \<le> T" and bp: "?E = T \<Longrightarrow> bufpatch s \<noteq> None" and ends: "iEndIndex s = of_nat ?E" "T \<le> 127"
    "iCurIndex s = of_nat T OR 0x80"
    by (auto simp: dl_sent_def dl_counters_def packet_index_def)
  have ge: "\<not> iCurIndex s < iEndIndex s"
  proof
    assume "iCurIndex s < iEndIndex s"
    then have "unat (of_nat T OR 0x80 :: u8) < ?E" using ends c by (simp add: word_less_nat_alt unat_of_nat8)
    moreover have "128 \<le> unat (of_nat T OR 0x80 :: u8)"
    proof -
      have "(0x80 :: u8) \<le> of_nat T OR 0x80" by (rule le_word_or1)
      then show ?thesis by (simp add: word_le_nat_alt)
    qed
    ultimately show False using c ends(2) by linarith
  qed
  let ?t = "s\<lparr>iIndexRx := packet_index T T, iCurIndex := iCurIndex s + 1\<rparr>"
  have rx: "evt_data e ! (RTK_STATUS_RET_BYTE + 1) = packet_index T T" using assms(3) by (simp add: acks_def)
  have eq: "rtk_download_fw cfg e HCI_VSC_DOWNLOAD_FW_PATCH p b s = Some (rtk_fw_done cfg p ?t)"
    using rx ge or_and_80 [of "of_nat T"] by (simp add: rtk_download_fw_def Let_def packet_index_def)
  have ok: "cbacks_ok ?t" using assms(1) by (auto simp: stack_ok_def cbacks_ok_def xmit_bool_def)
  obtain u where u: "rtk_fw_done cfg p ?t = (C_TRUE, u)" "rtk_state u = RTK_CFG_IDLE" "buf u = None"
    by (auto simp: rtk_fw_done_def Let_def sys_close_def vnd_notify_def vnd_dealloc_def sys_free_def split: option.split)
  show ?thesis using eq u post_fw_done [OF ok, of p cfg] fw_done_no_xmit [of cfg p ?t]
    by (auto simp: rtk_post_def rtk_grows_def)
qed


subsection \<open>Runs\<close>

text \<open>A case of the switch inside the handler, in surroundings where nothing fails.\<close>

lemma rtk_cback_via:
  assumes "stack_ok s" and "rtk_completes e op"
    and "\<And>p mem h. stack_ok (s\<lparr>calls := h\<rparr>) \<Longrightarrow>
       \<exists>u. rtk_config_switch cfg e op p (fresh_cmd mem) (s\<lparr>calls := h\<rparr>) = Some (C_TRUE, u)
         \<and> rtk_grows (s\<lparr>calls := h\<rparr>) u c r \<and> P u"
    and "\<And>u a. P u \<Longrightarrow> P (vnd_dealloc a u)"
  shows "\<exists>t. rtk_config_cback cfg e s = Some t \<and> rtk_grows s t c r \<and> P t"
proof -
  from assms(1) obtain cb where cb: "bt_vendor_cbacks s = Some cb" "\<And>h n. cb_alloc cb h n \<noteq> None"
    by (auto simp: stack_ok_def)
  from cb(2) obtain p mem where a: "cb_alloc cb (calls s) RTK_HCI_CMD_MAX_LEN = Some (p, mem)" by fastforce
  let ?s = "s\<lparr>calls := calls s @ [Alloc RTK_HCI_CMD_MAX_LEN (Some p)]\<rparr>"
  have g: "rtk_grows s ?s [] []" by (simp add: rtk_grows_def)
  from assms(3) [OF grows_stack_ok [OF g assms(1)]] obtain u where
    u: "rtk_config_switch cfg e op p (fresh_cmd mem) ?s = Some (C_TRUE, u)" "rtk_grows ?s u c r" "P u" by blast
  have "rtk_config_cback cfg e s = Some (vnd_dealloc (evt_addr e) u)"
    using assms(2) cb(1) a u(1) by (simp add: rtk_config_cback_def vnd_alloc_def rtk_completes_def Let_def)
  moreover have "rtk_grows u (vnd_dealloc (evt_addr e) u) [] []" by (simp add: rtk_grows_def vnd_dealloc_def)
  ultimately show ?thesis using rtk_grows_trans [OF g rtk_grows_trans [OF u(2)]] assms(4) [OF u(3)] by fastforce
qed

lemma dl_sent_dealloc: "dl_sent u B T k \<Longrightarrow> dl_sent (vnd_dealloc a u) B T k"
  by (simp add: dl_sent_def dl_counters_def vnd_dealloc_def)

lemma dl_sent_calls: "dl_sent s B T k \<Longrightarrow> dl_sent (s\<lparr>calls := h\<rparr>) B T k"
  by (simp add: dl_sent_def dl_counters_def)

lemma acks_completes: "acks e i \<Longrightarrow> rtk_completes e HCI_VSC_DOWNLOAD_FW_PATCH"
  by (simp add: acks_def rtk_completes_def)

lemma run_next_ack:
  assumes "stack_ok s" and "dl_sent s B T k" and "k < T" and "acks e (packet_index T k)"
  shows "\<exists>t. rtk_config_cback cfg e s = Some t \<and> rtk_grows s t [packet_cmd B T (Suc k)] [] \<and> dl_sent t B T (Suc k)"
proof (rule rtk_cback_via [OF assms(1) acks_completes [OF assms(4)]])
  fix p mem h
  assume ok: "stack_ok (s\<lparr>calls := h\<rparr>)"
  from next_ack [OF ok dl_sent_calls [OF assms(2)] assms(3,4), of cfg p "fresh_cmd mem"] assms(2)
  show "\<exists>u. rtk_config_switch cfg e HCI_VSC_DOWNLOAD_FW_PATCH p (fresh_cmd mem) (s\<lparr>calls := h\<rparr>) = Some (C_TRUE, u)
     \<and> rtk_grows (s\<lparr>calls := h\<rparr>) u [packet_cmd B T (Suc k)] [] \<and> dl_sent u B T (Suc k)"
    by (simp add: rtk_config_switch_def dl_sent_def [of s])
qed (rule dl_sent_dealloc)

lemma run_last_ack:
  assumes "stack_ok s" and "dl_sent s B T T" and "acks e (packet_index T T)"
  shows "\<exists>t. rtk_config_cback cfg e s = Some t \<and> rtk_grows s t [] [BT_VND_OP_RESULT_SUCCESS]
    \<and> (rtk_state t = RTK_CFG_IDLE \<and> buf t = None)"
proof (rule rtk_cback_via [OF assms(1) acks_completes [OF assms(3)]])
  fix p mem h
  assume ok: "stack_ok (s\<lparr>calls := h\<rparr>)"
  from last_ack [OF ok dl_sent_calls [OF assms(2)] assms(3), of cfg p "fresh_cmd mem"] assms(2)
  show "\<exists>u. rtk_config_switch cfg e HCI_VSC_DOWNLOAD_FW_PATCH p (fresh_cmd mem) (s\<lparr>calls := h\<rparr>) = Some (C_TRUE, u)
     \<and> rtk_grows (s\<lparr>calls := h\<rparr>) u [] [BT_VND_OP_RESULT_SUCCESS] \<and> (rtk_state u = RTK_CFG_IDLE \<and> buf u = None)"
    by (simp add: rtk_config_switch_def dl_sent_def)
qed (simp add: vnd_dealloc_def)

abbreviation rtk_step :: "rtk_cfg \<Rightarrow> rtk_st \<Rightarrow> hci_event \<Rightarrow> rtk_st \<Rightarrow> bool" where
  "rtk_step cfg \<equiv> \<lambda>s e t. rtk_config_cback cfg e s = Some t"

lemma dl_run:
  assumes "stack_ok s" and "dl_sent s B T k" and "list_all2 acks es (map (packet_index T) [k..<Suc T])"
  shows "\<exists>t. runs (rtk_step cfg) s es t
    \<and> rtk_grows s t (map (packet_cmd B T) [Suc k..<Suc T]) [BT_VND_OP_RESULT_SUCCESS]
    \<and> rtk_state t = RTK_CFG_IDLE \<and> buf t = None"
  using assms
proof (induction "T - k" arbitrary: k s es)
  case 0
  then have k: "k = T" by (auto simp: dl_sent_def)
  with "0.prems"(3) obtain e where e: "es = [e]" "acks e (packet_index T T)" by (auto simp: list_all2_Cons2)
  from run_last_ack [OF "0.prems"(1) _ e(2), of B cfg] "0.prems"(2) k obtain t where
    "rtk_step cfg s e t" "rtk_grows s t [] [BT_VND_OP_RESULT_SUCCESS]" "rtk_state t = RTK_CFG_IDLE" "buf t = None" by auto
  then show ?case using k e(1) by (auto intro!: exI [of _ t] runs_cons runs_nil)
next
  case (Suc m)
  then have k: "k < T" by simp
  then have up: "[k..<Suc T] = k # [Suc k..<Suc T]" by (simp add: upt_conv_Cons)
  with Suc.prems(3) obtain e es' where e: "es = e # es'" "acks e (packet_index T k)"
    "list_all2 acks es' (map (packet_index T) [Suc k..<Suc T])" by (auto simp: list_all2_Cons2)
  from run_next_ack [OF Suc.prems(1,2) k e(2), of cfg] obtain t where
    t: "rtk_step cfg s e t" "rtk_grows s t [packet_cmd B T (Suc k)] []" "dl_sent t B T (Suc k)" by blast
  have "m = T - Suc k" using Suc.hyps(2) by simp
  from Suc.hyps(1) [OF this grows_stack_ok [OF t(2) Suc.prems(1)] t(3) e(3)] obtain u where
    u: "runs (rtk_step cfg) t es' u" "rtk_grows t u (map (packet_cmd B T) [Suc (Suc k)..<Suc T]) [BT_VND_OP_RESULT_SUCCESS]"
     "rtk_state u = RTK_CFG_IDLE" "buf u = None" by blast
  have up': "[Suc k..<Suc T] = Suc k # [Suc (Suc k)..<Suc T]" using k by (simp add: upt_conv_Cons)
  have "rtk_grows s u (map (packet_cmd B T) [Suc k..<Suc T]) [BT_VND_OP_RESULT_SUCCESS]"
    using rtk_grows_trans [OF t(2) u(2)] unfolding up' by simp
  moreover have "runs (rtk_step cfg) s es u" unfolding e(1) by (rule runs_cons [OF t(1) u(1)])
  ultimately show ?case using u(3,4) by blast
qed

subsection \<open>Loading the files\<close>

lemma as_int_small: "n < 2 ^ 31 \<Longrightarrow> as_int n = int n"
  by (simp add: as_int_def signed_of_nat signed_take_bit_int_eq_self)

definition sys_ok :: "rtk_st \<Rightarrow> bool" where
  "sys_ok s \<longleftrightarrow> (\<forall>h fd. \<not> os_read_err (os s) h fd) \<and> (\<forall>h n. os_malloc (os s) h n \<noteq> None)"

definition file_is :: "rtk_st \<Rightarrow> string \<Rightarrow> u8 list \<Rightarrow> bool" where
  "file_is s path bs \<longleftrightarrow> os_stat (os s) path = Some (length bs) \<and> os_file (os s) path = bs
     \<and> (\<forall>h. os_open (os s) h path O_RDONLY \<ge> 0)"

text \<open>The configuration file \<open>C\<close> is valid and gives the speed \<open>baud\<close>.\<close>

definition config_is :: "rtk_st \<Rightarrow> u8 list \<Rightarrow> u32 \<Rightarrow> bool" where
  "config_is s C baud \<longleftrightarrow> file_is s bt_config_file_name C \<and> C \<noteq> []
     \<and> (\<exists>fc. rtk_parse_config_file C (gHwFlowControlEnable s) = Some (baud, fc))"

lemma get_config_ok:
  assumes "sys_ok s" and "config_is s C baud" and "length C < 2 ^ 31"
  shows "\<exists>a t. rtk_get_bt_config s = Some (int (length C), Some (a, C), baud, t) \<and> os t = os s
     \<and> iCurIndex t = iCurIndex s"
proof -
  from assms(2) obtain fc where fc: "rtk_parse_config_file C (gHwFlowControlEnable s) = Some (baud, fc)"
    and f: "os_stat (os s) bt_config_file_name = Some (length C)" "os_file (os s) bt_config_file_name = C"
      "\<And>h. \<not> os_open (os s) h bt_config_file_name O_RDONLY < 0"
    by (auto simp: config_is_def file_is_def not_less)
  from assms(1) have m: "\<And>h n. \<exists>a. os_malloc (os s) h n = Some a" "\<And>h fd. \<not> os_read_err (os s) h fd"
    by (auto simp: sys_ok_def)
  let ?h = "calls s @ [Sys_open bt_config_file_name O_RDONLY (os_open (os s) (calls s) bt_config_file_name O_RDONLY)]"
  obtain a where a: "os_malloc (os s) ?h (length C) = Some a" using m(1) by blast
  show ?thesis
    using fc f m(2) a as_int_small [OF assms(3)]
    by (simp add: rtk_get_bt_config_def sys_open_def sys_malloc_def sys_read_def sys_close_def Let_def)
qed

lemma get_firmware_ok:
  assumes "sys_ok s" and "file_is s get_firmware_name F" and "length F + n < 2 ^ 31"
  shows "\<exists>a t. rtk_get_bt_firmware n s = (int (length F + n), Some (a, F), t) \<and> os t = os s
     \<and> baudrate t = baudrate s \<and> iCurIndex t = iCurIndex s"
proof -
  from assms(2) have f: "os_stat (os s) get_firmware_name = Some (length F)" "os_file (os s) get_firmware_name = F"
      "\<And>h. \<not> os_open (os s) h get_firmware_name O_RDONLY < 0"
    by (auto simp: file_is_def not_less)
  from assms(1) have m: "\<And>h n. \<exists>a. os_malloc (os s) h n = Some a" "\<And>h fd. \<not> os_read_err (os s) h fd"
    by (auto simp: sys_ok_def)
  let ?h = "calls s @ [Sys_open get_firmware_name O_RDONLY (os_open (os s) (calls s) get_firmware_name O_RDONLY)]"
  obtain a where a: "os_malloc (os s) ?h (length F + n) = Some a" using m(1) by blast
  show ?thesis
    using f m(2) a as_int_small [OF assms(3)]
    by (simp add: rtk_get_bt_firmware_def sys_open_def sys_malloc_def sys_read_def Let_def)
qed

lemma load_files_ok:
  assumes "sys_ok s" and "config_is s C baud" and "file_is s get_firmware_name F" and "length F + length C < 2 ^ 31"
  shows "\<exists>a t. rtk_load_files s = Some (int (length C), t) \<and> buf t = Some (a, F @ C)
     \<and> buf_len t = int (length F + length C) \<and> baudrate t = baud \<and> iCurIndex t = 0 \<and> sys_only s t"
proof -
  let ?r = "rtk_reset_static s"
  have r: "sys_ok ?r" "config_is ?r C baud" "file_is ?r get_firmware_name F" "length C < 2 ^ 31" "iCurIndex ?r = 0"
    using assms by (simp_all add: sys_ok_def config_is_def file_is_def rtk_reset_static_def)
  from get_config_ok [OF r(1,2,4)] obtain a u where
    u: "rtk_get_bt_config ?r = Some (int (length C), Some (a, C), baud, u)" "os u = os ?r" "iCurIndex u = 0" using r(5) by auto
  have "sys_ok (u\<lparr>baudrate := baud\<rparr>)" "file_is (u\<lparr>baudrate := baud\<rparr>) get_firmware_name F"
    using r(1,3) u(2) by (simp_all add: sys_ok_def file_is_def)
  from get_firmware_ok [OF this assms(4)] obtain a' v where
    v: "rtk_get_bt_firmware (length C) (u\<lparr>baudrate := baud\<rparr>) = (int (length F + length C), Some (a', F), v)"
      "baudrate v = baud" "iCurIndex v = 0" using u(3) by auto
  have C: "C \<noteq> []" using assms(2) by (simp add: config_is_def)
  have "\<exists>t. rtk_load_files s = Some (int (length C), t) \<and> buf t = Some (a', F @ C)
     \<and> buf_len t = int (length F + length C) \<and> baudrate t = baud \<and> iCurIndex t = 0"
    using u(1) v C by (simp add: rtk_load_files_def sys_free_def Let_def)
  then show ?thesis using load_files_sys_only by blast
qed

lemma init_counters_before:
  assumes "buf s = Some (a, B)" and "B \<noteq> []" and "iCurIndex s = 0" and "dl_total (length B) (baudrate s \<noteq> 0) \<le> 127"
  shows "dl_before (rtk_init_counters (length B) s) B (dl_total (length B) (baudrate s \<noteq> 0)) 0"
proof -
  let ?n = "length B" and ?E = "dl_end (length B)"
  define k where "k = ?E + (if baudrate s \<noteq> 0 then 2 else 1)"
  define T where "T = dl_total ?n (baudrate s \<noteq> 0)"
  have T: "T = ?E + (8 - k mod 8) mod 8" by (simp add: T_def dl_total_def k_def Let_def)
  have small: "?E \<le> 127" "T \<le> 127" using assms(4) T T_def by linarith+
  have uE: "unat (of_nat ?E :: u8) = ?E" using small(1) by (intro unat_of_nat8) simp
  have add: "(if k mod 8 \<noteq> 0 then of_nat (8 - k mod 8) else 0) = (of_nat ((8 - k mod 8) mod 8) :: u8)"
  proof (cases "k mod 8 = 0")
    case False
    then have "(8 - k mod 8) mod 8 = 8 - k mod 8" by (intro mod_less) simp
    then show ?thesis using False by simp
  qed simp
  have tot: "(of_nat ((8 - k mod 8) mod 8) :: u8) + of_nat ?E = of_nat T" unfolding T by simp
  let ?l = "?n mod 252"
  have ml: "252 * ?E + (?n - 1) mod 252 = ?n - 1" by (simp add: dl_end_def)
  have last: "(if (of_nat ?l :: u8) = 0 then of_nat 252 else of_nat ?l) = (of_nat (?n - 252 * ?E) :: u8)"
  proof -
    have u: "unat (of_nat ?l :: u8) = ?l" by (intro unat_of_nat8) (rule less_trans [of _ 252], simp_all)
    have z: "(of_nat ?l :: u8) = 0 \<longleftrightarrow> ?l = 0" by (simp only: word_unat_eq_iff u unat_0)
    have n: "?n = 252 * ?E + (?n - 1) mod 252 + 1" using ml assms(2) by (cases B) auto
    have "?n - 252 * ?E = (if ?l = 0 then 252 else ?l)"
    proof (cases "(?n - 1) mod 252 = 251")
      case True
      then have "?n = 252 * (?E + 1)" using n by simp
      then show ?thesis by (metis add_diff_cancel_left' distrib_left mod_mult_self1_is_0 mult.right_neutral)
    next
      case False
      then have lt: "(?n - 1) mod 252 + 1 < 252" using mod_less_divisor [of 252 "?n - 1"] by linarith
      have "?l = (252 * ?E + ((?n - 1) mod 252 + 1)) mod 252" using n by (metis add.assoc)
      also have "\<dots> = (?n - 1) mod 252 + 1" using lt by (simp only: mod_mult_self4 mod_less)
      finally show ?thesis using n by simp
    qed
    then show ?thesis using z by simp
  qed
  have eq: "rtk_init_counters ?n s = s\<lparr>iEndIndex := of_nat ?E, iLastPacketLen := of_nat (?n - 252 * ?E),
      iAdditionPkt := of_nat ((8 - k mod 8) mod 8), iTotalIndex := of_nat T, nTotal := int (unat (of_nat T :: u8)),
      bufpatch := Some 0\<rparr>"
    unfolding rtk_init_counters_def Let_def dl_end_def [symmetric] uE k_def [symmetric] add tot last by (rule refl)
  have "dl_counters (rtk_init_counters ?n s) B T"
    unfolding eq using assms(1,2) small T by (simp add: dl_counters_def)
  then show ?thesis using assms(3) by (simp add: dl_before_def T_def [symmetric] eq)
qed


subsection \<open>The whole bring-up\<close>

definition baud_cmd :: "u32 \<Rightarrow> u16 \<times> u8 list" where
  "baud_cmd baud = (RTK_HCI_VSC_UPDATE_BAUDRATE,
     UINT16_TO_STREAM RTK_HCI_VSC_UPDATE_BAUDRATE @ [4] @ UINT16_TO_STREAM (ucast baud) @ [0, 0])"

lemma UINT32_of_u16: "UINT32_TO_STREAM (ucast (x :: u16)) = UINT16_TO_STREAM x @ [0, 0]"
proof -
  have "(ucast (ucast x :: u32) :: u8) = ucast x" "(ucast (drop_bit 8 (ucast x :: u32)) :: u8) = ucast (drop_bit 8 x)"
    "(ucast (drop_bit 16 (ucast x :: u32)) :: u8) = 0" "(ucast (drop_bit 24 (ucast x :: u32)) :: u8) = 0"
    by (rule bit_word_eqI; auto simp: bit_simps dest: bit_imp_le_length)+
  then show ?thesis by (simp add: UINT32_TO_STREAM_def UINT16_TO_STREAM_def)
qed

lemma host_baud_frame:
  "rtk_state (rtk_set_host_baud s) = rtk_state s" "dl_before (rtk_set_host_baud s) B T k = dl_before s B T k"
  "sys_only s (rtk_set_host_baud s)"
proof -
  have f: "buf (rtk_userial_vendor_set_baud b s) = buf s" "iEndIndex (rtk_userial_vendor_set_baud b s) = iEndIndex s"
    "iTotalIndex (rtk_userial_vendor_set_baud b s) = iTotalIndex s" "iLastPacketLen (rtk_userial_vendor_set_baud b s) = iLastPacketLen s"
    "iCurIndex (rtk_userial_vendor_set_baud b s) = iCurIndex s" "bufpatch (rtk_userial_vendor_set_baud b s) = bufpatch s"
    "rtk_state (rtk_userial_vendor_set_baud b s) = rtk_state s" for b
    by (simp_all add: rtk_userial_vendor_set_baud_def userial_defs Let_def split: prod.splits)
  show "rtk_state (rtk_set_host_baud s) = rtk_state s" "dl_before (rtk_set_host_baud s) B T k = dl_before s B T k"
    by (simp_all add: rtk_set_host_baud_def rtk_ms_delay_def Let_def dl_before_def dl_counters_def f)
  show "sys_only s (rtk_set_host_baud s)"
    by (simp add: sys_only_def rtk_set_host_baud_def rtk_ms_delay_def rtk_set_baud_calls Let_def)
qed

lemma dl_before_calls [simp]: "dl_before (s\<lparr>calls := h\<rparr>) B T k = dl_before s B T k"
  "dl_before (s\<lparr>rtk_state := st\<rparr>) B T k = dl_before s B T k"
  "dl_before (vnd_dealloc a s) B T k = dl_before s B T k"
  by (simp_all add: dl_before_def dl_counters_def vnd_dealloc_def)

lemma run_load:
  assumes "stack_ok s" and "rtk_state s = RTK_CFG_START" and "sys_ok s" and "config_is s C baud"
    and "file_is s get_firmware_name F" and "length F + length C < 2 ^ 31"
    and "dl_total (length (F @ C)) (baud \<noteq> 0) \<le> 127" and "rtk_completes e op"
  shows "\<exists>t. rtk_config_cback cfg e s = Some t \<and> rtk_grows s t [baud_cmd baud] []
    \<and> (rtk_state t = RTK_CFG_SET_UART_BAUD_HOST \<and> dl_before t (F @ C) (dl_total (length (F @ C)) (baud \<noteq> 0)) 0
       \<and> baudrate t = baud)"
proof (rule rtk_cback_via [OF assms(1,8)])
  fix p mem h
  let ?s = "s\<lparr>calls := h\<rparr>" and ?B = "F @ C" and ?T = "dl_total (length (F @ C)) (baud \<noteq> 0)"
  assume ok: "stack_ok ?s"
  have "sys_ok ?s" "config_is ?s C baud" "file_is ?s get_firmware_name F"
    using assms(3-5) by (simp_all add: sys_ok_def config_is_def file_is_def)
  from load_files_ok [OF this assms(6)] obtain a t where
    t: "rtk_load_files ?s = Some (int (length C), t)" "buf t = Some (a, ?B)" "buf_len t = int (length ?B)"
       "baudrate t = baud" "iCurIndex t = 0" "sys_only ?s t" by auto
  have C: "C \<noteq> []" using assms(4) by (simp add: config_is_def)
  define v where "v = rtk_init_counters (length ?B) t"
  have v: "dl_before v ?B ?T 0" using init_counters_before [OF t(2) _ t(5)] C t(4) assms(7) by (simp add: v_def)
  have fr: "baudrate v = baud" "bt_vendor_cbacks v = bt_vendor_cbacks t" "calls v = calls t"
    using t(4) by (simp_all add: v_def rtk_init_counters_def Let_def)
  have sv: "rtk_grows ?s v [] []" using sys_only_grows [OF t(6)] fr(2,3) by (simp add: rtk_grows_def)
  let ?cmd = "UINT16_TO_STREAM RTK_HCI_VSC_UPDATE_BAUDRATE @ [4] @ UINT32_TO_STREAM (ucast (ucast baud :: u16))"
  let ?u = "v\<lparr>rtk_state := RTK_CFG_SET_UART_BAUD_HOST,
       calls := calls v @ [Xmit RTK_HCI_VSC_UPDATE_BAUDRATE p (set_cmd ?cmd (fresh_cmd mem)) C_TRUE]\<rparr>"
  have "stack_ok (v\<lparr>rtk_state := RTK_CFG_SET_UART_BAUD_HOST\<rparr>)" using grows_stack_ok [OF sv ok] by (simp add: stack_ok_def)
  from stack_ok_xmit [OF this] have x: "rtk_set_controller_baud p (fresh_cmd mem) v = (C_TRUE, ?u)"
    by (simp add: rtk_set_controller_baud_def hw_config_set_controller_baudrate_def fr(1))
  have "wire (set_cmd ?cmd (fresh_cmd mem)) = ?cmd" by (rule wire_set_cmd) simp
  then have "rtk_grows v ?u [baud_cmd baud] []" by (simp add: rtk_grows_def baud_cmd_def UINT32_of_u16)
  from rtk_grows_trans [OF sv this] have g: "rtk_grows ?s ?u [baud_cmd baud] []" by simp
  have "rtk_config_switch cfg e op p (fresh_cmd mem) ?s = Some (C_TRUE, ?u)"
  proof -
    have nt: "nat (buf_len t) = length ?B" "buf_len t > 0"
      using t(3) C by (simp, metis append_is_Nil_conv length_greater_0_conv of_nat_0_less_iff)
    show ?thesis unfolding rtk_config_switch_def rtk_cfg_start_def
      using assms(2) t(1) C x nt by (simp add: Let_def v_def)
  qed
  moreover have "rtk_state ?u = RTK_CFG_SET_UART_BAUD_HOST" "dl_before ?u ?B ?T 0" "baudrate ?u = baud"
    using v fr(1) by simp_all
  ultimately show "\<exists>u. rtk_config_switch cfg e op p (fresh_cmd mem) ?s = Some (C_TRUE, u) \<and>
      rtk_grows ?s u [baud_cmd baud] [] \<and>
      (rtk_state u = RTK_CFG_SET_UART_BAUD_HOST \<and> dl_before u ?B ?T 0 \<and> baudrate u = baud)" using g by blast
qed (auto simp: vnd_dealloc_def)

lemma run_host_baud:
  assumes "stack_ok s" and "rtk_state s = RTK_CFG_SET_UART_BAUD_HOST" and "dl_before s B T 0"
    and "rtk_completes e op" and "op \<noteq> HCI_VSC_DOWNLOAD_FW_PATCH"
  shows "\<exists>t. rtk_config_cback cfg e s = Some t \<and> rtk_grows s t [packet_cmd B T 0] [] \<and> dl_sent t B T 0"
proof (rule rtk_cback_via [OF assms(1,4)])
  fix p mem h
  let ?s = "s\<lparr>calls := h\<rparr>"
  assume ok: "stack_ok ?s"
  have g: "rtk_grows ?s (rtk_set_host_baud ?s) [] []" by (rule sys_only_grows [OF host_baud_frame(3)])
  have "dl_before (rtk_set_host_baud ?s) B T 0" using assms(3) by (simp add: host_baud_frame)
  from first_packet [OF grows_stack_ok [OF g ok] this assms(5), of cfg e p "fresh_cmd mem"] rtk_grows_trans [OF g]
  show "\<exists>u. rtk_config_switch cfg e op p (fresh_cmd mem) ?s = Some (C_TRUE, u)
      \<and> rtk_grows ?s u [packet_cmd B T 0] [] \<and> dl_sent u B T 0"
    using assms(2) by (fastforce simp: rtk_config_switch_def)
qed (rule dl_sent_dealloc)

lemma rtk_start_state:
  assumes "stack_ok s"
  shows "rtk_grows s (rtk_config_start s) [(HCI_VSC_H5_INIT, UINT16_TO_STREAM HCI_VSC_H5_INIT)] []
    \<and> rtk_state (rtk_config_start s) = RTK_CFG_START \<and> os (rtk_config_start s) = os s
    \<and> gHwFlowControlEnable (rtk_config_start s) = gHwFlowControlEnable s"
proof -
  from assms obtain cb where cb: "bt_vendor_cbacks s = Some cb" "\<And>h n. cb_alloc cb h n \<noteq> None"
    "\<And>h op b. cb_xmit cb h op b = C_TRUE" by (auto simp: stack_ok_def)
  then obtain p mem where "cb_alloc cb (calls s) 2 = Some (p, mem)" by fastforce
  then show ?thesis using cb
    by (simp add: rtk_config_start_def vnd_alloc_def vnd_xmit_def Let_def rtk_grows_def)
qed

lemma rtk_bringup_run:
  assumes "stack_ok s" and "sys_ok s" and "config_is s C baud" and "file_is s get_firmware_name F"
    and "length F + length C < 2 ^ 31" and "T = dl_total (length (F @ C)) (baud \<noteq> 0)" and "T \<le> 127"
    and "rtk_completes e0 op0" and "rtk_completes e1 RTK_HCI_VSC_UPDATE_BAUDRATE"
    and "list_all2 acks es (map (packet_index T) [0..<Suc T])"
  shows "\<exists>t. runs (rtk_step cfg) (rtk_config_start s) (e0 # e1 # es) t
    \<and> rtk_state t = RTK_CFG_IDLE \<and> buf t = None
    \<and> rtk_grows s t ([(HCI_VSC_H5_INIT, UINT16_TO_STREAM HCI_VSC_H5_INIT), baud_cmd baud]
         @ map (packet_cmd (F @ C) T) [0..<Suc T]) [BT_VND_OP_RESULT_SUCCESS]"
proof -
  let ?s0 = "rtk_config_start s" and ?B = "F @ C"
  from rtk_start_state [OF assms(1)] have s0: "rtk_grows s ?s0 [(HCI_VSC_H5_INIT, UINT16_TO_STREAM HCI_VSC_H5_INIT)] []"
    "rtk_state ?s0 = RTK_CFG_START" "os ?s0 = os s" "gHwFlowControlEnable ?s0 = gHwFlowControlEnable s" by auto
  have env: "sys_ok ?s0" "config_is ?s0 C baud" "file_is ?s0 get_firmware_name F"
    using assms(2-4) s0(3,4) by (simp_all add: sys_ok_def config_is_def file_is_def)
  have ok0: "stack_ok ?s0" by (rule grows_stack_ok [OF s0(1) assms(1)])
  from run_load [OF ok0 s0(2) env assms(5) _ assms(8), of cfg] assms(6,7) obtain s1 where
    s1: "rtk_step cfg ?s0 e0 s1" "rtk_grows ?s0 s1 [baud_cmd baud] []" "rtk_state s1 = RTK_CFG_SET_UART_BAUD_HOST"
      "dl_before s1 ?B T 0" by auto
  note ok1 = grows_stack_ok [OF s1(2) ok0]
  from run_host_baud [OF ok1 s1(3,4) assms(9), of cfg] obtain s2 where
    s2: "rtk_step cfg s1 e1 s2" "rtk_grows s1 s2 [packet_cmd ?B T 0] []" "dl_sent s2 ?B T 0" by auto
  from dl_run [OF grows_stack_ok [OF s2(2) ok1] s2(3) assms(10), of cfg] obtain t where
    t: "runs (rtk_step cfg) s2 es t" "rtk_grows s2 t (map (packet_cmd ?B T) [Suc 0..<Suc T]) [BT_VND_OP_RESULT_SUCCESS]"
      "rtk_state t = RTK_CFG_IDLE" "buf t = None" by blast
  have up: "[0..<Suc T] = 0 # [Suc 0..<Suc T]" by (rule upt_conv_Cons) simp
  have "runs (rtk_step cfg) ?s0 (e0 # e1 # es) t" by (rule runs_cons [OF s1(1) runs_cons [OF s2(1) t(1)]])
  moreover from rtk_grows_trans [OF s0(1) rtk_grows_trans [OF s1(2) rtk_grows_trans [OF s2(2) t(2)]]]
  have "rtk_grows s t ([(HCI_VSC_H5_INIT, UINT16_TO_STREAM HCI_VSC_H5_INIT), baud_cmd baud]
         @ map (packet_cmd ?B T) [0..<Suc T]) [BT_VND_OP_RESULT_SUCCESS]" unfolding up by simp
  ultimately show ?thesis using t(3,4) by (intro exI [of _ t] conjI)
qed


subsection \<open>Configuration files\<close>

type_synonym config_entry = "u16 \<times> u8 list"

definition config_entry_bytes :: "config_entry \<Rightarrow> u8 list" where
  "config_entry_bytes en = UINT16_TO_STREAM (fst en) @ of_nat (length (snd en)) # snd en"

definition config_body :: "config_entry list \<Rightarrow> u8 list" where
  "config_body es = concat (map config_entry_bytes es)"

definition config_file :: "config_entry list \<Rightarrow> u8 list" where
  "config_file es = UINT32_TO_STREAM RTK_VENDOR_CONFIG_MAGIC @ UINT16_TO_STREAM (of_nat (length (config_body es)))
     @ config_body es"

definition config_entry_ok :: "config_entry \<Rightarrow> bool" where
  "config_entry_ok en \<longleftrightarrow> length (snd en) \<le> 255 \<and> (fst en = 0xc \<longrightarrow> 13 \<le> length (snd en))"

text \<open>What an entry means: the entry at offset 0xc holds the speed and, in bit 2 of its byte 12,
  the flow control flag.\<close>

definition config_apply :: "config_entry \<Rightarrow> u32 \<times> int \<Rightarrow> u32 \<times> int" where
  "config_apply en bf =
     (if fst en = 0xc then (STREAM_TO_UINT32 (snd en) 0, if snd en ! 12 AND 4 \<noteq> 0 then 1 else 0) else bf)"

lemma STREAM_TO_UINT16_shift: "STREAM_TO_UINT16 (xs @ ys) (length xs + i) = STREAM_TO_UINT16 ys i"
  by (simp add: STREAM_TO_UINT16_def nth_append)

lemma STREAM_TO_UINT32_shift: "STREAM_TO_UINT32 (xs @ ys) (length xs + i) = STREAM_TO_UINT32 ys i"
  by (simp add: STREAM_TO_UINT32_def nth_append)

lemma STREAM_TO_UINT32_prefix: "i + 3 < length xs \<Longrightarrow> STREAM_TO_UINT32 (xs @ ys) i = STREAM_TO_UINT32 xs i"
  by (simp add: STREAM_TO_UINT32_def nth_append)

lemma parse_entry_c:
  assumes "i < n" and "6 + i + 3 + 13 \<le> length b" and "STREAM_TO_UINT16 b (6 + i) = 0xc" and "unat (b ! (6 + i + 2)) = l"
  shows "rtk_parse_entries b n i bf = rtk_parse_entries b n (i + (l + 3))
     (STREAM_TO_UINT32 b (6 + i + 3), if l \<ge> 12 then (if b ! (6 + i + 3 + 12) AND 4 \<noteq> 0 then 1 else 0) else snd bf)"
proof -
  have "\<not> length b < 6 + i + 3" "\<not> length b < 6 + i + 3 + 13" using assms(2) by linarith+
  then show ?thesis
    by (subst rtk_parse_entries.simps) (simp only: Let_def assms(1,3,4) if_True if_False simp_thms)
qed

lemma parse_entry_other:
  assumes "i < n" and "6 + i + 3 \<le> length b" and "STREAM_TO_UINT16 b (6 + i) \<noteq> 0xc" and "unat (b ! (6 + i + 2)) = l"
  shows "rtk_parse_entries b n i bf = rtk_parse_entries b n (i + (l + 3)) bf"
proof -
  have "\<not> length b < 6 + i + 3" using assms(2) by linarith
  then show ?thesis
    by (subst rtk_parse_entries.simps) (simp only: Let_def assms(1,3,4) if_True if_False simp_thms)
qed

text \<open>The fields of an entry that stands behind \<open>pre\<close> in the file.\<close>

lemma entry_fields:
  fixes es and pre
  assumes "length hdr = 6" "length (snd en) \<le> 255"
  defines "b \<equiv> hdr @ pre @ config_body (en # es)" and "i \<equiv> 6 + length pre"
  shows "STREAM_TO_UINT16 b i = fst en" "unat (b ! (i + 2)) = length (snd en)" "i + 3 + length (snd en) \<le> length b"
    "13 \<le> length (snd en) \<Longrightarrow> STREAM_TO_UINT32 b (i + 3) = STREAM_TO_UINT32 (snd en) 0"
    "13 \<le> length (snd en) \<Longrightarrow> b ! (i + 3 + 12) = snd en ! 12"
proof -
  let ?d = "snd en"
  have b: "b = (hdr @ pre) @ UINT16_TO_STREAM (fst en) @ of_nat (length ?d) # ?d @ config_body es"
    by (simp add: b_def config_body_def config_entry_bytes_def)
  have i: "i = length (hdr @ pre)" using assms(1) by (simp add: i_def)
  show "i + 3 + length ?d \<le> length b" unfolding b i by simp
  show "STREAM_TO_UINT16 b i = fst en"
    using STREAM_TO_UINT16_shift [of "hdr @ pre" _ 0] unfolding b i by (simp add: STREAM_UINT16_roundtrip)
  have "b ! (i + 2) = of_nat (length ?d)" unfolding b i by (simp add: nth_append UINT16_TO_STREAM_def)
  moreover have "unat (of_nat (length ?d) :: u8) = length ?d" using assms(2) by (intro unat_of_nat8) simp
  ultimately show "unat (b ! (i + 2)) = length ?d" by simp
  let ?hd = "(hdr @ pre) @ UINT16_TO_STREAM (fst en) @ [of_nat (length ?d)]"
  have b2: "b = ?hd @ ?d @ config_body es" unfolding b by simp
  have i2: "i + 3 = length ?hd" unfolding i by simp
  assume l: "13 \<le> length ?d"
  have "STREAM_TO_UINT32 b (length ?hd + 0) = STREAM_TO_UINT32 (?d @ config_body es) 0"
    unfolding b2 by (rule STREAM_TO_UINT32_shift)
  also have "\<dots> = STREAM_TO_UINT32 ?d 0" by (rule STREAM_TO_UINT32_prefix) (use l in simp)
  finally show "STREAM_TO_UINT32 b (i + 3) = STREAM_TO_UINT32 ?d 0" unfolding i2 by simp
  show "b ! (i + 3 + 12) = ?d ! 12" unfolding b2 i2 using l by (simp add: nth_append)
qed

lemma parse_entries_step:
  fixes es and pre
  assumes "length hdr = 6" "config_entry_ok en"
  defines "b \<equiv> hdr @ pre @ config_body (en # es)" and "n \<equiv> length (pre @ config_body (en # es))"
  shows "rtk_parse_entries b n (length pre) bf
      = rtk_parse_entries b n (length pre + (length (snd en) + 3)) (config_apply en bf)"
proof -
  let ?d = "snd en"
  have ok: "length ?d \<le> 255" "fst en = 0xc \<Longrightarrow> 13 \<le> length ?d" using assms(2) by (auto simp: config_entry_ok_def)
  note f = entry_fields [OF assms(1) ok(1), of pre es, folded b_def]
  have lt: "length pre < n" by (simp add: n_def config_body_def config_entry_bytes_def)
  show ?thesis
  proof (cases "fst en = 0xc")
    case True
    then have l13: "13 \<le> length ?d" using ok(2) by blast
    then have l: "6 + length pre + 3 + 13 \<le> length b" using f(3) by linarith
    have n12: "12 \<le> length ?d" using l13 by linarith
    show ?thesis unfolding parse_entry_c [OF lt l f(1) [unfolded True] f(2)] f(4,5) [OF l13] config_apply_def
      using True n12 by simp
  next
    case False
    have "6 + length pre + 3 \<le> length b" using f(3) by linarith
    moreover have "STREAM_TO_UINT16 b (6 + length pre) \<noteq> 0xc" unfolding f(1) by (rule False)
    moreover have "config_apply en bf = bf" using False by (simp add: config_apply_def)
    ultimately show ?thesis using parse_entry_other [OF lt _ _ f(2)] by metis
  qed
qed

lemma parse_entries_body:
  assumes "list_all config_entry_ok es" and "length hdr = 6"
  shows "rtk_parse_entries (hdr @ pre @ config_body es) (length (pre @ config_body es)) (length pre) bf
      = Some (fold config_apply es bf)"
  using assms(1)
proof (induction es arbitrary: pre bf)
  case Nil
  show ?case by (subst rtk_parse_entries.simps) (simp add: config_body_def)
next
  case (Cons en es)
  let ?pre = "pre @ config_entry_bytes en"
  have pre: "hdr @ pre @ config_body (en # es) = hdr @ ?pre @ config_body es"
    "length (pre @ config_body (en # es)) = length (?pre @ config_body es)"
    "length pre + (length (snd en) + 3) = length ?pre" by (simp_all add: config_body_def config_entry_bytes_def)
  from Cons.prems have "config_entry_ok en" by simp
  from parse_entries_step [OF assms(2) this, of pre es bf] show ?case
    unfolding pre using Cons.IH [of ?pre "config_apply en bf"] Cons.prems by simp
qed

lemma parse_config_roundtrip:
  assumes "list_all config_entry_ok es" and "length (config_body es) < 65536"
  shows "rtk_parse_config_file (config_file es) fc = Some (fold config_apply es (0, fc))"
proof -
  let ?hdr = "UINT32_TO_STREAM RTK_VENDOR_CONFIG_MAGIC @ UINT16_TO_STREAM (of_nat (length (config_body es)))"
  have f: "config_file es = ?hdr @ [] @ config_body es" by (simp add: config_file_def)
  have magic: "STREAM_TO_UINT32 (config_file es) 0 = RTK_VENDOR_CONFIG_MAGIC"
    by (simp add: config_file_def STREAM_TO_UINT32_def UINT32_TO_STREAM_def)
  have "STREAM_TO_UINT16 (config_file es) (length (UINT32_TO_STREAM RTK_VENDOR_CONFIG_MAGIC) + 0)
      = STREAM_TO_UINT16 (UINT16_TO_STREAM (of_nat (length (config_body es))) @ config_body es) 0"
    unfolding config_file_def by (rule STREAM_TO_UINT16_shift)
  then have len: "unat (STREAM_TO_UINT16 (config_file es) 4) = length (config_body es)"
    using assms(2) by (simp add: STREAM_UINT16_roundtrip unat_of_nat16)
  have "rtk_parse_entries (config_file es) (length (config_body es)) 0 (0, fc) = Some (fold config_apply es (0, fc))"
    using parse_entries_body [OF assms(1), of ?hdr "[]" "(0, fc)"] unfolding f by simp
  then show ?thesis using magic len
    by (simp add: rtk_parse_config_file_def Let_def) (simp add: config_file_def)
qed


subsection \<open>Packets and totals\<close>

lemma concat_packets: "concat (map (packet_data B) [0..<n]) = take (PATCH_DATA_FIELD_MAX_SIZE * n) B"
proof (induction n)
  case (Suc n)
  have "take (252 * n) B @ take 252 (drop (252 * n) B) = take (252 * n + 252) B" by (rule take_add [symmetric])
  then show ?case using Suc by (simp add: packet_data_def add.commute)
qed simp

lemma dl_end_covers: "length B \<le> PATCH_DATA_FIELD_MAX_SIZE * Suc (dl_end (length B))"
proof -
  let ?m = "length B - 1"
  have "252 * (?m div 252) + ?m mod 252 = ?m" by simp
  moreover have "?m mod 252 < 252" by simp
  ultimately have "?m < 252 * dl_end (length B) + 252" unfolding dl_end_def by linarith
  then show ?thesis by simp
qed

lemma pad_to_8: "((k::nat) + (8 - k mod 8) mod 8) mod 8 = 0"
proof -
  obtain q r where k: "k = 8 * q + r" and r: "r < 8"
    using mult_div_mod_eq [of 8 k] mod_less_divisor [of 8 k] by (metis zero_less_numeral)
  show ?thesis
  proof (cases "r = 0")
    case False
    have "k + (8 - r) = 8 * (q + 1)" using k r by simp
    then have "(k + (8 - r)) mod 8 = 0" by (simp only: mod_mult_self1_is_0)
    moreover have "k mod 8 = r" "(8 - r) mod 8 = 8 - r" using k r False by simp_all
    ultimately show ?thesis by simp
  qed (use k in simp)
qed

text \<open>Library states for concrete runs.\<close>

definition quiet_rtk :: "(string \<Rightarrow> u8 list option) \<Rightarrow> rtk_st" where
  "quiet_rtk content =
     \<lparr>bt_vendor_cbacks = Some quiet_cbacks, calls = [], os = quiet_os content, fds = (\<lambda>_. []),
      ttys = (\<lambda>_. quiet_termios),
      vnd_userial = \<lparr>userial_fd = 5, userial_termios = quiet_termios, port_name = ''/dev/ttyS3''\<rparr>,
      upio_state = [0, 0, 0], lpm_proc_cb = \<lparr>btwrite_active = False, timer_created = False\<rparr>,
      rfkill_id = -1, bt_emul_enable = 0, rfkill_state_path = None,
      rtk_state = RTK_CFG_IDLE, rtk_fw_fd = -1, gHwFlowControlEnable = 1, nTotal = 0, buf_len = 0, buf = None,
      baudrate = 0, iCurIndex = 0, iCurLen = 0, iEndIndex = 0, iLastPacketLen = 0, iAdditionPkt = 0,
      iTotalIndex = 0, bufpatch = None, iIndexRx = 0, rtk_local_bd_addr = [0, 0, 0, 0, 0, 0]\<rparr>"

definition gs702a_rtk_cfg :: rtk_cfg where
  "gs702a_rtk_cfg = \<lparr>BT_WAKE_VIA_USERIAL_IOCTL = False, BT_WAKE_VIA_PROC = True,
     BLUETOOTH_UART_DEVICE_PORT = ''/dev/ttyS3'', stack_junk = quiet_termios\<rparr>"

definition rtk_evt :: "nat \<Rightarrow> u16 \<Rightarrow> u8 list \<Rightarrow> hci_event" where
  "rtk_evt a op ret =
     \<lparr>evt_addr = a, evt_data = [0x0E, of_nat (4 + length ret), 1] @ UINT16_TO_STREAM op @ 0 # ret\<rparr>"

definition sample_config :: "u8 list" where
  "sample_config = config_file [(0xc, [2, 80, 0, 0, 0, 0, 0, 0, 0, 0, 0, 0, 4])]"

definition sample_files :: "string \<Rightarrow> u8 list option" where
  "sample_files = [get_firmware_name \<mapsto> replicate 300 7, bt_config_file_name \<mapsto> sample_config]"

lemma rtk_completes_evt: "rtk_completes (rtk_evt a op ret) op"
  by (simp add: rtk_completes_def rtk_evt_def STREAM_TO_UINT16_def UINT16_TO_STREAM_def)
    (use STREAM_UINT16_roundtrip [of op "[]"] in \<open>simp add: STREAM_TO_UINT16_def UINT16_TO_STREAM_def\<close>)

lemma acks_evt: "acks (rtk_evt a HCI_VSC_DOWNLOAD_FW_PATCH (i # ret)) i"
  using rtk_completes_evt [of a HCI_VSC_DOWNLOAD_FW_PATCH "i # ret"]
  by (simp add: acks_def rtk_completes_def) (simp add: rtk_evt_def UINT16_TO_STREAM_def)

lemma stack_ok_quiet: "stack_ok (quiet_rtk c)" "sys_ok (quiet_rtk c)" "cbacks_ok (quiet_rtk c)"
  by (simp_all add: stack_ok_def sys_ok_def cbacks_ok_def xmit_bool_def quiet_rtk_def quiet_cbacks_def quiet_os_def)

definition sample_acks :: "hci_event list" where
  "sample_acks = map (\<lambda>k. rtk_evt (100 + k) HCI_VSC_DOWNLOAD_FW_PATCH [packet_index 6 k]) [0..<7]"

lemma rtk_sample:
  "config_is (quiet_rtk sample_files) sample_config 0x5002"
  "file_is (quiet_rtk sample_files) get_firmware_name (replicate 300 7)"
  "length (replicate 300 (7 :: u8)) + length sample_config < 2 ^ 31"
  "6 = dl_total (length (replicate 300 7 @ sample_config)) ((0x5002 :: u32) \<noteq> 0)" "(6 :: nat) \<le> 127"
  "rtk_completes (rtk_evt 90 HCI_VSC_H5_INIT []) HCI_VSC_H5_INIT"
  "rtk_completes (rtk_evt 91 RTK_HCI_VSC_UPDATE_BAUDRATE []) RTK_HCI_VSC_UPDATE_BAUDRATE"
  "list_all2 acks sample_acks (map (packet_index 6) [0..<Suc 6])"
proof -
  have ne: "bt_config_file_name \<noteq> get_firmware_name" by (simp add: bt_config_file_name_def get_firmware_name_def)
  then show "file_is (quiet_rtk sample_files) get_firmware_name (replicate 300 7)"
    by (simp add: file_is_def quiet_rtk_def quiet_os_def sample_files_def)
  have parse: "rtk_parse_config_file sample_config 1 = Some (0x5002, 1)"
    unfolding sample_config_def
    by (subst parse_config_roundtrip)
      (simp_all add: config_entry_ok_def config_body_def config_entry_bytes_def config_apply_def STREAM_TO_UINT32_def)
  then show "config_is (quiet_rtk sample_files) sample_config 0x5002"
    by (simp add: config_is_def file_is_def quiet_rtk_def quiet_os_def sample_files_def)
      (simp add: sample_config_def config_file_def UINT32_TO_STREAM_def)
  show "length (replicate 300 (7 :: u8)) + length sample_config < 2 ^ 31"
    by (simp add: sample_config_def config_file_def config_body_def config_entry_bytes_def)
  show "6 = dl_total (length (replicate 300 7 @ sample_config)) ((0x5002 :: u32) \<noteq> 0)"
    by (simp add: dl_total_def dl_end_def sample_config_def config_file_def config_body_def config_entry_bytes_def)
  show "list_all2 acks sample_acks (map (packet_index 6) [0..<Suc 6])"
    by (simp add: sample_acks_def list_all2_conv_all_nth acks_evt)
qed (simp_all add: rtk_completes_evt)

lemma packets_carry_image:
  "concat (map (\<lambda>k. drop 4 (snd (packet_cmd B (dl_total (length B) chg) k))) [0..<Suc (dl_total (length B) chg)]) = B
   \<and> list_all (\<lambda>k. length (drop 4 (snd (packet_cmd B (dl_total (length B) chg) k))) \<le> 252) [0..<Suc (dl_total (length B) chg)]
   \<and> (Suc (dl_total (length B) chg) + (if chg then 1 else 0)) mod 8 = 0"
proof -
  let ?T = "dl_total (length B) chg"
  have d: "drop 4 (snd (packet_cmd B ?T k)) = packet_data B k" for k
    by (simp add: packet_cmd_def UINT16_TO_STREAM_def)
  have "dl_end (length B) \<le> ?T" by (simp add: dl_total_def Let_def)
  then have "252 * Suc (dl_end (length B)) \<le> 252 * Suc ?T" by (intro mult_le_mono2) simp
  then have cov: "length B \<le> 252 * Suc ?T" using dl_end_covers [of B] by linarith
  have c: "concat (map (packet_data B) [0..<Suc ?T]) = B" using concat_packets [of B "Suc ?T"] cov by simp
  have l: "list_all (\<lambda>k. length (packet_data B k) \<le> 252) [0..<Suc ?T]" by (simp add: list_all_iff packet_data_def)
  have m: "(Suc ?T + (if chg then 1 else 0)) mod 8 = 0"
    using pad_to_8 [of "dl_end (length B) + (if chg then 2 else 1)"] by (simp add: dl_total_def Let_def split: if_splits)
  show ?thesis unfolding d using c l m by blast
qed

section \<open>Properties\<close>

text \<open>(C4) The bring-up of the RTL8723 controller.  With valid configuration and firmware files, in
  surroundings where nothing fails and every command is acknowledged, the library transmits
  exactly: the H5 initialisation, the speed change, and the numbered packets of the image
  (firmware followed by configuration); it then frees the image, is idle and has reported SUCCESS
  exactly once.  The 7 bit index field must not overflow: the last packet number is at most 127.\<close>

theorem rtk_bringup:
  assumes "stack_ok s" and "sys_ok s" and "config_is s C baud" and "file_is s get_firmware_name F"
    and "length F + length C < 2 ^ 31" and "T = dl_total (length (F @ C)) (baud \<noteq> 0)" and "T \<le> 127"
    and "rtk_completes e0 op0" and "rtk_completes e1 RTK_HCI_VSC_UPDATE_BAUDRATE"
    and "list_all2 acks es (map (packet_index T) [0..<Suc T])"
  shows "\<exists>t new. runs (\<lambda>s e t. rtk_config_cback cfg e s = Some t) (rtk_config_start s) (e0 # e1 # es) t
    \<and> rtk_state t = RTK_CFG_IDLE \<and> buf t = None \<and> calls t = calls s @ new
    \<and> xmits new = [(HCI_VSC_H5_INIT, UINT16_TO_STREAM HCI_VSC_H5_INIT), baud_cmd baud]
         @ map (packet_cmd (F @ C) T) [0..<Suc T]
    \<and> fwcfg_results new = [BT_VND_OP_RESULT_SUCCESS]"
proof -
  from rtk_bringup_run [OF assms, of cfg] obtain t where
    r: "runs (rtk_step cfg) (rtk_config_start s) (e0 # e1 # es) t" and t: "rtk_state t = RTK_CFG_IDLE" "buf t = None"
      "rtk_grows s t ([(HCI_VSC_H5_INIT, UINT16_TO_STREAM HCI_VSC_H5_INIT), baud_cmd baud]
         @ map (packet_cmd (F @ C) T) [0..<Suc T]) [BT_VND_OP_RESULT_SUCCESS]" by (elim exE conjE)
  from t(3) obtain new where "calls t = calls s @ new"
    "xmits new = [(HCI_VSC_H5_INIT, UINT16_TO_STREAM HCI_VSC_H5_INIT), baud_cmd baud] @ map (packet_cmd (F @ C) T) [0..<Suc T]"
    "fwcfg_results new = [BT_VND_OP_RESULT_SUCCESS]" unfolding rtk_grows_def by blast
  then show ?thesis using t(1,2) by (intro exI [of _ t] exI [of _ new] conjI r)
qed

theorem rtk_bringup_witness:
  "\<exists>t new. runs (\<lambda>s e t. rtk_config_cback gs702a_rtk_cfg e s = Some t) (rtk_config_start (quiet_rtk sample_files))
       (rtk_evt 90 HCI_VSC_H5_INIT [] # rtk_evt 91 RTK_HCI_VSC_UPDATE_BAUDRATE []
         # sample_acks) t
    \<and> rtk_state t = RTK_CFG_IDLE \<and> buf t = None \<and> calls t = [] @ new
    \<and> xmits new = [(HCI_VSC_H5_INIT, UINT16_TO_STREAM HCI_VSC_H5_INIT), baud_cmd 0x5002]
         @ map (packet_cmd (replicate 300 7 @ sample_config) 6) [0..<Suc 6]
    \<and> fwcfg_results new = [BT_VND_OP_RESULT_SUCCESS]"
proof -
  have c: "calls (quiet_rtk sample_files) = []" by (simp add: quiet_rtk_def)
  from rtk_bringup [OF stack_ok_quiet(1,2) rtk_sample, of gs702a_rtk_cfg] show ?thesis unfolding c .
qed

text \<open>(C6) The packets of a download carry the image.  In a bring-up of the RTL8723 where nothing fails,
  the payloads of the download packets that are transmitted put together are the firmware followed by
  the configuration, no packet exceeds 256 bytes, and the number of commands after the initialisation,
  the speed change included when there is one, is a multiple of 8.\<close>

theorem rtk_packets_carry_image:
  assumes "stack_ok s" and "sys_ok s" and "config_is s C baud" and "file_is s get_firmware_name F"
    and "length F + length C < 2 ^ 31" and "T = dl_total (length (F @ C)) (baud \<noteq> 0)" and "T \<le> 127"
    and "rtk_completes e0 op0" and "rtk_completes e1 RTK_HCI_VSC_UPDATE_BAUDRATE"
    and "list_all2 acks es (map (packet_index T) [0..<Suc T])"
  shows "\<exists>t new pkts. runs (\<lambda>s e t. rtk_config_cback cfg e s = Some t) (rtk_config_start s) (e0 # e1 # es) t
    \<and> calls t = calls s @ new \<and> pkts = drop 2 (xmits new)
    \<and> concat (map (\<lambda>p. drop 4 (snd p)) pkts) = F @ C
    \<and> list_all (\<lambda>p. fst p = HCI_VSC_DOWNLOAD_FW_PATCH \<and> length (snd p) \<le> 256) pkts
    \<and> (length pkts + (if baud \<noteq> 0 then 1 else 0)) mod 8 = 0"
proof -
  from rtk_bringup_run [OF assms, of cfg] obtain t where
    r: "runs (rtk_step cfg) (rtk_config_start s) (e0 # e1 # es) t" and
    g: "rtk_grows s t ([(HCI_VSC_H5_INIT, UINT16_TO_STREAM HCI_VSC_H5_INIT), baud_cmd baud]
         @ map (packet_cmd (F @ C) T) [0..<Suc T]) [BT_VND_OP_RESULT_SUCCESS]" by (elim exE conjE)
  from g obtain new where new: "calls t = calls s @ new" "drop 2 (xmits new) = map (packet_cmd (F @ C) T) [0..<Suc T]"
    unfolding rtk_grows_def by auto
  note p = packets_carry_image [of "F @ C" "baud \<noteq> 0", folded assms(6)]
  have len: "length (snd (packet_cmd (F @ C) T k)) \<le> 256" for k by (simp add: packet_cmd_def packet_data_def)
  have "concat (map (\<lambda>p. drop 4 (snd p)) (map (packet_cmd (F @ C) T) [0..<Suc T])) = F @ C"
    using p unfolding map_map comp_def by blast
  moreover have "list_all (\<lambda>p. fst p = HCI_VSC_DOWNLOAD_FW_PATCH \<and> length (snd p) \<le> 256) (map (packet_cmd (F @ C) T) [0..<Suc T])"
    unfolding list_all_iff using len by (auto simp: packet_cmd_def)
  moreover have "(length (map (packet_cmd (F @ C) T) [0..<Suc T]) + (if baud \<noteq> 0 then 1 else 0)) mod 8 = 0"
    using p by simp
  ultimately show ?thesis
    by (intro exI [of _ t] exI [of _ new] exI [of _ "map (packet_cmd (F @ C) T) [0..<Suc T]"] conjI r new(1) new(2) [symmetric])
qed

theorem rtk_packets_carry_image_witness:
  "\<exists>t new pkts. runs (\<lambda>s e t. rtk_config_cback gs702a_rtk_cfg e s = Some t) (rtk_config_start (quiet_rtk sample_files))
       (rtk_evt 90 HCI_VSC_H5_INIT [] # rtk_evt 91 RTK_HCI_VSC_UPDATE_BAUDRATE [] # sample_acks) t
    \<and> calls t = calls (quiet_rtk sample_files) @ new \<and> pkts = drop 2 (xmits new)
    \<and> concat (map (\<lambda>p. drop 4 (snd p)) pkts) = replicate 300 7 @ sample_config
    \<and> list_all (\<lambda>p. fst p = HCI_VSC_DOWNLOAD_FW_PATCH \<and> length (snd p) \<le> 256) pkts
    \<and> (length pkts + (if (0x5002 :: u32) \<noteq> 0 then 1 else 0)) mod 8 = 0"
  by (rule rtk_packets_carry_image [OF stack_ok_quiet(1,2) rtk_sample])

text \<open>(C28) Buffer ownership of the RTL8723 handler: over any sequence of events, whatever fails, every
  event buffer is given away exactly once and every command buffer allocated on the way too.\<close>

theorem rtk_config_buffers:
  assumes "cbacks_ok s" and "runs (\<lambda>s e t. rtk_config_cback cfg e s = Some t) s es t"
  shows "\<exists>new. calls t = calls s @ new \<and> (\<forall>a. net new a = - int (count_list (map evt_addr es) a))"
  by (rule rtk_config.run_contract [OF assms(2,1)])

theorem rtk_config_buffers_witness:
  "\<exists>new. calls (the (rtk_config_cback gs702a_rtk_cfg (rtk_evt 9 HCI_VSC_H5_INIT []) (quiet_rtk Map.empty))) = new
     \<and> net new 9 = -1 \<and> net new 0 = 0"
proof -
  let ?s = "quiet_rtk Map.empty" and ?e = "rtk_evt 9 HCI_VSC_H5_INIT []"
  have c: "calls ?s = []" by (simp add: quiet_rtk_def)
  have "rtk_config_cback gs702a_rtk_cfg ?e ?s \<noteq> None"
    by (simp add: rtk_config_cback_def rtk_evt_def UINT16_TO_STREAM_def vnd_alloc_def quiet_rtk_def quiet_cbacks_def
        rtk_config_switch_def Let_def)
  then have "rtk_config_cback gs702a_rtk_cfg ?e ?s = Some (the (rtk_config_cback gs702a_rtk_cfg ?e ?s))" by simp
  then have "runs (\<lambda>s e t. rtk_config_cback gs702a_rtk_cfg e s = Some t) ?s [?e] (the (rtk_config_cback gs702a_rtk_cfg ?e ?s))"
    by (rule runs_cons [OF _ runs_nil])
  from rtk_config_buffers [OF stack_ok_quiet(3) this] c show ?thesis by (auto simp: rtk_evt_def)
qed

text \<open>(C33) The configuration file round trip: a file with the vendor signature, the length of its
  body and any entries (those at offset 0xc with at least 13 bytes) is parsed without leaving
  the file, and yields the speed and the flow control flag of its last entry at offset 0xc.\<close>

theorem rtk_config_roundtrip:
  assumes "list_all config_entry_ok es" and "length (config_body es) < 65536"
  shows "rtk_parse_config_file (config_file es) fc = Some (fold config_apply es (0, fc))"
  by (rule parse_config_roundtrip [OF assms])

theorem rtk_config_roundtrip_witness:
  "rtk_parse_config_file (config_file [(0xc, [1, 128, 0, 0, 0, 0, 0, 0, 0, 0, 0, 0, 4])]) 0 = Some (0x8001, 1)"
  by (subst rtk_config_roundtrip)
    (simp_all add: config_entry_ok_def config_body_def config_entry_bytes_def config_apply_def STREAM_TO_UINT32_def)

text \<open>The speed the host uses for each code of the table: the host's UART speed is the one the
  controller is switched to, for every code except those of 3.5 Mbaud, where the host stays at
  115200.\<close>

theorem rtk_host_speeds:
  "map (\<lambda>c. (c, rtk_speed_to_uart_speed c, userial_to_tcio_baud (rtk_line_speed_to_userial_baud (rtk_speed_to_uart_speed c))))
       (map fst baudrates) =
     [(0x6004, 921600, (1, B921600)), (0x05F75004, 921600, (1, B921600)), (0x4003, 1500000, (1, B1500000)),
      (0x04928002, 1500000, (1, B1500000)), (0x5002, 2000000, (1, B2000000)), (0x8001, 3000000, (1, B3000000)),
      (0x04928001, 3000000, (1, B3000000)), (0x7001, 3500000, (1, B115200)), (0x052A6001, 3500000, (1, B115200)),
      (0x5001, 4000000, (1, B4000000)), (0x701d, 115200, (1, B115200)), (0x0252C002, 115200, (1, B115200))]"
  by (simp add: baudrates_def rtk_speed_to_uart_speed_def rtk_line_speed_to_userial_baud_def userial_to_tcio_baud_def)

text \<open>The speed command carries only the low 16 bits of the code: the controller receives the
  code from the configuration exactly when it is below 65536, so none of the codes marked
  RTL8723BS in the table arrives.\<close>

theorem rtk_baud_truncated:
  assumes "bt_vendor_cbacks s = Some cb"
  shows "\<exists>b r. calls (snd (rtk_set_controller_baud p p_buf s)) = calls s @ [Xmit RTK_HCI_VSC_UPDATE_BAUDRATE p b r]
    \<and> (STREAM_TO_UINT32 (wire b) 3 = baudrate s \<longleftrightarrow> baudrate s < 65536)"
proof -
  let ?u = "ucast (ucast (baudrate s) :: u16) :: u32"
  let ?cmd = "UINT16_TO_STREAM RTK_HCI_VSC_UPDATE_BAUDRATE @ [4] @ UINT32_TO_STREAM ?u"
  have w: "wire (set_cmd ?cmd p_buf) = ?cmd" by (rule wire_set_cmd) simp
  have "STREAM_TO_UINT32 ((UINT16_TO_STREAM RTK_HCI_VSC_UPDATE_BAUDRATE @ [4]) @ UINT32_TO_STREAM ?u) (3 + 0)
      = STREAM_TO_UINT32 (UINT32_TO_STREAM ?u) 0"
    using STREAM_TO_UINT32_shift [of "UINT16_TO_STREAM RTK_HCI_VSC_UPDATE_BAUDRATE @ [4]" _ 0] by simp
  then have s: "STREAM_TO_UINT32 ?cmd 3 = ?u" using STREAM_UINT32_roundtrip [of ?u "[]"] by simp
  have "?u = take_bit 16 (baudrate s)" by (rule bit_word_eqI) (auto simp: bit_simps)
  moreover have "take_bit 16 (baudrate s) = baudrate s \<longleftrightarrow> baudrate s < 65536"
  proof -
    have "unat (take_bit 16 (baudrate s)) = unat (baudrate s) mod 65536"
      by (simp add: take_bit_eq_mod unat_mod)
    moreover have "unat (baudrate s) mod 65536 = unat (baudrate s) \<longleftrightarrow> unat (baudrate s) < 65536"
      by (metis mod_less mod_less_divisor zero_less_numeral)
    ultimately show ?thesis by (simp add: word_unat_eq_iff word_less_nat_alt)
  qed
  ultimately show ?thesis using assms w s
    by (auto simp: rtk_set_controller_baud_def hw_config_set_controller_baudrate_def vnd_xmit_def Let_def)
qed

theorem rtk_baud_truncated_witness:
  "\<exists>b r. calls (snd (rtk_set_controller_baud 1 (fresh_cmd []) ((quiet_rtk Map.empty)\<lparr>baudrate := 0x04928002\<rparr>)))
      = [Xmit RTK_HCI_VSC_UPDATE_BAUDRATE 1 b r] \<and> STREAM_TO_UINT32 (wire b) 3 \<noteq> 0x04928002"
  using rtk_baud_truncated [of "(quiet_rtk Map.empty)\<lparr>baudrate := 0x04928002\<rparr>" quiet_cbacks 1 "fresh_cmd []"]
  by (simp add: quiet_rtk_def)

text \<open>Every successful load of the firmware file leaves its descriptor open.\<close>

theorem rtk_firmware_fd_leak:
  assumes "rtk_get_bt_firmware n s = (r, Some (a, bs), t)"
  shows "open_fds (calls t) = open_fds (calls s) + 1"
  using assms by (auto simp: rtk_get_bt_firmware_def sys_open_def sys_malloc_def sys_read_def sys_free_def Let_def
      split: option.splits if_splits)

theorem rtk_firmware_fd_leak_witness:
  "open_fds (calls (snd (snd (rtk_get_bt_firmware 0 (quiet_rtk sample_files))))) = 1"
proof -
  have "file_is (quiet_rtk sample_files) get_firmware_name (replicate 300 7)"
    by (simp add: file_is_def quiet_rtk_def quiet_os_def sample_files_def bt_config_file_name_def get_firmware_name_def)
  from get_firmware_ok [OF stack_ok_quiet(2) this, of 0] obtain a t where
    t: "rtk_get_bt_firmware 0 (quiet_rtk sample_files) = (300, Some (a, replicate 300 7), t)" by auto
  from rtk_firmware_fd_leak [OF t] t show ?thesis by (simp add: quiet_rtk_def)
qed

text \<open>When the configuration file is shorter than \<open>stat\<close> said, its block is freed twice: once
  where the read falls short, and again by the caller, because the pointer is left.\<close>

theorem rtk_config_double_free:
  assumes "os_stat (os s) bt_config_file_name = Some n" and "length (os_file (os s) bt_config_file_name) < n"
    and "\<forall>h. os_open (os s) h bt_config_file_name O_RDONLY = fd" and "0 \<le> fd" and "\<forall>h. os_malloc (os s) h n = Some a"
  shows "\<exists>r t mid. rtk_load_files s = Some (r, t)
    \<and> calls t = calls s @ [Sys_open bt_config_file_name O_RDONLY fd, Malloc n (Some a), Sys_read fd n, Free a, Sys_close fd]
        @ mid @ [Free a]"
proof -
  let ?r = "rtk_reset_static s"
  have fd: "\<not> fd < 0" using assms(4) by simp
  have fr: "os ?r = os s" "calls ?r = calls s" by (simp_all add: rtk_reset_static_def)
  have "\<exists>u. rtk_get_bt_config ?r = Some (-1, Some (a, []), 0, u)
      \<and> calls u = calls s @ [Sys_open bt_config_file_name O_RDONLY fd, Malloc n (Some a), Sys_read fd n, Free a, Sys_close fd]"
    using assms(1-3,5) fd fr
    by (cases "os_read_err (os s) (calls s @ [Sys_open bt_config_file_name O_RDONLY fd, Malloc n (Some a)]) fd")
      (simp_all add: rtk_get_bt_config_def sys_open_def sys_malloc_def sys_read_def sys_free_def sys_close_def Let_def)
  then obtain u where u: "rtk_get_bt_config ?r = Some (-1, Some (a, []), 0, u)"
      "calls u = calls s @ [Sys_open bt_config_file_name O_RDONLY fd, Malloc n (Some a), Sys_read fd n, Free a, Sys_close fd]"
    by blast
  obtain k fw v where v: "rtk_get_bt_firmware 0 (u\<lparr>baudrate := 0\<rparr>) = (k, fw, v)" by (metis prod.exhaust)
  have "sys_only (u\<lparr>baudrate := 0\<rparr>) v" using get_firmware_sys_only [of "u\<lparr>baudrate := 0\<rparr>" 0] v by simp
  then obtain mid where "calls v = calls u @ mid" by (auto simp: sys_only_def)
  then show ?thesis using u v by (simp add: rtk_load_files_def sys_free_def Let_def)
qed

theorem rtk_config_double_free_witness:
  "\<exists>r t mid. rtk_load_files ((quiet_rtk Map.empty)\<lparr>os := (quiet_os (\<lambda>_. Some []))\<lparr>os_stat := (\<lambda>_. Some 4), os_malloc := (\<lambda>h n. Some 70)\<rparr>\<rparr>)
      = Some (r, t)
    \<and> calls t = [Sys_open bt_config_file_name O_RDONLY 3, Malloc 4 (Some 70), Sys_read 3 4, Free 70, Sys_close 3] @ mid @ [Free 70]"
  using rtk_config_double_free [of "(quiet_rtk Map.empty)\<lparr>os := (quiet_os (\<lambda>_. Some []))\<lparr>os_stat := (\<lambda>_. Some 4),
      os_malloc := (\<lambda>h n. Some 70)\<rparr>\<rparr>" 4 3 70]
  by (simp add: quiet_rtk_def quiet_os_def)

text \<open>The packet number does not grow beyond 127: when packet 127 of a longer image is
  acknowledged, the following data goes out under index 0, like the first packet.\<close>

theorem rtk_index_wraps:
  assumes "iCurIndex s = 127" and "128 < iEndIndex s" and "iTotalIndex s \<noteq> 127" and "bufpatch s = Some off"
    and "buf s = Some (a, bs)" and "off + 504 \<le> length bs" and "evt_data e ! 6 = 127" and "bt_vendor_cbacks s = Some cb"
  shows "\<exists>rt b r. rtk_download_fw cfg e HCI_VSC_DOWNLOAD_FW_PATCH p p_buf s = Some rt
    \<and> calls (snd rt) = calls s @ [Xmit HCI_VSC_DOWNLOAD_FW_PATCH p b r]
    \<and> wire b = UINT16_TO_STREAM HCI_VSC_DOWNLOAD_FW_PATCH @ [253, 0] @ take 252 (drop (off + 252) bs)"
proof -
  let ?t = "s\<lparr>iIndexRx := 127, bufpatch := Some (off + 252), iCurIndex := 128\<rparr>"
  let ?n = "?t\<lparr>iCurIndex := 0, iCurLen := 252\<rparr>"
  let ?d = "take 252 (drop (off + 252) bs)"
  have lt: "(127 :: u8) < iEndIndex s" using assms(2) by (rule less_trans [rotated]) simp
  have n: "rtk_next_packet ?t = ?n" using assms(2) by (simp add: rtk_next_packet_def)
  have d: "rtk_packet_data ?n = Some ?d" using assms(5,6) by (simp add: rtk_packet_data_def)
  have len: "length ?d = 252" using assms(6) by simp
  let ?cmd = "UINT16_TO_STREAM HCI_VSC_DOWNLOAD_FW_PATCH @ [1 + of_nat (length ?d), 0] @ ?d"
  have w: "wire (set_cmd ?cmd p_buf) = ?cmd" by (rule wire_set_cmd) (simp add: len)
  have "rtk_download_fw cfg e HCI_VSC_DOWNLOAD_FW_PATCH p p_buf s = Some (hci_download_patch_h4 p p_buf 0 ?d ?n)"
    using assms(1,3,4,7) lt n d by (simp add: rtk_download_fw_def Let_def)
  then show ?thesis using assms(8) w len by (auto simp: hci_download_patch_h4_def vnd_xmit_def Let_def)
qed

theorem rtk_index_wraps_witness:
  "\<exists>rt b r. rtk_download_fw gs702a_rtk_cfg (rtk_evt 9 HCI_VSC_DOWNLOAD_FW_PATCH [127]) HCI_VSC_DOWNLOAD_FW_PATCH 1 (fresh_cmd [])
      ((quiet_rtk Map.empty)\<lparr>iCurIndex := 127, iEndIndex := 200, iTotalIndex := 206, bufpatch := Some 0, buf := Some (4, replicate 504 9)\<rparr>)
      = Some rt
    \<and> calls (snd rt) = [Xmit HCI_VSC_DOWNLOAD_FW_PATCH 1 b r]
    \<and> wire b = UINT16_TO_STREAM HCI_VSC_DOWNLOAD_FW_PATCH @ [253, 0] @ take 252 (drop (0 + 252) (replicate 504 9))"
  using rtk_index_wraps [of "(quiet_rtk Map.empty)\<lparr>iCurIndex := 127, iEndIndex := 200, iTotalIndex := 206, bufpatch := Some 0,
      buf := Some (4, replicate 504 9)\<rparr>" 0 4 "replicate 504 9" "rtk_evt 9 HCI_VSC_DOWNLOAD_FW_PATCH [127]" quiet_cbacks
      gs702a_rtk_cfg 1 "fresh_cmd []"]
  by (simp add: quiet_rtk_def rtk_evt_def UINT16_TO_STREAM_def)

text \<open>After \<open>cleanup\<close> the RTL8723 library makes no call into the stack whatever is requested of
  it.\<close>

theorem rtk_quiet_after_cleanup:
  assumes "runs (\<lambda>s r t. \<exists>ret out. rtk_op cfg ch_max r s = Some (ret, out, t)) (rtk_cleanup cfg s) rs t"
  shows "\<exists>new. calls t = calls (rtk_cleanup cfg s) @ new \<and> (\<forall>c \<in> set new. \<not> is_stack_call c)"
proof -
  have "runs (rtk_request cfg ch_max) (rtk_cleanup cfg s) rs t"
    using assms by (simp add: rtk_request_def [abs_def])
  from rtk_lib.run_unregistered_quiet [OF this] show ?thesis
    by (simp add: rtk_cleanup_def list_all_iff)
qed

theorem rtk_quiet_after_cleanup_witness:
  "\<exists>new. calls (rtk_config_start (rtk_cleanup gs702a_rtk_cfg (quiet_rtk Map.empty)))
       = calls (rtk_cleanup gs702a_rtk_cfg (quiet_rtk Map.empty)) @ new \<and> (\<forall>c \<in> set new. \<not> is_stack_call c)"
  by (rule rtk_quiet_after_cleanup [where rs = "[BT_VND_OP_FW_CFG]" and ch_max = 4])
    (rule runs_cons [OF _ runs_nil], simp add: rtk_op_def)

end
