(* ===== verification/Mtk_Uart.thy ===== *)
theory Mtk_Uart
  imports Vendor_Interface
begin

text \<open>
  The state of the MT6622 library (globals of \<open>mtk.c\<close> and \<open>radiomod.c\<close>) and its serial port
  functions in \<open>mtk.c\<close>: opening the port, closing it, and the callback that moves the host to
  the speed agreed with the controller.  The library is modelled as the repository builds it:
  standalone chip (\<open>MTK_MT6622\<close>, not \<open>MTK_COMBO_SUPPORT\<close>) with \<open>BD_ADDR_AUTOGEN\<close>; an
  \<open>unsigned long\<close> is 32 bits wide.
\<close>

section \<open>Configuration data\<close>

text \<open>\<open>struct btradio_conf_data\<close>: byte arrays of fixed size, laid out without padding.\<close>

record btradio_conf_data =
  conf_addr :: "u8 list"
  capId :: "u8 list"
  link_key_type :: "u8 list"
  unit_key :: "u8 list"
  encryption :: "u8 list"
  pin_code_type :: "u8 list"
  voice :: "u8 list"
  codec :: "u8 list"
  radio :: "u8 list"
  sleep :: "u8 list"
  feature :: "u8 list"
  ECLK_SEL :: "u8 list"

definition sDefaultCfg :: btradio_conf_data where
  "sDefaultCfg =
     \<lparr>conf_addr = [0x00, 0x00, 0x46, 0x66, 0x22, 0x01], capId = [0x40], link_key_type = [0x01],
      unit_key = [0x00, 0x00, 0x00, 0x00, 0x00, 0x00, 0x00, 0x00, 0x00, 0x00, 0x00, 0x00, 0x00, 0x00, 0x00, 0x00],
      encryption = [0x00, 0x02, 0x10], pin_code_type = [0x00], voice = [0x60, 0x00],
      codec = [0x23, 0x00, 0x00, 0x00], radio = [0x07, 0x80, 0x00, 0x06, 0x03, 0x07],
      sleep = [0x00, 0x40, 0x1F, 0x00, 0x00, 0x00, 0x04], feature = [0x80, 0x00], ECLK_SEL = [0x00]\<rparr>"

text \<open>The other view of the union \<open>BTConfData_t\<close>: the structure as raw bytes, and the raw bytes
  read as a structure.\<close>

definition conf_raw :: "btradio_conf_data \<Rightarrow> u8 list" where
  "conf_raw c = conf_addr c @ capId c @ link_key_type c @ unit_key c @ encryption c @ pin_code_type c
     @ voice c @ codec c @ radio c @ sleep c @ feature c @ ECLK_SEL c"

definition field :: "nat \<Rightarrow> nat \<Rightarrow> u8 list \<Rightarrow> u8 list" where
  "field off n bs = take n (drop off bs)"

definition conf_fields :: "u8 list \<Rightarrow> btradio_conf_data" where
  "conf_fields bs =
     \<lparr>conf_addr = field 0 6 bs, capId = field 6 1 bs, link_key_type = field 7 1 bs, unit_key = field 8 16 bs,
      encryption = field 24 3 bs, pin_code_type = field 27 1 bs, voice = field 28 2 bs, codec = field 30 4 bs,
      radio = field 34 6 bs, sleep = field 40 7 bs, feature = field 47 2 bs, ECLK_SEL = field 49 1 bs\<rparr>"

text \<open>\<open>sizeof(struct btradio_conf_data)\<close>\<close>

abbreviation (input) conf_size :: nat where "conf_size \<equiv> 50"

definition conf_wf :: "btradio_conf_data \<Rightarrow> bool" where
  "conf_wf c \<longleftrightarrow> length (conf_addr c) = 6 \<and> length (capId c) = 1 \<and> length (link_key_type c) = 1
     \<and> length (unit_key c) = 16 \<and> length (encryption c) = 3 \<and> length (pin_code_type c) = 1
     \<and> length (voice c) = 2 \<and> length (codec c) = 4 \<and> length (radio c) = 6 \<and> length (sleep c) = 7
     \<and> length (feature c) = 2 \<and> length (ECLK_SEL c) = 1"

section \<open>State\<close>

datatype HciCmdStatus_t = CMD_SUCCESS | CMD_FAIL | CMD_PENDING

text \<open>\<open>sBTInitVar_t\<close>.  \<open>patch_data\<close> is the address of the image and its bytes, \<open>None\<close> for the
  null pointer.  The pointers \<open>patch_ext_*\<close> are never used, \<open>cur_script\<close> is an argument of the
  thread, and \<open>host_uart_cback\<close> is always \<open>setup_uart_param\<close>, the only function
  \<open>BT_InitDevice\<close> is called with.\<close>

record sBTInitVar_t =
  bt_conf :: btradio_conf_data
  bt_baud :: u32
  host_baud :: u32
  flow_control :: u32
  patch_data :: "(nat \<times> u8 list) option"
  patch_len :: u32
  patch_offset :: u32

text \<open>The event callbacks that are handed to \<open>xmit_cb\<close>.\<close>

datatype mtk_cback = Common_Complete_cb | ChangeBaudRate_cb | WritePatch_cb

text \<open>Parts of the system that only this library uses: \<open>rand\<close> after \<open>srand\<close> of a seed, the clock
  in seconds and microseconds, the value an uninitialised \<open>unsigned long\<close> holds, the result of an
  \<open>ioctl\<close> with its argument, and the result of \<open>pthread_create\<close>.\<close>

record mtk_env =
  libc_rand :: "u32 \<Rightarrow> u32"
  time_sec :: "history \<Rightarrow> u32"
  time_usec :: "history \<Rightarrow> u32"
  stack_junk :: "u8 list"
  ioctl_result :: "history \<Rightarrow> int \<Rightarrow> u32 \<Rightarrow> int"
  thread_result :: "history \<Rightarrow> int"

text \<open>\<open>evt_cback\<close> is the callback passed with the last command the stack accepted, to which the
  stack delivers the controller's answers.\<close>

record mtk_st = platform +
  menv :: mtk_env
  btinit :: sBTInitVar_t
  wOpCode :: u16
  cmd_status :: HciCmdStatus_t
  fInternalCfg :: bool
  fgetEFUSE :: bool
  fPatchDone :: bool
  bt_fd :: int
  evt_cback :: mtk_cback

definition upd_btinit :: "(sBTInitVar_t \<Rightarrow> sBTInitVar_t) \<Rightarrow> mtk_st \<Rightarrow> mtk_st" where
  "upd_btinit f s = s\<lparr>btinit := f (btinit s)\<rparr>"

declare upd_btinit_def [simp]

section \<open>Serial port\<close>

abbreviation (input) CLOCAL :: u32 where "CLOCAL \<equiv> 0x800"
abbreviation (input) IX_FLAGS :: u32 where "IX_FLAGS \<equiv> 0x80001C00"
abbreviation (input) MTK_SW_FLOW :: u32 where "MTK_SW_FLOW \<equiv> 0x80000000"
abbreviation (input) B38400 :: u32 where "B38400 \<equiv> 0xF"
abbreviation (input) B500000 :: u32 where "B500000 \<equiv> 0x1005"
abbreviation (input) B576000 :: u32 where "B576000 \<equiv> 0x1006"
abbreviation (input) B1152000 :: u32 where "B1152000 \<equiv> 0x1009"
abbreviation (input) B2500000 :: u32 where "B2500000 \<equiv> 0x100C"
abbreviation (input) B3500000 :: u32 where "B3500000 \<equiv> 0x100E"

abbreviation (input) CUST_BT_SERIAL_PORT :: string where "CUST_BT_SERIAL_PORT \<equiv> ''/dev/ttyS2''"

text \<open>\<open>tcgetattr\<close> (\<open>None\<close> on error) and \<open>tcsetattr\<close> with its result.\<close>

definition mtk_tcgetattr :: "int \<Rightarrow> mtk_st \<Rightarrow> termios option" where
  "mtk_tcgetattr fd s = (if os_tc_err (os s) (calls s) fd then None else Some (ttys s fd))"

definition mtk_tcsetattr :: "int \<Rightarrow> termios \<Rightarrow> mtk_st \<Rightarrow> int \<times> mtk_st" where
  "mtk_tcsetattr fd ti s = (if os_tc_err (os s) (calls s) fd then -1 else 0, tc_set fd ti s)"

text \<open>Raw mode, modem lines ignored, no flow control of either kind.\<close>

definition mtk_raw_line :: "termios \<Rightarrow> termios" where
  "mtk_raw_line t =
     (let t = cfmakeraw t; t = t\<lparr>c_cflag := c_cflag t OR CLOCAL\<rparr>; t = t\<lparr>c_cflag := c_cflag t AND NOT CRTSCTS\<rparr>
      in t\<lparr>c_iflag := c_iflag t AND NOT IX_FLAGS\<rparr>)"

definition init_uart :: "mtk_st \<Rightarrow> int \<times> mtk_st" where
  "init_uart s =
     (let (fd, s) = sys_open CUST_BT_SERIAL_PORT O_RDWR s in
      if fd < 0 then (-1, s)
      else
        let s = tcflush fd s in
        case mtk_tcgetattr fd s of
          None \<Rightarrow> (-1, sys_close fd s)
        | Some ti \<Rightarrow>
            let ti = (mtk_raw_line ti)\<lparr>c_lflag := 0\<rparr>; (r, s) = mtk_tcsetattr fd ti s in
            if r < 0 then (-1, sys_close fd s)
            else
              let ti = cfsetspeed B115200 (cfsetspeed B115200 ti); (r, s) = mtk_tcsetattr fd ti s in
              if r < 0 then (-1, sys_close fd s)
              else let s = tcflush fd s in (fd, s\<lparr>bt_fd := fd\<rparr>))"

definition close_uart :: "mtk_st \<Rightarrow> mtk_st" where
  "close_uart s = (let s = (if bt_fd s \<ge> 0 then sys_close (bt_fd s) s else s) in s\<lparr>bt_fd := -1\<rparr>)"

definition uart_speed :: "int \<Rightarrow> u32" where
  "uart_speed s =
     (if s = 9600 then B9600
      else if s = 19200 then B19200
      else if s = 38400 then B38400
      else if s = 57600 then B57600
      else if s = 115200 then B115200
      else if s = 230400 then B230400
      else if s = 460800 then B460800
      else if s = 500000 then B500000
      else if s = 576000 then B576000
      else if s = 921600 then B921600
      else if s = 1000000 then B1000000
      else if s = 1152000 then B1152000
      else if s = 1500000 then B1500000
      else if s = 2000000 then B2000000
      else if s = 2500000 then B2500000
      else if s = 3000000 then B3000000
      else if s = 3500000 then B3500000
      else if s = 4000000 then B4000000
      else B57600)"

definition set_speed :: "int \<Rightarrow> termios \<Rightarrow> int \<Rightarrow> mtk_st \<Rightarrow> int \<times> mtk_st" where
  "set_speed fd ti speed s =
     (let baudenum = uart_speed speed in
      if baudenum = B57600 \<and> speed \<noteq> 57600 then (0, s)
      else mtk_tcsetattr fd (cfsetspeed baudenum (cfsetspeed baudenum ti)) s)"

definition mtk_flow :: "int \<Rightarrow> termios \<Rightarrow> termios" where
  "mtk_flow fc t =
     (if fc = 1 then t\<lparr>c_cflag := c_cflag t OR CRTSCTS\<rparr>
      else if fc = 2 then t\<lparr>c_iflag := c_iflag t OR MTK_SW_FLOW\<rparr>
      else t)"

definition setup_uart_param :: "int \<Rightarrow> int \<Rightarrow> mtk_st \<Rightarrow> int \<times> mtk_st" where
  "setup_uart_param iBaudrate iFlowControl s =
     (if bt_fd s < 0 then (-1, s)
      else
        let fd = bt_fd s; s = tcflush fd s in
        case mtk_tcgetattr fd s of
          None \<Rightarrow> (-1, s)
        | Some ti \<Rightarrow>
            let ti = mtk_flow iFlowControl (mtk_raw_line ti); (r, s) = mtk_tcsetattr fd ti s in
            if r < 0 then (-1, s)
            else
              let (r, s) = set_speed fd ti iBaudrate s in
              if r < 0 then (-1, s) else (0, tcflush fd s))"

end
