(* ===== verification/Mtk_Radiomod.thy ===== *)
theory Mtk_Radiomod
  imports Mtk_Uart
begin

text \<open>
  \<open>radiomod.c\<close> of the MT6622 library: the commands of the initialisation script, their event
  handlers and the worker threads that run the scripts.  A command function gets the address and
  the content of the buffer it fills.

  The worker thread and the event handlers (which the stack's thread runs) share \<open>btinit\<close>,
  \<open>cmd_status\<close> and \<open>fPatchDone\<close>, so the thread is a machine of small steps (\<open>thread_step\<close>) cut
  where a handler can run between its accesses: after the transmission of a command, before the
  store of \<open>CMD_PENDING\<close>, and at the wait.  A handler is one step: it works on the stack's thread
  and stores its result under the mutex the waiting thread tests it under.  The system of thread,
  handlers and controller is the relation \<open>mtk_sys\<close>.
\<close>

section \<open>Sending a command\<close>

abbreviation (input) MTK_HCI_CMD_MAX_SIZE :: nat where "MTK_HCI_CMD_MAX_SIZE \<equiv> 251"

definition gorm_xmit :: "u16 \<Rightarrow> mtk_cback \<Rightarrow> nat \<Rightarrow> hc_bt_hdr \<Rightarrow> mtk_st \<Rightarrow> u8 \<times> mtk_st" where
  "gorm_xmit op cb a b s =
     (let (ret, s) = vnd_xmit op a b s in (ret, if ret = C_FALSE then s else s\<lparr>evt_cback := cb\<rparr>))"

definition gorm_store :: "u16 \<Rightarrow> u8 list \<Rightarrow> hc_bt_hdr \<Rightarrow> hc_bt_hdr" where
  "gorm_store n bs b = b\<lparr>hdr_len := n, hdr_data := put_bytes bs (hdr_data b)\<rparr>"

text \<open>What the command functions share: \<open>wOpCode\<close>, the length \<open>n\<close>, the opcode, the parameter
  length and the parameters stored through \<open>p\<close>, the transmission.\<close>

definition gorm_command :: "u16 \<Rightarrow> u16 \<Rightarrow> u8 list \<Rightarrow> nat \<Rightarrow> hc_bt_hdr \<Rightarrow> mtk_st \<Rightarrow> u8 \<times> mtk_st" where
  "gorm_command op n params a b s =
     (let s = s\<lparr>wOpCode := op\<rparr>
      in gorm_xmit (wOpCode s) Common_Complete_cb a (gorm_store n (UINT16_TO_STREAM (wOpCode s) @ params) b) s)"

abbreviation (input) conf :: "mtk_st \<Rightarrow> btradio_conf_data" where "conf s \<equiv> bt_conf (btinit s)"

section \<open>Commands\<close>

text \<open>\<open>GetRandomValue\<close>: \<open>rand\<close> after three seeds; the third is only used when the random device
  can be read, and its bytes overwrite an uninitialised variable.\<close>

definition random_seed :: "mtk_st \<Rightarrow> u32 option \<times> mtk_st" where
  "random_seed s =
     (let (fd, s) = sys_open ''/dev/urandom'' O_RDONLY s in
      if fd > 0 then
        let (r, s) = sys_read fd 4 s; s = sys_close fd s in
        case r of
          None \<Rightarrow> (None, s)
        | Some bs \<Rightarrow> (if bs = [] then None else Some (STREAM_TO_UINT32 (put_bytes bs (stack_junk (menv s))) 0), s)
      else (None, s))"

definition GetRandomValue :: "u8 list \<Rightarrow> mtk_st \<Rightarrow> u8 list \<times> mtk_st" where
  "GetRandomValue str s =
     (let r1 = libc_rand (menv s) (time_sec (menv s) (calls s));
          str = str[0 := (ucast ((drop_bit 24 r1 OR drop_bit 16 r1) AND 0xFE OR 0x02) :: u8)];
          r2 = libc_rand (menv s) (time_usec (menv s) (calls s));
          str = str[1 := ucast (drop_bit 8 r2 AND 0xFF)];
          (seed, s) = random_seed s;
          r3 = (case seed of None \<Rightarrow> r2 | Some x \<Rightarrow> libc_rand (menv s) x)
      in (str[5 := ucast (r3 AND 0xFF)], s))"

abbreviation (input) INTERNAL_BT_CFG_FILE :: string where
  "INTERNAL_BT_CFG_FILE \<equiv> ''/data/bluetooth/BT.cfg''"

definition write_internal_addr :: "mtk_st \<Rightarrow> mtk_st" where
  "write_internal_addr s =
     (let (fd, s) = sys_open INTERNAL_BT_CFG_FILE O_WRONLY s in
      if fd < 0 then s else let (written, s) = sys_write fd (conf_addr (conf s)) s in sys_close fd s)"

definition resolve_bd_addr :: "mtk_st \<Rightarrow> mtk_st" where
  "resolve_bd_addr s =
     (if fInternalCfg s then
        let s = (if conf_addr (conf s) = conf_addr sDefaultCfg then
                   let (str, s) = GetRandomValue (conf_addr (conf s)) s
                   in write_internal_addr
                        (upd_btinit (\<lambda>b. b\<lparr>bt_conf := (bt_conf b)\<lparr>conf_addr := str\<rparr>\<rparr>) s)
                 else if fgetEFUSE s then write_internal_addr s
                 else s)
        in s\<lparr>fgetEFUSE := False, fInternalCfg := False\<rparr>
      else s)"

definition GORMcmd_HCC_Set_Local_BD_Addr :: "nat \<Rightarrow> hc_bt_hdr \<Rightarrow> mtk_st \<Rightarrow> u8 \<times> mtk_st" where
  "GORMcmd_HCC_Set_Local_BD_Addr a b s =
     (let s = resolve_bd_addr (s\<lparr>wOpCode := 0xFC1A\<rparr>); x = conf_addr (conf s)
      in gorm_command 0xFC1A 9 [6, x ! 5, x ! 4, x ! 3, x ! 2, x ! 1, x ! 0] a b s)"

definition GORMcmd_HCC_Set_LinkKeyType :: "nat \<Rightarrow> hc_bt_hdr \<Rightarrow> mtk_st \<Rightarrow> u8 \<times> mtk_st" where
  "GORMcmd_HCC_Set_LinkKeyType a b s = gorm_command 0xFC1B 4 [1, link_key_type (conf s) ! 0] a b s"

definition GORMcmd_HCC_Set_UnitKey :: "nat \<Rightarrow> hc_bt_hdr \<Rightarrow> mtk_st \<Rightarrow> u8 \<times> mtk_st" where
  "GORMcmd_HCC_Set_UnitKey a b s =
     (let k = unit_key (conf s)
      in gorm_command 0xFC75 19 [16, k ! 0, k ! 1, k ! 2, k ! 3, k ! 4, k ! 5, k ! 6, k ! 7,
           k ! 8, k ! 9, k ! 10, k ! 11, k ! 12, k ! 13, k ! 14, k ! 15] a b s)"

definition GORMcmd_HCC_Set_Encryption :: "nat \<Rightarrow> hc_bt_hdr \<Rightarrow> mtk_st \<Rightarrow> u8 \<times> mtk_st" where
  "GORMcmd_HCC_Set_Encryption a b s =
     (let x = encryption (conf s) in gorm_command 0xFC76 6 [3, x ! 0, x ! 1, x ! 2] a b s)"

definition GORMcmd_HCC_Set_PinCodeType :: "nat \<Rightarrow> hc_bt_hdr \<Rightarrow> mtk_st \<Rightarrow> u8 \<times> mtk_st" where
  "GORMcmd_HCC_Set_PinCodeType a b s = gorm_command 0x0C0A 4 [1, pin_code_type (conf s) ! 0] a b s"

definition GORMcmd_HCC_Set_Voice :: "nat \<Rightarrow> hc_bt_hdr \<Rightarrow> mtk_st \<Rightarrow> u8 \<times> mtk_st" where
  "GORMcmd_HCC_Set_Voice a b s =
     (let x = voice (conf s) in gorm_command 0x0C26 5 [2, x ! 0, x ! 1] a b s)"

definition GORMcmd_HCC_Set_PCM :: "nat \<Rightarrow> hc_bt_hdr \<Rightarrow> mtk_st \<Rightarrow> u8 \<times> mtk_st" where
  "GORMcmd_HCC_Set_PCM a b s =
     (let x = codec (conf s) in gorm_command 0xFC72 7 [4, x ! 0, x ! 1, x ! 2, x ! 3] a b s)"

definition GORMcmd_HCC_Set_Radio :: "nat \<Rightarrow> hc_bt_hdr \<Rightarrow> mtk_st \<Rightarrow> u8 \<times> mtk_st" where
  "GORMcmd_HCC_Set_Radio a b s =
     (let x = radio (conf s) in gorm_command 0xFC79 9 [6, x ! 0, x ! 1, x ! 2, x ! 3, x ! 4, x ! 5] a b s)"

definition GORMcmd_HCC_Set_Sleep_Timeout :: "nat \<Rightarrow> hc_bt_hdr \<Rightarrow> mtk_st \<Rightarrow> u8 \<times> mtk_st" where
  "GORMcmd_HCC_Set_Sleep_Timeout a b s =
     (let x = sleep (conf s)
      in gorm_command 0xFC7A 10 [7, x ! 0, x ! 1, x ! 2, x ! 3, x ! 4, x ! 5, x ! 6] a b s)"

definition GORMcmd_HCC_Set_BT_FTR :: "nat \<Rightarrow> hc_bt_hdr \<Rightarrow> mtk_st \<Rightarrow> u8 \<times> mtk_st" where
  "GORMcmd_HCC_Set_BT_FTR a b s =
     (let x = feature (conf s) in gorm_command 0xFC7D 5 [2, x ! 0, x ! 1] a b s)"

definition GORMcmd_HCC_Set_OSC_Info :: "nat \<Rightarrow> hc_bt_hdr \<Rightarrow> mtk_st \<Rightarrow> u8 \<times> mtk_st" where
  "GORMcmd_HCC_Set_OSC_Info a b s = gorm_command 0xFC7B 8 [5, 0x01, 0x01, 0x14, 0x0A, 0x06] a b s"

definition GORMcmd_HCC_Set_LPO_Info :: "nat \<Rightarrow> hc_bt_hdr \<Rightarrow> mtk_st \<Rightarrow> u8 \<times> mtk_st" where
  "GORMcmd_HCC_Set_LPO_Info a b s =
     gorm_command 0xFC7C 13 [10, 0x01, 0xFA, 0x0A, 0x02, 0x00, 0xA6, 0x0E, 0x00, 0x40, 0x00] a b s"

definition GORMcmd_HCC_Set_PTA :: "nat \<Rightarrow> hc_bt_hdr \<Rightarrow> mtk_st \<Rightarrow> u8 \<times> mtk_st" where
  "GORMcmd_HCC_Set_PTA a b s =
     gorm_command 0xFC74 13 [10, 0xCF, 0x8B, 0x1F, 0x04, 0x08, 0xA2, 0x62, 0x56, 0x07, 0x1B] a b s"

definition GORMcmd_HCC_Set_RF_Desense :: "nat \<Rightarrow> hc_bt_hdr \<Rightarrow> mtk_st \<Rightarrow> u8 \<times> mtk_st" where
  "GORMcmd_HCC_Set_RF_Desense a b s =
     gorm_command 0xFC20 9 [6, 0x00, 0x00, 0x01, 0x00, 0x01, 0x00] a b s"

definition GORMcmd_HCC_RESET :: "nat \<Rightarrow> hc_bt_hdr \<Rightarrow> mtk_st \<Rightarrow> u8 \<times> mtk_st" where
  "GORMcmd_HCC_RESET a b s = gorm_command 0x0C03 3 [0] a b s"

text \<open>The eight bytes \<open>addr\<close>, \<open>val\<close> of a register access.\<close>

definition reg_bytes :: "u32 \<Rightarrow> u8 list" where
  "reg_bytes x = [ucast (x AND 0xFF), ucast (drop_bit 8 x AND 0xFF), ucast (drop_bit 16 x AND 0xFF),
     ucast (drop_bit 24 x AND 0xFF)]"

definition GORMcmd_HCC_Set_Sleep_Control_Reg :: "nat \<Rightarrow> hc_bt_hdr \<Rightarrow> mtk_st \<Rightarrow> u8 \<times> mtk_st" where
  "GORMcmd_HCC_Set_Sleep_Control_Reg a b s =
     gorm_command 0xFCD0 11 (8 # reg_bytes 0x80090074 @ reg_bytes 0x00000A82) a b s"

definition GORMcmd_HCC_Read_Local_Version :: "nat \<Rightarrow> hc_bt_hdr \<Rightarrow> mtk_st \<Rightarrow> u8 \<times> mtk_st" where
  "GORMcmd_HCC_Read_Local_Version a b s = gorm_command 0x1001 3 [0] a b s"

definition GORMcmd_HCC_Simulate_MT6612 :: "nat \<Rightarrow> hc_bt_hdr \<Rightarrow> mtk_st \<Rightarrow> u8 \<times> mtk_st" where
  "GORMcmd_HCC_Simulate_MT6612 a b s = gorm_command 0xFCCC 4 [1, 0x00] a b s"

definition GORMcmd_HCC_Fix_UART_Escape :: "nat \<Rightarrow> hc_bt_hdr \<Rightarrow> mtk_st \<Rightarrow> u8 \<times> mtk_st" where
  "GORMcmd_HCC_Fix_UART_Escape a b s =
     gorm_command 0xFCD0 11 (8 # reg_bytes 0x80060040 @ reg_bytes 0x00000077) a b s"

definition GORMcmd_HCC_GetHwVersion :: "nat \<Rightarrow> hc_bt_hdr \<Rightarrow> mtk_st \<Rightarrow> u8 \<times> mtk_st" where
  "GORMcmd_HCC_GetHwVersion a b s = gorm_command 0xFCD1 7 (4 # reg_bytes 0x80000000) a b s"

definition GORMcmd_HCC_GetGormVersion :: "nat \<Rightarrow> hc_bt_hdr \<Rightarrow> mtk_st \<Rightarrow> u8 \<times> mtk_st" where
  "GORMcmd_HCC_GetGormVersion a b s = gorm_command 0xFCD1 7 (4 # reg_bytes 0x80000004) a b s"

definition GORMcmd_HCC_Set_CapID :: "nat \<Rightarrow> hc_bt_hdr \<Rightarrow> mtk_st \<Rightarrow> u8 \<times> mtk_st" where
  "GORMcmd_HCC_Set_CapID a b s = gorm_command 0xFC7F 4 [1, capId (conf s) ! 0] a b s"

definition GORMcmd_HCC_Set_Chip_Feature :: "nat \<Rightarrow> hc_bt_hdr \<Rightarrow> mtk_st \<Rightarrow> u8 \<times> mtk_st" where
  "GORMcmd_HCC_Set_Chip_Feature a b s =
     gorm_command 0xFC1E 11 [8, 0xBF, 0xFE, 0x8D, 0xFE, 0x98, 0x1F, 0x59, 0x87] a b s"

definition GORMcmd_HCC_Enable_PTA :: "nat \<Rightarrow> hc_bt_hdr \<Rightarrow> mtk_st \<Rightarrow> u8 \<times> mtk_st" where
  "GORMcmd_HCC_Enable_PTA a b s = gorm_command 0xFCD2 4 [1, 0x00] a b s"

definition GORMcmd_HCC_Set_WiFi_Ch :: "nat \<Rightarrow> hc_bt_hdr \<Rightarrow> mtk_st \<Rightarrow> u8 \<times> mtk_st" where
  "GORMcmd_HCC_Set_WiFi_Ch a b s = gorm_command 0xFCD3 5 [2, 0x00, 0x0A] a b s"

definition GORMcmd_HCC_Set_AFH_Mask :: "nat \<Rightarrow> hc_bt_hdr \<Rightarrow> mtk_st \<Rightarrow> u8 \<times> mtk_st" where
  "GORMcmd_HCC_Set_AFH_Mask a b s =
     gorm_command 0x0C3F 13 [10, 0xFF, 0xFF, 0xFF, 0xFF, 0xFF, 0xFF, 0xFF, 0xFF, 0xFF, 0x7F] a b s"

subsection \<open>Change of the baud rate\<close>

text \<open>Bytes 3 and 5 to 8 of the command: a code, or code zero and the rate itself.\<close>

definition baud_code :: "u32 \<Rightarrow> u8 \<times> u8 list" where
  "baud_code baud =
     (if baud = 9600 then (0x01, [0, 0, 0, 0])
      else if baud = 14400 then (0x02, [0, 0, 0, 0])
      else if baud = 19200 then (0x03, [0, 0, 0, 0])
      else if baud = 28800 then (0x04, [0, 0, 0, 0])
      else if baud = 33900 then (0x05, [0, 0, 0, 0])
      else if baud = 38400 then (0x06, [0, 0, 0, 0])
      else if baud = 57600 then (0x07, [0, 0, 0, 0])
      else if baud = 115200 then (0x08, [0, 0, 0, 0])
      else if baud = 230400 then (0x09, [0, 0, 0, 0])
      else if baud = 460800 then (0x0A, [0, 0, 0, 0])
      else if baud = 921600 then (0x0B, [0, 0, 0, 0])
      else if baud = 3250000 \<or> baud = 3200000 then (0x0C, [0, 0, 0, 0])
      else (0x00, reg_bytes baud))"

definition flow_code :: "u32 \<Rightarrow> u8" where
  "flow_code fc = (if fc = 1 then 0x40 else if fc = 2 then 0x80 else 0x00)"

definition GORMcmd_HCC_ChangeBaudRate :: "nat \<Rightarrow> hc_bt_hdr \<Rightarrow> mtk_st \<Rightarrow> u8 \<times> mtk_st" where
  "GORMcmd_HCC_ChangeBaudRate a b s =
     (let (code, rate) = baud_code (bt_baud (btinit s));
          cfg = [0x77, 0xFC, 0x06, code, flow_code (flow_control (btinit s))] @ rate;
          s = s\<lparr>wOpCode := 0xFC77\<rparr>
      in gorm_xmit (wOpCode s) ChangeBaudRate_cb a (gorm_store 9 cfg b) s)"

subsection \<open>Patch download\<close>

definition PATCH_HDR :: "u8 \<Rightarrow> u8 \<Rightarrow> u8 list" where
  "PATCH_HDR kind n = [0xC4, 0xFC, n + 5, kind, n, 0x00, 0x00, 0x00]"

abbreviation (input) PATCH_START :: u8 where "PATCH_START \<equiv> 0"
abbreviation (input) PATCH_CONTINUE :: u8 where "PATCH_CONTINUE \<equiv> 1"
abbreviation (input) PATCH_END :: u8 where "PATCH_END \<equiv> 2"

text \<open>\<open>n\<close> bytes of the image at \<open>patch_data + off\<close>.\<close>

definition patch_bytes :: "sBTInitVar_t \<Rightarrow> u32 \<Rightarrow> u32 \<Rightarrow> u8 list" where
  "patch_bytes bi off n =
     (case patch_data bi of None \<Rightarrow> [] | Some (p, img) \<Rightarrow> take (unat n) (drop (unat off) img))"

text \<open>\<open>GORMcmd_HCC_WritePatch\<close> up to and with the transmission; the result carries \<open>dwLen\<close>.\<close>

definition WritePatch_send :: "nat \<Rightarrow> hc_bt_hdr \<Rightarrow> mtk_st \<Rightarrow> u8 \<times> u32 \<times> mtk_st" where
  "WritePatch_send a b s =
     (let s = s\<lparr>wOpCode := 0xFCC4\<rparr>; bi = btinit s in
      if patch_len bi \<ge> 240 then
        let (ret, s) = gorm_xmit (wOpCode s) WritePatch_cb a
              (gorm_store 248 (PATCH_HDR PATCH_START 0xF0 @ patch_bytes bi 0 240) b) s
        in (ret, 240, s)
      else
        let b = gorm_store (ucast (patch_len bi + 8))
                  (PATCH_HDR PATCH_END (ucast (patch_len bi)) @ patch_bytes bi 0 (patch_len bi)) b;
            (ret, s) = gorm_xmit (wOpCode s) WritePatch_cb a b (s\<lparr>fPatchDone := True\<rparr>)
        in (ret, patch_len bi, s))"

text \<open>Its accounting after \<open>xmit_cb\<close> has returned.\<close>

definition WritePatch_account :: "u8 \<Rightarrow> u32 \<Rightarrow> mtk_st \<Rightarrow> mtk_st" where
  "WritePatch_account ret dwLen s =
     (if ret \<noteq> C_FALSE
      then upd_btinit (\<lambda>b. b\<lparr>patch_len := patch_len b - dwLen, patch_offset := patch_offset b + dwLen\<rparr>) s
      else s\<lparr>fPatchDone := False\<rparr>)"

definition GORMcmd_HCC_WritePatch :: "nat \<Rightarrow> hc_bt_hdr \<Rightarrow> mtk_st \<Rightarrow> u8 \<times> mtk_st" where
  "GORMcmd_HCC_WritePatch a b s =
     (let (ret, dwLen, s) = WritePatch_send a b s in (ret, WritePatch_account ret dwLen s))"

section \<open>Event handlers\<close>

abbreviation (input) evt_code :: "hci_event \<Rightarrow> u8" where "evt_code e \<equiv> evt_data e ! 0"
abbreviation (input) cc_opcode :: "hci_event \<Rightarrow> u16" where "cc_opcode e \<equiv> STREAM_TO_UINT16 (evt_data e) 3"
abbreviation (input) cc_status :: "hci_event \<Rightarrow> u8" where "cc_status e \<equiv> evt_data e ! 5"

text \<open>\<open>cmd_status\<close> stored under the mutex, and the signal.\<close>

definition gorm_signal :: "bool \<Rightarrow> mtk_st \<Rightarrow> mtk_st" where
  "gorm_signal success s = s\<lparr>cmd_status := if success then CMD_SUCCESS else CMD_FAIL\<rparr>"

definition GORMevt_HCE_Common_Complete :: "hci_event \<Rightarrow> mtk_st \<Rightarrow> mtk_st" where
  "GORMevt_HCE_Common_Complete e s =
     (let success = (evt_code e = 0x0E \<and> cc_opcode e = wOpCode s \<and> cc_status e = 0);
          s = vnd_dealloc (evt_addr e) s
      in gorm_signal success s)"

text \<open>The buffer of the event, reused for the wake-up command.\<close>

definition wakeup_cmd :: "hci_event \<Rightarrow> hc_bt_hdr" where
  "wakeup_cmd e = gorm_store 3 (UINT16_TO_STREAM 0xFCC0 @ [0]) (fresh_cmd (evt_data e))"

definition GORMevt_HCE_ChangeBaudRate :: "hci_event \<Rightarrow> mtk_st \<Rightarrow> mtk_st" where
  "GORMevt_HCE_ChangeBaudRate e s =
     (let finish = (\<lambda>success s. gorm_signal success (vnd_dealloc (evt_addr e) s)) in
      if evt_code e = 0x0F then
        let status = evt_data e ! 2; opcode = STREAM_TO_UINT16 (evt_data e) 4 in
        if opcode = 0xFC77 \<and> status = 0 then
          let (r, s) = setup_uart_param (sint (host_baud (btinit s))) (sint (flow_control (btinit s))) s;
              (ret, s) = gorm_xmit 0xFCC0 ChangeBaudRate_cb (evt_addr e) (wakeup_cmd e) s
          in if ret \<noteq> C_FALSE then s else finish False s
        else finish False s
      else if evt_code e = 0x0E then
        let opcode = cc_opcode e; status = cc_status e in
        if opcode = 0xFCC0 then
          if status = 0 then vnd_dealloc (evt_addr e) s else finish False s
        else if opcode = 0xFC77 then finish (status = 0) s
        else finish False s
      else finish False s)"

text \<open>The next packet of the image: a buffer is allocated, filled and sent; the pair says whether
  the packet was sent.\<close>

definition patch_packet :: "u8 \<Rightarrow> u32 \<Rightarrow> mtk_st \<Rightarrow> bool \<times> mtk_st" where
  "patch_packet kind n s =
     (let (r, s) = vnd_alloc MTK_HCI_CMD_MAX_SIZE s in
      case r of
        None \<Rightarrow> (False, s)
      | Some (a, mem) \<Rightarrow>
          let b = gorm_store (ucast (n + 8))
                    (PATCH_HDR kind (ucast n) @ patch_bytes (btinit s) (patch_offset (btinit s)) n) (fresh_cmd mem);
              (ret, s) = gorm_xmit 0xFCC4 WritePatch_cb a b s
          in if ret \<noteq> C_FALSE then (True, s) else (False, vnd_dealloc a s))"

definition GORMevt_HCE_WritePatch :: "hci_event \<Rightarrow> mtk_st \<Rightarrow> mtk_st" where
  "GORMevt_HCE_WritePatch e s =
     (let s = vnd_dealloc (evt_addr e) s;
          finish = (\<lambda>success s. gorm_signal success (if fPatchDone s then s\<lparr>fPatchDone := False\<rparr> else s)) in
      if evt_code e = 0x0E \<and> cc_opcode e = 0xFCC4 \<and> cc_status e = 0 then
        if patch_len (btinit s) = 0 \<and> fPatchDone s then finish True s
        else if patch_len (btinit s) \<ge> 240 then
          let (sent, s) = patch_packet PATCH_CONTINUE 240 s in
          if sent
          then upd_btinit (\<lambda>b. b\<lparr>patch_len := patch_len b - 240, patch_offset := patch_offset b + 240\<rparr>) s
          else finish False s
        else
          let (sent, s) = patch_packet PATCH_END (patch_len (btinit s)) s in
          if sent
          then let s = upd_btinit (\<lambda>b. b\<lparr>patch_len := patch_len b - patch_len b\<rparr>) s;
                   s = upd_btinit (\<lambda>b. b\<lparr>patch_offset := patch_offset b + patch_len b\<rparr>) s
               in s\<lparr>fPatchDone := True\<rparr>
          else finish False s
      else finish False s)"

text \<open>The stack delivers an event to the callback of the command it answers.\<close>

definition mtk_event :: "hci_event \<Rightarrow> mtk_st \<Rightarrow> mtk_st" where
  "mtk_event e s =
     (case evt_cback s of
        Common_Complete_cb \<Rightarrow> GORMevt_HCE_Common_Complete e s
      | ChangeBaudRate_cb \<Rightarrow> GORMevt_HCE_ChangeBaudRate e s
      | WritePatch_cb \<Rightarrow> GORMevt_HCE_WritePatch e s)"

section \<open>Scripts and worker threads\<close>

text \<open>The command functions as the script tables name them.\<close>

datatype hcc =
    HCC_Read_Local_Version | HCC_Simulate_MT6612 | HCC_Fix_UART_Escape | HCC_GetHwVersion
  | HCC_GetGormVersion | HCC_ChangeBaudRate | HCC_WritePatch | HCC_Set_Local_BD_Addr | HCC_Set_CapID
  | HCC_Set_LinkKeyType | HCC_Set_UnitKey | HCC_Set_Encryption | HCC_Set_PinCodeType | HCC_Set_Radio
  | HCC_Set_Sleep_Timeout | HCC_Set_BT_FTR | HCC_Set_Chip_Feature | HCC_Set_OSC_Info | HCC_Set_LPO_Info
  | HCC_Set_RF_Desense | HCC_Set_PTA | HCC_RESET | HCC_Enable_PTA | HCC_Set_WiFi_Ch | HCC_Set_AFH_Mask
  | HCC_Set_Sleep_Control_Reg | HCC_Set_Voice | HCC_Set_PCM

definition bt_init_preload_script :: "hcc list" where
  "bt_init_preload_script =
     [HCC_Read_Local_Version, HCC_Simulate_MT6612, HCC_Fix_UART_Escape, HCC_GetHwVersion,
      HCC_GetGormVersion, HCC_ChangeBaudRate, HCC_WritePatch, HCC_Set_Local_BD_Addr, HCC_Set_CapID,
      HCC_Set_LinkKeyType, HCC_Set_UnitKey, HCC_Set_Encryption, HCC_Set_PinCodeType, HCC_Set_Radio,
      HCC_Set_Sleep_Timeout, HCC_Set_BT_FTR, HCC_Set_Chip_Feature, HCC_Set_OSC_Info, HCC_Set_LPO_Info,
      HCC_Set_RF_Desense, HCC_Set_PTA, HCC_RESET, HCC_Enable_PTA, HCC_Set_WiFi_Ch, HCC_Set_AFH_Mask,
      HCC_Set_Sleep_Control_Reg]"

definition bt_init_postload_script :: "hcc list" where
  "bt_init_postload_script = [HCC_Set_Voice, HCC_Set_PCM]"

text \<open>A command other than the patch download, called through its pointer.\<close>

fun command_func :: "hcc \<Rightarrow> nat \<Rightarrow> hc_bt_hdr \<Rightarrow> mtk_st \<Rightarrow> u8 \<times> mtk_st" where
  "command_func HCC_Read_Local_Version = GORMcmd_HCC_Read_Local_Version"
| "command_func HCC_Simulate_MT6612 = GORMcmd_HCC_Simulate_MT6612"
| "command_func HCC_Fix_UART_Escape = GORMcmd_HCC_Fix_UART_Escape"
| "command_func HCC_GetHwVersion = GORMcmd_HCC_GetHwVersion"
| "command_func HCC_GetGormVersion = GORMcmd_HCC_GetGormVersion"
| "command_func HCC_ChangeBaudRate = GORMcmd_HCC_ChangeBaudRate"
| "command_func HCC_WritePatch = GORMcmd_HCC_WritePatch"
| "command_func HCC_Set_Local_BD_Addr = GORMcmd_HCC_Set_Local_BD_Addr"
| "command_func HCC_Set_CapID = GORMcmd_HCC_Set_CapID"
| "command_func HCC_Set_LinkKeyType = GORMcmd_HCC_Set_LinkKeyType"
| "command_func HCC_Set_UnitKey = GORMcmd_HCC_Set_UnitKey"
| "command_func HCC_Set_Encryption = GORMcmd_HCC_Set_Encryption"
| "command_func HCC_Set_PinCodeType = GORMcmd_HCC_Set_PinCodeType"
| "command_func HCC_Set_Radio = GORMcmd_HCC_Set_Radio"
| "command_func HCC_Set_Sleep_Timeout = GORMcmd_HCC_Set_Sleep_Timeout"
| "command_func HCC_Set_BT_FTR = GORMcmd_HCC_Set_BT_FTR"
| "command_func HCC_Set_Chip_Feature = GORMcmd_HCC_Set_Chip_Feature"
| "command_func HCC_Set_OSC_Info = GORMcmd_HCC_Set_OSC_Info"
| "command_func HCC_Set_LPO_Info = GORMcmd_HCC_Set_LPO_Info"
| "command_func HCC_Set_RF_Desense = GORMcmd_HCC_Set_RF_Desense"
| "command_func HCC_Set_PTA = GORMcmd_HCC_Set_PTA"
| "command_func HCC_RESET = GORMcmd_HCC_RESET"
| "command_func HCC_Enable_PTA = GORMcmd_HCC_Enable_PTA"
| "command_func HCC_Set_WiFi_Ch = GORMcmd_HCC_Set_WiFi_Ch"
| "command_func HCC_Set_AFH_Mask = GORMcmd_HCC_Set_AFH_Mask"
| "command_func HCC_Set_Sleep_Control_Reg = GORMcmd_HCC_Set_Sleep_Control_Reg"
| "command_func HCC_Set_Voice = GORMcmd_HCC_Set_Voice"
| "command_func HCC_Set_PCM = GORMcmd_HCC_Set_PCM"

text \<open>The two threads share their loop and differ in the script, the skipping of an absent patch
  and what they do at \<open>exit\<close>.\<close>

datatype worker = GORM_FW_Init | GORM_SCO_Init

definition worker_script :: "worker \<Rightarrow> hcc list" where
  "worker_script w = (case w of GORM_FW_Init \<Rightarrow> bt_init_preload_script | GORM_SCO_Init \<Rightarrow> bt_init_postload_script)"

definition skip_command :: "worker \<Rightarrow> hcc \<Rightarrow> mtk_st \<Rightarrow> bool" where
  "skip_command w c s \<longleftrightarrow> w = GORM_FW_Init \<and> c = HCC_WritePatch
     \<and> (patch_data (btinit s) = None \<or> patch_len (btinit s) = 0)"

definition GORM_FW_exit :: "bt_vendor_op_result_t \<Rightarrow> mtk_st \<Rightarrow> mtk_st" where
  "GORM_FW_exit ret s =
     (let s = (case patch_data (btinit s) of
                 None \<Rightarrow> s
               | Some (p, img) \<Rightarrow>
                   upd_btinit (\<lambda>b. b\<lparr>patch_data := None, patch_len := 0, patch_offset := 0\<rparr>) (sys_free p s))
      in vnd_notify (Fwcfg_cb ret) s)"

definition GORM_SCO_exit :: "bt_vendor_op_result_t \<Rightarrow> mtk_st \<Rightarrow> mtk_st" where
  "GORM_SCO_exit ret s = vnd_notify (Scocfg_cb ret) s"

definition worker_exit :: "worker \<Rightarrow> bt_vendor_op_result_t \<Rightarrow> mtk_st \<Rightarrow> mtk_st" where
  "worker_exit w = (case w of GORM_FW_Init \<Rightarrow> GORM_FW_exit | GORM_SCO_Init \<Rightarrow> GORM_SCO_exit)"

text \<open>Where a thread is: at the head of the loop; in \<open>GORMcmd_HCC_WritePatch\<close> behind \<open>xmit_cb\<close>,
  with the buffer, the result and \<open>dwLen\<close>; behind the command function; waiting for \<open>cmd_status\<close>;
  at \<open>exit\<close>; ended.\<close>

datatype thread_pc =
    At_loop nat
  | In_patch nat nat u8 u32
  | Returned nat nat u8
  | At_wait nat
  | At_exit bt_vendor_op_result_t
  | Ended

fun thread_step :: "worker \<Rightarrow> thread_pc \<Rightarrow> mtk_st \<Rightarrow> (thread_pc \<times> mtk_st) option" where
  "thread_step w (At_loop i) s =
     (if i \<ge> length (worker_script w) then Some (At_exit BT_VND_OP_RESULT_SUCCESS, s)
      else if skip_command w (worker_script w ! i) s then Some (At_loop (Suc i), s)
      else
        let (r, s) = vnd_alloc MTK_HCI_CMD_MAX_SIZE s in
        case r of
          None \<Rightarrow> Some (At_exit BT_VND_OP_RESULT_FAIL, s)
        | Some (a, mem) \<Rightarrow>
            (if worker_script w ! i = HCC_WritePatch
             then let (ret, dwLen, s) = WritePatch_send a (fresh_cmd mem) s in Some (In_patch i a ret dwLen, s)
             else let (ret, s) = command_func (worker_script w ! i) a (fresh_cmd mem) s in Some (Returned i a ret, s)))"
| "thread_step w (In_patch i a ret dwLen) s = Some (Returned i a ret, WritePatch_account ret dwLen s)"
| "thread_step w (Returned i a ret) s =
     (if ret = C_FALSE then Some (At_exit BT_VND_OP_RESULT_FAIL, vnd_dealloc a s)
      else Some (At_wait i, s\<lparr>cmd_status := CMD_PENDING\<rparr>))"
| "thread_step w (At_wait i) s =
     (case cmd_status s of
        CMD_PENDING \<Rightarrow> None
      | CMD_FAIL \<Rightarrow> Some (At_exit BT_VND_OP_RESULT_FAIL, s)
      | CMD_SUCCESS \<Rightarrow> Some (At_loop (Suc i), s))"
| "thread_step w (At_exit ret) s = Some (Ended, worker_exit w ret s)"
| "thread_step w Ended s = None"

section \<open>The system\<close>

text \<open>The controller answers an accepted command (opcode and bytes) with a list of events.  Answers
  travel in order; \<open>mtk_sys\<close> interleaves the thread with their delivery.  A step is labelled with
  the event it delivers, \<open>None\<close> for a step of the thread.\<close>

type_synonym controller = "u16 \<Rightarrow> u8 list \<Rightarrow> u8 list list"

fun accepted :: "history \<Rightarrow> (u16 \<times> u8 list) list" where
  "accepted [] = []"
| "accepted (Xmit op a b r # cs) = (if r = C_FALSE then accepted cs else (op, wire b) # accepted cs)"
| "accepted (_ # cs) = accepted cs"

definition answers :: "controller \<Rightarrow> mtk_st \<Rightarrow> mtk_st \<Rightarrow> u8 list list" where
  "answers ctl s t = concat (map (\<lambda>(op, bs). ctl op bs) (accepted (drop (length (calls s)) (calls t))))"

type_synonym mtk_conf = "thread_pc \<times> mtk_st \<times> u8 list list"

inductive mtk_sys :: "controller \<Rightarrow> worker \<Rightarrow> mtk_conf \<Rightarrow> hci_event option \<Rightarrow> mtk_conf \<Rightarrow> bool" for ctl w where
  sys_thread: "thread_step w pc s = Some (pc', t) \<Longrightarrow>
     mtk_sys ctl w (pc, s, q) None (pc', t, q @ answers ctl s t)"
| sys_event: "evt_data e = bs \<Longrightarrow> t = mtk_event e s \<Longrightarrow>
     mtk_sys ctl w (pc, s, bs # q) (Some e) (pc, t, q @ answers ctl s t)"

inductive_cases sys_NoneE: "mtk_sys ctl w (pc, s, q) None c"
inductive_cases sys_SomeE: "mtk_sys ctl w (pc, s, q) (Some e) c"
inductive_cases sys_E: "mtk_sys ctl w (pc, s, q) l c"

end
