(* ===== verification/Mtk_Init.thy ===== *)
theory Mtk_Init
  imports Mtk_Radiomod "HOL-Library.Sublist"
begin

text \<open>
  The MT6622 initialisation under every schedule and every controller: the commands carry the
  configuration, the event handlers and threads keep account of the buffers, a thread reports once,
  and one that reports success has had its whole script accepted.
\<close>

section \<open>Frames\<close>

text \<open>The results a thread has reported to the stack.\<close>

fun reports :: "worker \<Rightarrow> history \<Rightarrow> bt_vendor_op_result_t list" where
  "reports w [] = []"
| "reports w (Fwcfg_cb r # cs) = (if w = GORM_FW_Init then r # reports w cs else reports w cs)"
| "reports w (Scocfg_cb r # cs) = (if w = GORM_SCO_Init then r # reports w cs else reports w cs)"
| "reports w (_ # cs) = reports w cs"

lemma reports_append [simp]: "reports w (cs @ ds) = reports w cs @ reports w ds"
  by (induction w cs rule: reports.induct) auto

lemma non_stack_calls:
  assumes "list_all (\<lambda>c. \<not> is_stack_call c) cs"
  shows "net cs a = 0" "accepted cs = []" "reports w cs = []"
  using assms
proof (induction cs)
  case (Cons c cs)
  { case 1 then show ?case using Cons.IH(1) by (cases c) auto }
  { case 2 then show ?case using Cons.IH(2) by (cases c) auto }
  { case 3 then show ?case using Cons.IH(3) by (cases c) auto }
qed auto

lemma accepted_append [simp]: "accepted (cs @ ds) = accepted cs @ accepted ds"
  by (induction cs rule: accepted.induct) auto

lemma answers_append: "calls t = calls s @ new \<Longrightarrow>
    answers ctl s t = concat (map (\<lambda>(op, bs). ctl op bs) (accepted new))"
  by (simp add: answers_def)

text \<open>A part of the library that touches neither the stack nor the library's own variables: the
  system calls it makes and the terminals may change.\<close>

definition port_only :: "mtk_st \<Rightarrow> mtk_st \<Rightarrow> bool" where
  "port_only s t \<longleftrightarrow> (\<exists>new T. t = s\<lparr>calls := calls s @ new, ttys := T\<rparr>
     \<and> list_all (\<lambda>c. \<not> is_stack_call c) new)"

lemma port_only_refl [simp]: "port_only s s"
  unfolding port_only_def by (rule exI [of _ "[]"], rule exI [of _ "ttys s"]) simp

lemma port_only_trans: "port_only s t \<Longrightarrow> port_only t u \<Longrightarrow> port_only s u"
  unfolding port_only_def
proof (elim exE conjE)
  fix new1 T1 new2 T2
  assume "t = s\<lparr>calls := calls s @ new1, ttys := T1\<rparr>" "list_all (\<lambda>c. \<not> is_stack_call c) new1"
    "u = t\<lparr>calls := calls t @ new2, ttys := T2\<rparr>" "list_all (\<lambda>c. \<not> is_stack_call c) new2"
  then show "\<exists>new T. u = s\<lparr>calls := calls s @ new, ttys := T\<rparr> \<and> list_all (\<lambda>c. \<not> is_stack_call c) new"
    by (intro exI [of _ "new1 @ new2"] exI [of _ T2]) simp
qed

lemma port_only_tcflush: "port_only s (tcflush fd s)"
  unfolding port_only_def by (intro exI [of _ "[Tcflush fd]"] exI [of _ "ttys s"]) (simp add: tcflush_def)

lemma port_only_tcsetattr: "port_only s (snd (mtk_tcsetattr fd ti s))"
proof -
  let ?T = "if os_tc_err (os s) (calls s) fd then ttys s else (ttys s)(fd := ti)"
  show ?thesis unfolding port_only_def
    by (intro exI [of _ "[Tcsetattr fd ti]"] exI [of _ ?T]) (simp add: mtk_tcsetattr_def tc_set_def Let_def)
qed

lemma port_only_set_speed: "port_only s (snd (set_speed fd ti sp s))"
  by (simp add: set_speed_def port_only_tcsetattr Let_def)

lemma port_only_setup: "port_only s (snd (setup_uart_param b fc s))"
proof -
  let ?s1 = "tcflush (bt_fd s) s"
  let ?ti = "\<lambda>ti. mtk_flow fc (mtk_raw_line ti)"
  have 2: "port_only s (snd (mtk_tcsetattr (bt_fd s) ti ?s1))" for ti
    by (rule port_only_trans [OF port_only_tcflush port_only_tcsetattr])
  have 3: "port_only s (snd (set_speed (bt_fd s) ti b (snd (mtk_tcsetattr (bt_fd s) ti ?s1))))" for ti
    by (rule port_only_trans [OF 2 port_only_set_speed])
  have 4: "port_only s (tcflush (bt_fd s) (snd (set_speed (bt_fd s) ti b (snd (mtk_tcsetattr (bt_fd s) ti ?s1)))))" for ti
    by (rule port_only_trans [OF 3 port_only_tcflush])
  show ?thesis using 2 3 4 port_only_tcflush
    by (simp add: setup_uart_param_def Let_def split_beta split: option.split)
qed

lemma port_onlyE:
  assumes "port_only s t"
  obtains new T where "t = s\<lparr>calls := calls s @ new, ttys := T\<rparr>" "\<And>a. net new a = 0" "accepted new = []"
    "\<forall>w. reports w new = []"
proof -
  from assms obtain new T where t: "t = s\<lparr>calls := calls s @ new, ttys := T\<rparr>"
    and new: "list_all (\<lambda>c. \<not> is_stack_call c) new" unfolding port_only_def by blast
  show thesis by (rule that [OF t]) (use non_stack_calls [OF new] in simp_all)
qed

section \<open>Buffers\<close>

lemma gorm_xmit_Some:
  "bt_vendor_cbacks s = Some cb \<Longrightarrow> gorm_xmit op k a b s =
     (let r = cb_xmit cb (calls s) op b; s' = s\<lparr>calls := calls s @ [Xmit op a b r]\<rparr>
      in (r, if r = C_FALSE then s' else s'\<lparr>evt_cback := k\<rparr>))"
  by (simp add: gorm_xmit_def vnd_xmit_def Let_def)

text \<open>The bookkeeping of one event: the buffer of the event is given away once, every other buffer
  allocated in the handler is given away in it.\<close>

definition event_post :: "hci_event \<Rightarrow> mtk_st \<Rightarrow> mtk_st \<Rightarrow> bool" where
  "event_post e s t \<longleftrightarrow> bt_vendor_cbacks t = bt_vendor_cbacks s
     \<and> (\<exists>new. calls t = calls s @ new \<and> (\<forall>w. reports w new = [])
          \<and> (\<forall>a. net new a = (if a = evt_addr e then -1 else 0)))"

lemma common_complete_post:
  "bt_vendor_cbacks s = Some cb \<Longrightarrow> event_post e s (GORMevt_HCE_Common_Complete e s)"
  by (simp add: event_post_def GORMevt_HCE_Common_Complete_def vnd_dealloc_def gorm_signal_def Let_def)

lemma change_baud_post:
  assumes "bt_vendor_cbacks s = Some cb"
  shows "event_post e s (GORMevt_HCE_ChangeBaudRate e s)"
proof -
  obtain new T r where u: "setup_uart_param (sint (host_baud (btinit s))) (sint (flow_control (btinit s))) s
      = (r, s\<lparr>calls := calls s @ new, ttys := T\<rparr>)" and new: "\<And>a. net new a = 0" "\<forall>w. reports w new = []"
    using port_only_setup [of s] by (metis port_onlyE prod.collapse)
  show ?thesis using assms new
    by (auto simp: event_post_def GORMevt_HCE_ChangeBaudRate_def vnd_dealloc_def gorm_signal_def u gorm_xmit_Some Let_def)
qed

lemma event_post_if:
  "(b \<Longrightarrow> event_post e s t) \<Longrightarrow> (\<not> b \<Longrightarrow> event_post e s u) \<Longrightarrow> event_post e s (if b then t else u)"
  by simp

lemma patch_packet_post:
  assumes "bt_vendor_cbacks s = Some cb"
  shows "bt_vendor_cbacks (snd (patch_packet k n s)) = bt_vendor_cbacks s \<and>
    (\<exists>new. calls (snd (patch_packet k n s)) = calls s @ new \<and> (\<forall>w. reports w new = []) \<and> (\<forall>a. net new a = 0))"
  using assms
  by (auto simp: patch_packet_def vnd_alloc_def vnd_dealloc_def gorm_xmit_Some Let_def split_beta split: option.split)

lemma write_patch_post:
  assumes "bt_vendor_cbacks s = Some cb"
  shows "event_post e s (GORMevt_HCE_WritePatch e s)"
proof -
  let ?s = "vnd_dealloc (evt_addr e) s"
  have s: "?s = s\<lparr>calls := calls s @ [Dealloc (evt_addr e)]\<rparr>" using assms by (simp add: vnd_dealloc_def)
  have packet: "event_post e s t"
    if "calls t = calls (snd (patch_packet k n ?s))" "bt_vendor_cbacks t = bt_vendor_cbacks (snd (patch_packet k n ?s))" for k n t
    using patch_packet_post [of ?s cb k n] assms that by (auto simp: s event_post_def)
  have stop: "event_post e s t" if "calls t = calls ?s" "bt_vendor_cbacks t = bt_vendor_cbacks ?s" for t
    using that by (simp add: event_post_def s)
  show ?thesis
    unfolding GORMevt_HCE_WritePatch_def Let_def split_beta
    by (intro event_post_if) ((rule stop packet; simp add: gorm_signal_def)+)
qed

lemma mtk_event_post: "bt_vendor_cbacks s = Some cb \<Longrightarrow> event_post e s (mtk_event e s)"
  by (cases "evt_cback s")
    (simp_all add: mtk_event_def common_complete_post change_baud_post write_patch_post)

interpretation mtk_events: buffer_contract "\<lambda>s e t. mtk_event e s = t" calls "\<lambda>s. bt_vendor_cbacks s \<noteq> None"
  by unfold_locales (use mtk_event_post in \<open>fastforce simp: event_post_def\<close>)+

section \<open>Commands\<close>

text \<open>Opcode and parameters of each command, as the script tables and the fields of the
  configuration give them.\<close>

fun hcc_opcode :: "hcc \<Rightarrow> u16" where
  "hcc_opcode HCC_Read_Local_Version = 0x1001"
| "hcc_opcode HCC_Simulate_MT6612 = 0xFCCC"
| "hcc_opcode HCC_Fix_UART_Escape = 0xFCD0"
| "hcc_opcode HCC_GetHwVersion = 0xFCD1"
| "hcc_opcode HCC_GetGormVersion = 0xFCD1"
| "hcc_opcode HCC_ChangeBaudRate = 0xFC77"
| "hcc_opcode HCC_WritePatch = 0xFCC4"
| "hcc_opcode HCC_Set_Local_BD_Addr = 0xFC1A"
| "hcc_opcode HCC_Set_CapID = 0xFC7F"
| "hcc_opcode HCC_Set_LinkKeyType = 0xFC1B"
| "hcc_opcode HCC_Set_UnitKey = 0xFC75"
| "hcc_opcode HCC_Set_Encryption = 0xFC76"
| "hcc_opcode HCC_Set_PinCodeType = 0x0C0A"
| "hcc_opcode HCC_Set_Radio = 0xFC79"
| "hcc_opcode HCC_Set_Sleep_Timeout = 0xFC7A"
| "hcc_opcode HCC_Set_BT_FTR = 0xFC7D"
| "hcc_opcode HCC_Set_Chip_Feature = 0xFC1E"
| "hcc_opcode HCC_Set_OSC_Info = 0xFC7B"
| "hcc_opcode HCC_Set_LPO_Info = 0xFC7C"
| "hcc_opcode HCC_Set_RF_Desense = 0xFC20"
| "hcc_opcode HCC_Set_PTA = 0xFC74"
| "hcc_opcode HCC_RESET = 0x0C03"
| "hcc_opcode HCC_Enable_PTA = 0xFCD2"
| "hcc_opcode HCC_Set_WiFi_Ch = 0xFCD3"
| "hcc_opcode HCC_Set_AFH_Mask = 0x0C3F"
| "hcc_opcode HCC_Set_Sleep_Control_Reg = 0xFCD0"
| "hcc_opcode HCC_Set_Voice = 0x0C26"
| "hcc_opcode HCC_Set_PCM = 0xFC72"

fun hcc_params :: "btradio_conf_data \<Rightarrow> hcc \<Rightarrow> u8 list" where
  "hcc_params cf HCC_Set_Local_BD_Addr = rev (conf_addr cf)"
| "hcc_params cf HCC_Set_CapID = capId cf"
| "hcc_params cf HCC_Set_LinkKeyType = link_key_type cf"
| "hcc_params cf HCC_Set_UnitKey = unit_key cf"
| "hcc_params cf HCC_Set_Encryption = encryption cf"
| "hcc_params cf HCC_Set_PinCodeType = pin_code_type cf"
| "hcc_params cf HCC_Set_Radio = radio cf"
| "hcc_params cf HCC_Set_Sleep_Timeout = sleep cf"
| "hcc_params cf HCC_Set_BT_FTR = feature cf"
| "hcc_params cf HCC_Set_Voice = voice cf"
| "hcc_params cf HCC_Set_PCM = codec cf"
| "hcc_params cf HCC_Simulate_MT6612 = [0]"
| "hcc_params cf HCC_Fix_UART_Escape = UINT32_TO_STREAM 0x80060040 @ UINT32_TO_STREAM 0x77"
| "hcc_params cf HCC_GetHwVersion = UINT32_TO_STREAM 0x80000000"
| "hcc_params cf HCC_GetGormVersion = UINT32_TO_STREAM 0x80000004"
| "hcc_params cf HCC_Set_Chip_Feature = [0xBF, 0xFE, 0x8D, 0xFE, 0x98, 0x1F, 0x59, 0x87]"
| "hcc_params cf HCC_Set_OSC_Info = [0x01, 0x01, 0x14, 0x0A, 0x06]"
| "hcc_params cf HCC_Set_LPO_Info = [0x01, 0xFA, 0x0A, 0x02, 0x00, 0xA6, 0x0E, 0x00, 0x40, 0x00]"
| "hcc_params cf HCC_Set_RF_Desense = [0x00, 0x00, 0x01, 0x00, 0x01, 0x00]"
| "hcc_params cf HCC_Set_PTA = [0xCF, 0x8B, 0x1F, 0x04, 0x08, 0xA2, 0x62, 0x56, 0x07, 0x1B]"
| "hcc_params cf HCC_Enable_PTA = [0]"
| "hcc_params cf HCC_Set_WiFi_Ch = [0x00, 0x0A]"
| "hcc_params cf HCC_Set_AFH_Mask = [0xFF, 0xFF, 0xFF, 0xFF, 0xFF, 0xFF, 0xFF, 0xFF, 0xFF, 0x7F]"
| "hcc_params cf HCC_Set_Sleep_Control_Reg = UINT32_TO_STREAM 0x80090074 @ UINT32_TO_STREAM 0xA82"
| "hcc_params cf _ = []"

definition hcc_bytes :: "btradio_conf_data \<Rightarrow> hcc \<Rightarrow> u8 list" where
  "hcc_bytes cf c = UINT16_TO_STREAM (hcc_opcode c) @ of_nat (length (hcc_params cf c)) # hcc_params cf c"

lemma reg_bytes_UINT32: "reg_bytes x = UINT32_TO_STREAM x"
proof -
  have m: "ucast (y AND 0xFF) = (ucast y :: u8)" for y :: u32
  proof (rule bit_word_eqI)
    fix n assume "n < LENGTH(8)"
    moreover have "(0xFF :: u32) = mask 8" by (simp add: mask_eq_exp_minus_1)
    then have "bit (0xFF :: u32) n = bit (mask 8 :: u32) n" by (rule arg_cong)
    ultimately show "bit (ucast (y AND 0xFF) :: u8) n = bit (ucast y :: u8) n"
      by (simp add: bit_ucast_iff bit_and_iff bit_mask_iff)
  qed
  show ?thesis by (simp add: reg_bytes_def UINT32_TO_STREAM_def m)
qed

lemma list_nth_expand: "length x = n \<Longrightarrow> map ((!) x) [0..<n] = x"
  using map_nth [of x] by simp

lemma upt_small:
  "[0..<1] = [0]" "[0..<2] = [0, 1]" "[0..<3] = [0, 1, 2]" "[0..<4] = [0, 1, 2, 3]" "[0..<6] = [0, 1, 2, 3, 4, 5]"
  "[0..<7] = [0, 1, 2, 3, 4, 5, 6]" "[0..<16] = [0, 1, 2, 3, 4, 5, 6, 7, 8, 9, 10, 11, 12, 13, 14, 15]"
  by (simp_all add: upt_rec)

lemma nth_lists:
  "length x = 1 \<Longrightarrow> [x ! 0] = x" "length x = 2 \<Longrightarrow> [x ! 0, x ! 1] = x"
  "length x = 3 \<Longrightarrow> [x ! 0, x ! 1, x ! 2] = x" "length x = 4 \<Longrightarrow> [x ! 0, x ! 1, x ! 2, x ! 3] = x"
  "length x = 6 \<Longrightarrow> [x ! 0, x ! 1, x ! 2, x ! 3, x ! 4, x ! 5] = x"
  "length x = 7 \<Longrightarrow> [x ! 0, x ! 1, x ! 2, x ! 3, x ! 4, x ! 5, x ! 6] = x"
  "length x = 16 \<Longrightarrow> [x ! 0, x ! 1, x ! 2, x ! 3, x ! 4, x ! 5, x ! 6, x ! 7,
     x ! 8, x ! 9, x ! 10, x ! 11, x ! 12, x ! 13, x ! 14, x ! 15] = x"
  by (drule list_nth_expand, simp only: upt_small list.map)+

lemma rev_six: "length x = 6 \<Longrightarrow> [x ! 5, x ! 4, x ! 3, x ! 2, x ! 1, x ! 0] = rev x"
  by (frule nth_lists(5), erule subst) simp

lemmas gorm_defs =
  GORMcmd_HCC_Set_LinkKeyType_def GORMcmd_HCC_Set_UnitKey_def GORMcmd_HCC_Set_Encryption_def
  GORMcmd_HCC_Set_PinCodeType_def GORMcmd_HCC_Set_Voice_def GORMcmd_HCC_Set_PCM_def GORMcmd_HCC_Set_Radio_def
  GORMcmd_HCC_Set_Sleep_Timeout_def GORMcmd_HCC_Set_BT_FTR_def GORMcmd_HCC_Set_OSC_Info_def
  GORMcmd_HCC_Set_LPO_Info_def GORMcmd_HCC_Set_PTA_def GORMcmd_HCC_Set_RF_Desense_def GORMcmd_HCC_RESET_def
  GORMcmd_HCC_Set_Sleep_Control_Reg_def GORMcmd_HCC_Read_Local_Version_def GORMcmd_HCC_Simulate_MT6612_def
  GORMcmd_HCC_Fix_UART_Escape_def GORMcmd_HCC_GetHwVersion_def GORMcmd_HCC_GetGormVersion_def
  GORMcmd_HCC_Set_CapID_def GORMcmd_HCC_Set_Chip_Feature_def GORMcmd_HCC_Enable_PTA_def
  GORMcmd_HCC_Set_WiFi_Ch_def GORMcmd_HCC_Set_AFH_Mask_def

definition common_hcc :: "hcc \<Rightarrow> bool" where
  "common_hcc c \<longleftrightarrow> c \<notin> {HCC_ChangeBaudRate, HCC_WritePatch, HCC_Set_Local_BD_Addr}"

lemma command_func_common:
  assumes "conf_wf (conf s)" "common_hcc c"
  shows "command_func c a b s = gorm_command (hcc_opcode c) (of_nat (3 + length (hcc_params (conf s) c)))
           (of_nat (length (hcc_params (conf s) c)) # hcc_params (conf s) c) a b s"
  using assms
  by (cases c) (simp_all add: gorm_defs common_hcc_def conf_wf_def Let_def reg_bytes_UINT32 nth_lists [unfolded One_nat_def])

text \<open>The choice of the Bluetooth address before it is sent talks to the system only and replaces
  at most the address.\<close>

definition host_only :: "mtk_st \<Rightarrow> mtk_st \<Rightarrow> bool" where
  "host_only s t \<longleftrightarrow> sys_only s t \<and> evt_cback t = evt_cback s \<and> wOpCode t = wOpCode s
     \<and> cmd_status t = cmd_status s \<and> fPatchDone t = fPatchDone s \<and> menv t = menv s"

lemma host_only_refl [simp]: "host_only s s"
  by (simp add: host_only_def)

lemma host_only_trans: "host_only s t \<Longrightarrow> host_only t u \<Longrightarrow> host_only s u"
  unfolding host_only_def using sys_only_trans by metis

lemma host_only_sys:
  "host_only s t \<Longrightarrow> host_only s (snd (sys_open p m t))" "host_only s t \<Longrightarrow> host_only s (snd (sys_read fd n t))"
  "host_only s t \<Longrightarrow> host_only s (snd (sys_write fd bs t))" "host_only s t \<Longrightarrow> host_only s (sys_close fd t)"
  by (erule host_only_trans; simp add: host_only_def sys_open_def sys_read_def sys_write_def sys_close_def
        sys_only_def Let_def)+

lemma btinit_sys [simp]:
  "btinit (snd (sys_open p m t)) = btinit t" "btinit (snd (sys_read fd n t)) = btinit t"
  "btinit (snd (sys_write fd bs t)) = btinit t" "btinit (sys_close fd t) = btinit t"
  by (simp_all add: sys_open_def sys_read_def sys_write_def sys_close_def Let_def)

lemma random_seed_host: "host_only s (snd (random_seed s))" "btinit (snd (random_seed s)) = btinit s"
  by (simp_all add: random_seed_def Let_def split_beta host_only_sys split: option.split)

lemma GetRandomValue_host: "host_only s (snd (GetRandomValue x s))" "btinit (snd (GetRandomValue x s)) = btinit s"
    "length (fst (GetRandomValue x s)) = length x"
  by (simp_all add: GetRandomValue_def Let_def split_beta random_seed_host)

lemma write_internal_host: "host_only s t \<Longrightarrow> host_only s (write_internal_addr t)"
    "btinit (write_internal_addr t) = btinit t"
  by (simp_all add: write_internal_addr_def Let_def split_beta host_only_sys)

lemma resolve_bd_addr_host: "host_only s (resolve_bd_addr s)"
proof -
  have "host_only s (upd_btinit f (snd (GetRandomValue x s)))" for f x
    by (rule host_only_trans [OF GetRandomValue_host(1) [of s x]]) (simp add: host_only_def sys_only_def)
  then have "host_only s (write_internal_addr (upd_btinit f (snd (GetRandomValue x s))))" for f x
    by (rule write_internal_host)
  moreover have "host_only s (t\<lparr>fgetEFUSE := x, fInternalCfg := y\<rparr>)" if "host_only s t" for t x y
    using that by (simp add: host_only_def sys_only_def)
  ultimately show ?thesis
    by (simp add: resolve_bd_addr_def Let_def split_beta write_internal_host del: upd_btinit_def)
qed

lemma resolve_bd_addr_btinit:
  "\<exists>x. length x = length (conf_addr (conf s)) \<and>
     btinit (resolve_bd_addr s) = (btinit s)\<lparr>bt_conf := (conf s)\<lparr>conf_addr := x\<rparr>\<rparr>"
  by (rule exI [of _ "conf_addr (conf (resolve_bd_addr s))"])
    (simp add: resolve_bd_addr_def Let_def split_beta write_internal_host GetRandomValue_host)

lemma resolve_bd_addr_wf: "conf_wf (conf s) \<Longrightarrow> conf_wf (conf (resolve_bd_addr s))"
  using resolve_bd_addr_btinit [of s] by (auto simp: conf_wf_def)

text \<open>Every command function transmits its opcode, in its buffer, as its last call.\<close>

definition sends :: "u16 \<Rightarrow> nat \<Rightarrow> mtk_st \<Rightarrow> u8 \<times> mtk_st \<Rightarrow> bool" where
  "sends op a s rt \<longleftrightarrow> bt_vendor_cbacks (snd rt) = bt_vendor_cbacks s
     \<and> (\<exists>pre h. calls (snd rt) = calls s @ pre @ [Xmit op a h (fst rt)] \<and> list_all (\<lambda>c. \<not> is_stack_call c) pre)"

lemma sends_xmit:
  "bt_vendor_cbacks s = Some cb \<Longrightarrow> sends op a s (gorm_xmit op k a b (s\<lparr>wOpCode := x\<rparr>))"
  by (simp add: sends_def gorm_xmit_def vnd_xmit_def Let_def)

lemma sends_host: "sys_only s t \<Longrightarrow> sends op a t rt \<Longrightarrow> sends op a s rt"
  unfolding sends_def sys_only_def
proof (elim conjE exE)
  fix new pre h
  assume "calls t = calls s @ new" "list_all (\<lambda>c. \<not> is_stack_call c) new"
    "calls (snd rt) = calls t @ pre @ [Xmit op a h (fst rt)]" "list_all (\<lambda>c. \<not> is_stack_call c) pre"
    "bt_vendor_cbacks (snd rt) = bt_vendor_cbacks t" "bt_vendor_cbacks t = bt_vendor_cbacks s"
  then show "bt_vendor_cbacks (snd rt) = bt_vendor_cbacks s \<and> (\<exists>pre h. calls (snd rt)
      = calls s @ pre @ [Xmit op a h (fst rt)] \<and> list_all (\<lambda>c. \<not> is_stack_call c) pre)"
    by (intro conjI exI [of _ "new @ pre"] exI [of _ h]) simp_all
qed

lemma command_func_sends:
  assumes "bt_vendor_cbacks s = Some cb" "c \<noteq> HCC_WritePatch"
  shows "sends (hcc_opcode c) a s (command_func c a b s)"
proof (cases "c = HCC_Set_Local_BD_Addr")
  case True
  let ?s = "resolve_bd_addr (s\<lparr>wOpCode := 0xFC1A\<rparr>)"
  have so: "sys_only s ?s"
    using resolve_bd_addr_host [of "s\<lparr>wOpCode := 0xFC1A\<rparr>"] by (simp add: host_only_def sys_only_def)
  then have "bt_vendor_cbacks ?s = Some cb" using assms(1) by (simp add: sys_only_def)
  from sends_host [OF so sends_xmit [OF this]] True show ?thesis
    by (simp add: GORMcmd_HCC_Set_Local_BD_Addr_def gorm_command_def Let_def)
next
  case False
  with assms show ?thesis
    by (cases c) (simp_all add: gorm_defs gorm_command_def Let_def GORMcmd_HCC_ChangeBaudRate_def split_beta sends_xmit)
qed

lemma WritePatch_sends:
  assumes "bt_vendor_cbacks s = Some cb" "WritePatch_send a b s = (ret, n, t)"
  shows "sends 0xFCC4 a s (ret, t)"
  using assms by (auto simp: WritePatch_send_def Let_def split_beta sends_def gorm_xmit_Some split: if_splits)

section \<open>Every schedule\<close>

text \<open>The buffer a thread still holds: one whose transmission was refused.\<close>

fun held :: "thread_pc \<Rightarrow> nat \<Rightarrow> int" where
  "held (In_patch i b ret n) a = (if a = b \<and> ret = C_FALSE then 1 else 0)"
| "held (Returned i b ret) a = (if a = b \<and> ret = C_FALSE then 1 else 0)"
| "held _ a = 0"

text \<open>The commands of the script that are behind the thread, without the patch download (which the
  thread skips when there is no patch).\<close>

definition script_ops :: "worker \<Rightarrow> nat \<Rightarrow> u16 list" where
  "script_ops w i = map hcc_opcode (filter (\<lambda>c. c \<noteq> HCC_WritePatch) (take i (worker_script w)))"

fun sent_upto :: "worker \<Rightarrow> thread_pc \<Rightarrow> nat" where
  "sent_upto w (At_loop i) = i"
| "sent_upto w (In_patch i b ret n) = i"
| "sent_upto w (Returned i b ret) = (if ret = C_FALSE then i else Suc i)"
| "sent_upto w (At_wait i) = Suc i"
| "sent_upto w (At_exit r) = (if r = BT_VND_OP_RESULT_SUCCESS then length (worker_script w) else 0)"
| "sent_upto w Ended = 0"

fun pc_ok :: "worker \<Rightarrow> thread_pc \<Rightarrow> bool" where
  "pc_ok w (In_patch i b ret n) \<longleftrightarrow> i < length (worker_script w) \<and> worker_script w ! i = HCC_WritePatch"
| "pc_ok w _ \<longleftrightarrow> True"

text \<open>What a step of the thread adds to the history.\<close>

definition step_adds :: "worker \<Rightarrow> thread_pc \<Rightarrow> thread_pc \<Rightarrow> history \<Rightarrow> bool" where
  "step_adds w pc pc' new \<longleftrightarrow>
     (\<forall>a. net new a = held pc' a - held pc a)
     \<and> reports w new = (case pc of At_exit r \<Rightarrow> [r] | _ \<Rightarrow> [])
     \<and> (pc' = Ended \<longleftrightarrow> (\<exists>r. pc = At_exit r))
     \<and> pc_ok w pc'
     \<and> subseq (script_ops w (sent_upto w pc')) (script_ops w (sent_upto w pc) @ map fst (accepted new))"

lemma subseq_extend: "subseq xs ys \<Longrightarrow> subseq xs (ys @ zs)"
  using list_emb_append_mono [of "(=)" xs ys "[]" zs] by simp

lemma subseq_self_extend [simp]: "subseq xs (xs @ zs)"
  by (rule subseq_extend) simp

lemma script_ops_Suc:
  "i < length (worker_script w) \<Longrightarrow> script_ops w (Suc i) = script_ops w i @
     (if worker_script w ! i = HCC_WritePatch then [] else [hcc_opcode (worker_script w ! i)])"
  by (simp add: script_ops_def take_Suc_conv_app_nth)

lemma script_ops_all: "i \<ge> length (worker_script w) \<Longrightarrow> script_ops w i = script_ops w (length (worker_script w))"
  by (simp add: script_ops_def)

lemma sends_adds:
  assumes "sends op a s (ret, t)" "s = u\<lparr>calls := calls u @ [Alloc n (Some a)]\<rparr>"
  obtains new where "calls t = calls u @ new" "bt_vendor_cbacks t = bt_vendor_cbacks u"
    "\<And>x. net new x = (if x = a \<and> ret = C_FALSE then 1 else 0)" "reports w new = []"
    "map fst (accepted new) = (if ret = C_FALSE then [] else [op])"
proof -
  from assms obtain pre h where pre: "calls t = calls u @ Alloc n (Some a) # pre @ [Xmit op a h ret]"
    "list_all (\<lambda>c. \<not> is_stack_call c) pre" "bt_vendor_cbacks t = bt_vendor_cbacks u"
    by (auto simp: sends_def)
  show thesis by (rule that [OF pre(1,3)]) (simp_all add: non_stack_calls [OF pre(2)])
qed

lemma At_loop_adds:
  assumes "thread_step w (At_loop i) s = Some (pc', t)" "bt_vendor_cbacks s = Some cb"
  shows "bt_vendor_cbacks t = Some cb \<and> (\<exists>new. calls t = calls s @ new \<and> step_adds w (At_loop i) pc' new)"
proof -
  let ?c = "worker_script w ! i"
  consider "i \<ge> length (worker_script w)" | "i < length (worker_script w)" "skip_command w ?c s"
    | "i < length (worker_script w)" "\<not> skip_command w ?c s" "cb_alloc cb (calls s) MTK_HCI_CMD_MAX_SIZE = None"
    | a mem where "i < length (worker_script w)" "\<not> skip_command w ?c s"
        "cb_alloc cb (calls s) MTK_HCI_CMD_MAX_SIZE = Some (a, mem)"
    by (metis not_less option.exhaust prod.collapse)
  then show ?thesis
  proof cases
    case 1
    then show ?thesis using assms by (auto simp: step_adds_def script_ops_all [OF 1])
  next
    case 2
    then have "?c = HCC_WritePatch" by (auto simp: skip_command_def)
    then show ?thesis using assms 2 by (auto simp: step_adds_def script_ops_Suc)
  next
    case 3
    then show ?thesis using assms by (auto simp: step_adds_def vnd_alloc_def Let_def script_ops_def)
  next
    case (4 a mem)
    let ?s = "s\<lparr>calls := calls s @ [Alloc MTK_HCI_CMD_MAX_SIZE (Some a)]\<rparr>"
    have s: "bt_vendor_cbacks ?s = Some cb" using assms by simp
    show ?thesis
    proof (cases "?c = HCC_WritePatch")
      case True
      obtain ret n where st: "WritePatch_send a (fresh_cmd mem) ?s = (ret, n, t)" "pc' = In_patch i a ret n"
        using assms 4 True by (auto simp: vnd_alloc_def Let_def split_beta) (metis prod.collapse)
      show ?thesis
        by (rule sends_adds [OF WritePatch_sends [OF s st(1)] refl, of w]) (use 4 True st(2) assms(2) in \<open>simp add: step_adds_def\<close>)
    next
      case False
      obtain ret where st: "command_func ?c a (fresh_cmd mem) ?s = (ret, t)" "pc' = Returned i a ret"
        using assms 4 False by (auto simp: vnd_alloc_def Let_def split_beta) (metis prod.collapse)
      show ?thesis
        by (rule sends_adds [OF command_func_sends [OF s False, of a "fresh_cmd mem", unfolded st(1)] refl, of w])
          (use 4 False st(2) assms(2) in \<open>simp add: step_adds_def script_ops_Suc\<close>)
    qed
  qed
qed

lemma thread_adds:
  assumes "thread_step w pc s = Some (pc', t)" "bt_vendor_cbacks s = Some cb" "pc_ok w pc"
  shows "bt_vendor_cbacks t = Some cb \<and> (\<exists>new. calls t = calls s @ new \<and> step_adds w pc pc' new)"
proof (cases pc)
  case (At_loop i)
  then show ?thesis using At_loop_adds assms by blast
next
  case (In_patch i a ret n)
  then show ?thesis using assms by (auto simp: step_adds_def WritePatch_account_def script_ops_Suc)
next
  case (Returned i a ret)
  then show ?thesis using assms by (auto simp: step_adds_def vnd_dealloc_def script_ops_def split: if_splits)
next
  case (At_wait i)
  then show ?thesis using assms by (auto simp: step_adds_def script_ops_def split: HciCmdStatus_t.splits)
next
  case (At_exit r)
  then show ?thesis using assms
    by (cases w) (auto simp: step_adds_def worker_exit_def GORM_FW_exit_def GORM_SCO_exit_def vnd_notify_def sys_free_def
        script_ops_def split: option.splits)
qed (use assms in simp)

text \<open>The events of a run, and the invariant of a run from the start of a thread.\<close>

definition delivered :: "hci_event option list \<Rightarrow> hci_event list" where
  "delivered ls = map the (filter (\<lambda>l. l \<noteq> None) ls)"

definition run_inv :: "worker \<Rightarrow> thread_pc \<Rightarrow> history \<Rightarrow> hci_event list \<Rightarrow> bool" where
  "run_inv w pc new es \<longleftrightarrow> pc_ok w pc
     \<and> (\<forall>a. net new a = held pc a - int (count_list (map evt_addr es) a))
     \<and> (if pc = Ended
        then \<exists>r. reports w new = [r] \<and> (r = BT_VND_OP_RESULT_SUCCESS \<longrightarrow>
               subseq (script_ops w (length (worker_script w))) (map fst (accepted new)))
        else reports w new = [] \<and> subseq (script_ops w (sent_upto w pc)) (map fst (accepted new)))"

lemma run_inv_thread:
  assumes "run_inv w pc old es" "step_adds w pc pc' new" "pc \<noteq> Ended"
  shows "run_inv w pc' (old @ new) es"
proof -
  have "subseq (script_ops w (sent_upto w pc')) (map fst (accepted (old @ new)))"
  proof (rule subseq_order.order_trans)
    show "subseq (script_ops w (sent_upto w pc')) (script_ops w (sent_upto w pc) @ map fst (accepted new))"
      using assms by (simp add: step_adds_def)
    show "subseq (script_ops w (sent_upto w pc) @ map fst (accepted new)) (map fst (accepted (old @ new)))"
      using assms by (auto simp: run_inv_def intro: list_emb_append_mono)
  qed
  moreover have "subseq (script_ops w (sent_upto w pc)) (map fst (accepted old @ accepted new))"
    using assms by (auto simp: run_inv_def intro: subseq_extend)
  ultimately show ?thesis
    using assms by (cases pc) (auto simp: run_inv_def step_adds_def)
qed

lemma run_inv_event:
  assumes "run_inv w pc old es" "net new = (\<lambda>a. if a = evt_addr e then -1 else 0)" "reports w new = []"
  shows "run_inv w pc (old @ new) (es @ [e])"
  using assms by (auto simp: run_inv_def subseq_extend)

lemma run_invariant:
  assumes "runs (mtk_sys ctl w) c ls c'" "bt_vendor_cbacks (fst (snd c)) = Some cb"
    "calls (fst (snd c)) = h @ old" "run_inv w (fst c) old es"
  shows "\<exists>new. calls (fst (snd c')) = h @ new \<and> run_inv w (fst c') new (es @ delivered ls)"
  using assms
proof (induction arbitrary: old es rule: runs.induct)
  case (runs_nil c)
  then show ?case by (auto simp: delivered_def)
next
  case (runs_cons c l d ls c')
  from runs_cons.hyps(1) show ?case
  proof cases
    case (sys_thread pc s pc' t q)
    then have "pc \<noteq> Ended" by auto
    from thread_adds [OF sys_thread(4)] sys_thread runs_cons.prems obtain new where new: "bt_vendor_cbacks t = Some cb"
      "calls t = calls s @ new" "step_adds w pc pc' new" by (auto simp: run_inv_def)
    from run_inv_thread [OF _ new(3) \<open>pc \<noteq> Ended\<close>] sys_thread runs_cons.prems
    have "run_inv w pc' (old @ new) es" by simp
    with runs_cons.IH [of "old @ new" es] sys_thread runs_cons.prems new show ?thesis by (simp add: delivered_def)
  next
    case (sys_event e bs t s pc q)
    from mtk_event_post [of s cb e] sys_event runs_cons.prems obtain new where new: "bt_vendor_cbacks t = Some cb"
      "calls t = calls s @ new" "\<forall>w. reports w new = []" "\<forall>a. net new a = (if a = evt_addr e then -1 else 0)"
      by (auto simp: event_post_def)
    have "run_inv w pc (old @ new) (es @ [e])"
      by (rule run_inv_event) (use sys_event runs_cons.prems new in \<open>auto simp: fun_eq_iff\<close>)
    with runs_cons.IH [of "old @ new" "es @ [e]"] sys_event runs_cons.prems new show ?thesis by (simp add: delivered_def)
  qed
qed

lemma run_from_start:
  assumes "runs (mtk_sys ctl w) (At_loop 0, s, q) ls (pc, t, q')" "bt_vendor_cbacks s \<noteq> None"
  obtains new where "calls t = calls s @ new" "run_inv w pc new (delivered ls)"
proof -
  have "run_inv w (At_loop 0) [] []" by (simp add: run_inv_def script_ops_def)
  with run_invariant [OF assms(1), of _ "calls s" "[]" "[]"] assms(2) that show thesis by auto
qed

end
