(* ===== verification/Mtk_Run.thy ===== *)
theory Mtk_Run
  imports Mtk_Init
begin

text \<open>
  Runs of the MT6622 initialisation with a stack that accepts and a controller that answers: the
  schedule that delivers an answer when the thread waits for it reaches success with exactly the
  expected transcript.  The last section shows the two races between the thread and the handlers
  that other schedules run into.
\<close>

section \<open>A run to success\<close>

text \<open>A stack that has memory and accepts every command, and a controller that answers every
  command with success: with a command complete event, the change of the baud rate as the comment in
  \<open>GORMcmd_HCC_ChangeBaudRate\<close> describes it.\<close>

definition accepting :: "bt_vendor_callbacks_t \<Rightarrow> bool" where
  "accepting cb \<longleftrightarrow> (\<forall>h n. cb_alloc cb h n \<noteq> None) \<and> (\<forall>h op b. cb_xmit cb h op b \<noteq> C_FALSE)"

definition cc_ok :: "u16 \<Rightarrow> u8 list \<Rightarrow> bool" where
  "cc_ok op e \<longleftrightarrow> e ! 0 = 0x0E \<and> STREAM_TO_UINT16 e 3 = op \<and> e ! 5 = 0"

definition cs_ok :: "u16 \<Rightarrow> u8 list \<Rightarrow> bool" where
  "cs_ok op e \<longleftrightarrow> e ! 0 = 0x0F \<and> STREAM_TO_UINT16 e 4 = op \<and> e ! 2 = 0"

definition cooperative :: "controller \<Rightarrow> bool" where
  "cooperative ctl \<longleftrightarrow>
     (\<forall>op bs. op \<noteq> 0xFC77 \<longrightarrow> op \<noteq> 0xFCC0 \<longrightarrow> (\<exists>e. ctl op bs = [e] \<and> cc_ok op e))
     \<and> (\<forall>bs. \<exists>e. ctl 0xFC77 bs = [e] \<and> cs_ok 0xFC77 e)
     \<and> (\<forall>bs. \<exists>e f. ctl 0xFCC0 bs = [e, f] \<and> cc_ok 0xFCC0 e \<and> cc_ok 0xFC77 f)"

text \<open>The packets of an image.\<close>

fun patch_chunks :: "u8 \<Rightarrow> u8 list \<Rightarrow> u8 list list" where
  "patch_chunks kind img =
     (if length img \<ge> 240 then (PATCH_HDR kind 0xF0 @ take 240 img) # patch_chunks PATCH_CONTINUE (drop 240 img)
      else [PATCH_HDR PATCH_END (of_nat (length img)) @ img])"

declare patch_chunks.simps [simp del]

definition patch_ready :: "sBTInitVar_t \<Rightarrow> bool" where
  "patch_ready bi \<longleftrightarrow> (case patch_data bi of None \<Rightarrow> True
     | Some (p, img) \<Rightarrow> patch_offset bi = 0 \<and> unat (patch_len bi) = length img)"

text \<open>What a command of the script puts on the wire.\<close>

definition baud_bytes :: "sBTInitVar_t \<Rightarrow> u8 list" where
  "baud_bytes bi = [0x77, 0xFC, 0x06, fst (baud_code (bt_baud bi)), flow_code (flow_control bi)]
     @ snd (baud_code (bt_baud bi))"

definition hcc_sent :: "sBTInitVar_t \<Rightarrow> btradio_conf_data \<Rightarrow> hcc \<Rightarrow> (u16 \<times> u8 list) list" where
  "hcc_sent bi cf c =
     (if c = HCC_ChangeBaudRate then [(0xFC77, baud_bytes bi), (0xFCC0, [0xC0, 0xFC, 0x00])]
      else if c = HCC_WritePatch then
        (case patch_data bi of None \<Rightarrow> []
         | Some (p, img) \<Rightarrow> if img = [] then [] else map (Pair 0xFCC4) (patch_chunks PATCH_START img))
      else [(hcc_opcode c, hcc_bytes cf c)])"

definition reach :: "controller \<Rightarrow> worker \<Rightarrow> mtk_conf \<Rightarrow> mtk_conf \<Rightarrow> bool" where
  "reach ctl w c d \<longleftrightarrow> (\<exists>ls. runs (mtk_sys ctl w) c ls d)"

lemma reach_refl [simp]: "reach ctl w c c"
  unfolding reach_def by (blast intro: runs_nil)

lemma reach_trans: "reach ctl w c d \<Longrightarrow> reach ctl w d e \<Longrightarrow> reach ctl w c e"
  unfolding reach_def using runs_append [of "mtk_sys ctl w" c] by blast

lemma reach_step: "mtk_sys ctl w c l d \<Longrightarrow> reach ctl w d e \<Longrightarrow> reach ctl w c e"
  unfolding reach_def by (blast intro: runs_cons)

lemma reach_thread:
  assumes "thread_step w pc s = Some (pc', t)" "calls t = calls s @ new"
    "reach ctl w (pc', t, q @ concat (map (\<lambda>(op, bs). ctl op bs) (accepted new))) d"
  shows "reach ctl w (pc, s, q) d"
  by (rule reach_step [OF sys_thread [OF assms(1)]]) (use assms answers_append [OF assms(2)] in simp)

lemma reach_event:
  assumes "mtk_event \<lparr>evt_addr = 0, evt_data = bs\<rparr> s = t" "calls t = calls s @ new"
    "reach ctl w (pc, t, q @ concat (map (\<lambda>(op, bs). ctl op bs) (accepted new))) d"
  shows "reach ctl w (pc, s, bs # q) d"
  by (rule reach_step [OF sys_event [OF _ refl, of "\<lparr>evt_addr = 0, evt_data = bs\<rparr>"]])
    (use assms answers_append [OF assms(2)] in simp_all)

lemma wire_gorm_store [simp]: "unat n = length bs \<Longrightarrow> wire (gorm_store n bs b) = bs"
  by (simp add: gorm_store_def wire_def)

lemma acceptingD: "accepting cb \<Longrightarrow> \<exists>a mem. cb_alloc cb h n = Some (a, mem)" "accepting cb \<Longrightarrow> cb_xmit cb h op b \<noteq> C_FALSE"
  by (auto simp: accepting_def)

lemma gorm_xmit_accepting:
  "bt_vendor_cbacks s = Some cb \<Longrightarrow> accepting cb \<Longrightarrow>
     gorm_xmit op k a b s = (cb_xmit cb (calls s) op b,
       s\<lparr>calls := calls s @ [Xmit op a b (cb_xmit cb (calls s) op b)], evt_cback := k\<rparr>)"
  by (simp add: gorm_xmit_Some acceptingD(2) Let_def)

text \<open>From a state to another: what was accepted in between, and what stayed.\<close>

definition carries :: "mtk_st \<Rightarrow> mtk_st \<Rightarrow> (u16 \<times> u8 list) list \<Rightarrow> bool" where
  "carries s t l \<longleftrightarrow> bt_vendor_cbacks t = bt_vendor_cbacks s \<and> accepted (calls t) = accepted (calls s) @ l
     \<and> (\<forall>w. reports w (calls t) = reports w (calls s))"

definition same_vars :: "mtk_st \<Rightarrow> mtk_st \<Rightarrow> bool" where
  "same_vars s t \<longleftrightarrow> btinit t = btinit s \<and> fPatchDone t = fPatchDone s \<and> fInternalCfg t = fInternalCfg s"

lemma carries_trans: "carries s t l \<Longrightarrow> carries t u m \<Longrightarrow> carries s u (l @ m)"
  by (simp add: carries_def)

lemma same_vars_trans: "same_vars s t \<Longrightarrow> same_vars t u \<Longrightarrow> same_vars s u"
  by (simp add: same_vars_def)

lemma cooperative_cc:
  "cooperative ctl \<Longrightarrow> op \<noteq> 0xFC77 \<Longrightarrow> op \<noteq> 0xFCC0 \<Longrightarrow> \<exists>e. ctl op bs = [e] \<and> cc_ok op e"
  by (simp add: cooperative_def)

lemma cooperative_baud:
  assumes "cooperative ctl"
  shows "\<exists>e. ctl 0xFC77 bs = [e] \<and> cs_ok 0xFC77 e" "\<exists>e f. ctl 0xFCC0 bs = [e, f] \<and> cc_ok 0xFCC0 e \<and> cc_ok 0xFC77 f"
  using assms unfolding cooperative_def by (blast, blast)

text \<open>From the answer to a common command to the next command.\<close>

lemma wait_common:
  assumes "bt_vendor_cbacks s = Some cb" "evt_cback s = Common_Complete_cb" "cc_ok (wOpCode s) e"
  shows "\<exists>t. reach ctl w (At_wait i, s, [e]) (At_loop (Suc i), t, []) \<and> carries s t [] \<and> same_vars s t"
proof -
  let ?t = "s\<lparr>calls := calls s @ [Dealloc 0], cmd_status := CMD_SUCCESS\<rparr>"
  have "mtk_event \<lparr>evt_addr = 0, evt_data = e\<rparr> s = ?t"
    using assms by (simp add: mtk_event_def GORMevt_HCE_Common_Complete_def vnd_dealloc_def gorm_signal_def cc_ok_def)
  then have "reach ctl w (At_wait i, s, [e]) (At_loop (Suc i), ?t, [])"
    by (rule reach_event) (auto intro: reach_thread [of _ _ _ "At_loop (Suc i)" ?t "[]"])
  then show ?thesis using assms by (intro exI [of _ ?t]) (simp add: carries_def same_vars_def)
qed

lemma issue_command:
  assumes "bt_vendor_cbacks s = Some cb" "cb_alloc cb (calls s) MTK_HCI_CMD_MAX_SIZE = Some (a, mem)"
    and "i < length (worker_script w)" "worker_script w ! i = c" "c \<noteq> HCC_WritePatch"
    and "command_func c a (fresh_cmd mem) (s\<lparr>calls := calls s @ [Alloc MTK_HCI_CMD_MAX_SIZE (Some a)]\<rparr>) = (r, t)"
    and "r \<noteq> C_FALSE" "calls t = calls s @ new" "accepted new = [(op, bs)]"
  shows "reach ctl w (At_loop i, s, []) (At_wait i, t\<lparr>cmd_status := CMD_PENDING\<rparr>, ctl op bs)"
proof (rule reach_thread)
  show "thread_step w (At_loop i) s = Some (Returned i a r, t)"
    using assms by (simp add: skip_command_def vnd_alloc_def Let_def)
  show "reach ctl w (Returned i a r, t, [] @ concat (map (\<lambda>(op, bs). ctl op bs) (accepted new)))
      (At_wait i, t\<lparr>cmd_status := CMD_PENDING\<rparr>, ctl op bs)"
    by (rule reach_thread [of _ _ _ "At_wait i" "t\<lparr>cmd_status := CMD_PENDING\<rparr>" "[]"]) (simp_all add: assms)
qed (rule assms)

lemma issue_common:
  assumes "bt_vendor_cbacks s = Some cb" "cb_alloc cb (calls s) MTK_HCI_CMD_MAX_SIZE = Some (a, mem)"
    and "i < length (worker_script w)" "worker_script w ! i = c" "c \<noteq> HCC_WritePatch"
    and "command_func c a (fresh_cmd mem) (s\<lparr>calls := calls s @ [Alloc MTK_HCI_CMD_MAX_SIZE (Some a)]\<rparr>) = (r, t)"
    and "r \<noteq> C_FALSE" "calls t = calls s @ new" "accepted new = [(op, bs)]" "\<forall>w. reports w new = []"
    and "bt_vendor_cbacks t = Some cb" "evt_cback t = Common_Complete_cb" "wOpCode t = op"
    and "cooperative ctl" "op \<noteq> 0xFC77" "op \<noteq> 0xFCC0"
  shows "\<exists>u. reach ctl w (At_loop i, s, []) (At_loop (Suc i), u, []) \<and> carries s u [(op, bs)] \<and> same_vars t u"
proof -
  from cooperative_cc assms obtain e where e: "ctl op bs = [e]" "cc_ok op e" by metis
  let ?t = "t\<lparr>cmd_status := CMD_PENDING\<rparr>"
  obtain u where u: "reach ctl w (At_wait i, ?t, [e]) (At_loop (Suc i), u, [])" "carries ?t u []" "same_vars ?t u"
    using wait_common [of ?t cb e ctl w i] assms e by auto
  moreover have "reach ctl w (At_loop i, s, []) (At_wait i, ?t, [e])"
    using issue_command [OF assms(1-9), of ctl] e by simp
  ultimately show ?thesis using assms
    by (intro exI [of _ u]) (auto simp: carries_def same_vars_def intro: reach_trans)
qed

lemma hcc_opcode_common: "c \<noteq> HCC_ChangeBaudRate \<Longrightarrow> hcc_opcode c \<noteq> 0xFC77 \<and> hcc_opcode c \<noteq> 0xFCC0"
  by (cases c) simp_all

lemma hcc_params_short: "conf_wf cf \<Longrightarrow> length (hcc_params cf c) \<le> 16"
  by (cases c) (simp_all add: conf_wf_def)

lemma unat_hcc_len: "conf_wf cf \<Longrightarrow> unat (of_nat (3 + length (hcc_params cf c)) :: u16) = 3 + length (hcc_params cf c)"
  using hcc_params_short [of cf c] unat_of_nat16 [of "3 + length (hcc_params cf c)"] by simp

lemma gorm_command_accepting:
  assumes "bt_vendor_cbacks s = Some cb" "accepting cb" "unat n = length ps + 2"
  shows "\<exists>r h. gorm_command op n ps a b s
      = (r, s\<lparr>wOpCode := op, calls := calls s @ [Xmit op a h r], evt_cback := Common_Complete_cb\<rparr>)
     \<and> r \<noteq> C_FALSE \<and> wire h = UINT16_TO_STREAM op @ ps"
  using assms by (auto simp: gorm_command_def gorm_xmit_accepting acceptingD(2))

lemma round_common:
  assumes "bt_vendor_cbacks s = Some cb" "accepting cb" "cooperative ctl" "conf_wf (conf s)"
    and "i < length (worker_script w)" "common_hcc (worker_script w ! i)"
  shows "\<exists>t. reach ctl w (At_loop i, s, []) (At_loop (Suc i), t, [])
     \<and> carries s t [(hcc_opcode (worker_script w ! i), hcc_bytes (conf s) (worker_script w ! i))] \<and> same_vars s t"
proof -
  let ?c = "worker_script w ! i"
  from acceptingD(1) [OF assms(2)] obtain a mem where al: "cb_alloc cb (calls s) MTK_HCI_CMD_MAX_SIZE = Some (a, mem)" by blast
  let ?s = "s\<lparr>calls := calls s @ [Alloc MTK_HCI_CMD_MAX_SIZE (Some a)]\<rparr>"
  let ?ps = "hcc_params (conf s) ?c"
  have "unat (of_nat (3 + length ?ps) :: u16) = length (of_nat (length ?ps) # ?ps) + 2"
    using unat_hcc_len [OF assms(4)] by simp
  from gorm_command_accepting [OF _ assms(2) this, of ?s "hcc_opcode ?c" a "fresh_cmd mem"]
  obtain r h where cmd: "command_func ?c a (fresh_cmd mem) ?s = (r, ?s\<lparr>wOpCode := hcc_opcode ?c,
      calls := calls ?s @ [Xmit (hcc_opcode ?c) a h r], evt_cback := Common_Complete_cb\<rparr>)"
    and r: "r \<noteq> C_FALSE" "wire h = hcc_bytes (conf s) ?c"
    using command_func_common [of ?s ?c a "fresh_cmd mem"] assms by (auto simp: hcc_bytes_def)
  let ?t = "?s\<lparr>wOpCode := hcc_opcode ?c, calls := calls ?s @ [Xmit (hcc_opcode ?c) a h r], evt_cback := Common_Complete_cb\<rparr>"
  have "\<exists>u. reach ctl w (At_loop i, s, []) (At_loop (Suc i), u, []) \<and>
      carries s u [(hcc_opcode ?c, hcc_bytes (conf s) ?c)] \<and> same_vars ?t u"
    by (rule issue_common [OF assms(1) al assms(5) refl _ cmd r(1), where new = "[Alloc MTK_HCI_CMD_MAX_SIZE (Some a), Xmit (hcc_opcode ?c) a h r]"])
      (use assms r hcc_opcode_common in \<open>auto simp: common_hcc_def\<close>)
  then show ?thesis by (auto simp: same_vars_def)
qed

lemma resolve_bd_addr_flags: "\<not> fInternalCfg s \<Longrightarrow> resolve_bd_addr s = s" "\<not> fInternalCfg (resolve_bd_addr s)"
  by (simp_all add: resolve_bd_addr_def Let_def)

lemma round_bd_addr:
  assumes "bt_vendor_cbacks s = Some cb" "accepting cb" "cooperative ctl" "conf_wf (conf s)"
    and "i < length (worker_script w)" "worker_script w ! i = HCC_Set_Local_BD_Addr"
  shows "\<exists>t x. reach ctl w (At_loop i, s, []) (At_loop (Suc i), t, [])
     \<and> carries s t [(0xFC1A, hcc_bytes (conf t) HCC_Set_Local_BD_Addr)]
     \<and> length x = 6 \<and> btinit t = (btinit s)\<lparr>bt_conf := (conf s)\<lparr>conf_addr := x\<rparr>\<rparr>
     \<and> fPatchDone t = fPatchDone s \<and> \<not> fInternalCfg t \<and> (fInternalCfg s \<or> btinit t = btinit s)"
proof -
  from acceptingD(1) [OF assms(2)] obtain a mem where al: "cb_alloc cb (calls s) MTK_HCI_CMD_MAX_SIZE = Some (a, mem)" by blast
  let ?s = "s\<lparr>calls := calls s @ [Alloc MTK_HCI_CMD_MAX_SIZE (Some a)]\<rparr>"
  let ?sw = "?s\<lparr>wOpCode := 0xFC1A\<rparr>"
  let ?s1 = "resolve_bd_addr ?sw"
  obtain x where x: "length x = length (conf_addr (conf ?sw))"
      "btinit ?s1 = (btinit ?sw)\<lparr>bt_conf := (conf ?sw)\<lparr>conf_addr := x\<rparr>\<rparr>"
    using resolve_bd_addr_btinit by blast
  have x6: "length x = 6" using x(1) assms(4) by (simp add: conf_wf_def)
  have ho: "host_only ?sw ?s1" by (rule resolve_bd_addr_host)
  then obtain pre where pre: "calls ?s1 = calls ?s @ pre" "list_all (\<lambda>c. \<not> is_stack_call c) pre"
      and cb1: "bt_vendor_cbacks ?s1 = Some cb"
    using assms(1) by (auto simp: host_only_def sys_only_def)
  have "unat (9 :: u16) = length (6 # rev x) + 2" by (simp add: x6)
  from gorm_command_accepting [OF cb1 assms(2) this, of "0xFC1A" a "fresh_cmd mem"] obtain r h where
    gc: "gorm_command 0xFC1A 9 (6 # rev x) a (fresh_cmd mem) ?s1 =
        (r, ?s1\<lparr>wOpCode := 0xFC1A, calls := calls ?s1 @ [Xmit 0xFC1A a h r], evt_cback := Common_Complete_cb\<rparr>)"
      (is "_ = (r, ?t)") and r: "r \<noteq> C_FALSE" "wire h = UINT16_TO_STREAM 0xFC1A @ 6 # rev x" by blast
  have cmd: "command_func HCC_Set_Local_BD_Addr a (fresh_cmd mem) ?s = (r, ?t)"
    using gc x(2) by (simp add: GORMcmd_HCC_Set_Local_BD_Addr_def Let_def rev_six [OF x6, unfolded One_nat_def])
  have "\<exists>u. reach ctl w (At_loop i, s, []) (At_loop (Suc i), u, []) \<and>
      carries s u [(0xFC1A, UINT16_TO_STREAM 0xFC1A @ 6 # rev x)] \<and> same_vars ?t u"
    by (rule issue_common [OF assms(1) al assms(5,6) _ cmd r(1),
          where new = "Alloc MTK_HCI_CMD_MAX_SIZE (Some a) # pre @ [Xmit 0xFC1A a h r]"])
      (use assms r pre cb1 non_stack_calls [OF pre(2)] in auto)
  then obtain u where u: "reach ctl w (At_loop i, s, []) (At_loop (Suc i), u, [])"
      "carries s u [(0xFC1A, UINT16_TO_STREAM 0xFC1A @ 6 # rev x)]" "same_vars ?t u" by blast
  have "btinit u = (btinit s)\<lparr>bt_conf := (conf s)\<lparr>conf_addr := x\<rparr>\<rparr>" using u(3) x(2) by (simp add: same_vars_def)
  moreover from this have "hcc_bytes (conf u) HCC_Set_Local_BD_Addr = UINT16_TO_STREAM 0xFC1A @ 6 # rev x"
    by (simp add: hcc_bytes_def x6)
  moreover have "fPatchDone u = fPatchDone s" using u(3) ho by (simp add: same_vars_def host_only_def)
  moreover have "\<not> fInternalCfg u" using u(3) resolve_bd_addr_flags(2) by (simp add: same_vars_def)
  moreover have "fInternalCfg s \<or> btinit u = btinit s"
    using u(3) resolve_bd_addr_flags(1) [of ?sw] by (cases "fInternalCfg s") (simp_all add: same_vars_def)
  ultimately show ?thesis using u(1,2) x6 by (intro exI [of _ u] exI [of _ x]) (simp only: simp_thms)
qed

lemma wire_wakeup [simp]: "wire (wakeup_cmd e) = [0xC0, 0xFC, 0x00]"
  by (simp add: wakeup_cmd_def UINT16_TO_STREAM_def)

lemma length_baud_code: "length (snd (baud_code b)) = 4"
  by (simp add: baud_code_def reg_bytes_def)

text \<open>From the answer to the speed command on: the host changes its speed, wakes the controller, and gets two
  more answers.\<close>

lemma baud_answers:
  assumes "bt_vendor_cbacks s = Some cb" "accepting cb" "ctl 0xFCC0 [0xC0, 0xFC, 0x00] = [e2, e3]"
    and "cs_ok 0xFC77 e1" "cc_ok 0xFCC0 e2" "cc_ok 0xFC77 e3" "evt_cback s = ChangeBaudRate_cb"
  shows "\<exists>t. reach ctl w (At_wait i, s, [e1]) (At_loop (Suc i), t, [])
     \<and> carries s t [(0xFCC0, [0xC0, 0xFC, 0x00])] \<and> same_vars s t"
proof -
  obtain new T r where su: "setup_uart_param (sint (host_baud (btinit s))) (sint (flow_control (btinit s))) s
      = (r, s\<lparr>calls := calls s @ new, ttys := T\<rparr>)" and new: "accepted new = []" "\<forall>w. reports w new = []"
    using port_only_setup [of s] by (metis port_onlyE prod.collapse)
  let ?x = "cb_xmit cb (calls s @ new) 0xFCC0 (wakeup_cmd \<lparr>evt_addr = 0, evt_data = e1\<rparr>)"
  let ?d = "new @ [Xmit 0xFCC0 0 (wakeup_cmd \<lparr>evt_addr = 0, evt_data = e1\<rparr>) ?x]"
  let ?s3 = "s\<lparr>calls := calls s @ ?d, ttys := T, evt_cback := ChangeBaudRate_cb\<rparr>"
  let ?s4 = "?s3\<lparr>calls := calls ?s3 @ [Dealloc 0]\<rparr>"
  let ?s5 = "?s4\<lparr>calls := calls ?s4 @ [Dealloc 0], cmd_status := CMD_SUCCESS\<rparr>"
  have x: "?x \<noteq> C_FALSE" by (rule acceptingD(2) [OF assms(2)])
  have an: "concat (map (\<lambda>(op, bs). ctl op bs) (accepted ?d)) = [e2, e3]"
    by (simp only: accepted_append new accepted.simps x if_False wire_wakeup append_Nil list.map prod.case concat.simps assms(3) append_Nil2)
  have ev: "mtk_event \<lparr>evt_addr = 0, evt_data = e1\<rparr> s = ?s3"
    using assms x su by (simp add: mtk_event_def GORMevt_HCE_ChangeBaudRate_def cs_ok_def gorm_xmit_accepting Let_def)
  have 2: "reach ctl w (At_wait i, s, [e1]) (At_wait i, ?s3, [e2, e3])"
  proof (rule reach_event [OF ev])
    show "calls ?s3 = calls s @ ?d" by simp
    show "reach ctl w (At_wait i, ?s3, [] @ concat (map (\<lambda>(op, bs). ctl op bs) (accepted ?d))) (At_wait i, ?s3, [e2, e3])"
      by (simp only: an append_Nil reach_refl)
  qed
  have "mtk_event \<lparr>evt_addr = 0, evt_data = e2\<rparr> ?s3 = ?s4"
    using assms(1,5) by (simp add: mtk_event_def GORMevt_HCE_ChangeBaudRate_def cc_ok_def vnd_dealloc_def Let_def)
  then have 3: "reach ctl w (At_wait i, ?s3, [e2, e3]) (At_wait i, ?s4, [e3])"
    by (rule reach_event [where new = "[Dealloc 0]"]) simp_all
  have "mtk_event \<lparr>evt_addr = 0, evt_data = e3\<rparr> ?s4 = ?s5"
    using assms(1,6)
    by (simp add: mtk_event_def GORMevt_HCE_ChangeBaudRate_def cc_ok_def vnd_dealloc_def gorm_signal_def Let_def)
  then have 4: "reach ctl w (At_wait i, ?s4, [e3]) (At_loop (Suc i), ?s5, [])"
    by (rule reach_event [where new = "[Dealloc 0]"]) (auto intro: reach_thread [of _ _ _ "At_loop (Suc i)" ?s5 "[]"])
  from 2 3 4 have "reach ctl w (At_wait i, s, [e1]) (At_loop (Suc i), ?s5, [])" by (meson reach_trans)
  moreover have "carries s ?s5 [(0xFCC0, [0xC0, 0xFC, 0x00])]" "same_vars s ?s5"
    using new x by (simp_all add: carries_def same_vars_def)
  ultimately show ?thesis by (intro exI conjI)
qed

lemma round_baud:
  assumes "bt_vendor_cbacks s = Some cb" "accepting cb" "cooperative ctl"
    and "i < length (worker_script w)" "worker_script w ! i = HCC_ChangeBaudRate"
  shows "\<exists>t. reach ctl w (At_loop i, s, []) (At_loop (Suc i), t, [])
     \<and> carries s t [(0xFC77, baud_bytes (btinit s)), (0xFCC0, [0xC0, 0xFC, 0x00])] \<and> same_vars s t"
proof -
  from acceptingD(1) [OF assms(2)] obtain a mem where al: "cb_alloc cb (calls s) MTK_HCI_CMD_MAX_SIZE = Some (a, mem)" by blast
  let ?s = "s\<lparr>calls := calls s @ [Alloc MTK_HCI_CMD_MAX_SIZE (Some a)]\<rparr>"
  let ?h = "gorm_store 9 (baud_bytes (btinit s)) (fresh_cmd mem)"
  let ?r = "cb_xmit cb (calls ?s) 0xFC77 ?h"
  let ?s1 = "?s\<lparr>wOpCode := 0xFC77, calls := calls ?s @ [Xmit 0xFC77 a ?h ?r], evt_cback := ChangeBaudRate_cb\<rparr>"
  let ?s2 = "?s1\<lparr>cmd_status := CMD_PENDING\<rparr>"
  obtain e1 e2 e3 where e: "ctl 0xFC77 (baud_bytes (btinit s)) = [e1]" "cs_ok 0xFC77 e1"
      "ctl 0xFCC0 [0xC0, 0xFC, 0x00] = [e2, e3]" "cc_ok 0xFCC0 e2" "cc_ok 0xFC77 e3"
    using cooperative_baud(1) [OF assms(3), of "baud_bytes (btinit s)"]
      cooperative_baud(2) [OF assms(3), of "[0xC0, 0xFC, 0x00]"] by blast
  have w: "wire ?h = baud_bytes (btinit s)" by (simp add: baud_bytes_def length_baud_code)
  have r: "?r \<noteq> C_FALSE" by (rule acceptingD(2) [OF assms(2)])
  have cmd: "command_func HCC_ChangeBaudRate a (fresh_cmd mem) ?s = (?r, ?s1)"
    using assms by (simp add: GORMcmd_HCC_ChangeBaudRate_def gorm_xmit_accepting baud_bytes_def Let_def split_beta)
  have 1: "reach ctl w (At_loop i, s, []) (At_wait i, ?s2, [e1])"
    using issue_command [OF assms(1) al assms(4,5) _ cmd, where new = "[Alloc MTK_HCI_CMD_MAX_SIZE (Some a), Xmit 0xFC77 a ?h ?r]"
        and op = "0xFC77" and bs = "baud_bytes (btinit s)" and ctl = ctl] e(1) w r by simp
  have "bt_vendor_cbacks ?s2 = Some cb" "evt_cback ?s2 = ChangeBaudRate_cb" using assms(1) by simp_all
  from baud_answers [where s = "?s2" and ctl = ctl and w = w and i = i, OF this(1) assms(2) e(3,2,4,5) this(2)] obtain t where
    t: "reach ctl w (At_wait i, ?s2, [e1]) (At_loop (Suc i), t, [])" "carries ?s2 t [(0xFCC0, [0xC0, 0xFC, 0x00])]" "same_vars ?s2 t"
    by blast
  have "carries s ?s2 [(0xFC77, baud_bytes (btinit s))]" "same_vars s ?s2"
    using w r by (simp_all add: carries_def same_vars_def)
  note this(1) [THEN carries_trans, OF t(2)] same_vars_trans [OF this(2) t(3)]
  then show ?thesis using reach_trans [OF 1 t(1)] by (intro exI conjI) simp_all
qed

subsection \<open>The patch\<close>

lemma length_PATCH_HDR [simp]: "length (PATCH_HDR k n) = 8"
  by (simp add: PATCH_HDR_def)

lemma patch_bytes_Some [simp]:
  "patch_data bi = Some (p, img) \<Longrightarrow> patch_bytes bi off n = take (unat n) (drop (unat off) img)"
  by (simp add: patch_bytes_def)

lemma unat_patch_len: "unat (n :: u32) \<le> 240 \<Longrightarrow> unat (ucast (n + 8) :: u16) = unat n + 8"
proof -
  assume n: "unat n \<le> 240"
  then have "unat (n + 8) = unat n + 8" by (subst unat_add_lem [THEN iffD1]) simp_all
  with n show ?thesis by (simp add: unsigned_ucast_eq take_bit_nat_eq_self)
qed

lemma ucast_patch_len: "unat (n :: u32) = k \<Longrightarrow> (ucast n :: u8) = of_nat k"
  by auto

lemma less_240: "(n :: u32) \<ge> 240 \<longleftrightarrow> unat n \<ge> 240"
  by (simp add: word_le_nat_alt)

text \<open>A packet that the stack accepts.\<close>

lemma patch_packet_accepting:
  assumes "bt_vendor_cbacks s = Some cb" "accepting cb" "patch_data (btinit s) = Some (p, img)"
    and "unat n \<le> 240" "unat (patch_offset (btinit s)) + unat n \<le> length img"
  shows "\<exists>new. patch_packet k n s = (True, s\<lparr>calls := calls s @ new, evt_cback := WritePatch_cb\<rparr>)
     \<and> accepted new = [(0xFCC4, PATCH_HDR k (ucast n) @ take (unat n) (drop (unat (patch_offset (btinit s))) img))]
     \<and> (\<forall>w. reports w new = [])"
proof -
  from acceptingD(1) [OF assms(2)] obtain a mem where al: "cb_alloc cb (calls s) MTK_HCI_CMD_MAX_SIZE = Some (a, mem)" by blast
  let ?bs = "PATCH_HDR k (ucast n) @ take (unat n) (drop (unat (patch_offset (btinit s))) img)"
  let ?b = "gorm_store (ucast (n + 8)) ?bs (fresh_cmd mem)"
  have w: "wire ?b = ?bs" by (rule wire_gorm_store) (use assms(4,5) unat_patch_len [OF assms(4)] in simp)
  show ?thesis using assms(1-3) al w
    by (intro exI [of _ "[Alloc MTK_HCI_CMD_MAX_SIZE (Some a),
          Xmit 0xFCC4 a ?b (cb_xmit cb (calls s @ [Alloc MTK_HCI_CMD_MAX_SIZE (Some a)]) 0xFCC4 ?b)]"])
      (simp add: patch_packet_def vnd_alloc_def gorm_xmit_accepting acceptingD(2) Let_def)
qed

text \<open>The state in which the thread waits for the answer to a packet.\<close>

definition patch_wait :: "bt_vendor_callbacks_t \<Rightarrow> nat \<times> u8 list \<Rightarrow> mtk_st \<Rightarrow> bool" where
  "patch_wait cb im s \<longleftrightarrow> bt_vendor_cbacks s = Some cb \<and> evt_cback s = WritePatch_cb
     \<and> patch_data (btinit s) = Some im"

lemma patch_last:
  assumes "patch_wait cb im s" "patch_len (btinit s) = 0" "fPatchDone s" "cc_ok 0xFCC4 e"
  shows "\<exists>t. reach ctl w (At_wait i, s, [e]) (At_loop (Suc i), t, []) \<and> carries s t []
     \<and> btinit t = btinit s \<and> \<not> fPatchDone t \<and> fInternalCfg t = fInternalCfg s"
proof -
  let ?t = "s\<lparr>calls := calls s @ [Dealloc 0], fPatchDone := False, cmd_status := CMD_SUCCESS\<rparr>"
  have "mtk_event \<lparr>evt_addr = 0, evt_data = e\<rparr> s = ?t" using assms
    by (simp add: patch_wait_def mtk_event_def GORMevt_HCE_WritePatch_def vnd_dealloc_def gorm_signal_def cc_ok_def)
  then have "reach ctl w (At_wait i, s, [e]) (At_loop (Suc i), ?t, [])"
    by (rule reach_event) (auto intro: reach_thread [of _ _ _ "At_loop (Suc i)" ?t "[]"])
  then show ?thesis by (intro exI [of _ ?t]) (simp add: carries_def)
qed

text \<open>The answer to a packet makes the handler send the next one.\<close>

lemma patch_event:
  assumes "patch_wait cb (p, img) s" "accepting cb" "cooperative ctl" "cc_ok 0xFCC4 e"
    and "unat (patch_offset (btinit s)) + unat (patch_len (btinit s)) = length img" "\<not> fPatchDone s"
  defines "len \<equiv> patch_len (btinit s)"
  defines "big \<equiv> 240 \<le> len"
  defines "n \<equiv> if big then 240 else len" and "k \<equiv> if big then PATCH_CONTINUE else PATCH_END"
  shows "\<exists>t f. reach ctl w (At_wait i, s, [e]) (At_wait i, t, [f]) \<and> cc_ok 0xFCC4 f \<and> patch_wait cb (p, img) t
     \<and> carries s t [(0xFCC4, PATCH_HDR k (ucast n) @ take (unat n) (drop (unat (patch_offset (btinit s))) img))]
     \<and> btinit t = (btinit s)\<lparr>patch_len := len - n, patch_offset := if big then patch_offset (btinit s) + 240 else patch_offset (btinit s)\<rparr>
     \<and> fPatchDone t = (\<not> big) \<and> fInternalCfg t = fInternalCfg s"
proof -
  let ?s = "s\<lparr>calls := calls s @ [Dealloc 0]\<rparr>"
  let ?pkt = "PATCH_HDR k (ucast n) @ take (unat n) (drop (unat (patch_offset (btinit s))) img)"
  have cb: "bt_vendor_cbacks ?s = Some cb" "patch_data (btinit ?s) = Some (p, img)" "evt_cback s = WritePatch_cb"
    using assms(1) by (simp_all add: patch_wait_def)
  have n: "unat n \<le> 240" "unat (patch_offset (btinit ?s)) + unat n \<le> length img"
    using assms(5) by (auto simp: n_def big_def len_def less_240)
  from patch_packet_accepting [OF cb(1) assms(2) cb(2) n, of k] obtain new where
    pk: "patch_packet k n ?s = (True, ?s\<lparr>calls := calls ?s @ new, evt_cback := WritePatch_cb\<rparr>)"
    and new: "accepted new = [(0xFCC4, ?pkt)]" "\<forall>w. reports w new = []" by auto
  obtain f where f: "ctl 0xFCC4 ?pkt = [f]" "cc_ok 0xFCC4 f"
    using cooperative_cc [OF assms(3), of "0xFCC4"] by auto
  let ?t = "?s\<lparr>calls := calls ?s @ new, evt_cback := WritePatch_cb, fPatchDone := \<not> big,
      btinit := (btinit s)\<lparr>patch_len := len - n, patch_offset := if big then patch_offset (btinit s) + 240 else patch_offset (btinit s)\<rparr>\<rparr>"
  have ev: "mtk_event \<lparr>evt_addr = 0, evt_data = e\<rparr> s = ?t"
    using assms(4,6) cb pk unfolding n_def k_def big_def len_def
    by (cases "240 \<le> patch_len (btinit s)")
      (simp_all add: mtk_event_def GORMevt_HCE_WritePatch_def vnd_dealloc_def cc_ok_def Let_def)
  have "reach ctl w (At_wait i, s, [e]) (At_wait i, ?t, [f])"
    by (rule reach_event [OF ev, where new = "Dealloc 0 # new"]) (simp_all add: new(1) f(1) reach_refl)
  moreover have "patch_wait cb (p, img) ?t" using assms(1) by (simp add: patch_wait_def)
  moreover have "carries s ?t [(0xFCC4, ?pkt)]" using new by (simp add: carries_def)
  ultimately show ?thesis using f(2) by (intro exI [of _ ?t] exI [of _ f]) simp
qed

lemma patch_arith: "240 \<le> l \<Longrightarrow> l - 240 < l" "240 \<le> l \<Longrightarrow> x + l = n \<Longrightarrow> (x + 240) + (l - 240) = n" for l x n :: nat
  by linarith+

lemma patch_rest:
  assumes "patch_wait cb (p, img) s" "accepting cb" "cooperative ctl" "length img < 2 ^ 32" "cc_ok 0xFCC4 e"
    and "unat (patch_offset (btinit s)) + unat (patch_len (btinit s)) = length img" "\<not> fPatchDone s"
  shows "\<exists>t. reach ctl w (At_wait i, s, [e]) (At_loop (Suc i), t, [])
     \<and> carries s t (map (Pair 0xFCC4) (patch_chunks PATCH_CONTINUE (drop (unat (patch_offset (btinit s))) img)))
     \<and> (\<exists>off. btinit t = (btinit s)\<lparr>patch_len := 0, patch_offset := off\<rparr>)
     \<and> \<not> fPatchDone t \<and> fInternalCfg t = fInternalCfg s"
  using assms(1,5-7)
proof (induction "unat (patch_len (btinit s))" arbitrary: s e rule: less_induct)
  case less
  let ?len = "patch_len (btinit s)" and ?off = "patch_offset (btinit s)"
  let ?rest = "drop (unat ?off) img"
  have rest: "length ?rest = unat ?len" using less.prems(3) by simp
  note step = patch_event [where w = w and i = i, OF less.prems(1) assms(2,3) less.prems(2-4)]
  show ?case
  proof (cases "240 \<le> ?len")
    case True
    with step obtain t f where t: "reach ctl w (At_wait i, s, [e]) (At_wait i, t, [f])" "cc_ok 0xFCC4 f" "patch_wait cb (p, img) t"
      "carries s t [(0xFCC4, PATCH_HDR PATCH_CONTINUE 0xF0 @ take 240 ?rest)]"
      "btinit t = (btinit s)\<lparr>patch_len := ?len - 240, patch_offset := ?off + 240\<rparr>"
      "\<not> fPatchDone t" "fInternalCfg t = fInternalCfg s" by auto
    have len: "unat (?len - 240) = unat ?len - 240" using True by (simp add: unat_sub)
    have "unat ?off + unat (240 :: u32) < 2 ^ LENGTH(32)" using less.prems(3) True assms(4) by (simp add: less_240)
    then have off: "unat (?off + 240) = unat ?off + 240" by (simp add: unat_add_lem [THEN iffD1])
    have pl: "patch_len (btinit t) = ?len - 240" "patch_offset (btinit t) = ?off + 240" using t(5) by simp_all
    have "240 \<le> unat ?len" using True by (simp add: less_240)
    then have "unat (patch_len (btinit t)) < unat ?len" "unat (patch_offset (btinit t)) + unat (patch_len (btinit t)) = length img"
      unfolding pl len off using patch_arith less.prems(3) by blast+
    from less.hyps [OF this(1) t(3,2) this(2) t(6)] obtain u where
      u: "reach ctl w (At_wait i, t, [f]) (At_loop (Suc i), u, [])"
        "carries t u (map (Pair 0xFCC4) (patch_chunks PATCH_CONTINUE (drop 240 ?rest)))"
        "\<exists>off. btinit u = (btinit s)\<lparr>patch_len := 0, patch_offset := off\<rparr>" "\<not> fPatchDone u" "fInternalCfg u = fInternalCfg s"
      using t(5,7) by (auto simp: off add.commute)
    from carries_trans [OF t(4) u(2)] have "carries s u (map (Pair 0xFCC4) (patch_chunks PATCH_CONTINUE ?rest))"
      using True rest by (simp add: patch_chunks.simps [of _ ?rest] less_240)
    then show ?thesis using reach_trans [OF t(1) u(1)] u(3-5) by blast
  next
    case False
    with step obtain t f where t: "reach ctl w (At_wait i, s, [e]) (At_wait i, t, [f])" "cc_ok 0xFCC4 f" "patch_wait cb (p, img) t"
      "carries s t [(0xFCC4, PATCH_HDR PATCH_END (ucast ?len) @ take (unat ?len) ?rest)]"
      "btinit t = (btinit s)\<lparr>patch_len := 0\<rparr>" "fPatchDone t" "fInternalCfg t = fInternalCfg s" by auto
    from patch_last [where ctl = ctl and w = w and i = i, OF t(3) _ t(6,2)] t(5) obtain u where
      u: "reach ctl w (At_wait i, t, [f]) (At_loop (Suc i), u, [])" "carries t u []"
        "btinit u = (btinit s)\<lparr>patch_len := 0\<rparr>" "\<not> fPatchDone u" "fInternalCfg u = fInternalCfg s"
      using t(7) by auto
    have "ucast ?len = (of_nat (length ?rest) :: u8)" "take (unat ?len) ?rest = ?rest"
      using ucast_patch_len [of ?len "length ?rest"] rest by simp_all
    from carries_trans [OF t(4) [unfolded this] u(2)] have "carries s u (map (Pair 0xFCC4) (patch_chunks PATCH_CONTINUE ?rest))"
      using False rest by (simp add: patch_chunks.simps [of _ ?rest] less_240)
    moreover have "btinit u = (btinit s)\<lparr>patch_len := 0, patch_offset := ?off\<rparr>" using u(3) by simp
    ultimately show ?thesis using reach_trans [OF t(1) u(1)] u(4,5) by blast
  qed
qed

lemma issue_patch:
  assumes "bt_vendor_cbacks s = Some cb" "cb_alloc cb (calls s) MTK_HCI_CMD_MAX_SIZE = Some (a, mem)"
    and "i < length (worker_script w)" "worker_script w ! i = HCC_WritePatch" "\<not> skip_command w HCC_WritePatch s"
    and "WritePatch_send a (fresh_cmd mem) (s\<lparr>calls := calls s @ [Alloc MTK_HCI_CMD_MAX_SIZE (Some a)]\<rparr>) = (r, n, t)"
    and "r \<noteq> C_FALSE" "calls t = calls s @ new" "accepted new = [(op, bs)]"
  shows "reach ctl w (At_loop i, s, []) (At_wait i, (WritePatch_account r n t)\<lparr>cmd_status := CMD_PENDING\<rparr>, ctl op bs)"
proof -
  let ?t = "WritePatch_account r n t"
  have "reach ctl w (Returned i a r, ?t, ctl op bs) (At_wait i, ?t\<lparr>cmd_status := CMD_PENDING\<rparr>, ctl op bs)"
    by (rule reach_thread [of _ _ _ "At_wait i" "?t\<lparr>cmd_status := CMD_PENDING\<rparr>" "[]"]) (simp_all add: assms)
  then have "reach ctl w (Returned i a r, ?t, ctl op bs @ concat (map (\<lambda>(op, bs). ctl op bs) (accepted [])))
      (At_wait i, ?t\<lparr>cmd_status := CMD_PENDING\<rparr>, ctl op bs)" by simp
  from reach_thread [OF _ _ this, where pc = "In_patch i a r n" and s = t]
  have 2: "reach ctl w (In_patch i a r n, t, [] @ concat (map (\<lambda>(op, bs). ctl op bs) (accepted new)))
      (At_wait i, ?t\<lparr>cmd_status := CMD_PENDING\<rparr>, ctl op bs)" by (simp add: assms(9) WritePatch_account_def)
  have 1: "thread_step w (At_loop i) s = Some (In_patch i a r n, t)"
    using assms by (simp add: vnd_alloc_def Let_def)
  show ?thesis by (rule reach_thread [OF 1 assms(8) 2])
qed

lemma patch_ready_ne: "patch_ready bi \<Longrightarrow> patch_data bi = Some (p, img) \<Longrightarrow> patch_len bi = 0 \<longleftrightarrow> img = []"
  by (auto simp: patch_ready_def unat_eq_zero)

definition patch_after :: "mtk_st \<Rightarrow> mtk_st \<Rightarrow> bool" where
  "patch_after s t \<longleftrightarrow> (\<exists>n off. btinit t = (btinit s)\<lparr>patch_len := n, patch_offset := off\<rparr>)
     \<and> \<not> fPatchDone t \<and> fInternalCfg t = fInternalCfg s"

text \<open>The first packet: of 240 bytes when the image has as many, else the whole image.\<close>

lemma patch_first_long:
  assumes "bt_vendor_cbacks s = Some cb" "accepting cb" "cooperative ctl" "\<not> fPatchDone s" "patch_offset (btinit s) = 0"
    and "i < length (worker_script w)" "worker_script w ! i = HCC_WritePatch" "\<not> skip_command w HCC_WritePatch s"
    and "patch_data (btinit s) = Some (p, img)" "240 \<le> patch_len (btinit s)" "240 \<le> length img"
  shows "\<exists>u e. reach ctl w (At_loop i, s, []) (At_wait i, u, [e]) \<and> cc_ok 0xFCC4 e \<and> patch_wait cb (p, img) u
     \<and> carries s u [(0xFCC4, PATCH_HDR PATCH_START 0xF0 @ take 240 img)]
     \<and> btinit u = (btinit s)\<lparr>patch_len := patch_len (btinit s) - 240, patch_offset := 240\<rparr>
     \<and> \<not> fPatchDone u \<and> fInternalCfg u = fInternalCfg s"
proof -
  from acceptingD(1) [OF assms(2)] obtain a mem where al: "cb_alloc cb (calls s) MTK_HCI_CMD_MAX_SIZE = Some (a, mem)" by blast
  let ?s = "s\<lparr>calls := calls s @ [Alloc MTK_HCI_CMD_MAX_SIZE (Some a)]\<rparr>"
  let ?bs = "PATCH_HDR PATCH_START 0xF0 @ take 240 img"
  let ?h = "gorm_store 248 ?bs (fresh_cmd mem)"
  let ?r = "cb_xmit cb (calls ?s) 0xFCC4 ?h"
  let ?t = "?s\<lparr>wOpCode := 0xFCC4, calls := calls ?s @ [Xmit 0xFCC4 a ?h ?r], evt_cback := WritePatch_cb\<rparr>"
  define u where "u = (WritePatch_account ?r 240 ?t)\<lparr>cmd_status := CMD_PENDING\<rparr>"
  have r: "?r \<noteq> C_FALSE" by (rule acceptingD(2) [OF assms(2)])
  have snd: "WritePatch_send a (fresh_cmd mem) ?s = (?r, 240, ?t)"
    using assms(1,2,9,10) by (simp add: WritePatch_send_def gorm_xmit_accepting Let_def)
  have w: "wire ?h = ?bs" using assms(11) by simp
  from cooperative_cc [OF assms(3), of "0xFCC4" ?bs] obtain e where e: "ctl 0xFCC4 ?bs = [e]" "cc_ok 0xFCC4 e" by auto
  have "reach ctl w (At_loop i, s, []) (At_wait i, u, ctl 0xFCC4 ?bs)"
    unfolding u_def
    by (rule issue_patch [OF assms(1) al assms(6-8) snd r, where new = "[Alloc MTK_HCI_CMD_MAX_SIZE (Some a), Xmit 0xFCC4 a ?h ?r]"])
      (use r w in simp_all)
  moreover have "btinit u = (btinit s)\<lparr>patch_len := patch_len (btinit s) - 240, patch_offset := 240\<rparr>"
    using r assms(5) by (simp add: u_def WritePatch_account_def)
  moreover have "patch_wait cb (p, img) u" using assms(1,9) r by (simp add: u_def patch_wait_def WritePatch_account_def)
  moreover have "\<not> fPatchDone u" "fInternalCfg u = fInternalCfg s" using assms(4) r by (simp_all add: u_def WritePatch_account_def)
  moreover have "carries s u [(0xFCC4, ?bs)]" using r w by (simp add: u_def carries_def WritePatch_account_def)
  ultimately show ?thesis using e by auto
qed

lemma patch_first_short:
  assumes "bt_vendor_cbacks s = Some cb" "accepting cb" "cooperative ctl"
    and "i < length (worker_script w)" "worker_script w ! i = HCC_WritePatch" "\<not> skip_command w HCC_WritePatch s"
    and "patch_data (btinit s) = Some (p, img)" "\<not> 240 \<le> patch_len (btinit s)" "unat (patch_len (btinit s)) = length img"
  shows "\<exists>u e. reach ctl w (At_loop i, s, []) (At_wait i, u, [e]) \<and> cc_ok 0xFCC4 e \<and> patch_wait cb (p, img) u
     \<and> carries s u [(0xFCC4, PATCH_HDR PATCH_END (of_nat (length img)) @ img)]
     \<and> patch_len (btinit u) = 0 \<and> (\<exists>n off. btinit u = (btinit s)\<lparr>patch_len := n, patch_offset := off\<rparr>)
     \<and> fPatchDone u \<and> fInternalCfg u = fInternalCfg s"
proof -
  let ?len = "patch_len (btinit s)"
  from acceptingD(1) [OF assms(2)] obtain a mem where al: "cb_alloc cb (calls s) MTK_HCI_CMD_MAX_SIZE = Some (a, mem)" by blast
  let ?s = "s\<lparr>calls := calls s @ [Alloc MTK_HCI_CMD_MAX_SIZE (Some a)]\<rparr>"
  let ?bs = "PATCH_HDR PATCH_END (of_nat (length img)) @ img"
  let ?h = "gorm_store (ucast (?len + 8)) ?bs (fresh_cmd mem)"
  let ?r = "cb_xmit cb (calls ?s) 0xFCC4 ?h"
  let ?t = "?s\<lparr>wOpCode := 0xFCC4, fPatchDone := True, calls := calls ?s @ [Xmit 0xFCC4 a ?h ?r], evt_cback := WritePatch_cb\<rparr>"
  define u where "u = (WritePatch_account ?r ?len ?t)\<lparr>cmd_status := CMD_PENDING\<rparr>"
  have r: "?r \<noteq> C_FALSE" by (rule acceptingD(2) [OF assms(2)])
  have uc: "ucast ?len = (of_nat (length img) :: u8)" using ucast_patch_len [OF assms(9)] .
  have snd: "WritePatch_send a (fresh_cmd mem) ?s = (?r, ?len, ?t)"
    using assms(1,2,7-9) by (simp add: WritePatch_send_def gorm_xmit_accepting Let_def uc)
  have "length img < 240" using assms(8,9) by (simp add: less_240)
  then have w: "wire ?h = ?bs" using unat_patch_len [of ?len] assms(9) by (intro wire_gorm_store) simp
  from cooperative_cc [OF assms(3), of "0xFCC4" ?bs] obtain e where e: "ctl 0xFCC4 ?bs = [e]" "cc_ok 0xFCC4 e" by auto
  have "reach ctl w (At_loop i, s, []) (At_wait i, u, ctl 0xFCC4 ?bs)"
    unfolding u_def
    by (rule issue_patch [OF assms(1) al assms(4-6) snd r, where new = "[Alloc MTK_HCI_CMD_MAX_SIZE (Some a), Xmit 0xFCC4 a ?h ?r]"])
      (use r w in simp_all)
  moreover have "patch_wait cb (p, img) u" "patch_len (btinit u) = 0" "fPatchDone u" "fInternalCfg u = fInternalCfg s"
      "\<exists>n off. btinit u = (btinit s)\<lparr>patch_len := n, patch_offset := off\<rparr>"
    using assms(1,7) r by (auto simp: u_def patch_wait_def WritePatch_account_def)
  moreover have "carries s u [(0xFCC4, ?bs)]" using r w by (simp add: u_def carries_def WritePatch_account_def)
  ultimately show ?thesis using e by auto
qed

lemma round_patch_send:
  assumes "bt_vendor_cbacks s = Some cb" "accepting cb" "cooperative ctl" "patch_ready (btinit s)" "\<not> fPatchDone s"
    and "i < length (worker_script w)" "worker_script w ! i = HCC_WritePatch"
    and "patch_data (btinit s) = Some (p, img)" "img \<noteq> []"
  shows "\<exists>t. reach ctl w (At_loop i, s, []) (At_loop (Suc i), t, [])
     \<and> carries s t (map (Pair 0xFCC4) (patch_chunks PATCH_START img)) \<and> patch_after s t"
proof -
  let ?len = "patch_len (btinit s)"
  from assms(4,8) have off: "patch_offset (btinit s) = 0" and len: "unat ?len = length img" by (auto simp: patch_ready_def)
  have small: "length img < 2 ^ 32" using unsigned_less [of ?len, where 'a = nat] len by simp
  have ns: "\<not> skip_command w HCC_WritePatch s"
    using patch_ready_ne [OF assms(4,8)] assms(8,9) by (simp add: skip_command_def)
  show ?thesis
  proof (cases "240 \<le> ?len")
    case True
    then have big: "240 \<le> length img" using len by (simp add: less_240)
    from patch_first_long [OF assms(1-3,5) off assms(6,7) ns assms(8) True big] obtain u e where
      u: "reach ctl w (At_loop i, s, []) (At_wait i, u, [e])" "cc_ok 0xFCC4 e" "patch_wait cb (p, img) u"
        "carries s u [(0xFCC4, PATCH_HDR PATCH_START 0xF0 @ take 240 img)]"
        "btinit u = (btinit s)\<lparr>patch_len := ?len - 240, patch_offset := 240\<rparr>" "\<not> fPatchDone u" "fInternalCfg u = fInternalCfg s"
      by blast
    have "unat (?len - 240) = length img - 240" using True len by (simp add: unat_sub)
    then have inv: "unat (patch_offset (btinit u)) + unat (patch_len (btinit u)) = length img" using big by (simp add: u(5))
    from patch_rest [where w = w and i = i, OF u(3) assms(2,3) small u(2) inv u(6)] obtain v where
      v: "reach ctl w (At_wait i, u, [e]) (At_loop (Suc i), v, [])"
        "carries u v (map (Pair 0xFCC4) (patch_chunks PATCH_CONTINUE (drop 240 img)))"
        "\<exists>off. btinit v = (btinit u)\<lparr>patch_len := 0, patch_offset := off\<rparr>" "\<not> fPatchDone v" "fInternalCfg v = fInternalCfg u"
      by (auto simp: u(5))
    from carries_trans [OF u(4) v(2)] have "carries s v (map (Pair 0xFCC4) (patch_chunks PATCH_START img))"
      using big by (simp add: patch_chunks.simps [of _ img])
    moreover have "patch_after s v" using u(5,7) v(3-5) by (auto simp: patch_after_def)
    ultimately show ?thesis using reach_trans [OF u(1) v(1)] by blast
  next
    case False
    from patch_first_short [OF assms(1-3,6,7) ns assms(8) False len] obtain u e where
      u: "reach ctl w (At_loop i, s, []) (At_wait i, u, [e])" "cc_ok 0xFCC4 e" "patch_wait cb (p, img) u"
        "carries s u [(0xFCC4, PATCH_HDR PATCH_END (of_nat (length img)) @ img)]" "patch_len (btinit u) = 0"
        "\<exists>n off. btinit u = (btinit s)\<lparr>patch_len := n, patch_offset := off\<rparr>" "fPatchDone u" "fInternalCfg u = fInternalCfg s"
      by blast
    from patch_last [where ctl = ctl and w = w and i = i, OF u(3,5,7,2)] obtain v where
      v: "reach ctl w (At_wait i, u, [e]) (At_loop (Suc i), v, [])" "carries u v []"
        "btinit v = btinit u" "\<not> fPatchDone v" "fInternalCfg v = fInternalCfg u" by blast
    have "length img < 240" using False len by (simp add: less_240)
    with carries_trans [OF u(4) v(2)] have "carries s v (map (Pair 0xFCC4) (patch_chunks PATCH_START img))"
      by (simp add: patch_chunks.simps [of _ img])
    moreover have "patch_after s v" using u(6,8) v(3-5) by (auto simp: patch_after_def)
    ultimately show ?thesis using reach_trans [OF u(1) v(1)] by blast
  qed
qed

lemma round_patch:
  assumes "bt_vendor_cbacks s = Some cb" "accepting cb" "cooperative ctl" "patch_ready (btinit s)" "\<not> fPatchDone s"
    and "i < length (worker_script w)" "worker_script w ! i = HCC_WritePatch"
  shows "\<exists>t. reach ctl w (At_loop i, s, []) (At_loop (Suc i), t, [])
     \<and> carries s t (hcc_sent (btinit s) cf HCC_WritePatch) \<and> patch_after s t"
proof (cases "\<exists>p img. patch_data (btinit s) = Some (p, img) \<and> img \<noteq> []")
  case True
  then obtain p img where img: "patch_data (btinit s) = Some (p, img)" "img \<noteq> []" by blast
  from round_patch_send [OF assms img] show ?thesis using img by (simp add: hcc_sent_def)
next
  case False
  have "HCC_WritePatch \<in> set (worker_script w)" using assms(6,7) by (metis nth_mem)
  then have "w = GORM_FW_Init" by (cases w) (simp_all add: worker_script_def bt_init_postload_script_def)
  then have "skip_command w HCC_WritePatch s"
    using False patch_ready_ne [OF assms(4)] by (cases "patch_data (btinit s)") (auto simp: skip_command_def)
  then have "thread_step w (At_loop i) s = Some (At_loop (Suc i), s)" using assms(6,7) by simp
  then have "reach ctl w (At_loop i, s, []) (At_loop (Suc i), s, [])"
    by (rule reach_thread [where new = "[]"]) simp_all
  moreover have "carries s s (hcc_sent (btinit s) cf HCC_WritePatch)"
    using False by (auto simp: carries_def hcc_sent_def split: option.split)
  moreover have "patch_after s s" using assms(5) unfolding patch_after_def
    by (intro conjI exI [of _ "patch_len (btinit s)"] exI [of _ "patch_offset (btinit s)"]) simp_all
  ultimately show ?thesis by blast
qed

subsection \<open>The script\<close>

text \<open>Between two commands: the state \<open>t\<close> after the first \<open>k\<close> commands of a run from \<open>s\<close>.\<close>

definition script_inv :: "controller \<Rightarrow> worker \<Rightarrow> mtk_st \<Rightarrow> nat \<Rightarrow> mtk_st \<Rightarrow> bool" where
  "script_inv ctl w s k t \<longleftrightarrow> reach ctl w (At_loop 0, s, []) (At_loop k, t, [])
     \<and> carries s t (concat (map (hcc_sent (btinit s) (conf t)) (take k (worker_script w))))
     \<and> conf_wf (conf t) \<and> \<not> fPatchDone t
     \<and> bt_baud (btinit t) = bt_baud (btinit s) \<and> flow_control (btinit t) = flow_control (btinit s)
     \<and> (HCC_WritePatch \<notin> set (take k (worker_script w)) \<longrightarrow> patch_ready (btinit t) \<and> patch_data (btinit t) = patch_data (btinit s))
     \<and> (fInternalCfg s \<or> (conf t = conf s \<and> \<not> fInternalCfg t))"

lemma hcc_sent_conf:
  "c \<noteq> HCC_Set_Local_BD_Addr \<Longrightarrow> hcc_sent bi (cf\<lparr>conf_addr := x\<rparr>) c = hcc_sent bi cf c"
  by (cases c) (simp_all add: hcc_sent_def hcc_bytes_def)

lemma hcc_sent_patch:
  "patch_data bi' = patch_data bi \<Longrightarrow> bt_baud bi' = bt_baud bi \<Longrightarrow> flow_control bi' = flow_control bi \<Longrightarrow>
     hcc_sent bi' cf c = hcc_sent bi cf c"
  by (simp add: hcc_sent_def baud_bytes_def)

lemma distinct_script: "distinct (worker_script w)"
  by (cases w) (simp_all add: worker_script_def bt_init_preload_script_def bt_init_postload_script_def)

lemma not_in_take: "k < length (worker_script w) \<Longrightarrow> worker_script w ! k \<notin> set (take k (worker_script w))"
  using distinct_script [of w] by (auto simp: in_set_conv_nth nth_eq_iff_index_eq)

lemma script_carries:
  assumes "script_inv ctl w s k t" "k < length (worker_script w)"
    and "reach ctl w (At_loop k, t, []) (At_loop (Suc k), u, [])"
    and "carries t u (hcc_sent (btinit s) (conf u) (worker_script w ! k))"
    and "\<And>c. c \<in> set (take k (worker_script w)) \<Longrightarrow> hcc_sent (btinit s) (conf u) c = hcc_sent (btinit s) (conf t) c"
  shows "reach ctl w (At_loop 0, s, []) (At_loop (Suc k), u, [])
     \<and> carries s u (concat (map (hcc_sent (btinit s) (conf u)) (take (Suc k) (worker_script w))))"
proof
  show "reach ctl w (At_loop 0, s, []) (At_loop (Suc k), u, [])"
    using assms(1,3) reach_trans by (auto simp: script_inv_def)
  have "map (hcc_sent (btinit s) (conf t)) (take k (worker_script w)) = map (hcc_sent (btinit s) (conf u)) (take k (worker_script w))"
    using assms(5) by (intro map_cong) auto
  moreover have "carries s t (concat (map (hcc_sent (btinit s) (conf t)) (take k (worker_script w))))"
    using assms(1) by (simp add: script_inv_def)
  from carries_trans [OF this assms(4)] have "carries s u (concat (map (hcc_sent (btinit s) (conf t)) (take k (worker_script w)))
      @ hcc_sent (btinit s) (conf u) (worker_script w ! k))" .
  ultimately show "carries s u (concat (map (hcc_sent (btinit s) (conf u)) (take (Suc k) (worker_script w))))"
    by (simp only: take_Suc_conv_app_nth [OF assms(2)] map_append concat_append list.map concat.simps append_Nil2)
qed

lemma script_addr:
  assumes inv: "script_inv ctl w s k t" and k: "k < length (worker_script w)" "worker_script w ! k = HCC_Set_Local_BD_Addr"
    and cb: "bt_vendor_cbacks t = Some cb" "accepting cb" "cooperative ctl"
  shows "\<exists>u. script_inv ctl w s (Suc k) u"
proof -
  let ?c = "worker_script w ! k"
  have wf: "conf_wf (conf t)" using inv by (simp add: script_inv_def)
  have tk: "set (take (Suc k) (worker_script w)) = insert ?c (set (take k (worker_script w)))"
    by (simp add: take_Suc_conv_app_nth [OF k(1)])
  from round_bd_addr [OF cb wf k] obtain u x where u: "reach ctl w (At_loop k, t, []) (At_loop (Suc k), u, [])"
    "carries t u [(0xFC1A, hcc_bytes (conf u) HCC_Set_Local_BD_Addr)]" "length x = 6"
    "btinit u = (btinit t)\<lparr>bt_conf := (conf t)\<lparr>conf_addr := x\<rparr>\<rparr>" "fPatchDone u = fPatchDone t"
    "\<not> fInternalCfg u" "fInternalCfg t \<or> btinit u = btinit t" by blast
  have "carries t u (hcc_sent (btinit s) (conf u) ?c)" using u(2) k(2) by (simp add: hcc_sent_def)
  moreover have "hcc_sent (btinit s) (conf u) c = hcc_sent (btinit s) (conf t) c"
    if "c \<in> set (take k (worker_script w))" for c
    using not_in_take [OF k(1)] k(2) that u(4) by (auto intro: hcc_sent_conf)
  moreover have "conf_wf (conf u)" using wf u(3,4) by (simp add: conf_wf_def)
  moreover have "patch_ready (btinit u) = patch_ready (btinit t)" using u(4) by (auto simp: patch_ready_def split: option.split)
  moreover have "fInternalCfg s \<or> (conf u = conf s \<and> \<not> fInternalCfg u)" using inv u(6,7) by (auto simp: script_inv_def)
  ultimately show ?thesis using script_carries [OF inv k(1) u(1)] inv tk k(2) u(4,5)
    by (intro exI [of _ u]) (simp add: script_inv_def)
qed

lemma script_step:
  assumes inv: "script_inv ctl w s k t" and k: "k < length (worker_script w)"
    and env: "bt_vendor_cbacks s = Some cb" "accepting cb" "cooperative ctl"
  shows "\<exists>u. script_inv ctl w s (Suc k) u"
proof -
  let ?c = "worker_script w ! k"
  have cb: "bt_vendor_cbacks t = Some cb" and wf: "conf_wf (conf t)" and nd: "\<not> fPatchDone t"
    and same: "bt_baud (btinit t) = bt_baud (btinit s)" "flow_control (btinit t) = flow_control (btinit s)"
    using inv env by (auto simp: script_inv_def carries_def)
  have tk: "set (take (Suc k) (worker_script w)) = insert ?c (set (take k (worker_script w)))"
    by (simp add: take_Suc_conv_app_nth [OF k])
  note fresh = not_in_take [OF k]
  have plain: ?thesis if "reach ctl w (At_loop k, t, []) (At_loop (Suc k), u, [])"
      "carries t u (hcc_sent (btinit s) (conf u) ?c)" "same_vars t u" "?c \<noteq> HCC_WritePatch" for u
  proof -
    have "btinit u = btinit t" using that(3) by (simp add: same_vars_def)
    from script_carries [OF inv k that(1,2)] this that(3,4) inv tk show ?thesis
      by (intro exI [of _ u]) (auto simp: script_inv_def same_vars_def)
  qed
  consider "?c = HCC_ChangeBaudRate" | "?c = HCC_WritePatch" | "?c = HCC_Set_Local_BD_Addr" | "common_hcc ?c"
    by (auto simp: common_hcc_def)
  then show ?thesis
  proof cases
    case 1
    from round_baud [OF cb env(2,3) k 1] obtain u where u: "reach ctl w (At_loop k, t, []) (At_loop (Suc k), u, [])"
      "carries t u [(0xFC77, baud_bytes (btinit t)), (0xFCC0, [0xC0, 0xFC, 0x00])]" "same_vars t u" by blast
    then show ?thesis using 1 same by (intro plain [of u]) (simp_all add: hcc_sent_def baud_bytes_def)
  next
    case 2
    then have pr: "patch_ready (btinit t)" "patch_data (btinit t) = patch_data (btinit s)"
      using inv fresh by (auto simp: script_inv_def)
    from round_patch [OF cb env(2,3) pr(1) nd k 2, of "conf t"] obtain u where
      u: "reach ctl w (At_loop k, t, []) (At_loop (Suc k), u, [])"
        "carries t u (hcc_sent (btinit t) (conf t) HCC_WritePatch)" "patch_after t u" by blast
    have cf: "conf u = conf t" and bd: "bt_baud (btinit u) = bt_baud (btinit t)" "flow_control (btinit u) = flow_control (btinit t)"
      using u(3) by (auto simp: patch_after_def)
    have "carries t u (hcc_sent (btinit s) (conf u) ?c)" using u(2) 2 hcc_sent_patch [OF pr(2) same] by (simp add: cf)
    from script_carries [OF inv k u(1) this] cf bd u(3) inv tk 2 show ?thesis
      by (intro exI [of _ u]) (auto simp: script_inv_def patch_after_def)
  next
    case 3
    then show ?thesis by (rule script_addr [OF inv k _ cb env(2,3)])
  next
    case 4
    then have "hcc_sent bi cf ?c = [(hcc_opcode ?c, hcc_bytes cf ?c)]" for bi cf
      by (auto simp: hcc_sent_def common_hcc_def)
    with round_common [OF cb env(2,3) wf k 4] obtain u where u: "reach ctl w (At_loop k, t, []) (At_loop (Suc k), u, [])"
      "carries t u (hcc_sent (btinit s) (conf t) ?c)" "same_vars t u" by auto
    then show ?thesis using 4 by (intro plain [of u]) (auto simp: same_vars_def common_hcc_def)
  qed
qed

lemma script_run:
  assumes "bt_vendor_cbacks s = Some cb" "accepting cb" "cooperative ctl"
    and "conf_wf (conf s)" "patch_ready (btinit s)" "\<not> fPatchDone s"
  shows "k \<le> length (worker_script w) \<Longrightarrow> \<exists>t. script_inv ctl w s k t"
proof (induction k)
  case 0
  have "script_inv ctl w s 0 s" using assms by (auto simp: script_inv_def carries_def)
  then show ?case by blast
next
  case (Suc k)
  then show ?case using script_step assms(1-3) by (meson Suc_le_eq less_imp_le_nat)
qed

lemma exit_report:
  "bt_vendor_cbacks s = Some cb \<Longrightarrow> \<exists>new. calls (worker_exit w r s) = calls s @ new \<and> accepted new = [] \<and> reports w new = [r]
     \<and> conf (worker_exit w r s) = conf s"
  by (cases w) (auto simp: worker_exit_def GORM_FW_exit_def GORM_SCO_exit_def vnd_notify_def sys_free_def split: option.split)

lemma run_to_success:
  assumes "bt_vendor_cbacks s = Some cb" "accepting cb" "cooperative ctl"
    and "conf_wf (conf s)" "patch_ready (btinit s)" "\<not> fPatchDone s"
  shows "\<exists>t. reach ctl w (At_loop 0, s, []) (Ended, t, [])
     \<and> accepted (calls t) = accepted (calls s) @ concat (map (hcc_sent (btinit s) (conf t)) (worker_script w))
     \<and> reports w (calls t) = reports w (calls s) @ [BT_VND_OP_RESULT_SUCCESS]
     \<and> (fInternalCfg s \<or> conf t = conf s)"
proof -
  let ?n = "length (worker_script w)" and ?r = BT_VND_OP_RESULT_SUCCESS
  from script_run [OF assms, of ?n w] obtain t where inv: "script_inv ctl w s ?n t" by blast
  then have cb: "bt_vendor_cbacks t = Some cb" using assms(1) by (simp add: script_inv_def carries_def)
  from exit_report [OF this, of w ?r] obtain new where new: "calls (worker_exit w ?r t) = calls t @ new" "accepted new = []"
      "reports w new = [?r]" "conf (worker_exit w ?r t) = conf t" by blast
  have "reach ctl w (At_exit ?r, t, []) (Ended, worker_exit w ?r t, [])"
    by (rule reach_thread [OF _ new(1), of w "At_exit ?r" Ended]) (simp_all add: new(2))
  then have "reach ctl w (At_loop ?n, t, []) (Ended, worker_exit w ?r t, [])"
    by (intro reach_thread [where s = t and pc = "At_loop ?n" and pc' = "At_exit ?r" and t = t and new = "[]"]) simp_all
  with inv new show ?thesis
    by (intro exI [of _ "worker_exit w ?r t"]) (auto simp: script_inv_def carries_def intro: reach_trans)
qed

section \<open>Packets of an image\<close>

lemma patch_chunks_payload: "concat (map (drop 8) (patch_chunks k img)) = img"
proof (induction k img rule: patch_chunks.induct)
  case (1 k img)
  then show ?case by (subst patch_chunks.simps) (simp add: PATCH_HDR_def)
qed

text \<open>A packet whose length fields agree with its length.\<close>

definition packet_ok :: "u8 list \<Rightarrow> bool" where
  "packet_ok pkt \<longleftrightarrow> length pkt \<le> 248 \<and> take 2 pkt = [0xC4, 0xFC]
     \<and> unat (pkt ! 2) = length pkt - 3 \<and> unat (pkt ! 4) = length pkt - 8"

lemma packet_ok_hdr: "length bs \<le> 240 \<Longrightarrow> packet_ok (PATCH_HDR k (of_nat (length bs)) @ bs)"
proof -
  assume *: "length bs \<le> 240"
  then have "unat (of_nat (length bs) + 5 :: u8) = length bs + 5"
    using unat_of_nat8 [of "length bs + 5"] by simp
  with * show ?thesis by (simp add: packet_ok_def PATCH_HDR_def unat_of_nat8)
qed

lemma patch_chunks_ok: "pkt \<in> set (patch_chunks k img) \<Longrightarrow> packet_ok pkt"
proof (induction k img rule: patch_chunks.induct)
  case (1 k img)
  show ?case
  proof (cases "length img \<ge> 240")
    case True
    then have "length (take 240 img) = 240" by simp
    with packet_ok_hdr [of "take 240 img" k] have "packet_ok (PATCH_HDR k 0xF0 @ take 240 img)" by (simp del: length_take)
    with True 1 show ?thesis by (auto simp: patch_chunks.simps [of k img])
  next
    case False
    with packet_ok_hdr [of img PATCH_END] 1 show ?thesis by (auto simp: patch_chunks.simps [of k img])
  qed
qed

lemma patch_chunks_kinds:
  "\<exists>init last. patch_chunks k img = init @ [last] \<and> last ! 3 = PATCH_END
     \<and> map (\<lambda>p. p ! 3) init = (if init = [] then [] else k # replicate (length init - 1) PATCH_CONTINUE)"
proof (induction k img rule: patch_chunks.induct)
  case (1 k img)
  show ?case
  proof (cases "length img \<ge> 240")
    case True
    then obtain init last where "patch_chunks PATCH_CONTINUE (drop 240 img) = init @ [last]" "last ! 3 = PATCH_END"
      "map (\<lambda>p. p ! 3) init = (if init = [] then [] else PATCH_CONTINUE # replicate (length init - 1) PATCH_CONTINUE)"
      using 1 by blast
    moreover from this(3) have "map (\<lambda>p. p ! 3) init = replicate (length init) PATCH_CONTINUE"
      by (cases init) auto
    ultimately show ?thesis using True
      by (intro exI [of _ "(PATCH_HDR k 0xF0 @ take 240 img) # init"] exI [of _ last])
        (simp add: patch_chunks.simps [of k img] PATCH_HDR_def)
  next
    case False
    then show ?thesis
      by (intro exI [of _ "[]"] exI [of _ "PATCH_HDR PATCH_END (of_nat (length img)) @ img"]) (simp add: patch_chunks.simps [of k img] PATCH_HDR_def)
  qed
qed

section \<open>The standalone chip and an idle library\<close>

text \<open>A controller that answers as the comments of the source describe, and a library with a
  given configuration and patch image, for concrete runs.\<close>

definition complete_event :: "u16 \<Rightarrow> u8 list" where
  "complete_event op = [0x0E, 0x04, 0x01] @ UINT16_TO_STREAM op @ [0x00]"

definition mt6622_chip :: controller where
  "mt6622_chip op bs =
     (if op = 0xFC77 then [[0x0F, 0x04, 0x00, 0x01] @ UINT16_TO_STREAM 0xFC77]
      else if op = 0xFCC0 then [complete_event 0xFCC0, complete_event 0xFC77]
      else [complete_event op])"

definition mtk_idle :: "u8 list option \<Rightarrow> mtk_st" where
  "mtk_idle img =
     \<lparr>bt_vendor_cbacks = Some quiet_cbacks, calls = [], os = quiet_os (\<lambda>p. None), fds = (\<lambda>fd. []),
      ttys = (\<lambda>fd. quiet_termios),
      menv = \<lparr>libc_rand = (\<lambda>x. x), time_sec = (\<lambda>h. 0), time_usec = (\<lambda>h. 0), stack_junk = [0, 0, 0, 0],
        ioctl_result = (\<lambda>h fd r. 0), thread_result = (\<lambda>h. 0)\<rparr>,
      btinit = \<lparr>bt_conf = sDefaultCfg, bt_baud = 1000000, host_baud = 1000000, flow_control = 0,
        patch_data = map_option (Pair 7) img, patch_len = of_nat (case img of None \<Rightarrow> 0 | Some bs \<Rightarrow> length bs),
        patch_offset = 0\<rparr>,
      wOpCode = 0, cmd_status = CMD_SUCCESS, fInternalCfg = False, fgetEFUSE = False, fPatchDone = False,
      bt_fd = 3, evt_cback = Common_Complete_cb\<rparr>"

lemma complete_event_ok: "cc_ok op (complete_event op)"
  by (simp add: cc_ok_def complete_event_def UINT16_TO_STREAM_def numeral_3_eq_3
      STREAM_UINT16_roundtrip [of op "[0]", unfolded UINT16_TO_STREAM_def STREAM_TO_UINT16_def, simplified]
      STREAM_TO_UINT16_def)

lemma mt6622_cooperative: "cooperative mt6622_chip"
  by (auto simp: cooperative_def mt6622_chip_def complete_event_ok cs_ok_def UINT16_TO_STREAM_def STREAM_TO_UINT16_def)

lemma quiet_accepting: "accepting quiet_cbacks"
  by (simp add: accepting_def quiet_cbacks_def)

lemma default_conf_wf: "conf_wf sDefaultCfg"
  by (simp add: conf_wf_def sDefaultCfg_def)

lemma mtk_idle_ready: "length bs < 2 ^ 32 \<Longrightarrow> patch_ready (btinit (mtk_idle (Some bs)))"
  by (simp add: patch_ready_def mtk_idle_def unat_of_nat32)

lemma mtk_idle_run:
  "\<exists>ls t. runs (mtk_sys mt6622_chip GORM_SCO_Init) (At_loop 0, mtk_idle None, []) ls (Ended, t, [])
     \<and> reports GORM_SCO_Init (calls t) = [BT_VND_OP_RESULT_SUCCESS]"
proof -
  have ok: "bt_vendor_cbacks (mtk_idle None) = Some quiet_cbacks" "conf_wf (bt_conf (btinit (mtk_idle None)))"
    "patch_ready (btinit (mtk_idle None))" "\<not> fPatchDone (mtk_idle None)" "calls (mtk_idle None) = []"
    by (simp_all add: mtk_idle_def default_conf_wf patch_ready_def)
  from run_to_success [OF ok(1) quiet_accepting mt6622_cooperative ok(2-4), of GORM_SCO_Init] show ?thesis
    unfolding reach_def by (auto simp: ok(5))
qed

section \<open>Properties\<close>





text \<open>(C27) Buffers under every schedule.  However the thread and the event handlers interleave and
  whatever the controller answers, every buffer the thread or a handler allocates is given away
  exactly once, by transmission or by freeing it, and every event buffer is given away once; a thread
  holds at most the one buffer whose transmission was just refused, and none when it has ended.\<close>

theorem mtk_buffers:
  assumes "runs (mtk_sys ctl w) (At_loop 0, s, q) ls (pc, t, q')" "bt_vendor_cbacks s \<noteq> None"
  shows "\<exists>new. calls t = calls s @ new
     \<and> (\<forall>a. net new a = held pc a - int (count_list (map evt_addr (delivered ls)) a))"
  using run_from_start [OF assms] by (metis run_inv_def)

theorem mtk_buffers_witness:
  "\<exists>ls t new. runs (mtk_sys mt6622_chip GORM_SCO_Init) (At_loop 0, mtk_idle None, []) ls (Ended, t, [])
     \<and> calls t = calls (mtk_idle None) @ new
     \<and> (\<forall>a. net new a = - int (count_list (map evt_addr (delivered ls)) a))"
proof -
  obtain ls t where t: "runs (mtk_sys mt6622_chip GORM_SCO_Init) (At_loop 0, mtk_idle None, []) ls (Ended, t, [])"
    using mtk_idle_run by blast
  have "bt_vendor_cbacks (mtk_idle None) \<noteq> None" by (simp add: mtk_idle_def)
  from mtk_buffers [OF t this] t show ?thesis by auto
qed



text \<open>(C40) A lost answer.  The thread stores \<open>CMD_PENDING\<close> only after the transmission.  When the
  answer to the first command is handled before that store, the thread overwrites the result and
  waits for ever: the system cannot make a step, nothing has been reported to the stack, although
  every accepted command has been answered with success.\<close>

theorem mtk_lost_wakeup:
  assumes "bt_vendor_cbacks s = Some cb" "accepting cb" "cooperative ctl" "conf_wf (bt_conf (btinit s))"
  shows "\<exists>ls t. runs (mtk_sys ctl GORM_FW_Init) (At_loop 0, s, []) ls (At_wait 0, t, [])
     \<and> cmd_status t = CMD_PENDING \<and> (\<forall>l c. \<not> mtk_sys ctl GORM_FW_Init (At_wait 0, t, []) l c)
     \<and> reports GORM_FW_Init (calls t) = reports GORM_FW_Init (calls s)"
proof -
  let ?w = GORM_FW_Init and ?bs = "[0x01, 0x10, 0x00] :: u8 list"
  from acceptingD(1) [OF assms(2)] obtain a mem where al: "cb_alloc cb (calls s) MTK_HCI_CMD_MAX_SIZE = Some (a, mem)" by blast
  let ?s = "s\<lparr>calls := calls s @ [Alloc MTK_HCI_CMD_MAX_SIZE (Some a)]\<rparr>"
  from gorm_command_accepting [of ?s cb 3 "[0]" "0x1001" a "fresh_cmd mem"] assms(1,2) obtain r h where
    g: "GORMcmd_HCC_Read_Local_Version a (fresh_cmd mem) ?s = (r, ?s\<lparr>wOpCode := 0x1001,
        calls := calls ?s @ [Xmit 0x1001 a h r], evt_cback := Common_Complete_cb\<rparr>)" (is "_ = (r, ?t)")
    and r: "r \<noteq> C_FALSE" "wire h = ?bs" by (auto simp: GORMcmd_HCC_Read_Local_Version_def UINT16_TO_STREAM_def)
  from cooperative_cc [OF assms(3), of "0x1001" ?bs] obtain e where e: "ctl 0x1001 ?bs = [e]" "cc_ok 0x1001 e" by auto
  have 1: "thread_step ?w (At_loop 0) s = Some (Returned 0 a r, ?t)"
    using assms(1) al g by (simp add: worker_script_def bt_init_preload_script_def skip_command_def vnd_alloc_def Let_def)
  let ?u = "?t\<lparr>calls := calls ?t @ [Dealloc 0], cmd_status := CMD_SUCCESS\<rparr>"
  have 2: "mtk_event \<lparr>evt_addr = 0, evt_data = e\<rparr> ?t = ?u"
    using assms(1) e(2) by (simp add: mtk_event_def GORMevt_HCE_Common_Complete_def vnd_dealloc_def gorm_signal_def cc_ok_def)
  let ?v = "?u\<lparr>cmd_status := CMD_PENDING\<rparr>"
  have 3: "reach ctl ?w (Returned 0 a r, ?u, []) (At_wait 0, ?v, [])"
    by (rule reach_thread [of _ _ _ "At_wait 0" ?v "[]"]) (simp_all add: r(1))
  have 4: "reach ctl ?w (Returned 0 a r, ?t, [e]) (At_wait 0, ?v, [])"
    by (rule reach_event [OF 2, where new = "[Dealloc 0]"]) (use 3 in simp_all)
  have "reach ctl ?w (At_loop 0, s, []) (At_wait 0, ?v, [])"
    by (rule reach_thread [OF 1, where new = "[Alloc MTK_HCI_CMD_MAX_SIZE (Some a), Xmit 0x1001 a h r]"])
      (use 4 r e(1) in simp_all)
  moreover have "\<not> mtk_sys ctl ?w (At_wait 0, ?v, []) l c" for l c by (auto elim: mtk_sys.cases)
  moreover have "reports ?w (calls ?v) = reports ?w (calls s)" "cmd_status ?v = CMD_PENDING" by simp_all
  ultimately show ?thesis unfolding reach_def by blast
qed

theorem mtk_lost_wakeup_witness:
  "\<exists>ls t. runs (mtk_sys mt6622_chip GORM_FW_Init) (At_loop 0, mtk_idle None, []) ls (At_wait 0, t, [])
     \<and> cmd_status t = CMD_PENDING \<and> (\<forall>l c. \<not> mtk_sys mt6622_chip GORM_FW_Init (At_wait 0, t, []) l c)
     \<and> reports GORM_FW_Init (calls t) = reports GORM_FW_Init (calls (mtk_idle None))"
  by (rule mtk_lost_wakeup [OF _ quiet_accepting mt6622_cooperative]) (simp_all add: mtk_idle_def default_conf_wf)

text \<open>The two steps of the race: the thread sends the first packet, and the answer to it is handled before
  the thread has advanced the position.\<close>

lemma race_first_packet:
  assumes "bt_vendor_cbacks s = Some cb" "accepting cb" "patch_ready (btinit s)"
    and "patch_data (btinit s) = Some (p, img)" "480 \<le> length img"
  shows "\<exists>a r h t. thread_step GORM_FW_Init (At_loop 6) s = Some (In_patch 6 a r 240, t) \<and> r \<noteq> C_FALSE \<and>
    wire h = PATCH_HDR 0 0xF0 @ take 240 img \<and>
    calls t = calls s @ [Alloc MTK_HCI_CMD_MAX_SIZE (Some a), Xmit 0xFCC4 a h r] \<and> btinit t = btinit s \<and>
    bt_vendor_cbacks t = Some cb \<and> evt_cback t = WritePatch_cb \<and> fPatchDone t = fPatchDone s"
proof -
  let ?len = "patch_len (btinit s)" and ?b = "PATCH_HDR 0 0xF0 @ take 240 img"
  have len: "unat ?len = length img" using assms(3,4) by (auto simp: patch_ready_def)
  have ge: "?len \<ge> 240" "?len \<noteq> 0" using len assms(5) by (auto simp: less_240)
  from acceptingD(1) [OF assms(2)] obtain a mem where al: "cb_alloc cb (calls s) MTK_HCI_CMD_MAX_SIZE = Some (a, mem)" by blast
  let ?s = "s\<lparr>calls := calls s @ [Alloc MTK_HCI_CMD_MAX_SIZE (Some a)]\<rparr>"
  let ?h = "gorm_store 248 ?b (fresh_cmd mem)"
  let ?r = "cb_xmit cb (calls ?s) 0xFCC4 ?h"
  define t where "t = ?s\<lparr>wOpCode := 0xFCC4, calls := calls ?s @ [Xmit 0xFCC4 a ?h ?r], evt_cback := WritePatch_cb\<rparr>"
  have "patch_offset (btinit s) = 0" using assms(3,4) by (simp add: patch_ready_def)
  then have "WritePatch_send a (fresh_cmd mem) ?s = (?r, 240, t)"
    using ge assms(1,2,4) by (simp add: t_def WritePatch_send_def gorm_xmit_accepting Let_def)
  then have "thread_step GORM_FW_Init (At_loop 6) s = Some (In_patch 6 a ?r 240, t)"
    using assms(1,4) al ge(2) by (simp add: worker_script_def bt_init_preload_script_def skip_command_def vnd_alloc_def Let_def)
  moreover have "?r \<noteq> C_FALSE" by (rule acceptingD(2) [OF assms(2)])
  moreover have "wire ?h = ?b" using assms(5) by simp
  moreover have "calls t = calls s @ [Alloc MTK_HCI_CMD_MAX_SIZE (Some a), Xmit 0xFCC4 a ?h ?r]" "btinit t = btinit s"
      "bt_vendor_cbacks t = Some cb" "evt_cback t = WritePatch_cb" "fPatchDone t = fPatchDone s"
    using assms(1) by (simp_all add: t_def)
  ultimately show ?thesis by blast
qed

lemma race_early_answer:
  assumes "bt_vendor_cbacks t = Some cb" "accepting cb" "patch_ready (btinit t)" "patch_data (btinit t) = Some (p, img)"
    and "480 \<le> length img" "evt_cback t = WritePatch_cb" "\<not> fPatchDone t" "cc_ok 0xFCC4 e"
  shows "\<exists>new. mtk_event \<lparr>evt_addr = 0, evt_data = e\<rparr> t = t\<lparr>calls := calls t @ Dealloc 0 # new, evt_cback := WritePatch_cb,
      btinit := (btinit t)\<lparr>patch_len := patch_len (btinit t) - 240, patch_offset := 240\<rparr>\<rparr> \<and>
    accepted new = [(0xFCC4, PATCH_HDR 1 0xF0 @ take 240 img)]"
proof -
  let ?len = "patch_len (btinit t)" and ?d = "t\<lparr>calls := calls t @ [Dealloc 0]\<rparr>"
  have off: "patch_offset (btinit t) = 0" and len: "unat ?len = length img"
    using assms(3,4) by (auto simp: patch_ready_def)
  have ge: "?len \<ge> 240" "?len \<noteq> 0" using len assms(5) by (auto simp: less_240)
  have d: "bt_vendor_cbacks ?d = Some cb" "patch_data (btinit ?d) = Some (p, img)" using assms(1,4) by simp_all
  have "unat (240 :: u32) \<le> 240" "unat (patch_offset (btinit ?d)) + unat (240 :: u32) \<le> length img"
    using assms(5) off by simp_all
  from patch_packet_accepting [OF d(1) assms(2) d(2) this, of PATCH_CONTINUE] obtain new where
    "patch_packet PATCH_CONTINUE 240 ?d = (True, ?d\<lparr>calls := calls ?d @ new, evt_cback := WritePatch_cb\<rparr>)"
    and "accepted new = [(0xFCC4, PATCH_HDR 1 0xF0 @ take 240 img)]" using off by auto
  then show ?thesis using assms(1,6-8) ge off
    by (intro exI [of _ new]) (simp add: mtk_event_def GORMevt_HCE_WritePatch_def vnd_dealloc_def cc_ok_def Let_def)
qed

text \<open>A skipped piece of the patch.  \<open>GORMcmd_HCC_WritePatch\<close> advances the position in the
  image only after the transmission.  When the answer to the first packet is handled before that, the
  handler sends the first 240 bytes a second time and both then advance the position: the second 240
  bytes of the image are never sent.\<close>

theorem mtk_patch_race:
  assumes "bt_vendor_cbacks s = Some cb" "accepting cb" "cooperative ctl" "patch_ready (btinit s)" "\<not> fPatchDone s"
    and "patch_data (btinit s) = Some (p, img)" "480 \<le> length img"
  shows "\<exists>ls t a r e. runs (mtk_sys ctl GORM_FW_Init) (At_loop 6, s, []) ls (Returned 6 a r, t, [e])
     \<and> accepted (calls t) = accepted (calls s)
         @ [(0xFCC4, PATCH_HDR 0 0xF0 @ take 240 img), (0xFCC4, PATCH_HDR 1 0xF0 @ take 240 img)]
     \<and> r \<noteq> C_FALSE \<and> patch_offset (btinit t) = 480 \<and> unat (patch_len (btinit t)) = length img - 480"
proof -
  let ?b1 = "PATCH_HDR 0 0xF0 @ take 240 img" and ?b2 = "PATCH_HDR 1 0xF0 @ take 240 img"
  from race_first_packet [OF assms(1,2,4,6,7)] obtain a r h t where
    1: "thread_step GORM_FW_Init (At_loop 6) s = Some (In_patch 6 a r 240, t)" and r: "r \<noteq> C_FALSE" and w: "wire h = ?b1"
    and t: "calls t = calls s @ [Alloc MTK_HCI_CMD_MAX_SIZE (Some a), Xmit 0xFCC4 a h r]" "btinit t = btinit s"
      "bt_vendor_cbacks t = Some cb" "evt_cback t = WritePatch_cb" "fPatchDone t = fPatchDone s" by blast
  from cooperative_cc [OF assms(3), of "0xFCC4" ?b1] obtain e where e: "ctl 0xFCC4 ?b1 = [e]" "cc_ok 0xFCC4 e" by auto
  from cooperative_cc [OF assms(3), of "0xFCC4" ?b2] obtain f where f: "ctl 0xFCC4 ?b2 = [f]" by auto
  have ready: "patch_ready (btinit t)" "patch_data (btinit t) = Some (p, img)" "\<not> fPatchDone t"
    using t assms(4-6) by simp_all
  from race_early_answer [OF t(3) assms(2) ready(1,2) assms(7) t(4) ready(3) e(2)] obtain new u where
    2: "mtk_event \<lparr>evt_addr = 0, evt_data = e\<rparr> t = u" and new: "accepted new = [(0xFCC4, ?b2)]"
    and u: "u = t\<lparr>calls := calls t @ Dealloc 0 # new, evt_cback := WritePatch_cb,
      btinit := (btinit s)\<lparr>patch_len := patch_len (btinit s) - 240, patch_offset := 240\<rparr>\<rparr>" using t(2) by auto
  define v where "v = u\<lparr>btinit := (btinit s)\<lparr>patch_len := patch_len (btinit s) - 480, patch_offset := 480\<rparr>\<rparr>"
  have "thread_step GORM_FW_Init (In_patch 6 a r 240) u = Some (Returned 6 a r, v)"
    using r by (simp add: u v_def WritePatch_account_def diff_diff_eq)
  then have 3: "reach ctl GORM_FW_Init (In_patch 6 a r 240, u, [f]) (Returned 6 a r, v, [f])"
    by (rule reach_thread [where new = "[]"]) (simp_all add: v_def)
  have 4: "reach ctl GORM_FW_Init (In_patch 6 a r 240, t, [e]) (Returned 6 a r, v, [f])"
    by (rule reach_event [OF 2, where new = "Dealloc 0 # new"]) (use 3 f new in \<open>simp_all add: u\<close>)
  have 5: "reach ctl GORM_FW_Init (At_loop 6, s, []) (Returned 6 a r, v, [f])"
    by (rule reach_thread [OF 1 t(1)]) (use 4 r w e(1) in simp)
  have "accepted (calls v) = accepted (calls s) @ [(0xFCC4, ?b1), (0xFCC4, ?b2)]" "patch_offset (btinit v) = 480"
    using new t(1) r w by (simp_all add: v_def u)
  moreover have "unat (patch_len (btinit v)) = length img - 480"
    using assms(4,6,7) by (auto simp: v_def patch_ready_def unat_sub word_le_nat_alt)
  ultimately show ?thesis using 5 r unfolding reach_def by blast
qed

theorem mtk_patch_race_witness:
  "\<exists>ls t a r e. runs (mtk_sys mt6622_chip GORM_FW_Init) (At_loop 6, mtk_idle (Some (replicate 480 0)), []) ls (Returned 6 a r, t, [e])
     \<and> accepted (calls t) = accepted (calls (mtk_idle (Some (replicate 480 0))))
         @ [(0xFCC4, PATCH_HDR 0 0xF0 @ take 240 (replicate 480 0)), (0xFCC4, PATCH_HDR 1 0xF0 @ take 240 (replicate 480 0))]
     \<and> r \<noteq> C_FALSE \<and> patch_offset (btinit t) = 480 \<and> unat (patch_len (btinit t)) = length (replicate 480 (0 :: u8)) - 480"
proof -
  have "patch_ready (btinit (mtk_idle (Some (replicate 480 0))))" by (rule mtk_idle_ready) simp
  then show ?thesis
    by (intro mtk_patch_race [OF _ quiet_accepting mt6622_cooperative, where p = 7]) (simp_all add: mtk_idle_def)
qed

end
