(* ===== verification/Mtk_Vendor.thy ===== *)
theory Mtk_Vendor
  imports Mtk_Run
begin

text \<open>
  The rest of the MT6622 library: power control and loading of the configuration (\<open>mtk.c\<close>), loading
  of the patch and start of the worker threads (\<open>radiomgr.c\<close>) and the vendor interface
  (\<open>bt_drv.c\<close>).  Starting a thread is a call in the history; what the thread does from there is
  \<open>thread_step\<close>.
\<close>

section \<open>Callbacks and power\<close>

definition set_callbacks :: "bt_vendor_callbacks_t option \<Rightarrow> mtk_st \<Rightarrow> mtk_st" where
  "set_callbacks p_cb s = s\<lparr>bt_vendor_cbacks := p_cb\<rparr>"

definition clean_callbacks :: "mtk_st \<Rightarrow> mtk_st" where
  "clean_callbacks s = s\<lparr>bt_vendor_cbacks := None\<rparr>"

abbreviation (input) BTHWCTL_DEV_NAME :: string where "BTHWCTL_DEV_NAME \<equiv> ''/dev/bthwctl''"
abbreviation (input) BTHWCTL_IOCTL_SET_POWER :: u32 where "BTHWCTL_IOCTL_SET_POWER \<equiv> 0xC004F600"

definition ioctl_arg :: "int \<Rightarrow> u32 \<Rightarrow> u32 \<Rightarrow> mtk_st \<Rightarrow> int \<times> mtk_st" where
  "ioctl_arg fd req x s =
     (let r = ioctl_result (menv s) (calls s) fd x in (r, log_call (Sys_ioctl_arg fd req x r) s))"

definition set_bluetooth_power :: "bool \<Rightarrow> mtk_st \<Rightarrow> int \<times> mtk_st" where
  "set_bluetooth_power on s =
     (let buf = (if on then 1 else 0); (fd, s) = sys_open BTHWCTL_DEV_NAME O_RDWR s in
      if fd < 0 then (-1, s)
      else let (ret, s) = ioctl_arg fd BTHWCTL_IOCTL_SET_POWER buf s in (ret, sys_close fd s))"

section \<open>Configuration files\<close>

abbreviation (input) CUSTOM_BT_CFG_FILE :: string where "CUSTOM_BT_CFG_FILE \<equiv> ''/data/BT.cfg''"
abbreviation (input) CUST_BT_BAUD_RATE :: u32 where "CUST_BT_BAUD_RATE \<equiv> 1000000"

text \<open>The first bytes of a structure overwritten with \<open>memcpy\<close>.\<close>

definition conf_memcpy :: "u8 list \<Rightarrow> btradio_conf_data \<Rightarrow> btradio_conf_data" where
  "conf_memcpy bs cfg = conf_fields (put_bytes bs (conf_raw cfg))"

definition load_custom_bt_conf :: "btradio_conf_data \<Rightarrow> mtk_st \<Rightarrow> int \<times> btradio_conf_data \<times> mtk_st" where
  "load_custom_bt_conf cfg s =
     (let (fd, s) = sys_open CUSTOM_BT_CFG_FILE O_RDONLY s in
      if fd < 0 then (-1, cfg, s)
      else
        let (r, s) = sys_read fd conf_size s; s = sys_close fd s in
        case r of
          None \<Rightarrow> (-1, cfg, s)
        | Some bs \<Rightarrow> if length bs < conf_size then (-1, cfg, s) else (0, conf_memcpy bs cfg, s))"

definition load_internal_bt_conf :: "btradio_conf_data \<Rightarrow> mtk_st \<Rightarrow> int \<times> btradio_conf_data \<times> mtk_st" where
  "load_internal_bt_conf cfg s =
     (let (fd, s) = sys_open INTERNAL_BT_CFG_FILE O_RDONLY s in
      if fd < 0 then
        let (fd, s) = sys_open INTERNAL_BT_CFG_FILE O_WRONLY_CREAT s in
        if fd < 0 then (-1, cfg, s)
        else
          let (written, s) = sys_write fd (conf_raw sDefaultCfg) s; s = sys_close fd s in
          if written < 0 then (-1, cfg, s) else (0, sDefaultCfg, s)
      else
        let (r, s) = sys_read fd conf_size s; s = sys_close fd s in
        case r of None \<Rightarrow> (-1, cfg, s) | Some bs \<Rightarrow> (0, conf_memcpy bs cfg, s))"

section \<open>Patch and threads\<close>

abbreviation (input) BT_UPDATE_PATCH_FILE_NAME :: string where
  "BT_UPDATE_PATCH_FILE_NAME \<equiv> ''/data/MTK_MT6622_E2_Patch.nb0''"
abbreviation (input) BT_BUILT_IN_PATCH_FILE_NAME :: string where
  "BT_BUILT_IN_PATCH_FILE_NAME \<equiv> ''/system/etc/firmware/MTK_MT6622_E2_Patch.nb0''"

text \<open>\<open>fopen\<close>: the descriptor and the name of the file that was opened.\<close>

definition open_patch :: "mtk_st \<Rightarrow> (int \<times> string) option \<times> mtk_st" where
  "open_patch s =
     (let (fd, s) = sys_open BT_UPDATE_PATCH_FILE_NAME O_RDONLY s in
      if fd < 0 then
        let (fd, s) = sys_open BT_BUILT_IN_PATCH_FILE_NAME O_RDONLY s in
        (if fd < 0 then None else Some (fd, BT_BUILT_IN_PATCH_FILE_NAME), s)
      else (Some (fd, BT_UPDATE_PATCH_FILE_NAME), s))"

text \<open>The size that \<open>fseek\<close> and \<open>ftell\<close> give is that of \<open>stat\<close>; when either fails nothing is
  loaded.  \<open>malloc\<close> and \<open>fread\<close> of that many bytes follow.\<close>

definition read_patch :: "int \<Rightarrow> string \<Rightarrow> mtk_st \<Rightarrow> mtk_st" where
  "read_patch fd name s =
     (case os_stat (os s) name of
        None \<Rightarrow> s
      | Some lFileLen \<Rightarrow>
          if lFileLen = 0 then s
          else
            let (p, s) = sys_malloc lFileLen s in
            case p of
              None \<Rightarrow> upd_btinit (\<lambda>b. b\<lparr>patch_data := None\<rparr>) s
            | Some a \<Rightarrow>
                let (r, s) = sys_read fd lFileLen s; bs = (case r of None \<Rightarrow> [] | Some bs \<Rightarrow> bs) in
                if length bs \<noteq> lFileLen
                then upd_btinit (\<lambda>b. b\<lparr>patch_data := None, patch_len := 0\<rparr>) (sys_free a s)
                else upd_btinit (\<lambda>b. b\<lparr>patch_data := Some (a, bs), patch_len := of_nat (length bs)\<rparr>) s)"

definition BT_Load_Firmware_Patch :: "mtk_st \<Rightarrow> mtk_st" where
  "BT_Load_Firmware_Patch s =
     (let (f, s) = open_patch s in
      case f of None \<Rightarrow> s | Some (fd, name) \<Rightarrow> sys_close fd (read_patch fd name s))"

definition pthread_create :: "string \<Rightarrow> mtk_st \<Rightarrow> int \<times> mtk_st" where
  "pthread_create name s =
     (let r = thread_result (menv s) (calls s) in (r, log_call (Thread_create name r) s))"

definition BT_InitDevice :: "btradio_conf_data \<Rightarrow> u32 \<Rightarrow> u32 \<Rightarrow> u32 \<Rightarrow> mtk_st \<Rightarrow> u8 \<times> mtk_st" where
  "BT_InitDevice ucConfData dwBaud dwHostBaud dwFlowControl s =
     (let s = s\<lparr>btinit := \<lparr>bt_conf = ucConfData, bt_baud = dwBaud, host_baud = dwHostBaud,
                flow_control = dwFlowControl, patch_data = None, patch_len = 0, patch_offset = 0\<rparr>\<rparr>;
          s = BT_Load_Firmware_Patch s;
          s = upd_btinit (\<lambda>b. b\<lparr>patch_offset := 0\<rparr>) s;
          (r, s) = pthread_create ''GORM_FW_Init_Thread'' s in
      if r \<noteq> 0 then
        let s = (case patch_data (btinit s) of
                   None \<Rightarrow> s
                 | Some (p, img) \<Rightarrow> upd_btinit (\<lambda>b. b\<lparr>patch_data := None, patch_len := 0\<rparr>) (sys_free p s))
        in (C_FALSE, vnd_notify (Fwcfg_cb BT_VND_OP_RESULT_FAIL) s)
      else (C_TRUE, s))"

definition BT_InitSCO :: "mtk_st \<Rightarrow> u8 \<times> mtk_st" where
  "BT_InitSCO s =
     (let (r, s) = pthread_create ''GORM_SCO_Init_Thread'' s in (if r \<noteq> 0 then C_FALSE else C_TRUE, s))"

text \<open>The configuration \<open>mtk_fw_cfg\<close> starts from; it differs from \<open>sDefaultCfg\<close> in the sleep
  parameters.\<close>

definition fw_cfg_initial :: btradio_conf_data where
  "fw_cfg_initial = sDefaultCfg\<lparr>sleep := [0x03, 0x40, 0x1F, 0x40, 0x1F, 0x00, 0x04]\<rparr>"

definition load_bt_conf :: "mtk_st \<Rightarrow> btradio_conf_data \<times> mtk_st" where
  "load_bt_conf s =
     (let (r, cfg, s) = load_custom_bt_conf fw_cfg_initial s in
      if r < 0 then
        let (r, cfg, s) = load_internal_bt_conf cfg s in
        (cfg, if r < 0 then s else s\<lparr>fInternalCfg := True\<rparr>)
      else (cfg, s))"

definition mtk_fw_cfg :: "mtk_st \<Rightarrow> int \<times> mtk_st" where
  "mtk_fw_cfg s =
     (let (cfg, s) = load_bt_conf s;
          (r, s) = BT_InitDevice cfg CUST_BT_BAUD_RATE CUST_BT_BAUD_RATE 0 s
      in (if r = C_TRUE then 0 else -1, s))"

definition mtk_sco_cfg :: "mtk_st \<Rightarrow> int \<times> mtk_st" where
  "mtk_sco_cfg s = (let (r, s) = BT_InitSCO s in (if r = C_TRUE then 0 else -1, s))"

section \<open>Vendor interface\<close>

definition mtk_bt_init :: "bt_vendor_callbacks_t option \<Rightarrow> mtk_st \<Rightarrow> int \<times> mtk_st" where
  "mtk_bt_init p_cb s = (0, set_callbacks p_cb s)"

definition mtk_bt_op :: "vnd_op \<Rightarrow> mtk_st \<Rightarrow> int \<times> vnd_out \<times> mtk_st" where
  "mtk_bt_op opcode s =
     (case opcode of
        BT_VND_OP_POWER_CTRL p \<Rightarrow>
          (let (ret, s) = set_bluetooth_power (p \<noteq> BT_VND_PWR_OFF) s in (ret, Out_none, s))
      | BT_VND_OP_USERIAL_OPEN \<Rightarrow> (let (fd, s) = init_uart s in (1, Out_fds [fd], s))
      | BT_VND_OP_USERIAL_CLOSE \<Rightarrow> (0, Out_none, close_uart s)
      | BT_VND_OP_FW_CFG \<Rightarrow> (let (ret, s) = mtk_fw_cfg s in (ret, Out_none, s))
      | BT_VND_OP_SCO_CFG \<Rightarrow> (let (ret, s) = mtk_sco_cfg s in (ret, Out_none, s))
      | BT_VND_OP_GET_LPM_IDLE_TIMEOUT \<Rightarrow> (0, Out_timeout 5000, s)
      | BT_VND_OP_LPM_SET_MODE m \<Rightarrow> (0, Out_none, s)
      | BT_VND_OP_LPM_WAKE_SET_STATE st \<Rightarrow> (0, Out_none, s))"

definition mtk_bt_cleanup :: "mtk_st \<Rightarrow> mtk_st" where
  "mtk_bt_cleanup s = clean_callbacks s"

definition mtk_request :: "mtk_st \<Rightarrow> vnd_op \<Rightarrow> mtk_st \<Rightarrow> bool" where
  "mtk_request s r t \<longleftrightarrow> (\<exists>ret out. mtk_bt_op r s = (ret, out, t))"

section \<open>Facts\<close>

lemma conf_fields_raw: "conf_wf c \<Longrightarrow> conf_fields (conf_raw c) = c"
  by (simp add: conf_wf_def conf_fields_def conf_raw_def field_def)

lemma length_conf_raw: "conf_wf c \<Longrightarrow> length (conf_raw c) = conf_size"
  by (simp add: conf_wf_def conf_raw_def)

lemma conf_fields_wf: "conf_size \<le> length bs \<Longrightarrow> conf_wf (conf_fields bs)"
  by (simp add: conf_wf_def conf_fields_def field_def)

lemma conf_memcpy_wf: "conf_wf cfg \<Longrightarrow> conf_wf (conf_memcpy bs cfg)"
  unfolding conf_memcpy_def by (rule conf_fields_wf) (simp add: put_bytes_def length_conf_raw)

lemma fw_cfg_initial_wf: "conf_wf fw_cfg_initial"
  using default_conf_wf by (simp add: fw_cfg_initial_def conf_wf_def)

text \<open>A step that only talks to the system and leaves the callbacks' answers alone.\<close>

definition io_only :: "mtk_st \<Rightarrow> mtk_st \<Rightarrow> bool" where
  "io_only s t \<longleftrightarrow> sys_only s t \<and> os t = os s \<and> menv t = menv s \<and> fPatchDone t = fPatchDone s"

lemma io_only_refl [simp]: "io_only s s"
  by (simp add: io_only_def)

lemma io_only_trans: "io_only s t \<Longrightarrow> io_only t u \<Longrightarrow> io_only s u"
  unfolding io_only_def using sys_only_trans by metis

lemma io_only_sys [intro!]:
  "io_only s t \<Longrightarrow> io_only s (snd (sys_open p m t))" "io_only s t \<Longrightarrow> io_only s (snd (sys_read fd n t))"
  "io_only s t \<Longrightarrow> io_only s (snd (sys_write fd bs t))" "io_only s t \<Longrightarrow> io_only s (sys_close fd t)"
  "io_only s t \<Longrightarrow> io_only s (snd (sys_malloc n t))" "io_only s t \<Longrightarrow> io_only s (sys_free a t)"
  "io_only s t \<Longrightarrow> io_only s (snd (pthread_create nm t))" "io_only s t \<Longrightarrow> io_only s (snd (ioctl_arg fd rq x t))"
  "io_only s t \<Longrightarrow> io_only s (tcflush fd t)" "io_only s t \<Longrightarrow> io_only s (snd (mtk_tcsetattr fd ti t))"
  by (erule io_only_trans; simp add: io_only_def sys_open_def sys_read_def sys_write_def sys_close_def sys_malloc_def
        sys_free_def pthread_create_def ioctl_arg_def tcflush_def mtk_tcsetattr_def tc_set_def sys_only_def Let_def)+

lemma io_only_vars [intro!]:
  "io_only s t \<Longrightarrow> io_only s (t\<lparr>btinit := b\<rparr>)" "io_only s t \<Longrightarrow> io_only s (t\<lparr>fInternalCfg := x\<rparr>)"
  "io_only s t \<Longrightarrow> io_only s (t\<lparr>bt_fd := fd\<rparr>)" "io_only s t \<Longrightarrow> io_only s (upd_btinit f t)"
  by (erule io_only_trans; simp add: io_only_def sys_only_def)+

lemma btinit_mem [simp]:
  "btinit (snd (sys_malloc n t)) = btinit t" "btinit (sys_free a t) = btinit t" "btinit (snd (pthread_create nm t)) = btinit t"
  by (simp_all add: sys_malloc_def sys_free_def pthread_create_def Let_def)

lemma load_custom_io: "io_only s (snd (snd (load_custom_bt_conf cfg s)))" "conf_wf cfg \<Longrightarrow> conf_wf (fst (snd (load_custom_bt_conf cfg s)))"
  by (auto simp: load_custom_bt_conf_def Let_def split_beta conf_memcpy_wf split: option.split)

lemma load_internal_io: "io_only s (snd (snd (load_internal_bt_conf cfg s)))" "conf_wf cfg \<Longrightarrow> conf_wf (fst (snd (load_internal_bt_conf cfg s)))"
  by (auto simp: load_internal_bt_conf_def Let_def split_beta conf_memcpy_wf default_conf_wf split: option.split)

lemma load_bt_conf_io: "io_only s (snd (load_bt_conf s))" "conf_wf (fst (load_bt_conf s))"
proof -
  let ?c = "load_custom_bt_conf fw_cfg_initial s"
  have "io_only s (snd (snd ?c))" by (rule load_custom_io)
  then have "io_only s (snd (snd (load_internal_bt_conf (fst (snd ?c)) (snd (snd ?c)))))"
    using load_internal_io(1) by (rule io_only_trans)
  then show "io_only s (snd (load_bt_conf s))"
    using load_custom_io(1) by (auto simp: load_bt_conf_def Let_def split_beta)
  show "conf_wf (fst (load_bt_conf s))"
    using load_custom_io(2) [OF fw_cfg_initial_wf, of s] load_internal_io(2)
    by (simp add: load_bt_conf_def Let_def split_beta)
qed

lemma open_patch_io: "io_only s (snd (open_patch s))" "btinit (snd (open_patch s)) = btinit s"
  by (auto simp: open_patch_def Let_def split_beta)

lemma read_patch_io: "io_only s (read_patch fd nm s)"
  by (auto simp: read_patch_def Let_def split_beta simp del: upd_btinit_def split: option.split)

lemma load_patch_io: "io_only s (BT_Load_Firmware_Patch s)"
  using open_patch_io(1) io_only_trans [OF _ read_patch_io]
  by (auto simp: BT_Load_Firmware_Patch_def Let_def split_beta split: option.split)

text \<open>\<open>ftell\<close> returns a \<open>long\<close>, so a file it measures is shorter than four gigabytes.\<close>

definition files_fit :: "os_env \<Rightarrow> bool" where
  "files_fit e \<longleftrightarrow> (\<forall>nm n. os_stat e nm = Some n \<longrightarrow> n < 2 ^ 32)"

lemma read_patch_ready:
  assumes "files_fit (os s)" "patch_data (btinit s) = None" "patch_offset (btinit s) = 0"
  shows "patch_ready (btinit (read_patch fd nm s)) \<and> bt_conf (btinit (read_patch fd nm s)) = bt_conf (btinit s)
     \<and> patch_offset (btinit (read_patch fd nm s)) = 0"
  using assms
  by (auto simp: read_patch_def patch_ready_def files_fit_def Let_def split_beta unat_of_nat32 split: option.split)

lemma load_patch_ready:
  assumes "files_fit (os s)" "patch_data (btinit s) = None" "patch_offset (btinit s) = 0"
  shows "patch_ready (btinit (BT_Load_Firmware_Patch s)) \<and> bt_conf (btinit (BT_Load_Firmware_Patch s)) = bt_conf (btinit s)
     \<and> patch_offset (btinit (BT_Load_Firmware_Patch s)) = 0"
proof -
  let ?o = "open_patch s"
  have "files_fit (os (snd ?o))" using open_patch_io(1) [of s] assms(1) by (simp add: io_only_def)
  then have "patch_ready (btinit (read_patch fd nm (snd ?o))) \<and> bt_conf (btinit (read_patch fd nm (snd ?o))) = bt_conf (btinit s)
     \<and> patch_offset (btinit (read_patch fd nm (snd ?o))) = 0" for fd nm
    using read_patch_ready [of "snd ?o" fd nm] assms open_patch_io(2) by simp
  moreover have "patch_ready (btinit s)" using assms by (simp add: patch_ready_def)
  ultimately show ?thesis using assms open_patch_io(2) [of s]
    by (auto simp: BT_Load_Firmware_Patch_def Let_def split_beta split: option.split)
qed

lemma io_only_hist:
  assumes "io_only s t"
  shows "accepted (calls t) = accepted (calls s)" "reports w (calls t) = reports w (calls s)"
    "bt_vendor_cbacks t = bt_vendor_cbacks s"
  using assms non_stack_calls by (auto simp: io_only_def sys_only_def)

lemma patch_ready_offset: "patch_ready b \<Longrightarrow> patch_ready (b\<lparr>patch_offset := 0\<rparr>)"
  by (auto simp: patch_ready_def split: option.splits)

text \<open>The two ways \<open>BT_InitDevice\<close> can go: the thread is started, or the image is freed and the
  failure reported.\<close>

lemma init_device_cases:
  obtains u where "BT_InitDevice cf b hb fc s = (C_TRUE, u)" "io_only s u"
      "files_fit (os s) \<Longrightarrow> patch_ready (btinit u) \<and> bt_conf (btinit u) = cf"
  | v where "BT_InitDevice cf b hb fc s = (C_FALSE, vnd_notify (Fwcfg_cb BT_VND_OP_RESULT_FAIL) v)" "io_only s v"
      "patch_data (btinit v) = None"
proof -
  define s1 where "s1 = s\<lparr>btinit := \<lparr>bt_conf = cf, bt_baud = b, host_baud = hb, flow_control = fc, patch_data = None,
      patch_len = 0, patch_offset = 0\<rparr>\<rparr>"
  define p where "p = pthread_create ''GORM_FW_Init_Thread'' (upd_btinit (\<lambda>b. b\<lparr>patch_offset := 0\<rparr>) (BT_Load_Firmware_Patch s1))"
  have "io_only s s1" by (simp add: s1_def io_only_def sys_only_def)
  then have "io_only s (BT_Load_Firmware_Patch s1)" using load_patch_io by (rule io_only_trans)
  then have io: "io_only s (snd p)" unfolding p_def by blast
  have rdy: "patch_ready (btinit (snd p)) \<and> bt_conf (btinit (snd p)) = cf" if "files_fit (os s)"
    using load_patch_ready [of s1] that patch_ready_offset by (simp add: p_def s1_def)
  let ?v = "case patch_data (btinit (snd p)) of None \<Rightarrow> snd p
      | Some (a, img) \<Rightarrow> upd_btinit (\<lambda>b. b\<lparr>patch_data := None, patch_len := 0\<rparr>) (sys_free a (snd p))"
  have v: "io_only s ?v" using io by (auto split: option.split simp del: upd_btinit_def)
  have v': "patch_data (btinit ?v) = None" by (auto split: option.split)
  have eq: "BT_InitDevice cf b hb fc s
      = (if fst p \<noteq> 0 then (C_FALSE, vnd_notify (Fwcfg_cb BT_VND_OP_RESULT_FAIL) ?v) else (C_TRUE, snd p))"
    unfolding BT_InitDevice_def Let_def split_beta s1_def [symmetric] p_def [symmetric] by (rule refl)
  show thesis
  proof (cases "fst p = 0")
    case True
    with eq have "BT_InitDevice cf b hb fc s = (C_TRUE, snd p)" by simp
    from that(1) [OF this io rdy] show thesis .
  next
    case False
    with eq have "BT_InitDevice cf b hb fc s = (C_FALSE, vnd_notify (Fwcfg_cb BT_VND_OP_RESULT_FAIL) ?v)" by simp
    from that(2) [OF this v v'] show thesis .
  qed
qed

lemma init_device:
  assumes "files_fit (os s)" "bt_vendor_cbacks s = Some cb" "conf_wf cf"
  shows "case BT_InitDevice cf b hb fc s of (r, t) \<Rightarrow>
    bt_vendor_cbacks t = Some cb \<and> fPatchDone t = fPatchDone s \<and> accepted (calls t) = accepted (calls s) \<and>
    (r = C_TRUE \<and> conf_wf (bt_conf (btinit t)) \<and> patch_ready (btinit t) \<and> reports GORM_FW_Init (calls t) = reports GORM_FW_Init (calls s)
     \<or> r = C_FALSE \<and> patch_data (btinit t) = None \<and> reports GORM_FW_Init (calls t) = reports GORM_FW_Init (calls s) @ [BT_VND_OP_RESULT_FAIL])"
proof (cases rule: init_device_cases [of cf b hb fc s])
  case (1 u)
  then show ?thesis using assms io_only_hist [OF 1(2)] by (simp add: io_only_def)
next
  case (2 v)
  then show ?thesis using assms io_only_hist [OF 2(2)] by (simp add: vnd_notify_def io_only_def)
qed

lemma fw_cfg_state:
  assumes "mtk_fw_cfg s = (ret, t)" "files_fit (os s)" "bt_vendor_cbacks s = Some cb"
  shows "bt_vendor_cbacks t = Some cb \<and> fPatchDone t = fPatchDone s \<and> accepted (calls t) = accepted (calls s) \<and>
    (ret = 0 \<and> conf_wf (bt_conf (btinit t)) \<and> patch_ready (btinit t) \<and> reports GORM_FW_Init (calls t) = reports GORM_FW_Init (calls s)
     \<or> ret = -1 \<and> patch_data (btinit t) = None \<and> reports GORM_FW_Init (calls t) = reports GORM_FW_Init (calls s) @ [BT_VND_OP_RESULT_FAIL])"
proof -
  let ?l = "load_bt_conf s"
  have io: "io_only s (snd ?l)" by (rule load_bt_conf_io)
  have "files_fit (os (snd ?l))" "bt_vendor_cbacks (snd ?l) = Some cb" using io io_only_hist(3) [OF io] assms by (simp_all add: io_only_def)
  from init_device [OF this load_bt_conf_io(2) [of s], of CUST_BT_BAUD_RATE CUST_BT_BAUD_RATE 0] io_only_hist [OF io] io assms(1)
  show ?thesis by (auto simp: mtk_fw_cfg_def io_only_def Let_def split_beta)
qed

section \<open>The contract of the library\<close>

lemma init_uart_io: "io_only s (snd (init_uart s))"
  by (auto simp: init_uart_def Let_def split_beta split: option.split)

lemma close_uart_io: "io_only s (close_uart s)"
  by (auto simp: close_uart_def Let_def)

lemma power_io: "io_only s (snd (set_bluetooth_power on s))"
  by (auto simp: set_bluetooth_power_def Let_def split_beta)

lemma io_only_request: "io_only s t \<Longrightarrow> bt_vendor_cbacks t = bt_vendor_cbacks s
     \<and> (\<exists>new. calls t = calls s @ new \<and> (bt_vendor_cbacks s = None \<longrightarrow> list_all (\<lambda>c. \<not> is_stack_call c) new))"
  by (auto simp: io_only_def sys_only_def)

lemma init_device_request:
  "bt_vendor_cbacks (snd (BT_InitDevice cf b hb fc s)) = bt_vendor_cbacks s
     \<and> (\<exists>new. calls (snd (BT_InitDevice cf b hb fc s)) = calls s @ new
          \<and> (bt_vendor_cbacks s = None \<longrightarrow> list_all (\<lambda>c. \<not> is_stack_call c) new))"
proof (cases rule: init_device_cases [of cf b hb fc s])
  case (1 u)
  then show ?thesis using io_only_request [OF 1(2)] by simp
next
  case (2 v)
  then show ?thesis using io_only_request [OF 2(2)] by (auto simp: vnd_notify_def)
qed

lemma fw_cfg_request:
  "bt_vendor_cbacks (snd (mtk_fw_cfg s)) = bt_vendor_cbacks s
     \<and> (\<exists>new. calls (snd (mtk_fw_cfg s)) = calls s @ new \<and> (bt_vendor_cbacks s = None \<longrightarrow> list_all (\<lambda>c. \<not> is_stack_call c) new))"
proof -
  let ?l = "load_bt_conf s"
  have io: "io_only s (snd ?l)" by (rule load_bt_conf_io)
  from io_only_request [OF io] init_device_request [of "fst ?l" CUST_BT_BAUD_RATE CUST_BT_BAUD_RATE 0 "snd ?l"]
  show ?thesis by (auto simp: mtk_fw_cfg_def Let_def split_beta)
qed

lemma mtk_request_step:
  assumes "mtk_request s r t"
  shows "bt_vendor_cbacks t = bt_vendor_cbacks s
     \<and> (\<exists>new. calls t = calls s @ new \<and> (bt_vendor_cbacks s = None \<longrightarrow> list_all (\<lambda>c. \<not> is_stack_call c) new))"
proof -
  have t: "t = snd (snd (mtk_bt_op r s))" using assms by (auto simp: mtk_request_def)
  have "io_only s (snd (mtk_sco_cfg s))" by (auto simp: mtk_sco_cfg_def BT_InitSCO_def Let_def split_beta)
  then show ?thesis unfolding t
    using fw_cfg_request [of s] io_only_request [OF init_uart_io] io_only_request [OF close_uart_io] io_only_request [OF power_io]
      io_only_request
    by (cases r) (simp_all add: mtk_bt_op_def Let_def split_beta)
qed

interpretation mtk_lib: vendor_lib mtk_request calls "\<lambda>s. bt_vendor_cbacks s \<noteq> None"
  by unfold_locales (use mtk_request_step in \<open>auto\<close>)

lemma GetRandomValue_os: "os (snd (GetRandomValue x s)) = os s"
  by (auto simp: GetRandomValue_def random_seed_def sys_open_def sys_read_def sys_close_def Let_def split_beta split: option.split)

lemma bit_GetRandom: "bit (ucast (x AND 0xFE OR 0x02 :: u32) :: u8) 1" "\<not> bit (ucast (x AND 0xFE OR 0x02 :: u32) :: u8) 0"
  by (simp_all add: bit_simps)

lemma GetRandomValue_bytes:
  assumes "length x = 6"
  shows "bit (fst (GetRandomValue x s) ! 0) 1" "\<not> bit (fst (GetRandomValue x s) ! 0) 0"
    "i \<in> {2, 3, 4} \<Longrightarrow> fst (GetRandomValue x s) ! i = x ! i"
  using assms bit_GetRandom by (auto simp: GetRandomValue_def Let_def split_beta)

section \<open>Properties\<close>



text \<open>The generated Bluetooth address.  When the internal configuration still has the default
  address, the library replaces it by one that is locally administered and unicast, differs from the
  default, keeps the vendor's middle bytes and is written to the configuration file; the next start
  with that address uses it as it is and writes nothing.\<close>

theorem mtk_addr_generated:
  assumes "fInternalCfg s" "conf_addr (bt_conf (btinit s)) = conf_addr sDefaultCfg"
    and "\<forall>h. 0 \<le> os_open (os s) h INTERNAL_BT_CFG_FILE O_WRONLY"
    and "t = resolve_bd_addr s" "x = conf_addr (bt_conf (btinit t))"
    and "conf_addr (bt_conf (btinit u)) = x" "\<not> fgetEFUSE u"
  shows "bit (x ! 0) 1 \<and> \<not> bit (x ! 0) 0 \<and> x \<noteq> conf_addr sDefaultCfg
     \<and> x ! 2 = 0x46 \<and> x ! 3 = 0x66 \<and> x ! 4 = 0x22
     \<and> (\<exists>pre fd r. calls t = pre @ [Sys_open INTERNAL_BT_CFG_FILE O_WRONLY fd, Sys_write fd x r, Sys_close fd])
     \<and> btinit (resolve_bd_addr u) = btinit u \<and> calls (resolve_bd_addr u) = calls u"
proof -
  let ?d = "conf_addr sDefaultCfg" and ?g = "GetRandomValue (conf_addr sDefaultCfg) s"
  define v where "v = (snd ?g)\<lparr>btinit := (btinit s)\<lparr>bt_conf := (bt_conf (btinit s))\<lparr>conf_addr := fst ?g\<rparr>\<rparr>\<rparr>"
  have bi: "btinit (snd ?g) = btinit s" by (rule GetRandomValue_host)
  have t: "t = (write_internal_addr v)\<lparr>fgetEFUSE := False, fInternalCfg := False\<rparr>"
    using assms(1,2,4) by (simp add: resolve_bd_addr_def Let_def split_beta v_def bi)
  have x: "x = fst ?g" using assms(5) t by (simp add: write_internal_host v_def)
  have d: "?d = [0x00, 0x00, 0x46, 0x66, 0x22, 0x01]" by (simp add: sDefaultCfg_def)
  then have "length ?d = 6" by simp
  note g = GetRandomValue_bytes [OF this, where s = s]
  have "os v = os s" using GetRandomValue_os by (simp add: v_def)
  moreover have "\<not> os_open (os s) h INTERNAL_BT_CFG_FILE O_WRONLY < 0" for h using assms(3) by (simp add: not_less)
  ultimately have wr: "\<exists>fd r. calls t = calls v @ [Sys_open INTERNAL_BT_CFG_FILE O_WRONLY fd, Sys_write fd x r, Sys_close fd]"
    by (simp add: t x write_internal_addr_def sys_open_def sys_write_def sys_close_def Let_def v_def)
  have "bit (x ! 0) 1" "\<not> bit (x ! 0) 0" "x ! 2 = 0x46" "x ! 3 = 0x66" "x ! 4 = 0x22"
    using g d by (simp_all add: x)
  moreover from this have ne: "x \<noteq> ?d" by (auto simp: d)
  moreover have "btinit (resolve_bd_addr u) = btinit u" "calls (resolve_bd_addr u) = calls u"
    using ne assms(6,7) by (simp_all add: resolve_bd_addr_def Let_def)
  ultimately show ?thesis using wr by blast
qed

theorem mtk_addr_generated_witness:
  "\<exists>s t u x. fInternalCfg s \<and> t = resolve_bd_addr s \<and> x = conf_addr (bt_conf (btinit t))
     \<and> bit (x ! 0) 1 \<and> x \<noteq> conf_addr sDefaultCfg \<and> conf_addr (bt_conf (btinit u)) = x
     \<and> calls (resolve_bd_addr u) = calls u"
proof -
  let ?s = "(mtk_idle None)\<lparr>fInternalCfg := True, os := quiet_os (\<lambda>p. Some [])\<rparr>"
  let ?t = "resolve_bd_addr ?s"
  let ?x = "conf_addr (bt_conf (btinit ?t))"
  let ?u = "(mtk_idle None)\<lparr>fInternalCfg := True, btinit := (btinit (mtk_idle None))\<lparr>bt_conf := sDefaultCfg\<lparr>conf_addr := ?x\<rparr>\<rparr>\<rparr>"
  have "bit (?x ! 0) 1 \<and> \<not> bit (?x ! 0) 0 \<and> ?x \<noteq> conf_addr sDefaultCfg
     \<and> ?x ! 2 = 0x46 \<and> ?x ! 3 = 0x66 \<and> ?x ! 4 = 0x22
     \<and> (\<exists>pre fd r. calls ?t = pre @ [Sys_open INTERNAL_BT_CFG_FILE O_WRONLY fd, Sys_write fd ?x r, Sys_close fd])
     \<and> btinit (resolve_bd_addr ?u) = btinit ?u \<and> calls (resolve_bd_addr ?u) = calls ?u"
    by (rule mtk_addr_generated [OF _ _ _ refl refl]) (simp_all add: mtk_idle_def quiet_os_def)
  then show ?thesis
    by (intro exI [of _ ?s] exI [of _ ?t] exI [of _ ?u] exI [of _ ?x]) simp
qed

text \<open>Precedence of the configuration files, when files can be read.  A custom file of at least the
  size of the structure is used; otherwise the internal file, which may be shorter and then overrides
  the leading bytes of the built-in values; without either the default is used and written to the
  internal file.  The flag that makes the address be generated is raised exactly when the custom file
  was not used.\<close>

theorem mtk_conf_precedence:
  assumes "\<forall>h p. 0 \<le> os_open (os s) h p O_RDONLY \<longleftrightarrow> p \<in> files" "\<forall>h fd. \<not> os_read_err (os s) h fd"
    and "\<forall>h p. 0 \<le> os_open (os s) h p O_WRONLY_CREAT" "\<forall>h fd bs. 0 \<le> os_write (os s) h fd bs" "\<not> fInternalCfg s"
    and "load_bt_conf s = (cfg, t)"
  shows "cfg = (if CUSTOM_BT_CFG_FILE \<in> files \<and> conf_size \<le> length (os_file (os s) CUSTOM_BT_CFG_FILE)
                then conf_fields (take conf_size (os_file (os s) CUSTOM_BT_CFG_FILE))
                else if INTERNAL_BT_CFG_FILE \<in> files
                then conf_memcpy (take conf_size (os_file (os s) INTERNAL_BT_CFG_FILE)) fw_cfg_initial
                else sDefaultCfg)
     \<and> (fInternalCfg t \<longleftrightarrow> \<not> (CUSTOM_BT_CFG_FILE \<in> files \<and> conf_size \<le> length (os_file (os s) CUSTOM_BT_CFG_FILE)))"
proof -
  have opn: "os_open (os s) h p O_RDONLY < 0 \<longleftrightarrow> p \<notin> files" for h p using assms(1) by (simp add: not_le [symmetric])
  have wr: "\<not> os_open (os s) h p O_WRONLY_CREAT < 0" "\<not> os_write (os s) h fd bs < 0" for h p fd bs
    using assms(3,4) by (simp_all add: not_less)
  have all: "put_bytes bs (conf_raw fw_cfg_initial) = bs" if "length bs = conf_size" for bs
    using that length_conf_raw [OF fw_cfg_initial_wf] by (simp add: put_bytes_def)
  define c where "c = load_custom_bt_conf fw_cfg_initial s"
  let ?use = "CUSTOM_BT_CFG_FILE \<in> files \<and> conf_size \<le> length (os_file (os s) CUSTOM_BT_CFG_FILE)"
  have c: "fst c = (if ?use then 0 else -1)" "os (snd (snd c)) = os s" "fInternalCfg (snd (snd c)) = fInternalCfg s"
      "fst (snd c) = (if ?use then conf_fields (take conf_size (os_file (os s) CUSTOM_BT_CFG_FILE)) else fw_cfg_initial)"
    using assms(2) by (auto simp: c_def load_custom_bt_conf_def sys_open_def sys_read_def sys_close_def opn all
        conf_memcpy_def Let_def split_beta)
  define d where "d = load_internal_bt_conf fw_cfg_initial (snd (snd c))"
  have d: "fst d = 0" "fst (snd d) = (if INTERNAL_BT_CFG_FILE \<in> files
      then conf_memcpy (take conf_size (os_file (os s) INTERNAL_BT_CFG_FILE)) fw_cfg_initial else sDefaultCfg)"
    using assms(2) wr by (auto simp: d_def load_internal_bt_conf_def sys_open_def sys_read_def sys_write_def sys_close_def opn c(2)
        Let_def split_beta)
  have "(cfg, t) = (if ?use then (fst (snd c), snd (snd c)) else (fst (snd d), (snd (snd d))\<lparr>fInternalCfg := True\<rparr>))"
    unfolding assms(6) [symmetric] load_bt_conf_def c_def [symmetric] Let_def split_beta using c(1,4) d(1)
    by (auto simp: d_def)
  then show ?thesis using c d assms(5) by auto
qed

theorem mtk_conf_precedence_witness:
  "let s = (mtk_idle None)\<lparr>os := (quiet_os (\<lambda>p. None))\<lparr>os_open := (\<lambda>h p m. if m = O_RDONLY then -1 else 3)\<rparr>\<rparr> in
     fst (load_bt_conf s) = sDefaultCfg \<and> fInternalCfg (snd (load_bt_conf s))"
proof -
  let ?s = "(mtk_idle None)\<lparr>os := (quiet_os (\<lambda>p. None))\<lparr>os_open := (\<lambda>h p m. if m = O_RDONLY then -1 else 3)\<rparr>\<rparr>"
  have "\<forall>h p. 0 \<le> os_open (os ?s) h p O_RDONLY \<longleftrightarrow> p \<in> {}" "\<forall>h fd. \<not> os_read_err (os ?s) h fd"
    "\<forall>h p. 0 \<le> os_open (os ?s) h p O_WRONLY_CREAT" "\<forall>h fd bs. 0 \<le> os_write (os ?s) h fd bs" "\<not> fInternalCfg ?s"
    by (simp_all add: quiet_os_def mtk_idle_def)
  from mtk_conf_precedence [OF this prod.collapse [symmetric]] show ?thesis by (simp add: Let_def)
qed

text \<open>A speed the host cannot set.  For a rate that \<open>uart_speed\<close> does not know,
  \<open>setup_uart_param\<close> reports success and leaves the speed of the port as it was, while the
  controller has been told the new rate; the rates 3250000 and 3200000, for which the controller has
  a code of its own, are such rates.\<close>

theorem mtk_nonstandard_baud:
  assumes "uart_speed b = B57600" "b \<noteq> 57600" "0 \<le> bt_fd s" "\<forall>h fd. \<not> os_tc_err (os s) h fd"
  shows "fst (setup_uart_param b fc s) = 0
     \<and> c_cflag (ttys (snd (setup_uart_param b fc s)) (bt_fd s)) AND CBAUD = c_cflag (ttys s (bt_fd s)) AND CBAUD
     \<and> uart_speed 3250000 = B57600 \<and> uart_speed 3200000 = B57600
     \<and> baud_code 3250000 = (0x0C, [0, 0, 0, 0]) \<and> baud_code 3200000 = (0x0C, [0, 0, 0, 0])"
proof -
  have "setup_uart_param b fc s = (0, tcflush (bt_fd s) (tc_set (bt_fd s) (mtk_flow fc (mtk_raw_line (ttys s (bt_fd s)))) (tcflush (bt_fd s) s)))"
    using assms by (simp add: setup_uart_param_def mtk_tcgetattr_def mtk_tcsetattr_def set_speed_def Let_def tcflush_def)
  moreover have "c_cflag (mtk_flow fc (mtk_raw_line ti)) AND CBAUD = c_cflag ti AND CBAUD" for ti
    by (simp add: mtk_flow_def mtk_raw_line_def cfmakeraw_def Let_def bit.conj_disj_distrib2 and.assoc)
  ultimately show ?thesis using assms(4) by (simp add: tc_set_def tcflush_def uart_speed_def baud_code_def Let_def)
qed

theorem mtk_nonstandard_baud_witness:
  "fst (setup_uart_param 3250000 0 (mtk_idle None)) = 0
     \<and> c_cflag (ttys (snd (setup_uart_param 3250000 0 (mtk_idle None))) 3) AND CBAUD = 0"
  using mtk_nonstandard_baud [of 3250000 "mtk_idle None" 0] by (simp add: uart_speed_def mtk_idle_def quiet_os_def quiet_termios_def)

text \<open>A library that has been cleaned up is silent: whatever the stack requests afterwards, no
  call into the stack is made.\<close>

theorem mtk_quiet_after_cleanup:
  assumes "runs mtk_request (mtk_bt_cleanup s) rs t"
  shows "\<exists>new. calls t = calls s @ new \<and> list_all (\<lambda>c. \<not> is_stack_call c) new"
  using mtk_lib.run_unregistered_quiet [OF assms] by (simp add: mtk_bt_cleanup_def clean_callbacks_def)

theorem mtk_quiet_after_cleanup_witness:
  "let s = mtk_idle None; t = snd (snd (mtk_bt_op BT_VND_OP_SCO_CFG (mtk_bt_cleanup s))) in
     \<exists>new. calls t = calls s @ new \<and> list_all (\<lambda>c. \<not> is_stack_call c) new"
proof -
  let ?s = "mtk_bt_cleanup (mtk_idle None)"
  let ?t = "snd (snd (mtk_bt_op BT_VND_OP_SCO_CFG ?s))"
  have "mtk_request ?s BT_VND_OP_SCO_CFG ?t" unfolding mtk_request_def by (metis prod.collapse)
  then have "runs mtk_request ?s [BT_VND_OP_SCO_CFG] ?t" by (blast intro: runs_cons runs_nil)
  from mtk_quiet_after_cleanup [OF this] show ?thesis by (simp add: Let_def)
qed

end
