(* ===== verification/Wifi_Platform.thy ===== *)
theory Wifi_Platform
  imports Prelude
begin

text \<open>
  The surroundings of the Wi-Fi library \<open>src/wifi/wifi.c\<close>: the system calls, the property service of
  \<open>init\<close>, the kernel's module list and \<open>libwpa_client\<close>.  None of them is code of the library, so they
  are the parameters of \<open>wifi_world\<close>: every call is answered as a function of the history of all calls
  before it, and appended to the history with its result.  A property or the module list may thus
  change between any two calls.  Regular files are explicit state: their content is what was written.

  \<open>TEMP_FAILURE_RETRY\<close> repeats an interrupted call; the model has the final call only.  An operation that
  can access memory outside an object returns \<open>None\<close> where it does.
\<close>

section \<open>Calls\<close>

datatype oflags = RDONLY | WRONLY | RDWR | RDWR_CREAT

datatype wreq =
    Usleep nat | Sched_yield
  | Property_set string string | Property_get string | Property_find string | Property_read string
  | Load_file string | Init_module int string | Wfree int | Delete_module string | Fopen string | Fclose
  | Access string | Stat string | Chmod string nat | Chown string | Unlink string
  | Wmalloc nat | Wopen string oflags | Wread int nat | Wwrite int string | Wclose int
  | Opendir string | Closedir
  | Wpa_ctrl_open string | Wpa_ctrl_close int | Wpa_ctrl_attach int | Wpa_ctrl_request int string
  | Wpa_ctrl_recv int nat | Socketpair | Poll int int
  | Ifc_init | Ifc_close | Do_dhcp string | Get_dhcp_info

type_synonym whist = "(wreq \<times> int) list"

datatype errno = EACCES | ENOENT | EAGAIN | Other_errno

record prop_info =
  pi_value :: string
  pi_serial :: nat

text \<open>\<open>w_ret\<close> is the result of a call; \<open>w_errno\<close> the value of \<open>errno\<close> after the last call of a history.
  \<open>w_props\<close> is the property area, \<open>w_modules\<close> the content of \<open>/proc/modules\<close>, \<open>w_dir\<close> the names in a
  directory, \<open>w_garbage\<close> the content of freshly allocated memory, \<open>w_reply\<close> the bytes the supplicant
  sends, \<open>w_revents\<close> whether \<open>POLLIN\<close> is set for the first and for the second descriptor,
  \<open>w_pair\<close> the descriptors of a \<open>socketpair\<close>.\<close>

record wifi_world =
  w_ret :: "whist \<Rightarrow> wreq \<Rightarrow> int"
  w_errno :: "whist \<Rightarrow> errno"
  w_props :: "whist \<Rightarrow> string \<Rightarrow> prop_info option"
  w_modules :: "whist \<Rightarrow> string"
  w_dir :: "whist \<Rightarrow> string list"
  w_garbage :: "whist \<Rightarrow> nat \<Rightarrow> string"
  w_reply :: "whist \<Rightarrow> string"
  w_revents :: "whist \<Rightarrow> bool \<times> bool"
  w_pair :: "whist \<Rightarrow> int \<times> int"

text \<open>The build's configuration of the library (\<open>wifi.mk\<close> and \<open>wifi.c\<close>): the driver module,
  its arguments, the firmware loader service and the firmware paths (\<open>None\<close> for \<open>NULL\<close>).\<close>

record wifi_build =
  DRIVER_MODULE_NAME :: string
  DRIVER_MODULE_PATH :: string
  DRIVER_MODULE_ARG :: string
  FIRMWARE_LOADER :: string
  FW_PATH_STA :: "string option"
  FW_PATH_AP :: "string option"
  FW_PATH_P2P :: "string option"
  FW_PATH_PARAM :: string
  SUPP_ENTROPY_FILE :: string
  CLIENT_DIR :: string
  CLIENT_PREFIX :: string

datatype conn_index = PRIMARY | SECONDARY

text \<open>The static variables of the library, the files and the open descriptors (path and offset).  A
  \<open>struct wpa_ctrl *\<close> is an \<open>int\<close>, \<open>0\<close> being \<open>NULL\<close>.\<close>

record wifi_st =
  world :: wifi_world
  build :: wifi_build
  hist :: whist
  files :: "string \<Rightarrow> string option"
  wfds :: "int \<Rightarrow> (string \<times> nat) option"
  ctrl_conn :: "conn_index \<Rightarrow> int"
  monitor_conn :: "conn_index \<Rightarrow> int"
  exit_sockets :: "conn_index \<Rightarrow> int \<times> int"
  primary_iface :: string
  supplicant_name :: string
  supplicant_prop_name :: string

definition syscall :: "wreq \<Rightarrow> wifi_st \<Rightarrow> int \<times> wifi_st" where
  "syscall r s = (let v = w_ret (world s) (hist s) r in (v, s\<lparr>hist := hist s @ [(r, v)]\<rparr>))"

text \<open>A call whose result the code ignores.\<close>

definition docall :: "wreq \<Rightarrow> wifi_st \<Rightarrow> wifi_st" where
  "docall r s = snd (syscall r s)"

definition get_errno :: "wifi_st \<Rightarrow> errno" where
  "get_errno s = w_errno (world s) (hist s)"

text \<open>\<open>property_get(key, value, default)\<close>: an empty property counts as unset; without a default the
  value is the empty string.  The result of the C function is the length of the value.\<close>

definition prop_value :: "wifi_st \<Rightarrow> string \<Rightarrow> string" where
  "prop_value s key = (case w_props (world s) (hist s) key of None \<Rightarrow> [] | Some i \<Rightarrow> pi_value i)"

definition wproperty_get :: "string \<Rightarrow> string \<Rightarrow> wifi_st \<Rightarrow> string \<times> wifi_st" where
  "wproperty_get key dflt s =
     (let v = prop_value s key in (if v = [] then dflt else v, docall (Property_get key) s))"

section \<open>Files\<close>

text \<open>\<open>open\<close> fails when the system says so and when the file is absent and not to be created.\<close>

definition wopen :: "string \<Rightarrow> oflags \<Rightarrow> wifi_st \<Rightarrow> int \<times> wifi_st" where
  "wopen path m s =
     (let (fd, s1) = syscall (Wopen path m) s in
      if fd < 0 \<or> (files s path = None \<and> m \<noteq> RDWR_CREAT) then (-1, s1)
      else (fd, s1\<lparr>wfds := (wfds s)(fd \<mapsto> (path, 0)),
                   files := (files s)(path \<mapsto> (case files s path of None \<Rightarrow> [] | Some c \<Rightarrow> c))\<rparr>))"

text \<open>\<open>read\<close> of at most \<open>n\<close> bytes; \<open>None\<close> for an error.\<close>

definition wread :: "int \<Rightarrow> nat \<Rightarrow> wifi_st \<Rightarrow> string option \<times> wifi_st" where
  "wread fd n s =
     (let (r, s1) = syscall (Wread fd n) s in
      if r < 0 then (None, s1)
      else case wfds s fd of
             None \<Rightarrow> (None, s1)
           | Some (path, pos) \<Rightarrow>
               let bs = take n (drop pos (case files s path of None \<Rightarrow> [] | Some c \<Rightarrow> c))
               in (Some bs, s1\<lparr>wfds := (wfds s)(fd \<mapsto> (path, pos + length bs))\<rparr>))"

text \<open>\<open>write\<close>: the system may accept only a part of the bytes; these overwrite the file from the
  descriptor's offset.\<close>

definition overwrite :: "nat \<Rightarrow> string \<Rightarrow> string \<Rightarrow> string" where
  "overwrite pos bs c = take pos c @ bs @ drop (pos + length bs) c"

definition wwrite :: "int \<Rightarrow> string \<Rightarrow> wifi_st \<Rightarrow> int \<times> wifi_st" where
  "wwrite fd bs s =
     (let (r, s1) = syscall (Wwrite fd bs) s in
      case wfds s fd of
        None \<Rightarrow> (r, s1)
      | Some (path, pos) \<Rightarrow>
          let out = take (nat r) bs in
          (r, s1\<lparr>files := (files s)(path := map_option (overwrite pos out) (files s path)),
                 wfds := (wfds s)(fd \<mapsto> (path, pos + length out))\<rparr>))"

definition wclose :: "int \<Rightarrow> wifi_st \<Rightarrow> wifi_st" where
  "wclose fd s = (docall (Wclose fd) s)\<lparr>wfds := (wfds s)(fd := None)\<rparr>"

definition wunlink :: "string \<Rightarrow> wifi_st \<Rightarrow> wifi_st" where
  "wunlink path s =
     (let (r, s1) = syscall (Unlink path) s in if r < 0 then s1 else s1\<lparr>files := (files s)(path := None)\<rparr>)"

section \<open>C strings in memory, and waiting\<close>

text \<open>\<open>strncmp(s, t, strlen(t)) == 0\<close> for two C strings is \<open>is_prefix t s\<close>.  The C string at
  the start of a memory area: \<open>None\<close> when the area has no zero byte.\<close>

definition c_str :: "string \<Rightarrow> string option" where
  "c_str mem = (if CHR 0x00 \<in> set mem then Some (takeWhile (\<lambda>c. c \<noteq> CHR 0x00) mem) else None)"

text \<open>The waiting loops of the library: \<open>while (count-- > 0) { check; usleep(us); }\<close>, where \<open>check\<close> may
  return from the function.\<close>

primrec poll_until :: "nat \<Rightarrow> nat \<Rightarrow> (wifi_st \<Rightarrow> 'r option \<times> wifi_st) \<Rightarrow> wifi_st \<Rightarrow> 'r option \<times> wifi_st" where
  "poll_until 0 us check s = (None, s)"
| "poll_until (Suc n) us check s =
     (case check s of
        (Some r, s') \<Rightarrow> (Some r, s')
      | (None, s') \<Rightarrow> poll_until n us check (docall (Usleep us) s'))"

section \<open>The state at start, and concrete surroundings\<close>

text \<open>C initialises the static variables with zero, the descriptors in \<open>exit_sockets\<close> too.\<close>

definition wifi_boot :: "wifi_world \<Rightarrow> wifi_build \<Rightarrow> (string \<Rightarrow> string option) \<Rightarrow> wifi_st" where
  "wifi_boot w b fs = \<lparr>world = w, build = b, hist = [], files = fs, wfds = (\<lambda>fd. None),
     ctrl_conn = (\<lambda>i. 0), monitor_conn = (\<lambda>i. 0), exit_sockets = (\<lambda>i. (0, 0)),
     primary_iface = [], supplicant_name = [], supplicant_prop_name = []\<rparr>"

text \<open>Surroundings for concrete runs, in which every call succeeds.  A property has its initial value
  until it is set; \<open>ctl.start\<close> and \<open>ctl.stop\<close> set the state of the named service.\<close>

definition set_prop :: "string \<Rightarrow> string \<Rightarrow> (string \<Rightarrow> prop_info option) \<Rightarrow> string \<Rightarrow> prop_info option" where
  "set_prop k v m = m(k \<mapsto> \<lparr>pi_value = v, pi_serial = (case m k of None \<Rightarrow> 0 | Some i \<Rightarrow> pi_serial i + 1)\<rparr>)"

fun prop_step :: "(string \<Rightarrow> prop_info option) \<Rightarrow> wreq \<times> int \<Rightarrow> string \<Rightarrow> prop_info option" where
  "prop_step m (Property_set k v, r) =
     (if k = ''ctl.start'' then set_prop (''init.svc.'' @ v) ''running'' m
      else if k = ''ctl.stop'' then set_prop (''init.svc.'' @ v) ''stopped'' m
      else set_prop k v m)"
| "prop_step m c = m"

fun quiet_ret :: "whist \<Rightarrow> wreq \<Rightarrow> int" where
  "quiet_ret h (Load_file p) = 1"
| "quiet_ret h (Fopen p) = 1"
| "quiet_ret h (Wopen p m) = int (length h) + 3"
| "quiet_ret h (Wwrite fd bs) = int (length bs)"
| "quiet_ret h (Wpa_ctrl_open p) = int (length h) + 1"
| "quiet_ret h (Wmalloc n) = 1"
| "quiet_ret h (Opendir p) = 1"
| "quiet_ret h _ = 0"

definition quiet_world :: "(string \<Rightarrow> prop_info option) \<Rightarrow> string \<Rightarrow> wifi_world" where
  "quiet_world props modules = \<lparr>w_ret = quiet_ret, w_errno = (\<lambda>h. Other_errno),
     w_props = (\<lambda>h. foldl prop_step props h), w_modules = (\<lambda>h. modules), w_dir = (\<lambda>h. []),
     w_garbage = (\<lambda>h n. replicate n CHR 0x00), w_reply = (\<lambda>h. ''OK''), w_revents = (\<lambda>h. (False, True)),
     w_pair = (\<lambda>h. (int (length h) + 3, int (length h) + 4))\<rparr>"

section \<open>Facts\<close>

lemma wifi_boot_simps [simp]:
  "world (wifi_boot w b fs) = w" "build (wifi_boot w b fs) = b" "hist (wifi_boot w b fs) = []"
  "files (wifi_boot w b fs) = fs" "wfds (wifi_boot w b fs) = (\<lambda>fd. None)"
  "ctrl_conn (wifi_boot w b fs) = (\<lambda>i. 0)" "monitor_conn (wifi_boot w b fs) = (\<lambda>i. 0)"
  "exit_sockets (wifi_boot w b fs) = (\<lambda>i. (0, 0))" "primary_iface (wifi_boot w b fs) = []"
  "supplicant_name (wifi_boot w b fs) = []" "supplicant_prop_name (wifi_boot w b fs) = []"
  by (simp_all add: wifi_boot_def)

lemma quiet_world_simps [simp]:
  "w_ret (quiet_world m ms) = quiet_ret" "w_errno (quiet_world m ms) h = Other_errno"
  "w_props (quiet_world m ms) h = foldl prop_step m h" "w_modules (quiet_world m ms) h = ms"
  "w_dir (quiet_world m ms) h = []" "w_garbage (quiet_world m ms) h n = replicate n CHR 0x00"
  "w_reply (quiet_world m ms) h = ''OK''" "w_revents (quiet_world m ms) h = (False, True)"
  "w_pair (quiet_world m ms) h = (int (length h) + 3, int (length h) + 4)"
  by (simp_all add: quiet_world_def)

lemma prop_steps_other:
  assumes "\<And>v r. (Property_set k v, r) \<notin> set h" "take 9 k \<noteq> ''init.svc.''"
  shows "foldl prop_step m h k = m k"
  using assms(1)
proof (induction h rule: rev_induct)
  case (snoc c h)
  have "k \<noteq> ''init.svc.'' @ v" for v using assms(2) by auto
  moreover obtain r v where "c = (r, v)" by fastforce
  ultimately show ?case using snoc by (cases r) (auto simp: set_prop_def)
qed simp

lemma quiet_world_stored:
  assumes "\<forall>v' r'. (Property_set k v', r') \<notin> set h'" "take 9 k \<noteq> ''init.svc.''" "take 4 k \<noteq> ''ctl.''"
  shows "map_option pi_value (w_props (quiet_world m mods) (h @ (Property_set k v, r) # h') k) = Some v"
proof -
  have "k \<noteq> ''ctl.start''" "k \<noteq> ''ctl.stop''" using assms(3) by auto
  then show ?thesis using assms by (simp add: prop_steps_other) (simp add: set_prop_def)
qed

named_theorems wcall_simps \<open>unfolding of the calls that keep the library's variables\<close>

lemma syscall_simps [simp]:
  "fst (syscall r s) = w_ret (world s) (hist s) r"
  "hist (snd (syscall r s)) = hist s @ [(r, w_ret (world s) (hist s) r)]"
  "world (snd (syscall r s)) = world s" "build (snd (syscall r s)) = build s"
  "files (snd (syscall r s)) = files s" "wfds (snd (syscall r s)) = wfds s"
  "ctrl_conn (snd (syscall r s)) = ctrl_conn s" "monitor_conn (snd (syscall r s)) = monitor_conn s"
  "exit_sockets (snd (syscall r s)) = exit_sockets s" "primary_iface (snd (syscall r s)) = primary_iface s"
  "supplicant_name (snd (syscall r s)) = supplicant_name s"
  "supplicant_prop_name (snd (syscall r s)) = supplicant_prop_name s"
  by (simp_all add: syscall_def Let_def)

lemma docall_simps [simp]:
  "hist (docall r s) = hist s @ [(r, w_ret (world s) (hist s) r)]"
  "world (docall r s) = world s" "build (docall r s) = build s"
  "files (docall r s) = files s" "wfds (docall r s) = wfds s"
  "ctrl_conn (docall r s) = ctrl_conn s" "monitor_conn (docall r s) = monitor_conn s"
  "exit_sockets (docall r s) = exit_sockets s" "primary_iface (docall r s) = primary_iface s"
  "supplicant_name (docall r s) = supplicant_name s"
  "supplicant_prop_name (docall r s) = supplicant_prop_name s"
  by (simp_all add: docall_def)

lemma syscall_pair: "syscall r s = (w_ret (world s) (hist s) r, docall r s)"
  by (simp add: docall_def syscall_def Let_def)

lemma wproperty_get_pair:
  "wproperty_get key dflt s =
     (if prop_value s key = [] then dflt else prop_value s key, docall (Property_get key) s)"
  by (simp add: wproperty_get_def Let_def)

lemmas [wcall_simps] = syscall_pair wproperty_get_pair

lemma is_prefix_append_long: "length n \<le> length w \<Longrightarrow> is_prefix n (w @ z) \<longleftrightarrow> is_prefix n w"
  by (induction n w rule: is_prefix.induct) auto

lemma overwrite_end: "overwrite (length c) bs c = c @ bs"
  by (simp add: overwrite_def)

lemma c_str_append: "CHR 0x00 \<notin> set a \<Longrightarrow> c_str (a @ CHR 0x00 # b) = Some a"
  by (auto simp: c_str_def takeWhile_append)

text \<open>What a waiting loop does: either \<open>check\<close> returned in one of the rounds, or every round ended
  with a pause.  \<open>poll_states\<close> is the state in which round \<open>k\<close> begins when no earlier round
  returned.\<close>

primrec poll_states :: "nat \<Rightarrow> (wifi_st \<Rightarrow> 'r option \<times> wifi_st) \<Rightarrow> wifi_st \<Rightarrow> nat \<Rightarrow> wifi_st" where
  "poll_states us check s 0 = s"
| "poll_states us check s (Suc k) = docall (Usleep us) (snd (check (poll_states us check s k)))"

lemma poll_states_shift:
  "poll_states us check (docall (Usleep us) (snd (check s))) k = poll_states us check s (Suc k)"
  by (induction k) auto

lemma poll_until_first:
  assumes "k < n" "\<And>j. j < k \<Longrightarrow> fst (check (poll_states us check s j)) = None"
    "fst (check (poll_states us check s k)) = Some r"
  shows "poll_until n us check s = (Some r, snd (check (poll_states us check s k)))"
  using assms
proof (induction k arbitrary: n s)
  case 0
  then show ?case by (cases n) (auto split: prod.splits)
next
  case (Suc k)
  obtain m where n: "n = Suc m" using Suc.prems(1) by (cases n) auto
  obtain s' where first: "check s = (None, s')" using Suc.prems(2) [of 0] by (cases "check s") auto
  have "poll_until m us check (docall (Usleep us) (snd (check s)))
      = (Some r, snd (check (poll_states us check s (Suc k))))"
    unfolding poll_states_shift [symmetric]
  proof (rule Suc.IH)
    show "k < m" using Suc.prems(1) n by simp
  next
    fix j assume "j < k"
    then show "fst (check (poll_states us check (docall (Usleep us) (snd (check s))) j)) = None"
      unfolding poll_states_shift using Suc.prems(2) [of "Suc j"] by simp
  qed (use Suc.prems(3) in \<open>simp only: poll_states_shift\<close>)
  then show ?case using first by (simp add: n)
qed

lemma poll_until_never:
  "(\<And>j. j < n \<Longrightarrow> fst (check (poll_states us check s j)) = None) \<Longrightarrow>
     poll_until n us check s = (None, poll_states us check s n)"
proof (induction n arbitrary: s)
  case (Suc n)
  obtain s' where first: "check s = (None, s')" using Suc.prems [of 0] by (cases "check s") auto
  have "poll_until n us check (docall (Usleep us) (snd (check s))) = (None, poll_states us check s (Suc n))"
    unfolding poll_states_shift [symmetric]
    by (rule Suc.IH) (use Suc.prems [of "Suc _"] in \<open>simp only: poll_states_shift Suc_less_eq\<close>)
  then show ?case using first by simp
qed simp

text \<open>A property of all states that the check and a pause keep holds at the end of the loop.\<close>

lemma poll_until_preserves:
  assumes "\<And>s. P s \<Longrightarrow> P (snd (check s))" "\<And>s. P s \<Longrightarrow> P (docall (Usleep us) s)"
  shows "P s \<Longrightarrow> P (snd (poll_until n us check s))"
proof (induction n arbitrary: s)
  case (Suc n)
  show ?case
    using Suc.IH [OF assms(2) [OF assms(1) [OF Suc.prems]]] assms(1) [OF Suc.prems]
    by (auto split: prod.splits option.splits)
qed simp

section \<open>Frames\<close>

text \<open>Most operations have nothing to do with the connections to the supplicant: they add calls to the
  history, none of which opens or closes a connection, and keep the variables of the connections and
  the names of the service.\<close>

fun neutral :: "wreq \<Rightarrow> bool" where
  "neutral (Wpa_ctrl_open p) = False"
| "neutral (Wpa_ctrl_close h) = False"
| "neutral _ = True"

definition frame :: "wifi_st \<Rightarrow> wifi_st \<Rightarrow> bool" where
  "frame s t \<longleftrightarrow> (\<exists>new. hist t = hist s @ new \<and> list_all (\<lambda>c. neutral (fst c)) new) \<and> world t = world s \<and>
     build t = build s \<and> ctrl_conn t = ctrl_conn s \<and> monitor_conn t = monitor_conn s \<and>
     supplicant_name t = supplicant_name s \<and> supplicant_prop_name t = supplicant_prop_name s"

named_theorems frame_intros

lemma frame_refl [frame_intros]: "frame s s"
  by (simp add: frame_def)

lemma frame_trans: "frame s t \<Longrightarrow> frame t u \<Longrightarrow> frame s u"
  by (auto simp: frame_def)

lemma frame_docall [frame_intros]: "frame s t \<Longrightarrow> neutral r \<Longrightarrow> frame s (docall r t)"
  by (auto simp: frame_def)

text \<open>A step that keeps the frame, behind another one.\<close>

lemma frame_step: "(\<And>s. frame s (f s)) \<Longrightarrow> frame s t \<Longrightarrow> frame s (f t)"
  by (blast intro: frame_trans)

lemma frame_updates [frame_intros]:
  "frame s t \<Longrightarrow> frame s (t\<lparr>files := fs\<rparr>)" "frame s t \<Longrightarrow> frame s (t\<lparr>wfds := ds\<rparr>)"
  "frame s t \<Longrightarrow> frame s (t\<lparr>exit_sockets := es\<rparr>)" "frame s t \<Longrightarrow> frame s (t\<lparr>primary_iface := x\<rparr>)"
  by (simp_all add: frame_def)

lemma frame_poll_until:
  assumes "\<And>s. frame s (snd (check s))"
  shows "frame s t \<Longrightarrow> frame s (snd (poll_until n us check t))"
  using assms by (intro poll_until_preserves [where P = "frame s"]) (auto intro: frame_trans frame_docall)

lemma frame_wopen [frame_intros]: "frame s t \<Longrightarrow> frame s (snd (wopen p m t))"
  by (auto simp: wopen_def wcall_simps intro!: frame_intros)

lemma frame_wread [frame_intros]: "frame s t \<Longrightarrow> frame s (snd (wread fd n t))"
  by (auto simp: wread_def wcall_simps Let_def intro!: frame_intros split: option.splits)

lemma frame_wwrite [frame_intros]: "frame s t \<Longrightarrow> frame s (snd (wwrite fd bs t))"
  by (auto simp: wwrite_def wcall_simps Let_def intro!: frame_intros split: option.splits)

lemma frame_wclose [frame_intros]: "frame s t \<Longrightarrow> frame s (wclose fd t)"
  by (auto simp: wclose_def intro!: frame_intros)

lemma frame_wunlink [frame_intros]: "frame s t \<Longrightarrow> frame s (wunlink p t)"
  by (auto simp: wunlink_def wcall_simps intro!: frame_intros)

end
