(* ===== verification/Wifi_Driver.thy ===== *)
theory Wifi_Driver
  imports Wifi_Platform
begin

text \<open>
  Loading and unloading of the Wi-Fi kernel driver by \<open>src/wifi/wifi.c\<close>: \<open>insmod\<close>, \<open>rmmod\<close>, the test
  whether the driver is loaded, \<open>wifi_load_driver\<close>, \<open>wifi_unload_driver\<close>, the DHCP request and the
  firmware path.  The library is built with \<open>WIFI_DRIVER_MODULE_PATH\<close> (\<open>wifi.mk\<close>).
\<close>

section \<open>The operations\<close>

definition WIFI_TEST_INTERFACE :: string where "WIFI_TEST_INTERFACE = ''sta''"
definition DRIVER_PROP_NAME :: string where "DRIVER_PROP_NAME = ''wlan.driver.status''"
definition MODULE_FILE :: string where "MODULE_FILE = ''/proc/modules''"

definition DRIVER_MODULE_TAG :: "wifi_build \<Rightarrow> string" where
  "DRIVER_MODULE_TAG b = DRIVER_MODULE_NAME b @ '' ''"

text \<open>The build of the board: \<open>BOARD_WIFI_VENDOR\<close> is \<open>realtek\<close>.  The name of the entropy file is defined
  in a header of \<open>libhardware_legacy\<close>, which is not part of the repository.\<close>

definition board_build :: "string \<Rightarrow> wifi_build" where
  "board_build entropy_file = \<lparr>DRIVER_MODULE_NAME = ''wlan'', DRIVER_MODULE_PATH = ''/misc/modules/wlan.ko'',
     DRIVER_MODULE_ARG = ''ifname=wlan0 if2name=p2p0'', FIRMWARE_LOADER = [],
     FW_PATH_STA = Some [], FW_PATH_AP = Some [], FW_PATH_P2P = Some [], FW_PATH_PARAM = [],
     SUPP_ENTROPY_FILE = entropy_file, CLIENT_DIR = ''/data/misc/wifi/sockets'',
     CLIENT_PREFIX = ''wpa_ctrl_''\<rparr>"

definition insmod :: "string \<Rightarrow> string \<Rightarrow> wifi_st \<Rightarrow> int \<times> wifi_st" where
  "insmod filename args s =
     (let (module, s1) = syscall (Load_file filename) s in
      if module = 0 then (-1, s1)
      else let (ret, s2) = syscall (Init_module module args) s1 in (ret, docall (Wfree module) s2))"

primrec rmmod_loop :: "nat \<Rightarrow> string \<Rightarrow> int \<Rightarrow> wifi_st \<Rightarrow> int \<times> wifi_st" where
  "rmmod_loop 0 modname ret s = (ret, s)"
| "rmmod_loop (Suc n) modname ret s =
     (let (r, s1) = syscall (Delete_module modname) s in
      if r < 0 \<and> get_errno s1 = EAGAIN then rmmod_loop n modname r (docall (Usleep 500000) s1)
      else (r, s1))"

definition rmmod :: "string \<Rightarrow> wifi_st \<Rightarrow> int \<times> wifi_st" where
  "rmmod modname s = rmmod_loop 10 modname (-1) s"

definition do_dhcp_request :: "wifi_st \<Rightarrow> int \<times> wifi_st" where
  "do_dhcp_request s =
     (if primary_iface s = WIFI_TEST_INTERFACE then (0, s)
      else let (r, s1) = syscall Ifc_init s in
        if r < 0 then (-1, s1)
        else let (d, s2) = syscall (Do_dhcp (primary_iface s)) s1 in
          if d < 0 then (-1, docall Ifc_close s2)
          else (0, docall Get_dhcp_info (docall Ifc_close s2)))"

text \<open>The loop over the lines of \<open>/proc/modules\<close>, with room for \<open>n\<close> characters in the line buffer.\<close>

function scan_modules :: "nat \<Rightarrow> string \<Rightarrow> string \<Rightarrow> bool" where
  "scan_modules n tag cs =
     (if n = 0 \<or> cs = [] then False
      else is_prefix tag (fst (fgets n cs)) \<or> scan_modules n tag (snd (fgets n cs)))"
  by pat_completeness auto
termination by (relation "measure (\<lambda>(n, tag, cs). length cs)") (auto intro: fgets_shorter)

declare scan_modules.simps [simp del]

definition is_wifi_driver_loaded :: "wifi_st \<Rightarrow> int \<times> wifi_st" where
  "is_wifi_driver_loaded s =
     (let (driver_status, s1) = wproperty_get DRIVER_PROP_NAME [] s;
          tag = DRIVER_MODULE_TAG (build s) in
      if driver_status = [] \<or> driver_status \<noteq> ''ok'' then (0, s1)
      else let (proc, s2) = syscall (Fopen MODULE_FILE) s1 in
        if proc = 0 then (0, docall (Property_set DRIVER_PROP_NAME ''unloaded'') s2)
        else let s3 = docall Fclose s2 in
          if scan_modules (length tag + 10) tag (w_modules (world s2) (hist s2)) then (1, s3)
          else (0, docall (Property_set DRIVER_PROP_NAME ''unloaded'') s3))"

text \<open>The waiting loop of \<open>wifi_unload_driver\<close>, with the value of \<open>count\<close> after the loop: the test
  \<open>count-- > 0\<close> that ends the loop leaves \<open>-1\<close>.\<close>

primrec unload_wait :: "nat \<Rightarrow> wifi_st \<Rightarrow> int \<times> wifi_st" where
  "unload_wait 0 s = (-1, s)"
| "unload_wait (Suc n) s =
     (let (loaded, s1) = is_wifi_driver_loaded s in
      if loaded = 0 then (int n, s1) else unload_wait n (docall (Usleep 500000) s1))"

definition wifi_unload_driver :: "wifi_st \<Rightarrow> int \<times> wifi_st" where
  "wifi_unload_driver s =
     (let s1 = docall (Usleep 200000) s;
          (r, s2) = rmmod (DRIVER_MODULE_NAME (build s)) s1 in
      if r = 0
      then let (count, s3) = unload_wait 20 s2; s4 = docall (Usleep 500000) s3
           in (if count \<noteq> 0 then (0, s4) else (-1, s4))
      else (-1, s2))"

text \<open>One round of the waiting loop of \<open>wifi_load_driver\<close>.  The second comparison is of the
  property's name, as in the source.\<close>

definition load_check :: "wifi_st \<Rightarrow> int option \<times> wifi_st" where
  "load_check s =
     (let (driver_status, s1) = wproperty_get DRIVER_PROP_NAME [] s in
      if driver_status \<noteq> [] then
        if driver_status = ''ok'' then (Some 0, s1)
        else if DRIVER_PROP_NAME = ''failed'' then (Some (-1), snd (wifi_unload_driver s1))
        else (None, s1)
      else (None, s1))"

definition wifi_load_driver :: "wifi_st \<Rightarrow> int \<times> wifi_st" where
  "wifi_load_driver s =
     (let (loaded, s1) = is_wifi_driver_loaded s in
      if loaded \<noteq> 0 then (0, s1)
      else let (r, s2) = insmod (DRIVER_MODULE_PATH (build s)) (DRIVER_MODULE_ARG (build s)) s1 in
        if r < 0 then (-1, s2)
        else
          let s3 = (if FIRMWARE_LOADER (build s) = [] then docall (Property_set DRIVER_PROP_NAME ''ok'') s2
                    else docall (Property_set ''ctl.start'' (FIRMWARE_LOADER (build s))) s2);
              (res, s4) = poll_until 100 200000 load_check (docall Sched_yield s3) in
          case res of
            Some v \<Rightarrow> (v, s4)
          | None \<Rightarrow> (-1, snd (wifi_unload_driver (docall (Property_set DRIVER_PROP_NAME ''timeout'') s4))))"

datatype fw_type = WIFI_GET_FW_PATH_STA | WIFI_GET_FW_PATH_AP | WIFI_GET_FW_PATH_P2P | Other_fw_type

fun wifi_get_fw_path :: "wifi_build \<Rightarrow> fw_type \<Rightarrow> string option" where
  "wifi_get_fw_path b WIFI_GET_FW_PATH_STA = FW_PATH_STA b"
| "wifi_get_fw_path b WIFI_GET_FW_PATH_AP = FW_PATH_AP b"
| "wifi_get_fw_path b WIFI_GET_FW_PATH_P2P = FW_PATH_P2P b"
| "wifi_get_fw_path b Other_fw_type = None"

definition wifi_change_fw_path :: "string option \<Rightarrow> wifi_st \<Rightarrow> int \<times> wifi_st" where
  "wifi_change_fw_path fwpath s =
     (case fwpath of
        None \<Rightarrow> (0, s)
      | Some p \<Rightarrow>
          let (fd, s1) = wopen (FW_PATH_PARAM (build s)) WRONLY s in
          if fd < 0 then (-1, s1)
          else let out = p @ [CHR 0x00]; (n, s2) = wwrite fd out s1
               in (if n \<noteq> int (length out) then -1 else 0, wclose fd s2))"

section \<open>Is the driver loaded?\<close>

lemma scan_after_line:
  "LF \<notin> set l \<Longrightarrow> 0 < n \<Longrightarrow> scan_modules n tag rest \<Longrightarrow> scan_modules n tag (l @ LF # rest)"
proof (induction "length l" arbitrary: l rule: less_induct)
  case less
  show ?case
  proof (cases "length l < n")
    case True
    then show ?thesis using less.prems by (subst scan_modules.simps) (simp add: fgets_line)
  next
    case False
    have "scan_modules n tag (drop n l @ LF # rest)"
      using False less.prems by (intro less.hyps) (auto dest: in_set_dropD)
    then show ?thesis using less.prems False
      by (subst scan_modules.simps) (simp add: fgets_long_line)
  qed
qed

lemma scan_first_line:
  assumes "LF \<notin> set l" "is_prefix tag l" "length tag < n"
  shows "scan_modules n tag (l @ LF # rest)"
proof -
  obtain z where l: "l = tag @ z" using assms(2) by (auto simp: is_prefix_iff)
  have "is_prefix tag (fst (fgets n (l @ LF # rest)))"
  proof (cases "length l < n")
    case True
    show ?thesis unfolding fgets_line [OF assms(1) True] by (simp add: is_prefix_iff l)
  next
    case False
    then have "n \<le> length l" by simp
    from fgets_long_line [OF assms(1) this] show ?thesis using assms(3) by (simp add: is_prefix_iff) (simp add: l)
  qed
  then show ?thesis using assms(3) by (subst scan_modules.simps) simp
qed

lemma scan_finds_line:
  assumes "\<And>l. l \<in> set ls \<Longrightarrow> CHR 0x0A \<notin> set l" "l \<in> set ls" "is_prefix tag l" "length tag < n"
  shows "scan_modules n tag (concat (map (\<lambda>l. l @ [CHR 0x0A]) ls))"
  using assms
proof (induction ls)
  case (Cons k ls)
  show ?case
  proof (cases "l = k")
    case True
    then show ?thesis using scan_first_line [of k tag n] Cons.prems by simp
  next
    case False
    then have "scan_modules n tag (concat (map (\<lambda>l. l @ [CHR 0x0A]) ls))"
      using Cons.prems by (intro Cons.IH) auto
    then show ?thesis using scan_after_line [of k n tag] Cons.prems(1,4) by simp
  qed
qed simp

text \<open>The outcome of the test, by what the three observations show.\<close>

lemma is_wifi_driver_loaded_cases:
  "is_wifi_driver_loaded s =
     (let s1 = docall (Property_get DRIVER_PROP_NAME) s; s2 = docall (Fopen MODULE_FILE) s1;
          s3 = docall Fclose s2; tag = DRIVER_MODULE_TAG (build s) in
      if prop_value s DRIVER_PROP_NAME \<noteq> ''ok'' then (0, s1)
      else if w_ret (world s) (hist s1) (Fopen MODULE_FILE) = 0
        then (0, docall (Property_set DRIVER_PROP_NAME ''unloaded'') s2)
      else if scan_modules (length tag + 10) tag (w_modules (world s) (hist s2)) then (1, s3)
      else (0, docall (Property_set DRIVER_PROP_NAME ''unloaded'') s3))"
  by (auto simp: is_wifi_driver_loaded_def wcall_simps Let_def split: prod.splits)

lemma is_wifi_driver_loaded_result: "fst (is_wifi_driver_loaded s) = 0 \<or> fst (is_wifi_driver_loaded s) = 1"
  by (simp add: is_wifi_driver_loaded_cases Let_def)

lemma is_wifi_driver_loaded_keeps [simp]:
  "world (snd (is_wifi_driver_loaded s)) = world s" "build (snd (is_wifi_driver_loaded s)) = build s"
  by (simp_all add: is_wifi_driver_loaded_cases Let_def)

section \<open>Unloading\<close>

text \<open>The state in which round \<open>k\<close> of the waiting loop begins while the driver is still loaded.\<close>

primrec unload_states :: "wifi_st \<Rightarrow> nat \<Rightarrow> wifi_st" where
  "unload_states s 0 = s"
| "unload_states s (Suc k) = docall (Usleep 500000) (snd (is_wifi_driver_loaded (unload_states s k)))"

lemma unload_states_shift:
  "unload_states (docall (Usleep 500000) (snd (is_wifi_driver_loaded s))) k = unload_states s (Suc k)"
  by (induction k) auto

lemma unload_wait_first:
  "k < n \<Longrightarrow> (\<And>j. j < k \<Longrightarrow> fst (is_wifi_driver_loaded (unload_states s j)) \<noteq> 0) \<Longrightarrow>
     fst (is_wifi_driver_loaded (unload_states s k)) = 0 \<Longrightarrow> fst (unload_wait n s) = int (n - 1 - k)"
proof (induction n arbitrary: s k)
  case (Suc n)
  show ?case
  proof (cases k)
    case 0
    then show ?thesis using Suc.prems by (auto simp: split: prod.splits)
  next
    case (Suc k')
    have "fst (unload_wait n (docall (Usleep 500000) (snd (is_wifi_driver_loaded s)))) = int (n - 1 - k')"
      using Suc.prems Suc Suc.prems(2) [of "Suc _"]
      by (intro Suc.IH) (simp_all only: unload_states_shift Suc_less_eq)
    then show ?thesis using Suc.prems(2) [of 0] Suc by (auto split: prod.splits)
  qed
qed simp

lemma unload_wait_never:
  "(\<And>j. j < n \<Longrightarrow> fst (is_wifi_driver_loaded (unload_states s j)) \<noteq> 0) \<Longrightarrow> fst (unload_wait n s) = -1"
proof (induction n arbitrary: s)
  case (Suc n)
  have "fst (unload_wait n (docall (Usleep 500000) (snd (is_wifi_driver_loaded s)))) = -1"
    using Suc.prems by (intro Suc.IH) (simp only: unload_states_shift Suc_less_eq not_False_eq_True)
  then show ?case using Suc.prems [of 0] by (auto split: prod.splits)
qed simp

definition still_loaded :: "wifi_st \<Rightarrow> nat \<Rightarrow> bool" where
  "still_loaded s k = list_all (\<lambda>j. fst (is_wifi_driver_loaded (unload_states s j)) \<noteq> 0) [0..<k]"

lemma still_loadedD: "still_loaded s k \<Longrightarrow> j < k \<Longrightarrow> fst (is_wifi_driver_loaded (unload_states s j)) \<noteq> 0"
  by (simp add: still_loaded_def list_all_iff)

lemma wifi_unload_driver_result:
  "fst (wifi_unload_driver s) =
     (let (r, s2) = rmmod (DRIVER_MODULE_NAME (build s)) (docall (Usleep 200000) s) in
      if r = 0 \<and> fst (unload_wait 20 s2) \<noteq> 0 then 0 else -1)"
  by (simp add: wifi_unload_driver_def Let_def split: prod.splits)

lemma rmmod_first:
  "0 \<le> w_ret (world s) (hist s) (Delete_module m) \<Longrightarrow>
     rmmod m s = (w_ret (world s) (hist s) (Delete_module m), docall (Delete_module m) s)"
  using rmmod_loop.simps(2) [of 9 m "-1" s] by (simp add: rmmod_def wcall_simps)

section \<open>What these operations leave alone\<close>

lemma frame_loaded [frame_intros]: "frame s t \<Longrightarrow> frame s (snd (is_wifi_driver_loaded t))"
  by (auto simp: is_wifi_driver_loaded_cases Let_def intro!: frame_intros)

lemma frame_rmmod_loop: "frame s t \<Longrightarrow> frame s (snd (rmmod_loop n m r t))"
proof (induction n arbitrary: r t)
  case (Suc n)
  then show ?case by (simp add: wcall_simps frame_docall)
qed simp

lemma frame_rmmod [frame_intros]: "frame s t \<Longrightarrow> frame s (snd (rmmod m t))"
  by (simp add: rmmod_def frame_rmmod_loop)

lemma frame_unload_wait [frame_intros]: "frame s t \<Longrightarrow> frame s (snd (unload_wait n t))"
proof (induction n arbitrary: t)
  case (Suc n)
  have "snd (unload_wait (Suc n) t) = (if fst (is_wifi_driver_loaded t) = 0 then snd (is_wifi_driver_loaded t)
      else snd (unload_wait n (docall (Usleep 500000) (snd (is_wifi_driver_loaded t)))))"
    by (simp split: prod.splits)
  then show ?case using Suc by (simp add: frame_docall frame_loaded)
qed simp

lemma wifi_unload_driver_state:
  "snd (wifi_unload_driver s) =
     (let (r, s2) = rmmod (DRIVER_MODULE_NAME (build s)) (docall (Usleep 200000) s) in
      if r = 0 then docall (Usleep 500000) (snd (unload_wait 20 s2)) else s2)"
  by (simp add: wifi_unload_driver_def Let_def split: prod.splits)

lemma frame_unload [frame_intros]: "frame s t \<Longrightarrow> frame s (snd (wifi_unload_driver t))"
  using frame_rmmod [of s "docall (Usleep 200000) t" "DRIVER_MODULE_NAME (build t)"]
  by (auto simp: wifi_unload_driver_state frame_docall split: prod.splits intro!: frame_intros)

lemma frame_insmod [frame_intros]: "frame s t \<Longrightarrow> frame s (snd (insmod p a t))"
  by (auto simp: insmod_def wcall_simps Let_def intro!: frame_intros)

lemma frame_load_check [frame_intros]: "frame s t \<Longrightarrow> frame s (snd (load_check t))"
  by (auto simp: load_check_def wcall_simps Let_def intro!: frame_intros)

lemma frame_load [frame_intros]:
  assumes "frame s t"
  shows "frame s (snd (wifi_load_driver t))"
proof -
  have 1: "frame s (snd (insmod (DRIVER_MODULE_PATH (build t)) (DRIVER_MODULE_ARG (build t)) (snd (is_wifi_driver_loaded t))))"
    by (intro frame_intros assms)
  have 2: "frame s (snd (poll_until 100 200000 load_check (docall Sched_yield (docall (Property_set k v)
      (snd (insmod (DRIVER_MODULE_PATH (build t)) (DRIVER_MODULE_ARG (build t)) (snd (is_wifi_driver_loaded t))))))))" for k v
    using 1 by (auto intro!: frame_poll_until frame_intros)
  show ?thesis
    using frame_loaded [OF assms] 1 2 [of DRIVER_PROP_NAME "''ok''"] 2 [of "''ctl.start''" "FIRMWARE_LOADER (build t)"]
    by (auto simp: wifi_load_driver_def Let_def split: prod.splits option.splits if_splits intro!: frame_intros)
qed

lemma frame_dhcp [frame_intros]: "frame s t \<Longrightarrow> frame s (snd (do_dhcp_request t))"
  by (auto simp: do_dhcp_request_def wcall_simps Let_def intro!: frame_intros)

lemma frame_change_fw_path [frame_intros]:
  assumes "frame s t"
  shows "frame s (snd (wifi_change_fw_path p t))"
  using frame_wopen [OF assms, of "FW_PATH_PARAM (build t)" WRONLY]
    frame_wwrite [OF frame_wopen [OF assms, of "FW_PATH_PARAM (build t)" WRONLY]]
  by (auto simp: wifi_change_fw_path_def Let_def assms split: option.splits prod.splits intro!: frame_intros)
    (metis snd_conv)

section \<open>Properties of loading and unloading\<close>

text \<open>What the library relies on of the property service: a value that it sets for the status of the
  driver is what it reads until it sets another one.\<close>

definition driver_prop_stored :: "wifi_world \<Rightarrow> bool" where
  "driver_prop_stored w \<longleftrightarrow>
     (\<forall>h v r h'. (\<forall>v' r'. (Property_set DRIVER_PROP_NAME v', r') \<notin> set h') \<longrightarrow>
        map_option pi_value (w_props w (h @ (Property_set DRIVER_PROP_NAME v, r) # h') DRIVER_PROP_NAME) = Some v)"

lemma driver_prop_read:
  assumes "driver_prop_stored (world s)" "hist s = h @ (Property_set DRIVER_PROP_NAME v, r) # h'"
    "\<And>v' r'. (Property_set DRIVER_PROP_NAME v', r') \<notin> set h'"
  shows "prop_value s DRIVER_PROP_NAME = v"
  using assms(1) [unfolded driver_prop_stored_def, rule_format, of h' h v r] assms(2,3)
  by (auto simp: prop_value_def split: option.splits)

text \<open>(C38) When the driver is not loaded yet and no firmware loader is configured (as for this board),
  \<open>wifi_load_driver\<close> succeeds exactly when the kernel accepts the module, and then it has
  set the status and polled it once.\<close>

theorem wifi_load_driver_board:
  assumes "driver_prop_stored (world s)" "FIRMWARE_LOADER (build s) = []"
    "is_wifi_driver_loaded s = (0, s1)" "insmod (DRIVER_MODULE_PATH (build s)) (DRIVER_MODULE_ARG (build s)) s1 = (r, s2)"
  shows "fst (wifi_load_driver s) = (if r < 0 then -1 else 0) \<and>
    (\<not> r < 0 \<longrightarrow> map fst (hist (snd (wifi_load_driver s)))
       = map fst (hist s2) @ [Property_set DRIVER_PROP_NAME ''ok'', Sched_yield, Property_get DRIVER_PROP_NAME])"
proof -
  define s3 where "s3 = docall Sched_yield (docall (Property_set DRIVER_PROP_NAME ''ok'') s2)"
  have "frame s s2" using frame_insmod [OF frame_loaded [OF frame_refl, of s]] assms(3,4)
    by (metis snd_conv)
  then have w: "world s3 = world s" by (simp add: s3_def frame_def)
  have "prop_value s3 DRIVER_PROP_NAME = ''ok''"
    by (rule driver_prop_read [of _ "hist s2" _ _ "[(Sched_yield, _)]"]) (use assms(1) w in \<open>auto simp: s3_def\<close>)
  then have "load_check s3 = (Some 0, docall (Property_get DRIVER_PROP_NAME) s3)"
    by (simp add: load_check_def wcall_simps)
  then have "poll_until 100 200000 load_check s3 = (Some 0, docall (Property_get DRIVER_PROP_NAME) s3)"
    using poll_until_first [of 0 100 load_check 200000 s3 0] by simp
  then show ?thesis
    using assms(2-4) by (simp add: wifi_load_driver_def s3_def [symmetric]) (simp add: s3_def)
qed

text \<open>The driver is reported as loaded when its status is \<open>ok\<close> and \<open>/proc/modules\<close> has a line for it,
  wherever that line stands and however long the other lines are; nothing is changed then.\<close>

theorem driver_line_found:
  assumes "prop_value s DRIVER_PROP_NAME = ''ok''"
    "\<And>h. w_ret (world s) h (Fopen MODULE_FILE) \<noteq> 0"
    "\<And>h. w_modules (world s) h = concat (map (\<lambda>l. l @ [CHR 0x0A]) ls)"
    "\<And>l. l \<in> set ls \<Longrightarrow> CHR 0x0A \<notin> set l" "DRIVER_MODULE_TAG (build s) @ rest \<in> set ls"
  shows "is_wifi_driver_loaded s =
    (1, docall Fclose (docall (Fopen MODULE_FILE) (docall (Property_get DRIVER_PROP_NAME) s)))"
proof -
  have "scan_modules (length (DRIVER_MODULE_TAG (build s)) + 10) (DRIVER_MODULE_TAG (build s))
      (concat (map (\<lambda>l. l @ [CHR 0x0A]) ls))"
    using assms(4,5) by (rule scan_finds_line) (auto simp: is_prefix_append)
  then show ?thesis using assms(1-3) by (simp add: is_wifi_driver_loaded_cases Let_def)
qed

text \<open>The result of \<open>wifi_unload_driver\<close> after a successful \<open>delete_module\<close>: it is success when
  the driver never disappears during the twenty rounds of waiting, and failure exactly when the
  disappearance is seen in the last round.\<close>

theorem unload_result_inverted:
  assumes "rmmod (DRIVER_MODULE_NAME (build s)) (docall (Usleep 200000) s) = (0, s2)"
  shows "(still_loaded s2 20 \<longrightarrow> fst (wifi_unload_driver s) = 0) \<and>
    (\<forall>k < 20. still_loaded s2 k \<and> fst (is_wifi_driver_loaded (unload_states s2 k)) = 0 \<longrightarrow>
       fst (wifi_unload_driver s) = (if k = 19 then -1 else 0))"
proof (intro conjI allI impI)
  assume "still_loaded s2 20"
  then have "fst (unload_wait 20 s2) = -1" by (intro unload_wait_never still_loadedD)
  then show "fst (wifi_unload_driver s) = 0" using assms by (simp add: wifi_unload_driver_result)
next
  fix k :: nat
  assume k: "k < 20" and still: "still_loaded s2 k \<and> fst (is_wifi_driver_loaded (unload_states s2 k)) = 0"
  then have "fst (unload_wait 20 s2) = int (20 - 1 - k)"
    by (intro unload_wait_first) (auto dest: still_loadedD)
  then show "fst (wifi_unload_driver s) = (if k = 19 then -1 else 0)"
    using assms k by (simp add: wifi_unload_driver_result)
qed

text \<open>A firmware loader that reports \<open>failed\<close> is not noticed: \<open>wifi_load_driver\<close> goes on polling for
  all hundred rounds before it gives up.\<close>

theorem load_failure_unnoticed:
  assumes failed: "\<And>h. w_props (world s) h DRIVER_PROP_NAME = Some \<lparr>pi_value = ''failed'', pi_serial = n\<rparr>"
    and inserted: "\<And>h a. w_ret (world s) h (Load_file a) \<noteq> 0" "\<And>h m a. 0 \<le> w_ret (world s) h (Init_module m a)"
  shows "fst (wifi_load_driver s) = -1 \<and>
    count_list (map fst (hist s)) (Usleep 200000) + 100 \<le> count_list (map fst (hist (snd (wifi_load_driver s)))) (Usleep 200000)"
proof -
  have check: "load_check t = (None, docall (Property_get DRIVER_PROP_NAME) t)" if "world t = world s" for t
    using failed that by (simp add: load_check_def wcall_simps prop_value_def DRIVER_PROP_NAME_def)
  have states: "world (poll_states 200000 load_check t k) = world s \<and>
      count_list (map fst (hist (poll_states 200000 load_check t k))) (Usleep 200000)
        = count_list (map fst (hist t)) (Usleep 200000) + k" if "world t = world s" for t k
    using that by (induction k) (simp_all add: check)
  have "is_wifi_driver_loaded s = (0, docall (Property_get DRIVER_PROP_NAME) s)"
    using failed by (simp add: is_wifi_driver_loaded_cases prop_value_def)
  moreover obtain r s2 where ins: "insmod (DRIVER_MODULE_PATH (build s)) (DRIVER_MODULE_ARG (build s))
      (docall (Property_get DRIVER_PROP_NAME) s) = (r, s2)" by fastforce
  moreover have r: "0 \<le> r" and s2: "world s2 = world s" "count_list (map fst (hist s2)) (Usleep 200000)
      = count_list (map fst (hist s)) (Usleep 200000)"
    using inserted ins by (auto simp: insmod_def wcall_simps Let_def)
  ultimately obtain p where
    "wifi_load_driver s = (let (res, s4) = poll_until 100 200000 load_check (docall Sched_yield (docall p s2)) in
       case res of Some v \<Rightarrow> (v, s4)
       | None \<Rightarrow> (-1, snd (wifi_unload_driver (docall (Property_set DRIVER_PROP_NAME ''timeout'') s4))))"
    and p: "p \<noteq> Usleep 200000"
    by (cases "FIRMWARE_LOADER (build s) = []") (auto simp: wifi_load_driver_def)
  moreover define s3 where "s3 = docall Sched_yield (docall p s2)"
  moreover define s4 where "s4 = poll_states 200000 load_check s3 100"
  moreover have "world s3 = world s" by (simp add: s3_def s2)
  moreover from this have "poll_until 100 200000 load_check s3 = (None, s4)"
    unfolding s4_def by (intro poll_until_never) (simp add: check states)
  ultimately have load: "wifi_load_driver s =
      (-1, snd (wifi_unload_driver (docall (Property_set DRIVER_PROP_NAME ''timeout'') s4)))" by simp
  have "count_list (map fst (hist s4)) (Usleep 200000) = count_list (map fst (hist s)) (Usleep 200000) + 100"
    using states [OF \<open>world s3 = world s\<close>, of 100] s2 p by (simp add: s4_def s3_def)
  then show ?thesis
    using frame_unload [OF frame_refl, of "docall (Property_set DRIVER_PROP_NAME ''timeout'') s4"]
    by (auto simp: load frame_def)
qed

section \<open>Concrete runs\<close>

text \<open>A driver that is loaded and stays so: \<open>delete_module\<close> returns at once, the module list keeps it.\<close>

definition stuck_world :: wifi_world where
  "stuck_world = (quiet_world (\<lambda>k. Some \<lparr>pi_value = ''ok'', pi_serial = 0\<rparr>) (''wlan 1'' @ [LF]))
     \<lparr>w_props := \<lambda>h k. Some \<lparr>pi_value = ''ok'', pi_serial = 0\<rparr>\<rparr>"

theorem wifi_load_driver_board_witness:
  "fst (wifi_load_driver (wifi_boot (quiet_world (\<lambda>k. None) []) (board_build []) (\<lambda>p. None))) = 0"
proof -
  let ?s = "wifi_boot (quiet_world (\<lambda>k. None) []) (board_build []) (\<lambda>p. None)"
  have "driver_prop_stored (world ?s)"
    unfolding driver_prop_stored_def
    unfolding wifi_boot_simps
    by (intro allI impI quiet_world_stored) (auto simp: DRIVER_PROP_NAME_def)
  moreover have "is_wifi_driver_loaded ?s = (0, docall (Property_get DRIVER_PROP_NAME) ?s)"
    by (simp add: is_wifi_driver_loaded_cases prop_value_def)
  moreover obtain s2 where "insmod (DRIVER_MODULE_PATH (build ?s)) (DRIVER_MODULE_ARG (build ?s))
      (docall (Property_get DRIVER_PROP_NAME) ?s) = (0, s2)"
    by (simp add: insmod_def wcall_simps)
  ultimately show ?thesis
    using wifi_load_driver_board [of ?s] by (simp add: board_build_def)
qed

theorem driver_line_found_witness:
  "fst (is_wifi_driver_loaded (wifi_boot (quiet_world (\<lambda>k. Some \<lparr>pi_value = ''ok'', pi_serial = 0\<rparr>)
     (''cfg80211 173645 1 wlan, Live 0xbf000000'' @ CHR 0x0A # ''wlan 644389 0 - Live 0xbf02f000'' @ [CHR 0x0A]))
     (board_build []) (\<lambda>p. None))) = 1"
proof -
  let ?ls = "[''cfg80211 173645 1 wlan, Live 0xbf000000'', ''wlan 644389 0 - Live 0xbf02f000'']"
  let ?s = "wifi_boot (quiet_world (\<lambda>k. Some \<lparr>pi_value = ''ok'', pi_serial = 0\<rparr>)
    (concat (map (\<lambda>l. l @ [CHR 0x0A]) ?ls))) (board_build []) (\<lambda>p. None)"
  have "fst (is_wifi_driver_loaded ?s) = 1"
    by (subst driver_line_found [of ?s ?ls "''644389 0 - Live 0xbf02f000''"])
      (auto simp: prop_value_def DRIVER_MODULE_TAG_def board_build_def)
  then show ?thesis by simp
qed

lemma stuck_loaded:
  assumes "world s = stuck_world" "DRIVER_MODULE_NAME (build s) = ''wlan''"
  shows "fst (is_wifi_driver_loaded (unload_states s k)) = 1"
proof -
  have "world (unload_states s k) = stuck_world \<and> build (unload_states s k) = build s"
    using assms(1) by (induction k) auto
  moreover have "scan_modules 15 ''wlan '' (''wlan 1'' @ [LF])" by (rule scan_first_line) simp_all
  ultimately show ?thesis
    using assms(2) by (simp add: is_wifi_driver_loaded_cases Let_def prop_value_def stuck_world_def DRIVER_MODULE_TAG_def)
qed

theorem unload_result_inverted_witness:
  "fst (wifi_unload_driver (wifi_boot stuck_world (board_build []) (\<lambda>p. None))) = 0"
proof -
  let ?s = "wifi_boot stuck_world (board_build []) (\<lambda>p. None)"
  let ?t = "docall (Delete_module ''wlan'') (docall (Usleep 200000) ?s)"
  have "rmmod (DRIVER_MODULE_NAME (build ?s)) (docall (Usleep 200000) ?s) = (0, ?t)"
    by (simp add: rmmod_first stuck_world_def board_build_def)
  moreover have "still_loaded ?t 20"
    by (simp add: still_loaded_def stuck_loaded list_all_iff board_build_def)
  ultimately show ?thesis using unload_result_inverted [of ?s ?t] by simp
qed

definition failing_world :: wifi_world where
  "failing_world = (quiet_world (\<lambda>k. None) [])\<lparr>w_props := \<lambda>h k. Some \<lparr>pi_value = ''failed'', pi_serial = 0\<rparr>\<rparr>"

theorem load_failure_unnoticed_witness:
  "100 \<le> count_list (map fst (hist (snd (wifi_load_driver (wifi_boot failing_world
     ((board_build [])\<lparr>FIRMWARE_LOADER := ''wlan_loader''\<rparr>) (\<lambda>p. None)))))) (Usleep 200000)"
  using load_failure_unnoticed [of "wifi_boot failing_world ((board_build [])\<lparr>FIRMWARE_LOADER := ''wlan_loader''\<rparr>) (\<lambda>p. None)" 0]
  by (simp add: failing_world_def)

end
