(* ===== verification/Wifi_Config.thy ===== *)
theory Wifi_Config
  imports Wifi_Driver
begin

text \<open>
  The files \<open>src/wifi/wifi.c\<close> prepares before it starts the supplicant: the entropy file, the
  configuration file (copied from the template when it is missing or empty, and edited so that its
  \<open>ctrl_interface\<close> entry names the interface), and the stale client sockets it removes.

  The edit works on a \<open>malloc\<close>ed area \<open>pbuf\<close> with C string functions; the area is a list with
  the bytes of the file followed by whatever the memory held before.  \<open>None\<close> stands for an access outside the area.
\<close>

section \<open>The operations\<close>

definition PROPERTY_VALUE_MAX :: nat where "PROPERTY_VALUE_MAX = 92"
definition PATH_MAX :: nat where "PATH_MAX = 4096"
definition SUPP_CONFIG_TEMPLATE :: string where "SUPP_CONFIG_TEMPLATE = ''/system/etc/wifi/wpa_supplicant.conf''"
definition SUPP_CONFIG_FILE :: string where "SUPP_CONFIG_FILE = ''/data/misc/wifi/wpa_supplicant.conf''"
definition P2P_CONFIG_FILE :: string where "P2P_CONFIG_FILE = ''/data/misc/wifi/p2p_supplicant.conf''"
definition CONTROL_IFACE_PATH :: string where "CONTROL_IFACE_PATH = ''/data/misc/wifi/sockets''"

definition dummy_key :: string where
  "dummy_key = map char_of [0x02, 0x11, 0xbe, 0x33, 0x43, 0x35, 0x68, 0x47, 0x84, 0x99, 0xa9, 0x2b,
     0x1c, 0xd3, 0xee, 0xff, 0xf1, 0xe2, 0xf3, 0xf4, 0xf5 :: nat]"

text \<open>\<open>0660\<close> and \<open>S_IRUSR|S_IWUSR|S_IRGRP|S_IWGRP\<close> are the same mode.\<close>

definition mode_0660 :: nat where "mode_0660 = 6 * 64 + 6 * 8"

text \<open>The end of \<open>ensure_entropy_file_exists\<close> and \<open>ensure_config_file_exists\<close>: mode and owner of a new
  file, which is removed again when one of the two cannot be set.\<close>

definition set_mode_owner :: "string \<Rightarrow> wifi_st \<Rightarrow> bool \<times> wifi_st" where
  "set_mode_owner path s =
     (let (r, s1) = syscall (Chmod path mode_0660) s in
      if r < 0 then (False, wunlink path s1)
      else let (r', s2) = syscall (Chown path) s1 in
        if r' < 0 then (False, wunlink path s2) else (True, s2))"

definition ensure_entropy_file_exists :: "wifi_st \<Rightarrow> int \<times> wifi_st" where
  "ensure_entropy_file_exists s =
     (let file = SUPP_ENTROPY_FILE (build s); (ret, s1) = syscall (Access file) s in
      if ret = 0 \<or> get_errno s1 = EACCES then
        if ret \<noteq> 0 then
          let (r, s2) = syscall (Chmod file mode_0660) s1 in (if r \<noteq> 0 then -1 else 0, s2)
        else (0, s1)
      else
        let (destfd, s2) = wopen file RDWR_CREAT s1 in
        if destfd < 0 then (-1, s2)
        else let (n, s3) = wwrite destfd dummy_key s2; s4 = wclose destfd s3 in
          if n \<noteq> int (length dummy_key) then (-1, s4)
          else let (ok, s5) = set_mode_owner file s4 in (if ok then 0 else -1, s5))"

text \<open>\<open>strstr\<close> on a memory area: \<open>None\<close> when the search runs past the end of the area.\<close>

definition strstr_mem :: "string \<Rightarrow> string \<Rightarrow> string option option" where
  "strstr_mem mem needle =
     (case c_str mem of
        Some str \<Rightarrow> Some (strstr str needle)
      | None \<Rightarrow> (case strstr mem needle of None \<Rightarrow> None | Some r \<Rightarrow> Some (Some r)))"

definition CTRL :: string where "CTRL = ''ctrl_interface=''"

text \<open>Is there an entry to edit?  \<open>Some (Some pos)\<close>: yes, with its value at offset \<open>pos\<close>.\<close>

definition ctrl_find :: "string \<Rightarrow> nat option option" where
  "ctrl_find pbuf =
     (let end_of = (\<lambda>mem. case c_str mem of Some str \<Rightarrow> length str | None \<Rightarrow> length mem) in
      case strstr_mem pbuf CTRL of
        None \<Rightarrow> None
      | Some None \<Rightarrow> Some None
      | Some (Some sptr) \<Rightarrow>
          (case strstr_mem pbuf ''ctrl_interface=DIR='' of
             None \<Rightarrow> None
           | Some (Some _) \<Rightarrow> Some None
           | Some None \<Rightarrow>
               (case strstr_mem pbuf ''ctrl_interface=/'' of
                  None \<Rightarrow> None
                | Some (Some _) \<Rightarrow> Some None
                | Some None \<Rightarrow> Some (Some (end_of pbuf - length sptr + length CTRL)))))"

text \<open>The edit at offset \<open>pos\<close>: \<open>Some None\<close> when the value already begins with \<open>ifc\<close>, otherwise the
  new content of the area and the number of bytes to write.  \<open>memmove\<close> gets a negative count,
  converted to \<open>size_t\<close>, when the entry has no newline.\<close>

definition ctrl_edit :: "nat \<Rightarrow> string \<Rightarrow> nat \<Rightarrow> string \<Rightarrow> (string \<times> nat) option option" where
  "ctrl_edit pos pbuf nread ifc =
     (let area = drop pos pbuf in
      if is_prefix ifc area then Some None
      else if is_prefix area ifc then None
      else
        let ilen = length (takeWhile (\<lambda>c. c \<noteq> CHR 0x0A) (take (nread - pos) area));
            mlen = (if ilen \<ge> length ifc then ilen else length ifc) + 1;
            n = nread + mlen - ilen - 1 in
        if nread < pos + ilen + 1 \<or> length pbuf < n then None
        else
          let p1 = overwrite (pos + mlen) (take (nread - (pos + ilen + 1)) (drop (pos + ilen + 1) pbuf)) pbuf;
              p2 = overwrite pos (replicate mlen CHR 0x0A) p1;
              p3 = overwrite pos ifc p2
          in Some (Some (p3, n)))"

definition update_buf :: "string \<Rightarrow> nat \<Rightarrow> string \<Rightarrow> (string \<times> nat) option option" where
  "update_buf pbuf nread ifc =
     (case ctrl_find pbuf of
        None \<Rightarrow> None
      | Some None \<Rightarrow> Some None
      | Some (Some pos) \<Rightarrow> ctrl_edit pos pbuf nread ifc)"

definition fresh_memory :: "nat \<Rightarrow> wifi_st \<Rightarrow> string" where
  "fresh_memory n s = take n (w_garbage (world s) (hist s) n @ replicate n CHR 0x00)"

definition update_ctrl_interface :: "string \<Rightarrow> wifi_st \<Rightarrow> (int \<times> wifi_st) option" where
  "update_ctrl_interface config_file s =
     (let (st, s1) = syscall (Stat config_file) s in
      case files s config_file of
        None \<Rightarrow> Some (-1, s1)
      | Some content \<Rightarrow>
         if st \<noteq> 0 then Some (-1, s1)
         else
          let size = length content + PROPERTY_VALUE_MAX;
              (pbuf, s2) = syscall (Wmalloc size) s1;
              mem = fresh_memory size s1 in
          if pbuf = 0 then Some (0, s2)
          else
            let (srcfd, s3) = wopen config_file RDONLY s2 in
            if srcfd < 0 then Some (0, docall (Wfree pbuf) s3)
            else
              let (got, s4) = wread srcfd (length content) s3; s5 = wclose srcfd s4 in
              case got of
                None \<Rightarrow> Some (0, docall (Wfree pbuf) s5)
              | Some bs \<Rightarrow>
                  let (ifc, s6) = (if config_file = SUPP_CONFIG_FILE
                        then wproperty_get ''wifi.interface'' WIFI_TEST_INTERFACE s5
                        else (CONTROL_IFACE_PATH, s5)) in
                  (case update_buf (overwrite 0 bs mem) (length bs) ifc of
                     None \<Rightarrow> None
                   | Some None \<Rightarrow> Some (0, docall (Wfree pbuf) s6)
                   | Some (Some (buf, n)) \<Rightarrow>
                       let (destfd, s7) = wopen config_file RDWR s6 in
                       if destfd < 0 then Some (-1, docall (Wfree pbuf) s7)
                       else Some (0, docall (Wfree pbuf)
                              (wclose destfd (snd (wwrite destfd (take n buf) s7))))))"

text \<open>The copying loop; the result says whether every \<open>read\<close> succeeded.\<close>

partial_function (option) copy_loop :: "int \<Rightarrow> int \<Rightarrow> wifi_st \<Rightarrow> (bool \<times> wifi_st) option" where
  "copy_loop srcfd destfd s =
     (let (got, s1) = wread srcfd 2048 s in
      case got of
        None \<Rightarrow> Some (False, s1)
      | Some bs \<Rightarrow>
          if bs = [] then Some (True, s1) else copy_loop srcfd destfd (snd (wwrite destfd bs s1)))"

definition create_config :: "string \<Rightarrow> wifi_st \<Rightarrow> (int \<times> wifi_st) option" where
  "create_config config_file s =
     (let (srcfd, s1) = wopen SUPP_CONFIG_TEMPLATE RDONLY s in
      if srcfd < 0 then Some (-1, s1)
      else
        let (destfd, s2) = wopen config_file RDWR_CREAT s1 in
        if destfd < 0 then Some (-1, wclose srcfd s2)
        else
          case copy_loop srcfd destfd s2 of
            None \<Rightarrow> None
          | Some (False, s3) \<Rightarrow> Some (-1, wunlink config_file (wclose destfd (wclose srcfd s3)))
          | Some (True, s3) \<Rightarrow>
              let (ok, s4) = set_mode_owner config_file (wclose srcfd (wclose destfd s3)) in
              if ok then update_ctrl_interface config_file s4 else Some (-1, s4))"

definition ensure_config_file_exists :: "string \<Rightarrow> wifi_st \<Rightarrow> (int \<times> wifi_st) option" where
  "ensure_config_file_exists config_file s =
     (let (ret, s1) = syscall (Access config_file) s in
      if ret = 0 \<or> get_errno s1 = EACCES then
        let (r, s2) = (if ret \<noteq> 0 then syscall (Chmod config_file mode_0660) s1 else (0, s1)) in
        if r \<noteq> 0 then Some (-1, s2)
        else
          let (st, s3) = syscall (Stat config_file) s2 in
          case files s config_file of
            Some content \<Rightarrow> if st = 0 \<and> 10 < length content then update_ctrl_interface config_file s3
                            else create_config config_file s3
          | None \<Rightarrow> create_config config_file s3
      else if get_errno s1 \<noteq> ENOENT then Some (-1, s1)
      else create_config config_file s1)"

text \<open>The loop of \<open>wifi_wpa_ctrl_cleanup\<close> over the names in the directory.\<close>

fun cleanup_entries :: "string \<Rightarrow> string \<Rightarrow> string list \<Rightarrow> wifi_st \<Rightarrow> wifi_st" where
  "cleanup_entries dir prefix [] s = s"
| "cleanup_entries dir prefix (e # es) s =
     cleanup_entries dir prefix es
       (if is_prefix prefix e \<and> length e < PATH_MAX - (length dir + 1)
        then wunlink (dir @ ''/'' @ e) s else s)"

definition wifi_wpa_ctrl_cleanup :: "wifi_st \<Rightarrow> wifi_st" where
  "wifi_wpa_ctrl_cleanup s =
     (let dir = CLIENT_DIR (build s); (d, s1) = syscall (Opendir dir) s in
      if d = 0 then s1
      else if length dir + 1 \<ge> PATH_MAX then docall Closedir s1
      else docall Closedir (cleanup_entries dir (CLIENT_PREFIX (build s)) (w_dir (world s) (hist s1)) s1))"

section \<open>The edit of the entry\<close>

lemma strstr_mem_terminated:
  "CHR 0x00 \<notin> set c \<Longrightarrow> strstr_mem (c @ CHR 0x00 # g) needle = Some (strstr c needle)"
  by (simp add: strstr_mem_def c_str_append)

lemma strstr_first_indep:
  "strstr (pre @ n @ x) n = Some (n @ x) \<Longrightarrow> strstr (pre @ n @ y) n = Some (n @ y)"
proof (induction pre)
  case Nil
  show ?case by (cases n; cases y) (auto simp: is_prefix_iff)
next
  case (Cons c pre)
  have pre: "is_prefix n (c # pre @ n @ z) \<longleftrightarrow> is_prefix n (c # pre @ n)" for z
    using is_prefix_append_long [of n "c # pre @ n" z] by simp
  have "\<not> is_prefix n (c # pre @ n)" "strstr (pre @ n @ x) n = Some (n @ x)"
    using Cons.prems by (auto simp: pre split: if_splits dest: arg_cong [of _ _ length])
  then show ?case using Cons.IH by (simp add: pre)
qed

lemma split3: "i + j \<le> length xs \<Longrightarrow> \<exists>a b c. xs = a @ b @ c \<and> length a = i \<and> length b = j"
  by (rule exI [of _ "take i xs"], rule exI [of _ "take j (drop i xs)"], rule exI [of _ "drop j (drop i xs)"])
    (simp del: drop_drop)

lemma ctrl_find_value:
  assumes "CHR 0x00 \<notin> set c" "strstr c CTRL = Some (CTRL @ v)"
    "strstr c ''ctrl_interface=DIR='' = None" "strstr c ''ctrl_interface=/'' = None"
  shows "ctrl_find (c @ CHR 0x00 # g) = Some (Some (length c - length v))"
proof -
  have "length (CTRL @ v) \<le> length c" using strstr_Some [OF assms(2)] by auto
  then show ?thesis using assms by (simp add: ctrl_find_def strstr_mem_terminated c_str_append)
qed

lemma ctrl_find_directory:
  assumes "CHR 0x00 \<notin> set c" "strstr c ''ctrl_interface=DIR='' \<noteq> None \<or> strstr c ''ctrl_interface=/'' \<noteq> None"
  shows "ctrl_find (c @ CHR 0x00 # g) = Some None"
  using assms by (auto simp: ctrl_find_def strstr_mem_terminated split: option.splits)

lemma overwrite_middle: "length mid = length bs \<Longrightarrow> overwrite (length a) bs (a @ mid @ c) = a @ bs @ c"
  by (simp add: overwrite_def)

lemma is_prefix_line:
  "d \<notin> set ifc \<Longrightarrow> is_prefix ifc (old @ d # rest) \<longleftrightarrow> is_prefix ifc old"
  by (auto simp: is_prefix_iff append_eq_append_conv2 Cons_eq_append_conv)

lemma ctrl_edit_line:
  assumes "CHR 0x0A \<notin> set old" "CHR 0x0A \<notin> set ifc" "\<not> is_prefix ifc old" "length ifc < length g"
  shows "\<exists>buf n. ctrl_edit (length a) (a @ old @ CHR 0x0A # post @ g) (length a + length old + 1 + length post) ifc
      = Some (Some (buf, n)) \<and>
    take n buf = a @ ifc @ replicate (Suc (length old - length ifc)) CHR 0x0A @ post"
proof -
  define pbuf where "pbuf = a @ old @ CHR 0x0A # post @ g"
  define mlen where "mlen = max (length old) (length ifc) + 1"
  have notpre: "\<not> is_prefix ifc (drop (length a) pbuf)" "\<not> is_prefix (drop (length a) pbuf) ifc"
    using assms by (auto simp: pbuf_def is_prefix_line) (auto simp: is_prefix_iff)
  define xs where "xs = old @ CHR 0x0A # post @ g"
  have "mlen + length post \<le> length xs" using assms(4) by (simp add: xs_def mlen_def)
  then obtain m r1 r2 where "xs = m @ r1 @ r2" and mid: "length m = mlen" "length r1 = length post"
    using split3 by blast
  then have pbuf: "pbuf = a @ m @ r1 @ r2" by (simp add: pbuf_def xs_def)
  have tw: "length (takeWhile (\<lambda>c. c \<noteq> CHR 0x0A) (take (length old + 1 + length post) (drop (length a) pbuf))) = length old"
    using assms(1) by (simp add: pbuf_def takeWhile_append)
  have "overwrite (length a + mlen) post pbuf = a @ m @ post @ r2"
    using overwrite_middle [of r1 post "a @ m" r2] mid by (simp add: pbuf)
  moreover have "overwrite (length a) (replicate mlen CHR 0x0A) (a @ m @ post @ r2) = a @ replicate mlen CHR 0x0A @ post @ r2"
    using mid by (intro overwrite_middle) simp
  moreover have rep: "replicate mlen CHR 0x0A = replicate (length ifc) CHR 0x0A @ replicate (Suc (length old - length ifc)) CHR 0x0A"
    by (simp only: replicate_add [symmetric]) (simp add: mlen_def max_def)
  moreover have "overwrite (length a) ifc (a @ (replicate (length ifc) CHR 0x0A @ replicate (Suc (length old - length ifc)) CHR 0x0A) @ post @ r2)
      = a @ ifc @ replicate (Suc (length old - length ifc)) CHR 0x0A @ post @ r2"
    using overwrite_middle [of "replicate (length ifc) CHR 0x0A" ifc] by simp
  ultimately have p3: "overwrite (length a) ifc (overwrite (length a) (replicate mlen CHR 0x0A) (overwrite (length a + mlen) post pbuf))
      = a @ ifc @ replicate (Suc (length old - length ifc)) CHR 0x0A @ post @ r2" by (simp only:)
  have lens: "length a + length old + 1 + length post - length a = length old + 1 + length post"
    "length a + length old + 1 + length post - (length a + length old + 1) = length post"
    "length a + length old + 1 + length post + mlen - length old - 1 = length a + mlen + length post"
    "(if length ifc \<le> length old then length old else length ifc) + 1 = mlen"
    by (simp_all add: mlen_def max_def)
  have inside: "\<not> (length a + length old + 1 + length post < length a + length old + 1 \<or> length pbuf < length a + mlen + length post)"
    using pbuf mid by simp
  have cnt: "take (length post) (drop (length a + length old + 1) pbuf) = post" by (simp add: pbuf_def)
  have "ctrl_edit (length a) pbuf (length a + length old + 1 + length post) ifc =
      Some (Some (a @ ifc @ replicate (Suc (length old - length ifc)) CHR 0x0A @ post @ r2, length a + mlen + length post))"
    using notpre inside by (simp only: ctrl_edit_def Let_def lens tw cnt p3 if_False)
  moreover have "length (a @ ifc @ replicate (Suc (length old - length ifc)) CHR 0x0A @ post) = length a + mlen + length post"
    by (simp add: mlen_def max_def)
  then have "take (length a + mlen + length post) ((a @ ifc @ replicate (Suc (length old - length ifc)) CHR 0x0A @ post) @ r2)
      = a @ ifc @ replicate (Suc (length old - length ifc)) CHR 0x0A @ post"
    by (metis append_eq_conv_conj)
  ultimately show ?thesis by (simp add: pbuf_def)
qed

lemma ctrl_edit_no_newline:
  assumes "CHR 0x0A \<notin> set old" "\<not> is_prefix ifc (old @ g)"
  shows "ctrl_edit (length a) (a @ old @ g) (length (a @ old)) ifc = None"
proof -
  have "length (takeWhile (\<lambda>c. c \<noteq> CHR 0x0A) (take (length (a @ old) - length a) (drop (length a) (a @ old @ g)))) = length old"
    using assms(1) by (simp, subst takeWhile_eq_all_conv [THEN iffD2]) auto
  then show ?thesis using assms(2) by (simp add: ctrl_edit_def Let_def)
qed

section \<open>Files that work\<close>

text \<open>What the theorems assume of the system where nothing is to fail: the file calls succeed and
  write every byte, and fresh memory is zero.\<close>

definition files_work :: "wifi_world \<Rightarrow> bool" where
  "files_work w \<longleftrightarrow>
     (\<forall>h p. w_ret w h (Stat p) = 0) \<and> (\<forall>h n. w_ret w h (Wmalloc n) \<noteq> 0) \<and>
     (\<forall>h p m. 0 \<le> w_ret w h (Wopen p m)) \<and> (\<forall>h fd n. 0 \<le> w_ret w h (Wread fd n)) \<and>
     (\<forall>h fd bs. w_ret w h (Wwrite fd bs) = int (length bs)) \<and>
     (\<forall>h p m. 0 \<le> w_ret w h (Chmod p m)) \<and> (\<forall>h p. 0 \<le> w_ret w h (Chown p))"

definition zero_memory :: "wifi_world \<Rightarrow> bool" where
  "zero_memory w \<longleftrightarrow> (\<forall>h n. w_garbage w h n = replicate n CHR 0x00)"

definition interface_is :: "wifi_world \<Rightarrow> string \<Rightarrow> bool" where
  "interface_is w v \<longleftrightarrow> (\<forall>h. (case w_props w h ''wifi.interface'' of None \<Rightarrow> [] | Some i \<Rightarrow> pi_value i) = v) \<and> v \<noteq> []"

definition ctrl_target :: "string \<Rightarrow> string \<Rightarrow> string" where
  "ctrl_target config_file v = (if config_file = SUPP_CONFIG_FILE then v else CONTROL_IFACE_PATH)"

lemma wopen_work:
  assumes "files_work (world s)" "files s p = Some c"
  shows "\<exists>fd t. wopen p m s = (fd, t) \<and> 0 \<le> fd \<and> files t = files s \<and> world t = world s \<and>
    build t = build s \<and> wfds t = (wfds s)(fd \<mapsto> (p, 0))"
proof -
  have "\<not> w_ret (world s) (hist s) (Wopen p m) < 0" using assms(1) by (simp add: files_work_def not_less)
  then show ?thesis using assms(2) by (simp add: wopen_def wcall_simps fun_upd_idem)
qed

lemma wread_work:
  assumes "files_work (world s)" "wfds s fd = Some (p, pos)" "files s p = Some c"
  shows "\<exists>t. wread fd n s = (Some (take n (drop pos c)), t) \<and> files t = files s \<and> world t = world s \<and>
    build t = build s \<and> wfds t = (wfds s)(fd \<mapsto> (p, pos + length (take n (drop pos c))))"
proof -
  have "\<not> w_ret (world s) (hist s) (Wread fd n) < 0" using assms(1) by (simp add: files_work_def not_less)
  then show ?thesis using assms(2,3) by (simp add: wread_def wcall_simps)
qed

lemma wwrite_work:
  assumes "files_work (world s)" "wfds s fd = Some (p, pos)" "files s p = Some c"
  shows "\<exists>t. wwrite fd bs s = (int (length bs), t) \<and> files t = (files s)(p \<mapsto> overwrite pos bs c) \<and>
    world t = world s \<and> build t = build s \<and> wfds t = (wfds s)(fd \<mapsto> (p, pos + length bs))"
  using assms by (simp add: wwrite_def wcall_simps files_work_def)

lemma wclose_simps [simp]:
  "files (wclose fd s) = files s" "world (wclose fd s) = world s" "build (wclose fd s) = build s" "wfds (wclose fd s) = (wfds s)(fd := None)"
  by (simp_all add: wclose_def)

lemma fresh_zero: "zero_memory (world s) \<Longrightarrow> fresh_memory n s = replicate n CHR 0x00"
  by (simp add: fresh_memory_def zero_memory_def)

lemma update_ctrl_interface_run:
  assumes "files_work (world s)" "zero_memory (world s)" "interface_is (world s) v" "files s cf = Some c"
  shows "(update_buf (c @ replicate 92 CHR 0x00) (length c) (ctrl_target cf v) = Some None \<longrightarrow>
       (\<exists>t. update_ctrl_interface cf s = Some (0, t) \<and> files t = files s \<and> world t = world s)) \<and>
    (\<forall>buf n. update_buf (c @ replicate 92 CHR 0x00) (length c) (ctrl_target cf v) = Some (Some (buf, n)) \<longrightarrow>
       (\<exists>t. update_ctrl_interface cf s = Some (0, t) \<and>
          files t = (files s)(cf \<mapsto> overwrite 0 (take n buf) c) \<and> world t = world s)) \<and>
    (update_buf (c @ replicate 92 CHR 0x00) (length c) (ctrl_target cf v) = None \<longrightarrow>
       update_ctrl_interface cf s = None)"
proof -
  define s2 where "s2 = docall (Wmalloc (length c + 92)) (docall (Stat cf) s)"
  obtain fd s3 where s3: "wopen cf RDONLY s2 = (fd, s3)" "0 \<le> fd" "files s3 = files s" "world s3 = world s"
    "wfds s3 = (wfds s2)(fd \<mapsto> (cf, 0))"
    using wopen_work [of s2 cf c RDONLY] assms(1,4) unfolding s2_def docall_simps by blast
  obtain s4 where s4: "wread fd (length c) s3 = (Some c, s4)" "files s4 = files s" "world s4 = world s"
    using wread_work [of s3 fd cf 0 c "length c"] assms s3 by auto
  define s6 where "s6 = (if cf = SUPP_CONFIG_FILE then docall (Property_get ''wifi.interface'') (wclose fd s4) else wclose fd s4)"
  have iface: "(if cf = SUPP_CONFIG_FILE then wproperty_get ''wifi.interface'' WIFI_TEST_INTERFACE (wclose fd s4)
      else (CONTROL_IFACE_PATH, wclose fd s4)) = (ctrl_target cf v, s6)"
    using assms(3) s4(3) by (simp add: wproperty_get_pair prop_value_def interface_is_def ctrl_target_def s6_def)
  have s6: "files s6 = files s" "world s6 = world s" by (simp_all add: s6_def s4)
  obtain fd' s7 where s7: "wopen cf RDWR s6 = (fd', s7)" "0 \<le> fd'" "files s7 = files s" "world s7 = world s"
    "wfds s7 = (wfds s6)(fd' \<mapsto> (cf, 0))"
    using wopen_work [of s6 cf c RDWR] assms(1,4) unfolding s6 by blast
  define p where "p = w_ret (world s) (hist s @ [(Stat cf, 0)]) (Wmalloc (length c + 92))"
  have "p \<noteq> 0" using assms(1) by (simp add: p_def files_work_def)
  then have run: "update_ctrl_interface cf s =
      (case update_buf (c @ replicate 92 CHR 0x00) (length c) (ctrl_target cf v) of
         None \<Rightarrow> None
       | Some None \<Rightarrow> Some (0, docall (Wfree p) s6)
       | Some (Some (buf, n)) \<Rightarrow> Some (0, docall (Wfree p) (wclose fd' (snd (wwrite fd' (take n buf) s7)))))"
    using assms(1,2,4) s3(1,2) s4(1) iface s7(1,2)
    by (simp add: update_ctrl_interface_def wcall_simps Let_def files_work_def fresh_zero PROPERTY_VALUE_MAX_def
        overwrite_def s2_def [symmetric] p_def [symmetric] cong: option.case_cong)
  have "files (snd (wwrite fd' bs s7)) = (files s)(cf \<mapsto> overwrite 0 bs c) \<and> world (snd (wwrite fd' bs s7)) = world s" for bs
    using wwrite_work [of s7 fd' cf 0 c bs] assms(1,4) s7 by auto
  then show ?thesis using run s6 by simp
qed

section \<open>The configuration file names the interface\<close>

text \<open>A file with one editable entry: its first \<open>ctrl_interface=\<close> entry has the value \<open>old\<close> and ends with
  a newline, no entry names a directory, and there is no zero byte.\<close>

definition editable :: "string \<Rightarrow> string \<Rightarrow> string \<Rightarrow> bool" where
  "editable pre old post \<longleftrightarrow>
     (let c = pre @ CTRL @ old @ CHR 0x0A # post in
      strstr c CTRL = Some (CTRL @ old @ CHR 0x0A # post) \<and> strstr c ''ctrl_interface=DIR='' = None \<and>
      strstr c ''ctrl_interface=/'' = None \<and> CHR 0x00 \<notin> set c \<and> CHR 0x0A \<notin> set old)"

definition edited :: "string \<Rightarrow> string \<Rightarrow> string \<Rightarrow> string \<Rightarrow> string" where
  "edited pre old post ifc = pre @ CTRL @ ifc @ replicate (Suc (length old - length ifc)) CHR 0x0A @ post"

text \<open>A name that an interface can have.\<close>

definition proper_name :: "string \<Rightarrow> bool" where
  "proper_name v \<longleftrightarrow> v \<noteq> [] \<and> length v < PROPERTY_VALUE_MAX \<and> CHR 0x0A \<notin> set v \<and> CHR 0x00 \<notin> set v"

lemma proper_target: "proper_name v \<Longrightarrow> proper_name (ctrl_target cf v)"
  by (simp add: ctrl_target_def proper_name_def CONTROL_IFACE_PATH_def PROPERTY_VALUE_MAX_def)

lemma update_buf_edits:
  assumes "editable pre old post" "proper_name ifc" "\<not> is_prefix ifc old"
  shows "\<exists>buf n. update_buf ((pre @ CTRL @ old @ CHR 0x0A # post) @ replicate 92 CHR 0x00)
      (length (pre @ CTRL @ old @ CHR 0x0A # post)) ifc = Some (Some (buf, n)) \<and> take n buf = edited pre old post ifc"
proof -
  let ?c = "pre @ CTRL @ old @ CHR 0x0A # post"
  have "ctrl_find (?c @ CHR 0x00 # replicate 91 CHR 0x00) = Some (Some (length ?c - length (old @ CHR 0x0A # post)))"
    using assms(1) by (intro ctrl_find_value) (auto simp: editable_def Let_def)
  also have "length ?c - length (old @ CHR 0x0A # post) = length (pre @ CTRL)" by simp
  finally have find: "ctrl_find (?c @ replicate 92 CHR 0x00) = Some (Some (length (pre @ CTRL)))"
    using replicate_Suc [of 91 "CHR 0x00"] by (simp del: replicate_Suc)
  have "length ifc < length (replicate 92 (CHR 0x00))" "CHR 0x0A \<notin> set old" "CHR 0x0A \<notin> set ifc"
    using assms by (simp_all add: proper_name_def PROPERTY_VALUE_MAX_def editable_def Let_def)
  from ctrl_edit_line [OF this(2,3) assms(3) this(1), of "pre @ CTRL" post]
  obtain buf n where "ctrl_edit (length (pre @ CTRL)) ((pre @ CTRL) @ old @ CHR 0x0A # post @ replicate 92 CHR 0x00)
      (length (pre @ CTRL) + length old + 1 + length post) ifc = Some (Some (buf, n))"
    "take n buf = edited pre old post ifc" by (auto simp: edited_def)
  then show ?thesis using find by (simp add: update_buf_def add.assoc)
qed

lemma update_buf_edited:
  assumes "editable pre old post" "proper_name ifc"
  shows "update_buf (edited pre old post ifc @ replicate 92 CHR 0x00) (length (edited pre old post ifc)) ifc = Some None"
proof -
  let ?c = "edited pre old post ifc"
  have nul: "CHR 0x00 \<notin> set ?c" using assms by (auto simp: editable_def edited_def proper_name_def Let_def)
  have mem: "?c @ replicate 92 CHR 0x00 = ?c @ CHR 0x00 # replicate 91 CHR 0x00"
    using replicate_Suc [of 91 "CHR 0x00"] by (simp del: replicate_Suc)
  let ?v = "ifc @ replicate (Suc (length old - length ifc)) CHR 0x0A @ post"
  have first: "strstr ?c CTRL = Some (CTRL @ ?v)"
    unfolding edited_def by (rule strstr_first_indep [of pre CTRL "old @ CHR 0x0A # post"]) (use assms(1) in \<open>simp add: editable_def Let_def\<close>)
  show ?thesis
  proof (cases "strstr ?c ''ctrl_interface=DIR='' \<noteq> None \<or> strstr ?c ''ctrl_interface=/'' \<noteq> None")
    case True
    then show ?thesis unfolding mem using nul by (simp add: update_buf_def ctrl_find_directory)
  next
    case False
    then have "ctrl_find (?c @ CHR 0x00 # replicate 91 CHR 0x00) = Some (Some (length ?c - length ?v))"
      using nul first by (intro ctrl_find_value) auto
    moreover have "drop (length ?c - length ?v) (?c @ g) = ?v @ g" for g by (simp add: edited_def)
    ultimately show ?thesis unfolding mem by (simp add: update_buf_def ctrl_edit_def is_prefix_append)
  qed
qed

lemma edited_longer: "length (pre @ CTRL @ old @ CHR 0x0A # post) \<le> length (edited pre old post ifc)"
  by (simp add: edited_def)

lemma update_edits:
  assumes "files_work (world s)" "zero_memory (world s)" "interface_is (world s) v" "proper_name v"
    and "editable pre old post" "\<not> is_prefix (ctrl_target cf v) old"
    and "files s cf = Some (pre @ CTRL @ old @ CHR 0x0A # post)"
  shows "\<exists>t. update_ctrl_interface cf s = Some (0, t) \<and> world t = world s \<and>
    files t = (files s)(cf \<mapsto> edited pre old post (ctrl_target cf v))"
proof -
  let ?c = "pre @ CTRL @ old @ CHR 0x0A # post" and ?ifc = "ctrl_target cf v"
  have "overwrite 0 (edited pre old post ?ifc) ?c = edited pre old post ?ifc"
    using edited_longer [of pre old post ?ifc] by (simp add: overwrite_def)
  then show ?thesis
    using update_ctrl_interface_run [OF assms(1,2,3,7)]
      update_buf_edits [OF assms(5) proper_target [OF assms(4)] assms(6)] by auto
qed


text \<open>An entry in the last line of the file, without a newline behind it, makes
  \<open>update_ctrl_interface\<close> move a negative number of bytes.\<close>

theorem update_ctrl_interface_no_newline:
  assumes "files_work (world s)" "zero_memory (world s)" "interface_is (world s) v" "proper_name v"
    and "strstr (pre @ CTRL @ old) CTRL = Some (CTRL @ old)"
    and "strstr (pre @ CTRL @ old) ''ctrl_interface=DIR='' = None" "strstr (pre @ CTRL @ old) ''ctrl_interface=/'' = None"
    and "CHR 0x00 \<notin> set (pre @ CTRL @ old)" "CHR 0x0A \<notin> set old" "\<not> is_prefix (ctrl_target cf v) old"
    and "files s cf = Some (pre @ CTRL @ old)"
  shows "update_ctrl_interface cf s = None"
proof -
  let ?c = "pre @ CTRL @ old" and ?ifc = "ctrl_target cf v" and ?z = "replicate 91 CHR 0x00"
  have mem: "?c @ replicate 92 CHR 0x00 = ?c @ CHR 0x00 # ?z"
    using replicate_Suc [of 91 "CHR 0x00"] by (simp del: replicate_Suc)
  have "ctrl_find (?c @ CHR 0x00 # ?z) = Some (Some (length (pre @ CTRL)))"
    using ctrl_find_value [OF assms(8,5,6,7)] by simp
  moreover have "\<not> is_prefix ?ifc (old @ CHR 0x00 # ?z)"
    using assms(10) proper_target [OF assms(4), of cf] by (simp add: is_prefix_line proper_name_def)
  with assms(9) have "ctrl_edit (length (pre @ CTRL)) ((pre @ CTRL) @ old @ CHR 0x00 # ?z) (length ((pre @ CTRL) @ old)) ?ifc = None"
    by (rule ctrl_edit_no_newline)
  ultimately have "update_buf (?c @ replicate 92 CHR 0x00) (length ?c) ?ifc = None"
    unfolding mem update_buf_def by (simp only: append_assoc option.case)
  then show ?thesis using update_ctrl_interface_run [OF assms(1,2,3,11)] by blast
qed

section \<open>A missing configuration file is copied from the template\<close>

lemma overwrite_append: "j \<le> length c \<Longrightarrow> overwrite (j + length b) r (overwrite j b c) = overwrite j (b @ r) c"
  by (simp add: overwrite_def) (simp add: add.commute add.left_commute)

lemma overwrite_length: "j \<le> length c \<Longrightarrow> j + length b \<le> length (overwrite j b c)"
  by (simp add: overwrite_def)

lemma copy_loop_copies:
  "files_work (world s) \<Longrightarrow> wfds s src = Some (tp, i) \<Longrightarrow> wfds s dst = Some (cf, j) \<Longrightarrow> src \<noteq> dst \<Longrightarrow> tp \<noteq> cf \<Longrightarrow>
     files s tp = Some T \<Longrightarrow> files s cf = Some c \<Longrightarrow> i \<le> length T \<Longrightarrow> j \<le> length c \<Longrightarrow>
     \<exists>t. copy_loop src dst s = Some (True, t) \<and> files t = (files s)(cf \<mapsto> overwrite j (drop i T) c) \<and> world t = world s"
proof (induction "length T - i" arbitrary: s i j c rule: less_induct)
  case less
  obtain s1 where s1: "wread src 2048 s = (Some (take 2048 (drop i T)), s1)" "files s1 = files s" "world s1 = world s"
    "wfds s1 = (wfds s)(src \<mapsto> (tp, i + length (take 2048 (drop i T))))"
    using wread_work [OF less.prems(1,2,6), of 2048] by blast
  show ?case
  proof (cases "i = length T")
    case True
    then show ?thesis using s1 less.prems(7) by (subst copy_loop.simps) (simp add: overwrite_def fun_upd_idem)
  next
    case False
    define bs where "bs = take 2048 (drop i T)"
    obtain s2 where s2: "wwrite dst bs s1 = (int (length bs), s2)" "files s2 = (files s)(cf \<mapsto> overwrite j bs c)"
      "world s2 = world s" "wfds s2 = (wfds s1)(dst \<mapsto> (cf, j + length bs))"
      using wwrite_work [of s1 dst cf j c bs] less.prems s1 by auto
    have bs: "bs \<noteq> []" "i + length bs \<le> length T" using False less.prems(8) by (auto simp: bs_def)
    have "length T - (i + length bs) < length T - i" using bs False less.prems(8) by (cases bs) auto
    from less.hyps [OF this, of s2 "j + length bs" "overwrite j bs c"]
    obtain t where t: "copy_loop src dst s2 = Some (True, t)" "world t = world s"
      "files t = (files s2)(cf \<mapsto> overwrite (j + length bs) (drop (i + length bs) T) (overwrite j bs c))"
      using less.prems s1 s2 bs overwrite_length [of j c bs] by (auto simp: bs_def [symmetric])
    have "drop i T = bs @ drop (i + length bs) T"
      by (simp add: bs_def min_def) (metis append_take_drop_id drop_drop add.commute)
    then have "overwrite (j + length bs) (drop (i + length bs) T) (overwrite j bs c) = overwrite j (drop i T) c"
      using overwrite_append [OF less.prems(9)] by simp
    moreover have "copy_loop src dst s = copy_loop src dst s2"
      using s1(1) s2(1) bs(1) by (subst copy_loop.simps) (simp add: bs_def)
    ultimately show ?thesis using s2 t by simp
  qed
qed

text \<open>What the kernel promises: a new descriptor is none of those that are open.\<close>

definition fresh_descriptors :: "wifi_world \<Rightarrow> bool" where
  "fresh_descriptors w \<longleftrightarrow>
     (\<forall>h h' p m p' m'. let fd = w_ret w h (Wopen p m) in
        (\<forall>r. (Wclose fd, r) \<notin> set h') \<longrightarrow> w_ret w (h @ (Wopen p m, fd) # h') (Wopen p' m') \<noteq> fd)"

lemma create_config_copies:
  assumes "files_work (world s)" "fresh_descriptors (world s)" "cf \<noteq> SUPP_CONFIG_TEMPLATE"
    and "files s SUPP_CONFIG_TEMPLATE = Some T" "files s cf = None"
  shows "\<exists>t. create_config cf s = update_ctrl_interface cf t \<and> files t = (files s)(cf \<mapsto> T) \<and> world t = world s"
proof -
  define s1 where "s1 = snd (wopen SUPP_CONFIG_TEMPLATE RDONLY s)"
  define src where "src = w_ret (world s) (hist s) (Wopen SUPP_CONFIG_TEMPLATE RDONLY)"
  have "0 \<le> src" using assms(1) by (simp add: src_def files_work_def)
  then have s1: "wopen SUPP_CONFIG_TEMPLATE RDONLY s = (src, s1)" "0 \<le> src" "files s1 = files s" "world s1 = world s"
    "wfds s1 src = Some (SUPP_CONFIG_TEMPLATE, 0)" "hist s1 = hist s @ [(Wopen SUPP_CONFIG_TEMPLATE RDONLY, src)]"
    using assms(4) by (simp_all add: s1_def src_def wopen_def wcall_simps fun_upd_idem)
  define dst where "dst = w_ret (world s) (hist s1) (Wopen cf RDWR_CREAT)"
  define s2 where "s2 = snd (wopen cf RDWR_CREAT s1)"
  have "0 \<le> dst" using assms(1) by (simp add: dst_def files_work_def)
  then have s2: "wopen cf RDWR_CREAT s1 = (dst, s2)" "files s2 = (files s)(cf \<mapsto> [])" "world s2 = world s"
    "wfds s2 = (wfds s1)(dst \<mapsto> (cf, 0))"
    using assms(5) s1 by (simp_all add: s2_def dst_def wopen_def wcall_simps)
  have "dst \<noteq> src"
    using assms(2) [unfolded fresh_descriptors_def Let_def, rule_format, of "hist s" SUPP_CONFIG_TEMPLATE RDONLY "[]"]
    by (simp add: dst_def src_def s1(6))
  then obtain s3 where "copy_loop src dst s2 = Some (True, s3)" "files s3 = (files s)(cf \<mapsto> overwrite 0 T [])" "world s3 = world s"
    using copy_loop_copies [of s2 src SUPP_CONFIG_TEMPLATE 0 dst cf 0 T "[]"] assms(1,3,4) s1 s2 by auto
  moreover obtain s4 where "set_mode_owner cf (wclose src (wclose dst s3)) = (True, s4)" "files s4 = files s3" "world s4 = world s3"
    using assms(1) \<open>world s3 = world s\<close>
    by (auto simp: set_mode_owner_def wcall_simps files_work_def not_less [symmetric])
  ultimately show ?thesis
    using s1(1,2) s2(1) \<open>0 \<le> dst\<close> by (auto simp: create_config_def overwrite_def)
qed

lemma ensure_creates:
  assumes "files_work (world s)" "zero_memory (world s)" "fresh_descriptors (world s)"
    and "interface_is (world s) v" "proper_name v" "cf \<noteq> SUPP_CONFIG_TEMPLATE" "files s cf = None"
    and "w_ret (world s) (hist s) (Access cf) \<noteq> 0" "\<And>h. w_errno (world s) h = ENOENT"
    and "files s SUPP_CONFIG_TEMPLATE = Some (pre @ CTRL @ old @ CHR 0x0A # post)"
    and "editable pre old post" "\<not> is_prefix (ctrl_target cf v) old"
  shows "\<exists>t. ensure_config_file_exists cf s = Some (0, t) \<and>
    files t = (files s)(cf \<mapsto> edited pre old post (ctrl_target cf v))"
proof -
  obtain t where t: "create_config cf (docall (Access cf) s) = update_ctrl_interface cf t"
    "files t = (files s)(cf \<mapsto> pre @ CTRL @ old @ CHR 0x0A # post)" "world t = world s"
    using create_config_copies [of "docall (Access cf) s" cf] assms(1,3,6,7,10) by auto
  moreover have "ensure_config_file_exists cf s = create_config cf (docall (Access cf) s)"
    using assms(8,9) by (simp add: ensure_config_file_exists_def wcall_simps get_errno_def)
  moreover obtain u where "update_ctrl_interface cf t = Some (0, u)"
    "files u = (files t)(cf \<mapsto> edited pre old post (ctrl_target cf v))"
    using update_edits [of t v pre old post cf] assms t by auto
  ultimately show ?thesis by simp
qed

lemma entropy_other_files:
  assumes "p \<noteq> SUPP_ENTROPY_FILE (build s)"
  shows "files (snd (ensure_entropy_file_exists s)) p = files s p"
proof -
  let ?f = "SUPP_ENTROPY_FILE (build s)" and ?s1 = "docall (Access (SUPP_ENTROPY_FILE (build s))) s"
  obtain fd s2 where s2: "wopen ?f RDWR_CREAT ?s1 = (fd, s2)" by fastforce
  then have f2: "files s2 p = files s p" and w2: "0 \<le> fd \<Longrightarrow> wfds s2 fd = Some (?f, 0)"
    using assms by (auto simp: wopen_def wcall_simps Let_def split: if_splits)
  have f3: "files (snd (wwrite fd dummy_key s2)) p = files s p" if "0 \<le> fd"
    using w2 [OF that] f2 assms by (simp add: wwrite_def wcall_simps)
  have f5: "files (snd (set_mode_owner ?f t)) p = files t p" for t
    using assms by (simp add: set_mode_owner_def wcall_simps wunlink_def)
  show ?thesis
    using s2 f2 f3 f5 [of "wclose fd (snd (wwrite fd dummy_key s2))"]
    by (auto simp: ensure_entropy_file_exists_def wcall_simps Let_def split: prod.splits)
qed

section \<open>Entropy file, stale sockets, stale memory\<close>

lemma entropy_file_created:
  assumes "files_work (world s)" "w_ret (world s) (hist s) (Access (SUPP_ENTROPY_FILE (build s))) \<noteq> 0"
    and "\<And>h. w_errno (world s) h = ENOENT" "files s (SUPP_ENTROPY_FILE (build s)) = None"
  shows "\<exists>t. ensure_entropy_file_exists s = (0, t) \<and> files t = (files s)(SUPP_ENTROPY_FILE (build s) \<mapsto> dummy_key)"
proof -
  let ?f = "SUPP_ENTROPY_FILE (build s)" and ?s1 = "docall (Access (SUPP_ENTROPY_FILE (build s))) s"
  have "\<not> w_ret (world s) (hist ?s1) (Wopen ?f RDWR_CREAT) < 0" using assms(1) by (simp add: files_work_def not_less)
  then obtain fd s2 where s2: "wopen ?f RDWR_CREAT ?s1 = (fd, s2)" "\<not> fd < 0" "files s2 = (files s)(?f \<mapsto> [])"
    "world s2 = world s" "wfds s2 fd = Some (?f, 0)"
    using assms(4) by (simp add: wopen_def wcall_simps)
  obtain s3 where s3: "wwrite fd dummy_key s2 = (int (length dummy_key), s3)"
    "files s3 = (files s)(?f \<mapsto> dummy_key)" "world s3 = world s"
    using wwrite_work [of s2 fd ?f 0 "[]" dummy_key] assms(1) s2 by (auto simp: overwrite_def)
  have "\<exists>s5. set_mode_owner ?f (wclose fd s3) = (True, s5) \<and> files s5 = files s3"
    using assms(1) s3(3) by (auto simp: set_mode_owner_def wcall_simps files_work_def not_less [symmetric])
  then show ?thesis
    using assms(2,3) s2(1,2) s3(1,2)
    by (auto simp: ensure_entropy_file_exists_def wcall_simps Let_def get_errno_def split: prod.splits)
qed

lemma wunlink_files: "files (wunlink f s) p = files s p \<or> p = f"
  by (simp add: wunlink_def wcall_simps)

lemma cleanup_entries_files:
  "files (cleanup_entries dir prefix es s) p = files s p \<or>
     (\<exists>e \<in> set es. is_prefix prefix e \<and> p = dir @ ''/'' @ e)"
proof (induction es arbitrary: s)
  case (Cons e es)
  show ?case using Cons.IH [of "if is_prefix prefix e \<and> length e < PATH_MAX - (length dir + 1) then wunlink (dir @ ''/'' @ e) s else s"]
      wunlink_files [of "dir @ ''/'' @ e" s p]
    by (auto split: if_splits)
qed simp

text \<open>\<open>wifi_wpa_ctrl_cleanup\<close> touches no file but entries of the socket directory whose names begin
  with the prefix of the client sockets.\<close>

theorem cleanup_only_client_sockets:
  "files (wifi_wpa_ctrl_cleanup s) p = files s p \<or>
     (\<exists>e \<in> set (w_dir (world s) (hist (docall (Opendir (CLIENT_DIR (build s))) s))).
        is_prefix (CLIENT_PREFIX (build s)) e \<and> p = CLIENT_DIR (build s) @ ''/'' @ e)"
  using cleanup_entries_files [of "CLIENT_DIR (build s)" "CLIENT_PREFIX (build s)"
      "w_dir (world s) (hist (docall (Opendir (CLIENT_DIR (build s))) s))" "docall (Opendir (CLIENT_DIR (build s))) s" p]
  by (auto simp: wifi_wpa_ctrl_cleanup_def wcall_simps Let_def)

text \<open>The search is not confined to the bytes that were read: an entry left over in the memory behind
  them is found, and its edit leaves the area.\<close>

lemma stale_memory_edited: "update_buf (''network={}'' @ CTRL @ ''x'' @ CHR 0x0A # replicate 3 CHR 0x00) 10 ''wlan0'' = None"
  by (simp add: update_buf_def ctrl_find_def strstr_mem_def c_str_def ctrl_edit_def CTRL_def)

section \<open>What these operations leave alone\<close>

lemma frame_set_mode_owner [frame_intros]: "frame s t \<Longrightarrow> frame s (snd (set_mode_owner p t))"
  by (auto simp: set_mode_owner_def wcall_simps Let_def intro!: frame_intros)

lemma frame_cleanup_entries: "frame s t \<Longrightarrow> frame s (cleanup_entries dir pre es t)"
  by (induction es arbitrary: t) (simp_all add: frame_wunlink)

lemma frame_cleanup [frame_intros]: "frame s t \<Longrightarrow> frame s (wifi_wpa_ctrl_cleanup t)"
  by (simp add: wifi_wpa_ctrl_cleanup_def wcall_simps Let_def frame_docall frame_cleanup_entries)

lemma frame_entropy [frame_intros]:
  assumes "frame s t"
  shows "frame s (snd (ensure_entropy_file_exists t))"
proof -
  let ?f = "SUPP_ENTROPY_FILE (build t)"
  have 1: "frame s (docall (Access ?f) t)" by (simp add: assms frame_docall)
  note 2 = frame_wopen [OF 1, of ?f RDWR_CREAT]
  note 3 = frame_wclose [OF frame_wwrite [OF 2], of "fst (wopen ?f RDWR_CREAT (docall (Access ?f) t))"]
  show ?thesis using 1 2 3 [of "fst (wopen ?f RDWR_CREAT (docall (Access ?f) t))" dummy_key]
      frame_set_mode_owner [OF 3 [of "fst (wopen ?f RDWR_CREAT (docall (Access ?f) t))" dummy_key], of ?f]
    by (auto simp: ensure_entropy_file_exists_def wcall_simps Let_def frame_docall split: prod.splits)
qed

lemma frame_update:
  assumes "update_ctrl_interface cf t = Some (r, u)" "frame s t"
  shows "frame s u"
proof -
  define s2 where "s2 = docall (Wmalloc (length (the (files t cf)) + PROPERTY_VALUE_MAX)) (docall (Stat cf) t)"
  have 2: "frame s s2" by (simp add: s2_def assms frame_docall)
  obtain fd s3 where 3: "wopen cf RDONLY s2 = (fd, s3)" by fastforce
  then have f3: "frame s s3" using frame_wopen [OF 2, of cf RDONLY] by simp
  obtain got s4 where 4: "wread fd (length (the (files t cf))) s3 = (got, s4)" by fastforce
  then have f4: "frame s (wclose fd s4)" using frame_wread [OF f3, of fd "length (the (files t cf))"] by (simp add: frame_wclose)
  obtain ifc s6 where 6: "(if cf = SUPP_CONFIG_FILE then wproperty_get ''wifi.interface'' WIFI_TEST_INTERFACE (wclose fd s4)
      else (CONTROL_IFACE_PATH, wclose fd s4)) = (ifc, s6)" by fastforce
  then have f6: "frame s s6" using f4 by (auto simp: wproperty_get_pair frame_docall split: if_splits)
  obtain fd' s7 where 7: "wopen cf RDWR s6 = (fd', s7)" by fastforce
  then have f7: "frame s s7" using frame_wopen [OF f6, of cf RDWR] by simp
  have docall: "frame s (docall (Stat cf) t)" by (simp add: assms frame_docall)
  show ?thesis
    using assms(1) 3 4 6 7 docall 2 f3 f4 f6 f7
    by (auto simp: update_ctrl_interface_def wcall_simps Let_def s2_def frame_docall frame_wclose frame_wwrite
        split: option.splits if_splits prod.splits)
qed

lemma frame_copy_loop: "copy_loop src dst t = Some r \<Longrightarrow> frame s t \<longrightarrow> frame s (snd r)"
proof (rule copy_loop.raw_induct [where P = "\<lambda>src dst t r. frame s t \<longrightarrow> frame s (snd r)"])
  fix f src dst t r
  assume IH: "\<And>src dst t r. f src dst t = Some r \<Longrightarrow> frame s t \<longrightarrow> frame s (snd r)"
    and step: "(let (got, s1) = wread src 2048 t in
      case got of None \<Rightarrow> Some (False, s1)
      | Some bs \<Rightarrow> if bs = [] then Some (True, s1) else f src dst (snd (wwrite dst bs s1))) = Some r"
  show "frame s t \<longrightarrow> frame s (snd r)"
  proof
    assume "frame s t"
    then have "frame s (snd (wread src 2048 t))" by (rule frame_wread)
    then show "frame s (snd r)" using step IH
      by (auto simp: Let_def frame_wwrite split: prod.splits option.splits if_splits)
  qed
qed

lemma frame_create_config:
  assumes "create_config cf t = Some (r, u)" "frame s t"
  shows "frame s u"
proof -
  obtain src s1 where 1: "wopen SUPP_CONFIG_TEMPLATE RDONLY t = (src, s1)" by fastforce
  then have f1: "frame s s1" using frame_wopen [OF assms(2), of SUPP_CONFIG_TEMPLATE RDONLY] by simp
  obtain dst s2 where 2: "wopen cf RDWR_CREAT s1 = (dst, s2)" by fastforce
  then have f2: "frame s s2" using frame_wopen [OF f1, of cf RDWR_CREAT] by simp
  have f3: "frame s s3" if "copy_loop src dst s2 = Some (ok, s3)" for ok s3
    using frame_copy_loop [OF that] f2 by simp
  have f4: "frame s s4" if "copy_loop src dst s2 = Some (ok, s3)" "set_mode_owner cf (wclose src (wclose dst s3)) = (b, s4)" for ok s3 b s4
    using frame_set_mode_owner [OF frame_wclose [OF frame_wclose [OF f3 [OF that(1)]]], of cf src dst] that(2) by simp
  show ?thesis
    using assms(1) 1 2 f1 f2
    by (auto simp: create_config_def frame_wclose split: option.splits bool.splits if_splits prod.splits
        intro: frame_update f4 frame_wunlink frame_wclose f3)
qed

lemma frame_ensure_config:
  assumes "ensure_config_file_exists cf t = Some (r, u)" "frame s t"
  shows "frame s u"
proof -
  have "frame s (docall (Access cf) t)" by (simp add: assms frame_docall)
  then show ?thesis using assms(1)
    by (auto simp: ensure_config_file_exists_def wcall_simps Let_def frame_docall
        split: if_splits option.splits elim!: frame_update frame_create_config)
qed

section \<open>Concrete runs\<close>

text \<open>Surroundings in which the configuration file is missing; the interface is \<open>wlan0\<close>.\<close>

definition config_world :: wifi_world where
  "config_world = (quiet_world (\<lambda>k. None) [])
     \<lparr>w_ret := (\<lambda>h r. case r of Access p \<Rightarrow> -1 | _ \<Rightarrow> quiet_ret h r), w_errno := (\<lambda>h. ENOENT),
      w_props := (\<lambda>h k. if k = ''wifi.interface'' then Some \<lparr>pi_value = ''wlan0'', pi_serial = 0\<rparr> else None)\<rparr>"

definition sample_conf :: "string \<Rightarrow> string" where
  "sample_conf v = ''# Wi-Fi'' @ [CHR 0x0A] @ CTRL @ v @ CHR 0x0A # ''update_config=1'' @ [CHR 0x0A]"

lemma config_world_works:
  "files_work config_world" "zero_memory config_world" "interface_is config_world ''wlan0''"
  "fresh_descriptors config_world" "w_errno config_world h = ENOENT" "w_ret config_world h (Access p) = -1"
  by (simp_all add: config_world_def files_work_def zero_memory_def interface_is_def fresh_descriptors_def Let_def)

lemma sample_editable:
  "editable (''# Wi-Fi'' @ [CHR 0x0A]) ''tiwlan0'' (''update_config=1'' @ [CHR 0x0A])"
  "edited (''# Wi-Fi'' @ [CHR 0x0A]) ''tiwlan0'' (''update_config=1'' @ [CHR 0x0A]) ''wlan0'' = sample_conf (''wlan0'' @ [CHR 0x0A, CHR 0x0A])"
  "proper_name ''wlan0''"
  by (simp_all add: editable_def edited_def sample_conf_def proper_name_def PROPERTY_VALUE_MAX_def CTRL_def)


theorem update_ctrl_interface_no_newline_witness:
  "update_ctrl_interface SUPP_CONFIG_FILE (wifi_boot config_world (board_build [])
     [SUPP_CONFIG_FILE \<mapsto> CTRL @ ''tiwlan0'']) = None"
  by (rule update_ctrl_interface_no_newline [of _ "''wlan0''" "[]" "''tiwlan0''"])
    (simp_all add: config_world_works sample_editable ctrl_target_def CTRL_def)

end
