(* ===== verification/Wifi_Supplicant.thy ===== *)
theory Wifi_Supplicant
  imports Wifi_Config Platform
begin

text \<open>
  Starting and stopping of the supplicant by \<open>src/wifi/wifi.c\<close>, the control and monitor connections to
  it, commands and events.  The library keeps for each of the two interfaces a control connection, a
  monitor connection and a pair of sockets by which a thread that waits for an event is woken up.

  An operation that touches memory outside its buffers returns \<open>None\<close>.  A character buffer of the
  caller is a list, its length the size of the buffer.
\<close>

section \<open>The operations\<close>

definition IFACE_DIR :: string where "IFACE_DIR = ''/data/system/wpa_supplicant''"
definition SUPPLICANT_NAME :: string where "SUPPLICANT_NAME = ''wpa_supplicant''"
definition SUPP_PROP_NAME :: string where "SUPP_PROP_NAME = ''init.svc.wpa_supplicant''"
definition P2P_SUPPLICANT_NAME :: string where "P2P_SUPPLICANT_NAME = ''p2p_supplicant''"
definition P2P_PROP_NAME :: string where "P2P_PROP_NAME = ''init.svc.p2p_supplicant''"
definition WPA_EVENT_TERMINATING :: string where "WPA_EVENT_TERMINATING = ''CTRL-EVENT-TERMINATING ''"

definition is_primary_interface :: "string option \<Rightarrow> wifi_st \<Rightarrow> bool" where
  "is_primary_interface ifname s = (case ifname of None \<Rightarrow> True | Some n \<Rightarrow> is_prefix (primary_iface s) n)"

definition choose_names :: "bool \<Rightarrow> wifi_st \<Rightarrow> wifi_st" where
  "choose_names p2p s =
     (if p2p then s\<lparr>supplicant_name := P2P_SUPPLICANT_NAME, supplicant_prop_name := P2P_PROP_NAME\<rparr>
      else s\<lparr>supplicant_name := SUPPLICANT_NAME, supplicant_prop_name := SUPP_PROP_NAME\<rparr>)"

definition prop_serial :: "wifi_st \<Rightarrow> string \<Rightarrow> nat" where
  "prop_serial s key = (case w_props (world s) (hist s) key of None \<Rightarrow> 0 | Some i \<Rightarrow> pi_serial i)"

definition prop_exists :: "wifi_st \<Rightarrow> string \<Rightarrow> bool" where
  "prop_exists s key = (w_props (world s) (hist s) key \<noteq> None)"

text \<open>The waiting loop of \<open>wifi_start_supplicant\<close>.  \<open>pi\<close> says whether the property has been found, \<open>serial\<close>
  is its serial number before the start.\<close>

primrec start_wait :: "nat \<Rightarrow> bool \<Rightarrow> nat \<Rightarrow> wifi_st \<Rightarrow> int \<times> wifi_st" where
  "start_wait 0 pi serial s = (-1, s)"
| "start_wait (Suc n) pi serial s =
     (let name = supplicant_prop_name s;
          pi' = (pi \<or> prop_exists s name);
          s1 = (if pi then s else docall (Property_find name) s);
          supp_status = prop_value s1 name;
          s2 = (if pi' then docall (Property_read name) s1 else s1) in
      if pi' \<and> supp_status = ''running'' then (0, s2)
      else if pi' \<and> prop_serial s2 name \<noteq> serial \<and> supp_status = ''stopped'' then (-1, s2)
      else start_wait n pi' serial (docall (Usleep 100000) s2))"

definition start_daemon :: "wifi_st \<Rightarrow> int \<times> wifi_st" where
  "start_daemon s =
     (let s1 = wifi_wpa_ctrl_cleanup (snd (ensure_entropy_file_exists s));
          s2 = s1\<lparr>exit_sockets := (\<lambda>i. (-1, -1))\<rparr>;
          name = supplicant_prop_name s2;
          pi = prop_exists s2 name;
          serial = prop_serial s2 name;
          (ifc, s3) = wproperty_get ''wifi.interface'' WIFI_TEST_INTERFACE (docall (Property_find name) s2);
          s4 = s3\<lparr>primary_iface := ifc\<rparr>
      in start_wait 200 pi serial (docall Sched_yield (docall (Property_set ''ctl.start'' (supplicant_name s4)) s4)))"

definition wifi_start_supplicant :: "bool \<Rightarrow> wifi_st \<Rightarrow> (int \<times> wifi_st) option" where
  "wifi_start_supplicant p2p_supported s =
     (let s0 = choose_names p2p_supported s in
      case (if p2p_supported then ensure_config_file_exists P2P_CONFIG_FILE s0 else Some (0, s0)) of
        None \<Rightarrow> None
      | Some (r, s1) \<Rightarrow>
          if r < 0 then Some (-1, s1)
          else
            let (supp_status, s2) = wproperty_get (supplicant_name s1) [] s1 in
            if supp_status = ''running'' then Some (0, s2)
            else
              case ensure_config_file_exists SUPP_CONFIG_FILE s2 of
                None \<Rightarrow> None
              | Some (r', s3) \<Rightarrow> if r' < 0 then Some (-1, s3) else Some (start_daemon s3))"

text \<open>One round of the loops that wait until \<open>init\<close> has stopped the supplicant.\<close>

definition stopped_check :: "wifi_st \<Rightarrow> int option \<times> wifi_st" where
  "stopped_check s =
     (let (supp_status, s1) = wproperty_get (supplicant_prop_name s) [] s in
      if supp_status = ''stopped'' then (Some 0, s1) else (None, s1))"

definition wifi_stop_supplicant :: "bool \<Rightarrow> wifi_st \<Rightarrow> int \<times> wifi_st" where
  "wifi_stop_supplicant p2p_supported s =
     (let s0 = choose_names p2p_supported s;
          (supp_status, s1) = wproperty_get (supplicant_prop_name s0) [] s0 in
      if supp_status = ''stopped'' then (0, s1)
      else
        let (res, s2) = poll_until 50 100000 stopped_check
              (docall Sched_yield (docall (Property_set ''ctl.stop'' (supplicant_name s1)) s1))
        in (case res of Some v \<Rightarrow> v | None \<Rightarrow> -1, s2))"

section \<open>Connections\<close>

text \<open>\<open>wifi_connect_on_socket_path\<close> in three stages: closing both connections after a failure, attaching the
  monitor connection and creating the sockets, opening the monitor connection.\<close>

definition drop_connections :: "conn_index \<Rightarrow> int \<Rightarrow> int \<Rightarrow> wifi_st \<Rightarrow> wifi_st" where
  "drop_connections i c m s = (docall (Wpa_ctrl_close c) (docall (Wpa_ctrl_close m) s))
     \<lparr>ctrl_conn := (ctrl_conn s)(i := 0), monitor_conn := (monitor_conn s)(i := 0)\<rparr>"

definition attach_monitor :: "conn_index \<Rightarrow> int \<Rightarrow> int \<Rightarrow> wifi_st \<Rightarrow> int \<times> wifi_st" where
  "attach_monitor i c m s =
     (let (a, s1) = syscall (Wpa_ctrl_attach m) s in
      if a \<noteq> 0 then (-1, drop_connections i c m s1)
      else
        let (p, s2) = syscall Socketpair s1 in
        if p = -1 then (-1, drop_connections i c m s2)
        else (0, s2\<lparr>exit_sockets := (exit_sockets s2)(i := w_pair (world s2) (hist s2))\<rparr>))"

definition open_monitor :: "conn_index \<Rightarrow> string \<Rightarrow> int \<Rightarrow> wifi_st \<Rightarrow> int \<times> wifi_st" where
  "open_monitor i path c s =
     (let (m, s1) = syscall (Wpa_ctrl_open path) s; s2 = s1\<lparr>monitor_conn := (monitor_conn s1)(i := m)\<rparr> in
      if m = 0 then (-1, (docall (Wpa_ctrl_close c) s2)\<lparr>ctrl_conn := (ctrl_conn s2)(i := 0)\<rparr>)
      else attach_monitor i c m s2)"

definition wifi_connect_on_socket_path :: "conn_index \<Rightarrow> string \<Rightarrow> wifi_st \<Rightarrow> int \<times> wifi_st" where
  "wifi_connect_on_socket_path i path s =
     (let (supp_status, s0) = wproperty_get (supplicant_prop_name s) [] s in
      if supp_status \<noteq> ''running'' then (-1, s0)
      else
        let (c, s1) = syscall (Wpa_ctrl_open path) s0; s2 = s1\<lparr>ctrl_conn := (ctrl_conn s1)(i := c)\<rparr> in
        if c = 0 then (-1, s2) else open_monitor i path c s2)"

text \<open>The path is built in an array of 256 bytes, with \<open>sprintf\<close> for the second interface.\<close>

definition wifi_connect_to_supplicant :: "string option \<Rightarrow> wifi_st \<Rightarrow> (int \<times> wifi_st) option" where
  "wifi_connect_to_supplicant ifname s =
     (if is_primary_interface ifname s then
        let (r, s1) = syscall (Access IFACE_DIR) s;
            path = (if r = 0 then take 255 (IFACE_DIR @ ''/'' @ primary_iface s) else take 255 (primary_iface s))
        in Some (wifi_connect_on_socket_path PRIMARY path s1)
      else
        let path = CONTROL_IFACE_PATH @ ''/'' @ (case ifname of None \<Rightarrow> [] | Some n \<Rightarrow> n) in
        if length path < 256 then Some (wifi_connect_on_socket_path SECONDARY path s) else None)"

text \<open>The result of a command: the value, the reply buffer and \<open>*reply_len\<close>.\<close>

definition wifi_send_command ::
  "conn_index \<Rightarrow> string \<Rightarrow> string \<Rightarrow> nat \<Rightarrow> wifi_st \<Rightarrow> ((int \<times> string \<times> nat) \<times> wifi_st) option" where
  "wifi_send_command i cmd reply reply_len s =
     (if ctrl_conn s i = 0 then Some ((-1, reply, reply_len), s)
      else
        let (ret, s1) = syscall (Wpa_ctrl_request (ctrl_conn s i) cmd) s;
            out = (if ret = 0 then take reply_len (w_reply (world s1) (hist s1)) else []);
            reply' = overwrite 0 out reply;
            reply_len' = (if ret = 0 then length out else reply_len) in
        if length reply < length out then None
        else if ret = -2 then Some ((-2, reply', reply_len'), docall (Wwrite (fst (exit_sockets s i)) ''T'') s1)
        else if ret < 0 \<or> is_prefix ''FAIL'' reply' then Some ((-1, reply', reply_len'), s1)
        else if is_prefix ''PING'' cmd then
          if reply_len' < length reply then Some ((0, reply'[reply_len' := CHR 0x00], reply_len'), s1) else None
        else Some ((0, reply', reply_len'), s1))"

definition close_conn :: "int \<Rightarrow> wifi_st \<Rightarrow> wifi_st" where
  "close_conn c s = (if c \<noteq> 0 then docall (Wpa_ctrl_close c) s else s)"

definition close_fd :: "int \<Rightarrow> wifi_st \<Rightarrow> wifi_st" where
  "close_fd fd s = (if fd \<ge> 0 then docall (Wclose fd) s else s)"

definition wifi_close_sockets :: "conn_index \<Rightarrow> wifi_st \<Rightarrow> wifi_st" where
  "wifi_close_sockets i s =
     (let s1 = (close_conn (ctrl_conn s i) s)\<lparr>ctrl_conn := (ctrl_conn s)(i := 0)\<rparr>;
          s2 = (close_conn (monitor_conn s i) s1)\<lparr>monitor_conn := (monitor_conn s)(i := 0)\<rparr>;
          (a, b) = exit_sockets s i;
          s3 = close_fd b (close_fd a s2)
      in s3\<lparr>exit_sockets := (exit_sockets s)(i := (if a \<ge> 0 then -1 else a, if b \<ge> 0 then -1 else b))\<rparr>)"

text \<open>\<open>wpa_ctrl_recv\<close> returns 0 and the number of bytes, or a negative value and leaves the rest alone.\<close>

definition wifi_ctrl_recv :: "conn_index \<Rightarrow> string \<Rightarrow> nat \<Rightarrow> wifi_st \<Rightarrow> (int \<times> string \<times> nat) \<times> wifi_st" where
  "wifi_ctrl_recv i reply reply_len s =
     (let (res, s1) = syscall (Poll (monitor_conn s i) (snd (exit_sockets s i))) s in
      if res < 0 then ((res, reply, reply_len), s1)
      else
        let (ev0, ev1) = w_revents (world s1) (hist s1) in
        if ev0 then
          let (r, s2) = syscall (Wpa_ctrl_recv (monitor_conn s i) reply_len) s1 in
          if r < 0 then ((r, reply, reply_len), s2)
          else let out = take reply_len (w_reply (world s2) (hist s2))
               in ((r, overwrite 0 out reply, length out), s2)
        else if ev1 \<and> i = SECONDARY then ((-2, reply, reply_len), wifi_close_sockets i s1)
        else ((-2, reply, reply_len), s1))"

text \<open>\<open>strncpy(buf, msg, buflen-1); buf[buflen-1] = 0\<close>.\<close>

definition fill_event :: "string \<Rightarrow> nat \<Rightarrow> string" where
  "fill_event msg buflen = take (buflen - 1) (msg @ replicate buflen CHR 0x00) @ [CHR 0x00]"

text \<open>Removal of the level \<open><N>\<close> from a message of \<open>nread\<close> bytes.\<close>

definition strip_level :: "string \<Rightarrow> nat \<Rightarrow> string \<times> nat" where
  "strip_level buf nread =
     (let str = takeWhile (\<lambda>c. c \<noteq> CHR 0x00) buf; k = length (takeWhile (\<lambda>c. c \<noteq> CHR ''>'') str) in
      if is_prefix ''<'' buf \<and> k < length str
      then (overwrite 0 (take (nread - (k + 1) + 1) (drop (k + 1) buf)) buf, nread - (k + 1))
      else (buf, nread))"

definition wifi_wait_on_socket :: "conn_index \<Rightarrow> string \<Rightarrow> wifi_st \<Rightarrow> ((nat \<times> string) \<times> wifi_st) option" where
  "wifi_wait_on_socket i buf s =
     (let buflen = length buf;
          event = (\<lambda>msg u. Some ((min (length msg) (buflen - 1), fill_event msg buflen), u)) in
      if buflen = 0 then None
      else if monitor_conn s i = 0 then event (WPA_EVENT_TERMINATING @ '' - connection closed'') s
      else
        let ((result, buf1, nread), s1) = wifi_ctrl_recv i buf (buflen - 1) s in
        if result = -2 then event (WPA_EVENT_TERMINATING @ '' - connection closed'') s1
        else if result < 0 then event (WPA_EVENT_TERMINATING @ '' - recv error'') s1
        else
          let buf2 = buf1[nread := CHR 0x00] in
          if result = 0 \<and> nread = 0 then event (WPA_EVENT_TERMINATING @ '' - signal 0 received'') s1
          else let (buf3, n) = strip_level buf2 nread in Some ((n, buf3), s1))"

definition index_of :: "string option \<Rightarrow> wifi_st \<Rightarrow> conn_index" where
  "index_of ifname s = (if is_primary_interface ifname s then PRIMARY else SECONDARY)"

definition wifi_wait_for_event :: "string option \<Rightarrow> string \<Rightarrow> wifi_st \<Rightarrow> ((nat \<times> string) \<times> wifi_st) option" where
  "wifi_wait_for_event ifname buf s = wifi_wait_on_socket (index_of ifname s) buf s"

definition wifi_command ::
  "string option \<Rightarrow> string \<Rightarrow> string \<Rightarrow> nat \<Rightarrow> wifi_st \<Rightarrow> ((int \<times> string \<times> nat) \<times> wifi_st) option" where
  "wifi_command ifname command reply reply_len s = wifi_send_command (index_of ifname s) command reply reply_len s"

definition wifi_close_supplicant_connection :: "string option \<Rightarrow> wifi_st \<Rightarrow> wifi_st" where
  "wifi_close_supplicant_connection ifname s =
     (if is_primary_interface ifname s
      then snd (poll_until 50 100000 stopped_check (wifi_close_sockets PRIMARY s))
      else docall (Wwrite (fst (exit_sockets s SECONDARY)) ''T'') s)"

section \<open>What the operations leave alone\<close>

lemma frame_start_wait: "frame s t \<Longrightarrow> frame s (snd (start_wait n pi serial t))"
proof (induction n arbitrary: pi t)
  case (Suc n)
  then show ?case by (simp add: Let_def frame_docall)
qed simp

lemma frame_start_daemon: "frame s t \<Longrightarrow> frame s (snd (start_daemon t))"
  by (auto simp: start_daemon_def Let_def wcall_simps intro!: frame_start_wait frame_intros)

lemma frame_start_supplicant:
  assumes "wifi_start_supplicant p t = Some (r, u)"
  shows "frame (choose_names p t) u"
proof -
  let ?s = "choose_names p t"
  have "frame ?s s2" if "ensure_config_file_exists P2P_CONFIG_FILE ?s = Some (r1, s2)" for r1 s2
    by (rule frame_ensure_config [OF that frame_refl])
  moreover have "frame ?s s3" if "frame ?s s2" "ensure_config_file_exists SUPP_CONFIG_FILE (docall (Property_get k) s2) = Some (r2, s3)" for r2 s2 s3 k
    using frame_ensure_config [OF that(2)] that(1) by (simp add: frame_docall)
  ultimately show ?thesis using assms frame_refl [of ?s] frame_start_daemon [of ?s]
    by (auto simp: wifi_start_supplicant_def Let_def wcall_simps frame_docall split: option.splits if_splits prod.splits)
      (metis snd_conv)+
qed

lemma frame_stopped_check [frame_intros]: "frame s t \<Longrightarrow> frame s (snd (stopped_check t))"
  by (simp add: stopped_check_def wcall_simps frame_docall)

lemma frame_stop_supplicant: "frame (choose_names p t) (snd (wifi_stop_supplicant p t))"
proof -
  have "frame (choose_names p t) (snd (poll_until 50 100000 stopped_check (docall Sched_yield (docall (Property_set k v)
      (docall (Property_get x) (choose_names p t))))))" for k v x
    by (auto intro!: frame_poll_until frame_intros)
  then show ?thesis
    by (simp add: wifi_stop_supplicant_def wcall_simps Let_def frame_intros case_prod_beta)
qed

lemma frame_send_command:
  "wifi_send_command i cmd reply len t = Some (x, u) \<Longrightarrow> frame s t \<Longrightarrow> frame s u"
  by (auto simp: wifi_send_command_def wcall_simps Let_def frame_docall split: if_splits)

section \<open>Accounting of connections\<close>

text \<open>How often the library opened a connection minus how often it closed it, and in how many of its
  variables it holds the connection.\<close>

fun conn_weight :: "wreq \<times> int \<Rightarrow> int \<Rightarrow> int" where
  "conn_weight (Wpa_ctrl_open p, r) h = (if r = h then 1 else 0)"
| "conn_weight (Wpa_ctrl_close c, r) h = (if c = h then -1 else 0)"
| "conn_weight _ h = 0"

definition conn_net :: "whist \<Rightarrow> int \<Rightarrow> int" where
  "conn_net cs h = (\<Sum>c\<leftarrow>cs. conn_weight c h)"

definition conns_held :: "wifi_st \<Rightarrow> int \<Rightarrow> int" where
  "conns_held s h = of_bool (ctrl_conn s PRIMARY = h) + of_bool (ctrl_conn s SECONDARY = h)
     + of_bool (monitor_conn s PRIMARY = h) + of_bool (monitor_conn s SECONDARY = h)"

lemma conn_net_simps [simp]: "conn_net [] h = 0" "conn_net (c # cs) h = conn_weight c h + conn_net cs h"
  "conn_net (cs @ ds) h = conn_net cs h + conn_net ds h"
  by (simp_all add: conn_net_def)

lemma conn_net_neutral: "list_all (\<lambda>c. neutral (fst c)) cs \<Longrightarrow> conn_net cs h = 0"
proof (induction cs)
  case (Cons c cs)
  then show ?case by (cases c; cases "fst c") auto
qed simp

text \<open>\<open>slack\<close> is 0 when every open connection is in a variable; a stage of the connection keeps it.\<close>

definition slack :: "wifi_st \<Rightarrow> int \<Rightarrow> int" where
  "slack s h = conn_net (hist s) h - conns_held s h"

lemma slack_docall: "slack (docall r s) h = slack s h + conn_weight (r, w_ret (world s) (hist s) r) h"
  by (simp add: slack_def conns_held_def)

lemma slack_update_other [simp]: "slack (s\<lparr>exit_sockets := x\<rparr>) h = slack s h"
  by (simp add: slack_def conns_held_def)

lemma slack_ctrl: "h \<noteq> 0 \<Longrightarrow> slack (s\<lparr>ctrl_conn := (ctrl_conn s)(i := c)\<rparr>) h
    = slack s h + of_bool (ctrl_conn s i = h) - of_bool (c = h)"
  by (cases i) (simp_all add: slack_def conns_held_def)

lemma slack_monitor: "h \<noteq> 0 \<Longrightarrow> slack (s\<lparr>monitor_conn := (monitor_conn s)(i := c)\<rparr>) h
    = slack s h + of_bool (monitor_conn s i = h) - of_bool (c = h)"
  by (cases i) (simp_all add: slack_def conns_held_def)

lemma slack_drop:
  assumes "h \<noteq> 0" "ctrl_conn s i = c" "monitor_conn s i = m"
  shows "slack (drop_connections i c m s) h = slack s h"
proof -
  let ?u = "docall (Wpa_ctrl_close c) (docall (Wpa_ctrl_close m) s)"
  have "drop_connections i c m s = (?u\<lparr>ctrl_conn := (ctrl_conn ?u)(i := 0)\<rparr>)
      \<lparr>monitor_conn := (monitor_conn (?u\<lparr>ctrl_conn := (ctrl_conn ?u)(i := 0)\<rparr>))(i := 0)\<rparr>"
    by (simp add: drop_connections_def)
  then show ?thesis using assms by (simp only: slack_monitor [OF assms(1)] slack_ctrl [OF assms(1)] slack_docall) simp
qed

lemma slack_attach:
  assumes "h \<noteq> 0" "ctrl_conn s i = c" "monitor_conn s i = m"
  shows "slack (snd (attach_monitor i c m s)) h = slack s h"
  using assms by (simp add: attach_monitor_def wcall_simps slack_drop slack_docall del: docall_simps(1))

lemma slack_open_monitor:
  assumes "h \<noteq> 0" "ctrl_conn s i = c" "c \<noteq> 0" "monitor_conn s i = 0"
  shows "slack (snd (open_monitor i path c s)) h = slack s h"
proof -
  define m where "m = w_ret (world s) (hist s) (Wpa_ctrl_open path)"
  define s2 where "s2 = (docall (Wpa_ctrl_open path) s)\<lparr>monitor_conn := (monitor_conn (docall (Wpa_ctrl_open path) s))(i := m)\<rparr>"
  have "slack s2 h = slack s h"
    using assms unfolding s2_def by (simp only: slack_monitor [OF assms(1)] slack_docall) (simp add: m_def)
  moreover have "ctrl_conn s2 i = c" "monitor_conn s2 i = m" using assms by (simp_all add: s2_def)
  moreover from this have "slack ((docall (Wpa_ctrl_close c) s2)\<lparr>ctrl_conn := (ctrl_conn (docall (Wpa_ctrl_close c) s2))(i := 0)\<rparr>) h = slack s2 h"
    using assms by (simp only: slack_ctrl [OF assms(1)] slack_docall) simp
  moreover have "open_monitor i path c s = (if m = 0
      then (-1, (docall (Wpa_ctrl_close c) s2)\<lparr>ctrl_conn := (ctrl_conn s2)(i := 0)\<rparr>) else attach_monitor i c m s2)"
    by (simp add: open_monitor_def wcall_simps Let_def m_def s2_def)
  ultimately show ?thesis using slack_attach [OF assms(1), of s2 i c m] by simp
qed

lemma slack_close_conn: "c \<noteq> 0 \<Longrightarrow> slack (close_conn c s) h = slack s h - of_bool (c = h)"
  unfolding close_conn_def by (simp only: if_True slack_docall not_False_eq_True) simp

lemma slack_close_sockets:
  assumes "h \<noteq> 0"
  shows "slack (wifi_close_sockets i s) h = slack s h"
proof -
  have fd: "slack (close_fd a u) h = slack u h" for a u
    by (simp add: close_fd_def slack_docall del: docall_simps(1))
  have conn: "slack ((close_conn c u)\<lparr>ctrl_conn := (ctrl_conn u)(i := 0)\<rparr>) h = slack u h" if "ctrl_conn u i = c" for c u
    using that assms slack_ctrl [OF assms, of "close_conn c u" i 0] slack_docall [of "Wpa_ctrl_close c" u h]
    by (auto simp: close_conn_def simp del: docall_simps(1))
  have mon: "slack ((close_conn c u)\<lparr>monitor_conn := (monitor_conn u)(i := 0)\<rparr>) h = slack u h" if "monitor_conn u i = c" for c u
    using that assms slack_monitor [OF assms, of "close_conn c u" i 0] slack_docall [of "Wpa_ctrl_close c" u h]
    by (auto simp: close_conn_def simp del: docall_simps(1))
  define s1 where "s1 = (close_conn (ctrl_conn s i) s)\<lparr>ctrl_conn := (ctrl_conn s)(i := 0)\<rparr>"
  have "monitor_conn s1 = monitor_conn s" by (simp add: s1_def close_conn_def)
  then show ?thesis using conn [OF refl, of s] mon [of s1 "monitor_conn s i"]
    by (simp add: wifi_close_sockets_def s1_def [symmetric] fd case_prod_beta Let_def)
qed

lemma slack_frame: "frame s t \<Longrightarrow> slack t h = slack s h"
  by (auto simp: frame_def slack_def conns_held_def conn_net_neutral)

lemma slack_connect:
  assumes "h \<noteq> 0" "ctrl_conn s i = 0" "monitor_conn s i = 0"
  shows "slack (snd (wifi_connect_on_socket_path i path s)) h = slack s h"
proof -
  define s0 where "s0 = docall (Property_get (supplicant_prop_name s)) s"
  define c where "c = w_ret (world s) (hist s0) (Wpa_ctrl_open path)"
  define s2 where "s2 = (docall (Wpa_ctrl_open path) s0)\<lparr>ctrl_conn := (ctrl_conn (docall (Wpa_ctrl_open path) s0))(i := c)\<rparr>"
  have 0: "slack s0 h = slack s h" unfolding s0_def by (simp only: slack_docall) simp
  have "world s0 = world s" "ctrl_conn s0 i = 0" using assms by (simp_all add: s0_def)
  then have "slack s2 h = slack s0 h"
    using assms(1) unfolding s2_def by (simp only: slack_ctrl [OF assms(1)] slack_docall) (simp add: c_def)
  moreover have "ctrl_conn s2 i = c" "monitor_conn s2 i = 0" using assms by (simp_all add: s2_def s0_def)
  moreover have "snd (wifi_connect_on_socket_path i path s) =
      (if prop_value s (supplicant_prop_name s) \<noteq> ''running'' then s0 else if c = 0 then s2 else snd (open_monitor i path c s2))"
    by (simp add: wifi_connect_on_socket_path_def wcall_simps Let_def s0_def c_def s2_def)
  ultimately show ?thesis using 0 slack_open_monitor [OF assms(1), of s2 i c path] by simp
qed

section \<open>The interface of the library\<close>

datatype wifi_api =
    Load_driver | Unload_driver | Start_supplicant bool | Stop_supplicant bool
  | Connect "string option" | Command "string option" string string nat | Wait_event "string option" string
  | Close_connection "string option" | Dhcp_request | Change_fw_path "string option"

text \<open>One call of the interface by the framework.  It connects an interface only while the library has
  no connection for it.\<close>

inductive wifi_call :: "wifi_st \<Rightarrow> wifi_api \<Rightarrow> wifi_st \<Rightarrow> bool" where
  "wifi_call s Load_driver (snd (wifi_load_driver s))"
| "wifi_call s Unload_driver (snd (wifi_unload_driver s))"
| "wifi_start_supplicant p s = Some (r, t) \<Longrightarrow> wifi_call s (Start_supplicant p) t"
| "wifi_call s (Stop_supplicant p) (snd (wifi_stop_supplicant p s))"
| "wifi_connect_to_supplicant n s = Some (r, t) \<Longrightarrow> ctrl_conn s (index_of n s) = 0 \<Longrightarrow>
     monitor_conn s (index_of n s) = 0 \<Longrightarrow> wifi_call s (Connect n) t"
| "wifi_command n cmd reply len s = Some (r, t) \<Longrightarrow> wifi_call s (Command n cmd reply len) t"
| "wifi_wait_for_event n buf s = Some (r, t) \<Longrightarrow> wifi_call s (Wait_event n buf) t"
| "wifi_call s (Close_connection n) (wifi_close_supplicant_connection n s)"
| "wifi_call s Dhcp_request (snd (do_dhcp_request s))"
| "wifi_call s (Change_fw_path p) (snd (wifi_change_fw_path p s))"

text \<open>What a client of connection handles promises: a call leaves no handle open that it does not hold.\<close>

locale handle_client =
  fixes step :: "'s \<Rightarrow> 'a \<Rightarrow> 's \<Rightarrow> bool"
    and opened :: "'s \<Rightarrow> 'h \<Rightarrow> int"
    and holds :: "'s \<Rightarrow> 'h \<Rightarrow> int"
    and valid :: "'h \<Rightarrow> bool"
  assumes step_slack: "step s a t \<Longrightarrow> valid h \<Longrightarrow> opened t h - holds t h = opened s h - holds s h"
    and holds_nonneg: "0 \<le> holds s h"
begin

lemma runs_slack: "runs step s as t \<Longrightarrow> valid h \<Longrightarrow> opened t h - holds t h = opened s h - holds s h"
  by (induction rule: runs.induct) (simp_all add: step_slack)

lemma runs_balanced:
  "runs step s as t \<Longrightarrow> valid h \<Longrightarrow> opened s h = holds s h \<Longrightarrow> opened t h = holds t h \<and> 0 \<le> opened t h"
  using runs_slack [of s "as" t h] holds_nonneg [of t h] by simp

end

lemma slack_recv: "h \<noteq> 0 \<Longrightarrow> slack (snd (wifi_ctrl_recv i buf n s)) h = slack s h"
  by (simp add: wifi_ctrl_recv_def wcall_simps Let_def case_prod_beta slack_docall slack_close_sockets del: docall_simps(1))

lemma slack_wait:
  assumes "h \<noteq> 0" "wifi_wait_for_event n buf s = Some (r, t)"
  shows "slack t h = slack s h"
  using assms slack_recv [OF assms(1), of "index_of n s" buf "length buf - 1" s]
  by (auto simp: wifi_wait_for_event_def wifi_wait_on_socket_def Let_def case_prod_beta split: if_splits)

lemma slack_connect_to:
  assumes "h \<noteq> 0" "wifi_connect_to_supplicant n s = Some (r, t)"
    "ctrl_conn s (index_of n s) = 0" "monitor_conn s (index_of n s) = 0"
  shows "slack t h = slack s h"
proof -
  have "slack (docall (Access IFACE_DIR) s) h = slack s h" by (simp only: slack_docall) simp
  then show ?thesis
    using assms slack_connect [OF assms(1), of "docall (Access IFACE_DIR) s" PRIMARY] slack_connect [OF assms(1), of s SECONDARY]
    by (auto simp: wifi_connect_to_supplicant_def index_of_def wcall_simps Let_def split: if_splits) (metis snd_conv)+
qed

lemma slack_close_connection: "h \<noteq> 0 \<Longrightarrow> slack (wifi_close_supplicant_connection n s) h = slack s h"
proof -
  assume h: "h \<noteq> 0"
  have "frame u (snd (poll_until 50 100000 stopped_check u))" for u
    by (rule frame_poll_until) (intro frame_intros)+
  then show ?thesis
    using h slack_frame [of "wifi_close_sockets PRIMARY s"] slack_close_sockets [OF h, of PRIMARY s]
    by (simp add: wifi_close_supplicant_connection_def slack_docall del: docall_simps(1))
qed

lemma slack_choose_names: "slack (choose_names p s) h = slack s h"
  by (simp add: choose_names_def slack_def conns_held_def)

lemma wifi_call_slack: "wifi_call s a t \<Longrightarrow> h \<noteq> 0 \<Longrightarrow> slack t h = slack s h"
proof (induction rule: wifi_call.induct)
  case (3 p s r t)
  then show ?case using slack_frame [OF frame_start_supplicant [OF 3(1)]] by (simp add: slack_choose_names)
next
  case (4 s p)
  then show ?case using slack_frame [OF frame_stop_supplicant] by (simp add: slack_choose_names)
next
  case (5 n s r t)
  then show ?case by (blast intro: slack_connect_to)
next
  case (6 n cmd reply len s r t)
  then show ?case using frame_send_command [OF _ frame_refl, of "index_of n s"] slack_frame
    unfolding wifi_command_def by blast
next
  case (7 n buf s r t)
  then show ?case by (blast intro: slack_wait)
qed (auto intro!: slack_frame slack_close_connection frame_intros)

interpretation wpa: handle_client wifi_call "\<lambda>s h. conn_net (hist s) h" conns_held "\<lambda>h. h \<noteq> 0"
proof
  show "conn_net (hist t) h - conns_held t h = conn_net (hist s) h - conns_held s h" if "wifi_call s a t" "h \<noteq> 0" for s a t h
    using wifi_call_slack [OF that] by (simp add: slack_def)
qed (simp add: conns_held_def)


section \<open>Events\<close>

text \<open>The text of an event message: what follows the level.\<close>

definition event_text :: "string \<Rightarrow> string" where
  "event_text m = (if is_prefix ''<'' m \<and> CHR ''>'' \<in> set m then tl (dropWhile (\<lambda>c. c \<noteq> CHR ''>'') m) else m)"

lemma takeWhile_before: "x \<notin> set a \<Longrightarrow> takeWhile (\<lambda>c. c \<noteq> x) (a @ x # b) = a"
  by (induction a) auto

lemma strip_level_text:
  assumes "CHR 0x00 \<notin> set m" "m \<noteq> []"
  shows "\<exists>rest. strip_level (m @ CHR 0x00 # r) (length m) = (event_text m @ CHR 0x00 # rest, length (event_text m))"
proof -
  have str: "takeWhile (\<lambda>c. c \<noteq> CHR 0x00) (m @ CHR 0x00 # r) = m" using assms(1) by (rule takeWhile_before)
  have first: "is_prefix ''<'' (m @ CHR 0x00 # r) \<longleftrightarrow> is_prefix ''<'' m" using assms(2) by (cases m) auto
  show ?thesis
  proof (cases "is_prefix ''<'' m \<and> CHR ''>'' \<in> set m")
    case True
    then obtain a b where m: "m = a @ CHR ''>'' # b" "CHR ''>'' \<notin> set a" by (metis split_list_first)
    have k: "takeWhile (\<lambda>c. c \<noteq> CHR ''>'') m = a" unfolding m(1) using m(2) by (rule takeWhile_before)
    have "dropWhile (\<lambda>c. c \<noteq> CHR ''>'') m = CHR ''>'' # b" using k m(1) takeWhile_dropWhile_id [of "\<lambda>c. c \<noteq> CHR ''>''" m]
      by (metis same_append_eq)
    then have ev: "event_text m = b" using True by (simp add: event_text_def)
    have len: "length a < length m" by (simp add: m(1))
    have "strip_level (m @ CHR 0x00 # r) (length m) =
        (overwrite 0 (take (length m - (length a + 1) + 1) (drop (length a + 1) (m @ CHR 0x00 # r))) (m @ CHR 0x00 # r),
         length m - (length a + 1))"
      unfolding strip_level_def Let_def str k first using True len by simp
    then show ?thesis unfolding ev by (simp add: m(1) overwrite_def)
  next
    case False
    have "takeWhile (\<lambda>c. c \<noteq> CHR ''>'') m = m" if "CHR ''>'' \<notin> set m"
      by (subst takeWhile_eq_all_conv) (use that in auto)
    then have "\<not> (is_prefix ''<'' m \<and> length (takeWhile (\<lambda>c. c \<noteq> CHR ''>'') m) < length m)"
      using False by fastforce
    then have "strip_level (m @ CHR 0x00 # r) (length m) = (m @ CHR 0x00 # r, length m)"
      unfolding strip_level_def Let_def str first by auto
    moreover have "event_text m = m" using False by (auto simp: event_text_def)
    ultimately show ?thesis by simp
  qed
qed

text \<open>A message of the supplicant that fits into the caller's buffer is delivered there without its
  level, terminated by a zero byte, and its length is returned.\<close>

theorem event_delivered:
  assumes "monitor_conn s i \<noteq> 0" "0 \<le> w_ret (world s) (hist s) (Poll (monitor_conn s i) (snd (exit_sockets s i)))"
    and "\<And>h. fst (w_revents (world s) h)" "\<And>h c n. w_ret (world s) h (Wpa_ctrl_recv c n) = 0"
    and "\<And>h. w_reply (world s) h = m" "m \<noteq> []" "CHR 0x00 \<notin> set m" "length m < length buf"
  shows "\<exists>rest t. wifi_wait_on_socket i buf s = Some ((length (event_text m), event_text m @ CHR 0x00 # rest), t)"
proof -
  have fits: "length m < length buf \<and> take (length buf - 1) m = m" using assms(8) by simp
  then have "\<exists>t. wifi_ctrl_recv i buf (length buf - 1) s = ((0, m @ drop (length m) buf, length m), t)"
    using assms(2-5) by (simp add: wifi_ctrl_recv_def wcall_simps case_prod_beta overwrite_def)
  then obtain t where recv: "wifi_ctrl_recv i buf (length buf - 1) s = ((0, m @ drop (length m) buf, length m), t)" ..
  obtain x r where "drop (length m) buf = x # r" using assms(8) by (cases "drop (length m) buf") auto
  then have "(m @ drop (length m) buf)[length m := CHR 0x00] = m @ CHR 0x00 # r" by (simp add: list_update_append)
  then show ?thesis
    using recv assms(1,6,8) strip_level_text [OF assms(7,6), of r]
    by (auto simp: wifi_wait_on_socket_def Let_def)
qed

definition closed_event :: "nat \<Rightarrow> nat \<times> string" where
  "closed_event buflen = (min (length (WPA_EVENT_TERMINATING @ '' - connection closed'')) (buflen - 1),
     fill_event (WPA_EVENT_TERMINATING @ '' - connection closed'') buflen)"

text \<open>(C36) The shutdown of the second interface: \<open>wifi_close_supplicant_connection\<close> wakes the thread that waits
  for events; the thread gets the termination event, and then everything of this
  interface is closed and a further wait returns the event at once.\<close>

theorem second_interface_shutdown:
  assumes "\<not> is_primary_interface n s" "monitor_conn s SECONDARY = m" "m \<noteq> 0" "ctrl_conn s SECONDARY = c" "c \<noteq> 0"
    and "exit_sockets s SECONDARY = (a, b)" "0 \<le> a" "0 \<le> b" "buf \<noteq> []"
    and "\<And>h fd fd'. 0 \<le> w_ret (world s) h (Poll fd fd')"
    and "\<And>r r'. w_revents (world s) (hist s @ [(Wwrite a ''T'', r), (Poll m b, r')]) = (False, True)"
  shows "\<exists>t. wifi_wait_for_event n buf (wifi_close_supplicant_connection n s) = Some (closed_event (length buf), t) \<and>
    map fst (hist t) = map fst (hist s) @ [Wwrite a ''T'', Poll m b, Wpa_ctrl_close c, Wpa_ctrl_close m, Wclose a, Wclose b] \<and>
    ctrl_conn t SECONDARY = 0 \<and> monitor_conn t SECONDARY = 0 \<and> exit_sockets t SECONDARY = (-1, -1) \<and>
    wifi_wait_on_socket SECONDARY buf t = Some (closed_event (length buf), t)"
proof -
  define s1 where "s1 = wifi_close_supplicant_connection n s"
  have s1: "s1 = docall (Wwrite a ''T'') s" using assms(1,6) by (simp add: s1_def wifi_close_supplicant_connection_def)
  have poll: "\<not> w_ret (world s) h (Poll fd fd') < 0" for h fd fd' using assms(10) by (simp add: not_less)
  have "index_of n s1 = SECONDARY" using assms(1) by (cases n) (simp_all add: index_of_def is_primary_interface_def s1)
  moreover have "wifi_ctrl_recv SECONDARY buf (length buf - 1) s1 =
      ((-2, buf, length buf - 1), wifi_close_sockets SECONDARY (docall (Poll m b) s1))"
    using assms(2,6,11) by (simp add: wifi_ctrl_recv_def wcall_simps s1 poll)
  moreover define t where "t = wifi_close_sockets SECONDARY (docall (Poll m b) s1)"
  ultimately have "wifi_wait_for_event n buf s1 = Some (closed_event (length buf), t)"
    using assms(2,3,9) by (simp add: wifi_wait_for_event_def wifi_wait_on_socket_def closed_event_def s1 Let_def)
  moreover have "map fst (hist t) = map fst (hist s) @ [Wwrite a ''T'', Poll m b, Wpa_ctrl_close c, Wpa_ctrl_close m, Wclose a, Wclose b]"
    "ctrl_conn t SECONDARY = 0" "monitor_conn t SECONDARY = 0" "exit_sockets t SECONDARY = (-1, -1)"
    using assms(2-8) by (simp_all add: t_def wifi_close_sockets_def close_conn_def close_fd_def s1)
  moreover from this have "wifi_wait_on_socket SECONDARY buf t = Some (closed_event (length buf), t)"
    using assms(9) by (simp add: wifi_wait_on_socket_def closed_event_def Let_def)
  ultimately show ?thesis unfolding s1_def by blast
qed

section \<open>Starting the supplicant\<close>

lemma frame_hist: "frame s t \<Longrightarrow> \<exists>new. hist t = hist s @ new"
  by (auto simp: frame_def)

lemma start_wait_names [simp]: "supplicant_prop_name (snd (start_wait n pi serial s)) = supplicant_prop_name s"
  "primary_iface (snd (start_wait n pi serial s)) = primary_iface s" "files (snd (start_wait n pi serial s)) = files s"
  "exit_sockets (snd (start_wait n pi serial s)) = exit_sockets s"
  by (induction n arbitrary: pi s) (simp_all add: Let_def)

text \<open>The loop returns success only after it has read \<open>running\<close>, and it makes at most \<open>n\<close> pauses.\<close>

lemma start_wait_running:
  "start_wait n pi serial s = (0, t) \<Longrightarrow>
     \<exists>u. frame s u \<and> prop_value u (supplicant_prop_name s) = ''running'' \<and> t = docall (Property_read (supplicant_prop_name s)) u"
proof (induction n arbitrary: pi s)
  case (Suc n)
  define s1 where "s1 = (if pi then s else docall (Property_find (supplicant_prop_name s)) s)"
  define p' where "p' = (pi \<or> prop_exists s (supplicant_prop_name s))"
  define s2 where "s2 = (if p' then docall (Property_read (supplicant_prop_name s)) s1 else s1)"
  have f1: "frame s s1" by (simp add: s1_def frame_intros)
  have f2: "frame s (docall (Usleep 100000) s2)" by (simp add: s2_def f1 frame_docall)
  have n2: "supplicant_prop_name (docall (Usleep 100000) s2) = supplicant_prop_name s" by (simp add: s2_def s1_def)
  show ?case
  proof (cases "p' \<and> prop_value s1 (supplicant_prop_name s) = ''running''")
    case True
    then have "t = docall (Property_read (supplicant_prop_name s)) s1"
      using Suc.prems by (simp add: Let_def s1_def [symmetric] p'_def [symmetric])
    then show ?thesis using True f1 by blast
  next
    case False
    then have "start_wait n p' serial (docall (Usleep 100000) s2) = (0, t)"
      using Suc.prems by (auto simp: Let_def s1_def [symmetric] p'_def [symmetric] s2_def split: if_splits)
    from Suc.IH [OF this] show ?thesis unfolding n2 using f2 frame_trans by blast
  qed
qed simp

lemma start_wait_first:
  assumes "\<And>u. u = s \<or> u = docall (Property_find (supplicant_prop_name s)) s \<Longrightarrow> prop_value u (supplicant_prop_name s) = ''running''"
  shows "fst (start_wait (Suc n) pi serial s) = 0"
proof -
  have "prop_exists s (supplicant_prop_name s)"
    using assms [of s] by (auto simp: prop_value_def prop_exists_def split: option.splits)
  moreover have "prop_value (if pi then s else docall (Property_find (supplicant_prop_name s)) s) (supplicant_prop_name s) = ''running''"
    by (rule assms) simp
  ultimately show ?thesis by (simp add: Let_def)
qed

text \<open>What \<open>wifi_start_supplicant\<close> does before the waiting loop.\<close>

lemma start_daemon_loop:
  "\<exists>s4 pi serial. frame s s4 \<and> exit_sockets s4 = (\<lambda>i. (-1, -1)) \<and>
     files s4 = files (wifi_wpa_ctrl_cleanup (snd (ensure_entropy_file_exists s))) \<and>
     (\<exists>u. world u = world s \<and> primary_iface s4 = fst (wproperty_get ''wifi.interface'' WIFI_TEST_INTERFACE u)) \<and>
     start_daemon s = start_wait 200 pi serial
        (docall Sched_yield (docall (Property_set ''ctl.start'' (supplicant_name s)) s4))"
proof -
  define s1 where "s1 = wifi_wpa_ctrl_cleanup (snd (ensure_entropy_file_exists s))"
  define s2 where "s2 = s1\<lparr>exit_sockets := (\<lambda>i. (-1, -1))\<rparr>"
  define s3 where "s3 = docall (Property_find (supplicant_prop_name s2)) s2"
  define ifc where "ifc = fst (wproperty_get ''wifi.interface'' WIFI_TEST_INTERFACE s3)"
  define s4 where "s4 = (docall (Property_get ''wifi.interface'') s3)\<lparr>primary_iface := ifc\<rparr>"
  have "frame s s1" unfolding s1_def by (intro frame_intros)
  then have f: "frame s s3" "frame s s4" by (simp_all add: s4_def s3_def s2_def frame_intros)
  have "start_daemon s = start_wait 200 (prop_exists s2 (supplicant_prop_name s2)) (prop_serial s2 (supplicant_prop_name s2))
      (docall Sched_yield (docall (Property_set ''ctl.start'' (supplicant_name s4)) s4))"
    unfolding start_daemon_def s4_def ifc_def s3_def s2_def s1_def Let_def wproperty_get_pair by simp
  moreover have "supplicant_name s4 = supplicant_name s" "world s3 = world s" using f by (simp_all add: frame_def)
  moreover have "exit_sockets s4 = (\<lambda>i. (-1, -1))" "files s4 = files s1" "primary_iface s4 = ifc"
    by (simp_all add: s4_def s3_def s2_def)
  ultimately show ?thesis using f(2) unfolding s1_def ifc_def by metis
qed

text \<open>An already running supplicant is not noticed: the check asks for the property named like the
  service, which nobody sets, and not for the state of the service.  The service is
  requested again and the sockets of open connections are forgotten.\<close>

theorem running_supplicant_unnoticed:
  assumes "\<And>h. w_props (world s) h SUPPLICANT_NAME = None" "wifi_start_supplicant False s = Some (0, t)"
  shows "Property_set ''ctl.start'' SUPPLICANT_NAME \<in> set (map fst (drop (length (hist s)) (hist t))) \<and>
    exit_sockets t = (\<lambda>i. (-1, -1))"
proof -
  let ?s1 = "docall (Property_get SUPPLICANT_NAME) (choose_names False s)"
  have names: "supplicant_name (choose_names False s) = SUPPLICANT_NAME" "hist (choose_names False s) = hist s"
    "world (choose_names False s) = world s" by (simp_all add: choose_names_def)
  have "prop_value (choose_names False s) SUPPLICANT_NAME = []" using assms(1) by (simp add: prop_value_def names)
  then obtain r' s3 where s3: "ensure_config_file_exists SUPP_CONFIG_FILE ?s1 = Some (r', s3)" "start_daemon s3 = (0, t)"
    using assms(2) by (auto simp: wifi_start_supplicant_def wcall_simps names Let_def split: option.splits if_splits)
  have "frame ?s1 s3" by (rule frame_ensure_config [OF s3(1) frame_refl])
  then have n3: "supplicant_name s3 = SUPPLICANT_NAME" and "\<exists>new. hist s3 = hist s @ new" by (auto simp: frame_def names)
  moreover obtain s4 p serial where s4: "frame s3 s4" "exit_sockets s4 = (\<lambda>i. (-1, -1))"
    "start_wait 200 p serial (docall Sched_yield (docall (Property_set ''ctl.start'' SUPPLICANT_NAME) s4)) = (0, t)"
    using start_daemon_loop [of s3] s3(2) unfolding n3 by metis
  moreover have "frame (docall Sched_yield (docall (Property_set ''ctl.start'' SUPPLICANT_NAME) s4)) t"
    using frame_start_wait [OF frame_refl, where n = 200 and pi = p and serial = serial] s4(3) by (metis snd_conv)
  moreover have "exit_sockets t = (\<lambda>i. (-1, -1))"
    using start_wait_names(4) [of 200 p serial "docall Sched_yield (docall (Property_set ''ctl.start'' SUPPLICANT_NAME) s4)"] s4
    by simp
  ultimately show ?thesis by (auto simp: frame_def)
qed

text \<open>What the library relies on of \<open>init\<close>: a service it has asked for is running afterwards.\<close>

definition service_starts :: "wifi_world \<Rightarrow> bool" where
  "service_starts w \<longleftrightarrow> (\<forall>h n r h'. (\<forall>k v r'. (Property_set k v, r') \<notin> set h') \<longrightarrow>
     map_option pi_value (w_props w (h @ (Property_set ''ctl.start'' n, r) # h') (''init.svc.'' @ n)) = Some ''running'')"

lemma service_running:
  assumes "service_starts (world s)" "hist s = h @ (Property_set ''ctl.start'' n, r) # h'" "\<And>k v r'. (Property_set k v, r') \<notin> set h'"
  shows "prop_value s (''init.svc.'' @ n) = ''running''"
  using assms(1) [unfolded service_starts_def, rule_format, of h' h n r] assms(2,3)
  by (auto simp: prop_value_def split: option.splits)

lemma start_succeeds:
  assumes "files_work (world s)" "zero_memory (world s)" "fresh_descriptors (world s)" "service_starts (world s)"
    and "interface_is (world s) v" "proper_name v" "files s SUPP_CONFIG_FILE = None"
    and "\<And>h. w_ret (world s) h (Access SUPP_CONFIG_FILE) \<noteq> 0" "\<And>h. w_errno (world s) h = ENOENT"
    and "files s SUPP_CONFIG_TEMPLATE = Some (pre @ CTRL @ old @ CHR 0x0A # post)"
    and "editable pre old post" "\<not> is_prefix v old" "\<And>h. w_props (world s) h SUPPLICANT_NAME = None"
    and "SUPP_ENTROPY_FILE (build s) \<noteq> SUPP_CONFIG_FILE" "\<And>e. CLIENT_DIR (build s) @ ''/'' @ e \<noteq> SUPP_CONFIG_FILE"
  shows "\<exists>t. wifi_start_supplicant False s = Some (0, t) \<and>
    files t SUPP_CONFIG_FILE = Some (edited pre old post v) \<and> primary_iface t = v"
proof -
  let ?s1 = "docall (Property_get SUPPLICANT_NAME) (choose_names False s)"
  have s1: "supplicant_name (choose_names False s) = SUPPLICANT_NAME" "supplicant_prop_name (choose_names False s) = SUPP_PROP_NAME"
    "world (choose_names False s) = world s" "files (choose_names False s) = files s" "build (choose_names False s) = build s"
    by (simp_all add: choose_names_def)
  have "ctrl_target SUPP_CONFIG_FILE v = v" "SUPP_CONFIG_FILE \<noteq> SUPP_CONFIG_TEMPLATE"
    by (simp_all add: ctrl_target_def SUPP_CONFIG_FILE_def SUPP_CONFIG_TEMPLATE_def)
  then obtain s3 where s3: "ensure_config_file_exists SUPP_CONFIG_FILE ?s1 = Some (0, s3)"
    "files s3 = (files s)(SUPP_CONFIG_FILE \<mapsto> edited pre old post v)"
    using ensure_creates [of ?s1 v SUPP_CONFIG_FILE pre old post] assms(1-3,5-12) by (auto simp: s1)
  have f3: "frame ?s1 s3" by (rule frame_ensure_config [OF s3(1) frame_refl])
  then have w3: "world s3 = world s" "build s3 = build s" "supplicant_name s3 = SUPPLICANT_NAME" "supplicant_prop_name s3 = SUPP_PROP_NAME"
    by (simp_all add: frame_def s1)
  obtain s4 p serial u where s4: "frame s3 s4" "files s4 = files (wifi_wpa_ctrl_cleanup (snd (ensure_entropy_file_exists s3)))"
    "world u = world s" "primary_iface s4 = fst (wproperty_get ''wifi.interface'' WIFI_TEST_INTERFACE u)"
    "start_daemon s3 = start_wait 200 p serial (docall Sched_yield (docall (Property_set ''ctl.start'' SUPPLICANT_NAME) s4))"
    using start_daemon_loop [of s3] unfolding w3 by metis
  define s5 where "s5 = docall Sched_yield (docall (Property_set ''ctl.start'' SUPPLICANT_NAME) s4)"
  have iface: "primary_iface s5 = v"
    using assms(5) s4(3,4) by (simp add: s5_def wproperty_get_pair prop_value_def interface_is_def)
  have w5: "world s5 = world s" "supplicant_prop_name s5 = ''init.svc.'' @ SUPPLICANT_NAME"
    using s4(1) w3 by (simp_all add: s5_def frame_def SUPP_PROP_NAME_def SUPPLICANT_NAME_def)
  obtain r r2 where h5: "hist s5 = hist s4 @ (Property_set ''ctl.start'' SUPPLICANT_NAME, r) # [(Sched_yield, r2)]"
    by (simp add: s5_def)
  have "prop_value s5 (supplicant_prop_name s5) = ''running''"
    unfolding w5(2) by (rule service_running [OF _ h5]) (use assms(4) w5(1) in auto)
  moreover obtain r3 where "hist (docall (Property_find (supplicant_prop_name s5)) s5) =
      hist s4 @ (Property_set ''ctl.start'' SUPPLICANT_NAME, r) # [(Sched_yield, r2), (Property_find (supplicant_prop_name s5), r3)]"
    by (simp add: h5)
  then have "prop_value (docall (Property_find (supplicant_prop_name s5)) s5) (''init.svc.'' @ SUPPLICANT_NAME) = ''running''"
    by (rule service_running [rotated]) (use assms(4) w5(1) in auto)
  ultimately have "prop_value x (supplicant_prop_name s5) = ''running''"
    if "x = s5 \<or> x = docall (Property_find (supplicant_prop_name s5)) s5" for x using that unfolding w5(2) by blast
  then have "fst (start_daemon s3) = 0" using start_wait_first [of s5 199 p serial] by (simp add: s4(5) s5_def [symmetric])
  then obtain t where t: "start_daemon s3 = (0, t)" by (cases "start_daemon s3") auto
  have "t = snd (start_wait 200 p serial s5)" using t by (simp add: s4(5) s5_def [symmetric])
  then have "files t SUPP_CONFIG_FILE = files s5 SUPP_CONFIG_FILE" "primary_iface t = v" using iface by simp_all
  moreover have "files s5 SUPP_CONFIG_FILE = files (snd (ensure_entropy_file_exists s3)) SUPP_CONFIG_FILE"
    using cleanup_only_client_sockets [of "snd (ensure_entropy_file_exists s3)" SUPP_CONFIG_FILE] assms(15) w3(2)
      frame_entropy [OF frame_refl, of s3]
    by (auto simp: s5_def s4(2) frame_def) metis
  moreover have "\<dots> = Some (edited pre old post v)" using entropy_other_files [of SUPP_CONFIG_FILE s3] assms(14) s3(2) w3(2) by simp
  moreover have "wifi_start_supplicant False s = Some (0, t)"
    using assms(13) s3(1) t by (simp add: wifi_start_supplicant_def wcall_simps s1 prop_value_def)
  ultimately show ?thesis by simp
qed


section \<open>Boundary cases\<close>

text \<open>The descriptors of the exit sockets are zero until the supplicant is started for the first time:
  closing the connection before closes the standard input of the process, twice.\<close>

lemma close_before_start_closes_stdin:
  "take 2 (map fst (hist (wifi_close_supplicant_connection None (wifi_boot w b fs)))) = [Wclose 0, Wclose 0]"
proof -
  let ?u = "wifi_close_sockets PRIMARY (wifi_boot w b fs)"
  have "frame ?u (snd (poll_until 50 100000 stopped_check ?u))"
    by (rule frame_poll_until) (intro frame_intros)+
  moreover have "map fst (hist ?u) = [Wclose 0, Wclose 0]"
    by (simp add: wifi_close_sockets_def close_conn_def close_fd_def)
  ultimately show ?thesis
    by (auto simp: wifi_close_supplicant_connection_def is_primary_interface_def frame_def)
qed

text \<open>A second connection without closing the first one loses the handles of the first.\<close>

lemma reconnect_loses_control:
  assumes "prop_value s (supplicant_prop_name s) = ''running''" "h \<noteq> 0" "ctrl_conn s i = h"
    and "\<And>hs p. w_ret (world s) hs (Wpa_ctrl_open p) = 0" "slack s h = 0"
  shows "slack (snd (wifi_connect_on_socket_path i path s)) h = 1"
proof -
  let ?s0 = "docall (Wpa_ctrl_open path) (docall (Property_get (supplicant_prop_name s)) s)"
  have "snd (wifi_connect_on_socket_path i path s) = ?s0\<lparr>ctrl_conn := (ctrl_conn ?s0)(i := 0)\<rparr>"
    using assms(1,4) by (simp add: wifi_connect_on_socket_path_def wcall_simps)
  moreover have "slack ?s0 h = slack s h" using assms(2,4) by (simp only: slack_docall) simp
  ultimately show ?thesis using assms(2,3,5) slack_ctrl [OF assms(2), of ?s0 i 0] by simp
qed

text \<open>The name of the second interface is printed into an array of 256 bytes without a check.\<close>

lemma long_interface_name_overflows:
  "\<not> is_prefix (primary_iface s) n \<Longrightarrow> wifi_connect_to_supplicant (Some n) s = None \<longleftrightarrow> 232 \<le> length n"
  by (auto simp: wifi_connect_to_supplicant_def is_primary_interface_def CONTROL_IFACE_PATH_def Let_def)

text \<open>The answer to a \<open>PING\<close> that fills the buffer is terminated behind its end.\<close>

lemma ping_reply_overruns:
  assumes "ctrl_conn s i \<noteq> 0" "\<And>h c. w_ret (world s) h (Wpa_ctrl_request c ''PING'') = 0"
    "\<And>h. w_reply (world s) h = r" "length reply = length r" "\<not> is_prefix ''FAIL'' r"
  shows "wifi_send_command i ''PING'' reply (length reply) s = None"
  using assms by (simp add: wifi_send_command_def wcall_simps Let_def overwrite_def)

section \<open>Concrete runs\<close>

text \<open>Surroundings with the initial properties \<open>m\<close>, in which \<open>init\<close> starts what it is asked for and there
  is no configuration file.\<close>

definition start_world :: "(string \<Rightarrow> prop_info option) \<Rightarrow> wifi_world" where
  "start_world m = config_world\<lparr>w_props := (\<lambda>h k. if k = ''wifi.interface'' then Some \<lparr>pi_value = ''wlan0'', pi_serial = 0\<rparr>
     else if k = SUPPLICANT_NAME then None else foldl prop_step m h k)\<rparr>"

lemma prop_steps_quiet: "(\<And>k v r. (Property_set k v, r) \<notin> set h) \<Longrightarrow> foldl prop_step m h = m"
proof (induction h arbitrary: m)
  case (Cons c h)
  moreover obtain q r where "c = (q, r)" by fastforce
  ultimately show ?case by (cases q) auto
qed simp

lemma start_world_works:
  "files_work (start_world m)" "zero_memory (start_world m)" "interface_is (start_world m) ''wlan0''"
  "fresh_descriptors (start_world m)" "service_starts (start_world m)" "w_errno (start_world m) h = ENOENT"
  "w_ret (start_world m) h (Access p) = -1" "w_props (start_world m) h SUPPLICANT_NAME = None"
proof -
  have "(''init.svc.'' @ n) \<noteq> ''wifi.interface''" "(''init.svc.'' @ n) \<noteq> SUPPLICANT_NAME" for n
    by (auto simp: SUPPLICANT_NAME_def)
  then show "service_starts (start_world m)"
    by (auto simp: service_starts_def start_world_def prop_steps_quiet set_prop_def)
qed (use config_world_works in \<open>auto simp: start_world_def files_work_def zero_memory_def interface_is_def
    fresh_descriptors_def Let_def SUPPLICANT_NAME_def\<close>)

definition start_state :: "(string \<Rightarrow> prop_info option) \<Rightarrow> wifi_st" where
  "start_state m = wifi_boot (start_world m) (board_build ''/data/misc/wifi/entropy.bin'')
     [SUPP_CONFIG_TEMPLATE \<mapsto> sample_conf ''tiwlan0'']"

lemma start_state_simps [simp]:
  "world (start_state m) = start_world m" "hist (start_state m) = []"
  "build (start_state m) = board_build ''/data/misc/wifi/entropy.bin''"
  "files (start_state m) = [SUPP_CONFIG_TEMPLATE \<mapsto> sample_conf ''tiwlan0'']"
  by (simp_all add: start_state_def)

lemma start_state_dir: "CLIENT_DIR (build (start_state m)) @ ''/'' @ e \<noteq> SUPP_CONFIG_FILE"
  by (auto simp: board_build_def SUPP_CONFIG_FILE_def)

lemmas start_state_facts = start_world_works sample_editable start_state_dir
lemmas start_state_defs = sample_conf_def board_build_def SUPP_CONFIG_FILE_def SUPP_CONFIG_TEMPLATE_def


theorem running_supplicant_unnoticed_witness:
  "\<exists>t. wifi_start_supplicant False (start_state [SUPP_PROP_NAME \<mapsto> \<lparr>pi_value = ''running'', pi_serial = 0\<rparr>]) = Some (0, t) \<and>
     Property_set ''ctl.start'' SUPPLICANT_NAME \<in> set (map fst (hist t))"
proof -
  let ?s = "start_state [SUPP_PROP_NAME \<mapsto> \<lparr>pi_value = ''running'', pi_serial = 0\<rparr>]"
  have "\<exists>t. wifi_start_supplicant False ?s = Some (0, t) \<and> files t SUPP_CONFIG_FILE =
      Some (edited (''# Wi-Fi'' @ [CHR 0x0A]) ''tiwlan0'' (''update_config=1'' @ [CHR 0x0A]) ''wlan0'') \<and> primary_iface t = ''wlan0''"
    by (rule start_succeeds) (use start_state_facts in \<open>auto simp: start_state_defs\<close>)
  then obtain t where t: "wifi_start_supplicant False ?s = Some (0, t)" by blast
  from running_supplicant_unnoticed [OF _ t] show ?thesis using t by (auto simp: start_world_works(8))
qed

text \<open>A connected second interface, and a supplicant that sends a message.\<close>

definition connected_state :: "wifi_world \<Rightarrow> wifi_st" where
  "connected_state w = (wifi_boot w (board_build []) (\<lambda>p. None))
     \<lparr>primary_iface := ''wlan0'', ctrl_conn := (\<lambda>i. 1), monitor_conn := (\<lambda>i. 2), exit_sockets := (\<lambda>i. (7, 8))\<rparr>"

theorem event_delivered_witness:
  "\<exists>rest t. wifi_wait_on_socket PRIMARY (replicate 256 CHR 0x00) (connected_state ((quiet_world (\<lambda>k. None) [])
     \<lparr>w_revents := \<lambda>h. (True, False), w_reply := \<lambda>h. ''<3>CTRL-EVENT-CONNECTED''\<rparr>)) =
     Some ((20, ''CTRL-EVENT-CONNECTED'' @ CHR 0x00 # rest), t)"
proof -
  have ev: "event_text ''<3>CTRL-EVENT-CONNECTED'' = ''CTRL-EVENT-CONNECTED''" by (simp add: event_text_def)
  have len: "length ''CTRL-EVENT-CONNECTED'' = 20" by simp
  show ?thesis
    by (rule event_delivered [of _ PRIMARY "''<3>CTRL-EVENT-CONNECTED''", unfolded ev len]) (simp_all add: connected_state_def)
qed

theorem second_interface_shutdown_witness:
  "\<exists>t. wifi_wait_for_event (Some ''p2p0'') (replicate 64 CHR 0x00)
     (wifi_close_supplicant_connection (Some ''p2p0'') (connected_state (quiet_world (\<lambda>k. None) []))) = Some (closed_event 64, t) \<and>
     monitor_conn t SECONDARY = 0"
  using second_interface_shutdown [of "Some ''p2p0''" "connected_state (quiet_world (\<lambda>k. None) [])" 2 1 7 8 "replicate 64 CHR 0x00"]
  by (auto simp: connected_state_def is_primary_interface_def)


end
