(* ===== verification/Doubles.thy ===== *)
theory Doubles
  imports Complex_Main "HOL-Library.Log_Nat"
begin

text \<open>
  The arithmetic of C's type \<open>double\<close> as far as the lights module uses it: finite numbers of the IEEE
  format binary64, every operation rounded to the nearest representable number, ties to even.  A
  double is the rational number it stands for; \<open>dbl x\<close> is the representable number next to \<open>x\<close>.  The numbers
  of the program lie far inside the range of the format, so overflow, underflow and the sign of zero
  play no part.
\<close>

section \<open>Rounding\<close>

text \<open>\<open>x / 2 ^ e\<close> for any integer \<open>e\<close>.\<close>

definition scale :: "int \<Rightarrow> rat \<Rightarrow> rat" where
  "scale e x = (if 0 \<le> e then x / 2 ^ nat e else x * 2 ^ nat (- e))"

text \<open>The integer next to \<open>x\<close>, the even one of two.\<close>

definition rint :: "rat \<Rightarrow> int" where
  "rint x = (let f = \<lfloor>x\<rfloor>; d = x - of_int f in
     if d < 1 / 2 then f else if 1 / 2 < d then f + 1 else if even f then f else f + 1)"

text \<open>The exponent for which \<open>\<bar>x\<bar> / 2 ^ e\<close> has 53 binary digits before the point.\<close>

definition expo :: "rat \<Rightarrow> int" where
  "expo x =
     (let (p, q) = quotient_of \<bar>x\<bar>; e = bitlen p - bitlen q - 53 in
      if scale e \<bar>x\<bar> < 2 ^ 53 then e else e + 1)"

definition dbl :: "rat \<Rightarrow> rat" where
  "dbl x = (if x = 0 then 0 else let e = expo x in scale (- e) (of_int (rint (scale e x))))"

text \<open>The conversion to \<open>int\<close>: the fraction is cut off.\<close>

definition to_int :: "rat \<Rightarrow> int" where
  "to_int x = (if 0 \<le> x then \<lfloor>x\<rfloor> else - \<lfloor>- x\<rfloor>)"

section \<open>Facts on scaling and rounding to an integer\<close>

lemma scale_powr: "scale e x = x * 2 powi (- e)"
  by (auto simp: scale_def power_int_def field_simps)

lemma scale_scale [simp]: "scale (- e) (scale e x) = x" "scale e (scale (- e) x) = x"
  by (auto simp: scale_def)

lemma scale_mono: "x \<le> y \<Longrightarrow> scale e x \<le> scale e y"
  by (auto simp: scale_def divide_right_mono mult_right_mono)

lemma scale_le_iff: "scale e x \<le> y \<longleftrightarrow> x \<le> scale (- e) y"
  by (metis scale_mono scale_scale(1,2))

lemma scale_of_0 [simp]: "scale e 0 = 0"
  by (simp add: scale_def)

lemma scale_minus: "scale e (- x) = - scale e x"
  by (simp add: scale_def)

lemma scale_abs: "scale e \<bar>x\<bar> = \<bar>scale e x\<bar>"
  by (simp add: scale_def abs_mult)

lemma rint_of_int [simp]: "rint (of_int n) = n"
  by (simp add: rint_def)

lemma rint_error: "\<bar>of_int (rint x) - x\<bar> \<le> 1 / 2"
proof -
  have "of_int \<lfloor>x\<rfloor> \<le> x" "x < of_int \<lfloor>x\<rfloor> + 1" by linarith+
  then show ?thesis by (auto simp: rint_def Let_def abs_le_iff)
qed

lemma rint_mono:
  assumes "x \<le> y"
  shows "rint x \<le> rint y"
proof (cases "\<lfloor>x\<rfloor> = \<lfloor>y\<rfloor>")
  case True
  then show ?thesis using assms by (auto simp: rint_def Let_def)
next
  case False
  then have "\<lfloor>x\<rfloor> + 1 \<le> \<lfloor>y\<rfloor>" using floor_mono [OF assms] by simp
  moreover have "rint x \<le> \<lfloor>x\<rfloor> + 1" "\<lfloor>y\<rfloor> \<le> rint y" by (simp_all add: rint_def Let_def)
  ultimately show ?thesis by simp
qed

lemma rint_minus: "rint (- x) = - rint x"
proof (cases "x = of_int \<lfloor>x\<rfloor>")
  case True
  then show ?thesis by (metis of_int_minus rint_of_int)
next
  case False
  then have "\<lfloor>- x\<rfloor> = - \<lfloor>x\<rfloor> - 1" by linarith
  then show ?thesis by (auto simp: rint_def Let_def) (linarith+)?
qed


section \<open>The exponent\<close>

lemma powi_bitlen:
  assumes "0 < n"
  shows "(2::rat) powi (bitlen n - 1) \<le> of_int n" "of_int n < (2::rat) powi bitlen n"
proof -
  have "1 \<le> bitlen n" using assms by (metis bitlen_nonneg bitlen_eq_zero_iff int_one_le_iff_zero_less less_le not_less)
  then show "(2::rat) powi (bitlen n - 1) \<le> of_int n" "of_int n < (2::rat) powi bitlen n"
    using bitlen_bounds [OF assms] by (auto simp: power_int_def of_int_le_iff [symmetric] of_int_less_iff [symmetric] simp del: of_int_le_iff of_int_less_iff)
qed

lemma expo_bounds:
  assumes "x \<noteq> 0"
  shows "2 ^ 52 \<le> scale (expo x) \<bar>x\<bar>" "scale (expo x) \<bar>x\<bar> < 2 ^ 53"
proof -
  obtain p q where pq: "quotient_of \<bar>x\<bar> = (p, q)" by force
  have x: "\<bar>x\<bar> = of_int p / of_int q" and q: "0 < q" using pq by (auto simp: quotient_of_div quotient_of_denom_pos)
  have p: "0 < p" using assms x q by (metis abs_0_eq divide_less_0_iff linorder_neqE_linordered_idom of_int_0_less_iff of_int_less_0_iff abs_ge_zero div_0 not_le of_int_0 less_le)
  define e where "e = bitlen p - bitlen q - 53"
  have "of_int p / of_int q < (2::rat) powi bitlen p / 2 powi (bitlen q - 1)"
    using powi_bitlen [OF p] powi_bitlen [OF q] q p
    by (intro frac_less) auto
  also have "(2::rat) powi bitlen p / 2 powi (bitlen q - 1) = 2 powi (e + 54)"
    unfolding e_def by (subst power_int_diff [symmetric]) (auto simp: algebra_simps)
  finally have hi: "\<bar>x\<bar> * 2 powi (- e) < 2 ^ 54"
    unfolding x [symmetric] by (simp add: power_int_add power_int_minus field_simps)
  have "(2::rat) powi (bitlen p - 1) / 2 powi bitlen q < of_int p / of_int q"
    using powi_bitlen [OF p] powi_bitlen [OF q] q p
    by (intro frac_less2) auto
  moreover have "(2::rat) powi (bitlen p - 1) / 2 powi bitlen q = 2 powi (e + 52)"
    unfolding e_def by (subst power_int_diff [symmetric]) (auto simp: algebra_simps)
  ultimately have lo: "2 ^ 52 < \<bar>x\<bar> * 2 powi (- e)"
    unfolding x [symmetric] by (simp add: power_int_add power_int_minus field_simps)
  have ex: "expo x = (if scale e \<bar>x\<bar> < 2 ^ 53 then e else e + 1)" by (simp add: expo_def pq e_def Let_def)
  have half: "scale (e + 1) \<bar>x\<bar> = scale e \<bar>x\<bar> / 2" by (simp add: scale_powr power_int_diff power_int_minus)
  show "2 ^ 52 \<le> scale (expo x) \<bar>x\<bar>" "scale (expo x) \<bar>x\<bar> < 2 ^ 53"
    using hi lo unfolding scale_powr [symmetric] ex by (auto simp: half)
qed


section \<open>Rounding to a double\<close>

lemma dbl_0 [simp]: "dbl 0 = 0"
  by (simp add: dbl_def)

lemma expo_minus [simp]: "expo (- x) = expo x"
  by (simp add: expo_def)

lemma dbl_minus: "dbl (- x) = - dbl x"
  by (simp add: dbl_def Let_def scale_minus rint_minus)

text \<open>A number of at most 53 binary digits is a double.\<close>

lemma dbl_exact:
  assumes x: "x = of_int m * 2 powi e" and m: "\<bar>m\<bar> < 2 ^ 53"
  shows "dbl x = x"
proof (cases "x = 0")
  case False
  have "2 ^ 52 \<le> \<bar>x\<bar> * 2 powi (- expo x)" using expo_bounds(1) [OF False] by (simp add: scale_powr)
  also have "\<bar>x\<bar> = of_int \<bar>m\<bar> * 2 powi e" using x by (simp add: abs_mult)
  also have "of_int \<bar>m\<bar> * (2::rat) powi e * 2 powi (- expo x) = of_int \<bar>m\<bar> * 2 powi (e - expo x)"
    by (simp add: power_int_diff power_int_minus field_simps)
  also have "\<dots> < 2 ^ 53 * 2 powi (e - expo x)"
    using m by (intro mult_strict_right_mono) (auto simp flip: of_int_abs)
  finally have "(2::rat) powi 0 < 2 powi (e - expo x + 1)" by (simp add: power_int_add)
  then have "expo x \<le> e" using power_int_increasing [of "e - expo x + 1" 0 "2::rat"] by force
  then have "scale (expo x) x = of_int (m * 2 ^ nat (e - expo x))"
  proof -
    have "scale (expo x) x = of_int m * 2 powi (e - expo x)"
      unfolding scale_powr by (subst x) (simp add: power_int_diff power_int_minus field_simps)
    then show ?thesis using \<open>expo x \<le> e\<close> by (simp add: power_int_def)
  qed
  then show ?thesis using False by (metis dbl_def rint_of_int scale_scale(1))
qed simp

lemma dbl_error: "\<bar>dbl x - x\<bar> \<le> \<bar>x\<bar> / 2 ^ 53"
proof (cases "x = 0")
  case False
  define e where "e = expo x"
  have "dbl x - x = (of_int (rint (scale e x)) - scale e x) * 2 powi e"
    using False by (simp add: dbl_def Let_def e_def [symmetric] scale_powr power_int_minus field_simps)
  then have "\<bar>dbl x - x\<bar> \<le> 1 / 2 * 2 powi e"
    using rint_error [of "scale e x"] by (simp add: abs_mult)
  also have "\<dots> \<le> \<bar>x\<bar> / 2 ^ 53"
    using expo_bounds(1) [OF False] by (simp add: e_def [symmetric] scale_powr power_int_minus field_simps)
  finally show ?thesis .
qed simp

lemma dbl_bounds:
  assumes "0 < x"
  shows "2 ^ 52 * 2 powi expo x \<le> dbl x" "dbl x \<le> 2 ^ 53 * 2 powi expo x"
proof -
  have d: "dbl x = of_int (rint (scale (expo x) x)) * 2 powi expo x"
    using assms by (simp add: dbl_def Let_def scale_powr)
  have "rint (of_int (2 ^ 52)) \<le> rint (scale (expo x) x)" "rint (scale (expo x) x) \<le> rint (of_int (2 ^ 53))"
    using expo_bounds [of x] assms by (auto intro!: rint_mono)
  then have "(2 ^ 52 :: rat) \<le> of_int (rint (scale (expo x) x))" "of_int (rint (scale (expo x) x)) \<le> (2 ^ 53 :: rat)"
    unfolding rint_of_int by (metis of_int_le_iff of_int_numeral of_int_power)+
  then show "2 ^ 52 * 2 powi expo x \<le> dbl x" "dbl x \<le> 2 ^ 53 * 2 powi expo x"
    unfolding d by (auto intro: mult_right_mono)
qed

lemma expo_mono:
  assumes "0 < x" "x \<le> y"
  shows "expo x \<le> expo y"
proof (rule ccontr)
  assume "\<not> expo x \<le> expo y"
  then have "2 ^ 53 * (2::rat) powi expo y \<le> 2 ^ 52 * 2 powi expo x"
    using power_int_increasing [of "expo y + 1" "expo x" "2::rat"] by (simp add: power_int_add)
  moreover have "2 ^ 52 * 2 powi expo x \<le> x" "y < 2 ^ 53 * 2 powi expo y"
    using expo_bounds [of x] expo_bounds [of y] assms by (auto simp: scale_powr power_int_minus field_simps)
  ultimately show False using assms by linarith
qed

lemma dbl_mono_pos:
  assumes "0 < x" "x \<le> y"
  shows "dbl x \<le> dbl y"
proof (cases "expo x = expo y")
  case True
  then show ?thesis using assms
    by (auto simp: dbl_def Let_def scale_powr intro!: mult_right_mono rint_mono)
next
  case False
  then have "expo x + 1 \<le> expo y" using expo_mono [OF assms] by simp
  then have "2 ^ 53 * (2::rat) powi expo x \<le> 2 ^ 52 * 2 powi expo y"
    using power_int_increasing [of "expo x + 1" "expo y" "2::rat"] by (simp add: power_int_add)
  then show ?thesis using dbl_bounds [of x] dbl_bounds [of y] assms by linarith
qed

lemma dbl_nonneg: "0 \<le> x \<Longrightarrow> 0 \<le> dbl x"
  using dbl_bounds(1) [of x] by (cases "x = 0") (auto intro: order_trans [rotated])

lemma dbl_mono:
  assumes "x \<le> y"
  shows "dbl x \<le> dbl y"
proof -
  consider "0 < x" | "x \<le> 0" "0 \<le> y" | "y < 0" by linarith
  then show ?thesis
  proof cases
    case 1 then show ?thesis by (rule dbl_mono_pos) (rule assms)
  next
    case 2 then show ?thesis using dbl_nonneg [of y] dbl_nonneg [of "- x"] by (simp add: dbl_minus)
  next
    case 3 then show ?thesis using dbl_mono_pos [of "- y" "- x"] assms by (simp add: dbl_minus)
  qed
qed

lemma dbl_int [simp]: "\<bar>n\<bar> < 2 ^ 53 \<Longrightarrow> dbl (of_int n) = of_int n"
  by (rule dbl_exact [of _ n 0]) auto

lemma dbl_dyadic: "\<bar>m\<bar> < 2 ^ 53 \<Longrightarrow> dbl (of_int m / 2 ^ k) = of_int m / 2 ^ k"
  by (rule dbl_exact [of _ m "- int k"]) (simp_all add: power_int_minus divide_inverse)

lemma to_int_of_int [simp]: "to_int (of_int n) = n"
  by (simp add: to_int_def)

lemma to_int_mono: "x \<le> y \<Longrightarrow> to_int x \<le> to_int y"
  by (auto simp: to_int_def floor_mono intro: order_trans [of _ 0])

text \<open>The double next to a given positive number, for concrete computations.\<close>

lemma rint_near: "\<bar>x - of_int m\<bar> < 1 / 2 \<Longrightarrow> rint x = m"
  using rint_error [of x] by linarith

lemma expo_eqI:
  assumes "0 < x" "2 ^ 52 \<le> x * 2 powi (- e)" "x * 2 powi (- e) < 2 ^ 53"
  shows "expo x = e"
proof -
  have x: "2 ^ 52 * 2 powi e \<le> x" "x < 2 ^ 53 * 2 powi e" using assms by (simp_all add: power_int_minus field_simps)
  have y: "2 ^ 52 * 2 powi expo x \<le> x" "x < 2 ^ 53 * 2 powi expo x"
    using expo_bounds [of x] assms(1) by (simp_all add: scale_powr power_int_minus field_simps)
  have sep: "2 ^ 53 * (2::rat) powi a \<le> 2 ^ 52 * 2 powi b" if "a + 1 \<le> b" for a b
    using power_int_increasing [OF that, of "2::rat"] by (simp add: power_int_add)
  show ?thesis using x y sep [of e "expo x"] sep [of "expo x" e] by linarith
qed

lemma dbl_eqI:
  assumes "4503599627370496 \<le> x * 2 ^ k" "x * 2 ^ k < 9007199254740992" "\<bar>x * 2 ^ k - of_int m\<bar> < 1 / 2"
  shows "dbl x = of_int m / 2 ^ k"
proof -
  have "\<not> x \<le> 0" using mult_nonpos_nonneg [of x "2 ^ k"] assms(1) by auto
  then have pos: "0 < x" by simp
  have s: "scale (- int k) x = x * 2 ^ k" by (simp add: scale_def)
  have "expo x = - int k" using assms pos by (intro expo_eqI) simp_all
  then show ?thesis using pos rint_near [OF assms(3)] s by (simp add: dbl_def Let_def) (simp add: scale_def)
qed

section \<open>What a client relies on\<close>

text \<open>Rounding is monotone, keeps the integers and has a small relative error \<open>u\<close>.  From that follows
  what the evaluation of \<open>a * x + c\<close> with both operations rounded gives.\<close>

locale rounding =
  fixes rnd :: "rat \<Rightarrow> rat" and u :: rat
  assumes rnd_mono: "x \<le> y \<Longrightarrow> rnd x \<le> rnd y"
    and rnd_error: "\<bar>rnd x - x\<bar> \<le> \<bar>x\<bar> * u"
    and u_bounds: "0 \<le> u" "u \<le> 1"
begin

lemma rnd_0: "rnd 0 = 0"
  using rnd_error [of 0] by simp

lemma rnd_nonneg: "0 \<le> x \<Longrightarrow> 0 \<le> rnd x"
  using rnd_mono [of 0 x] by (simp add: rnd_0)

lemma rnd_near: "\<bar>x\<bar> \<le> K \<Longrightarrow> \<bar>rnd x - x\<bar> \<le> K * u"
  by (rule order_trans [OF rnd_error]) (rule mult_right_mono, auto simp: u_bounds)

lemma affine_mono: "0 \<le> a \<Longrightarrow> x \<le> y \<Longrightarrow> rnd (rnd (a * x) + c) \<le> rnd (rnd (a * y) + c)"
  by (intro rnd_mono add_right_mono mult_left_mono)

lemma affine_near:
  assumes "\<bar>a * x\<bar> \<le> K" "\<bar>c\<bar> \<le> L"
  shows "\<bar>rnd (rnd (a * x) + c) - (a * x + c)\<bar> \<le> (3 * K + L) * u"
proof -
  have 1: "\<bar>rnd (a * x) - a * x\<bar> \<le> K * u" using assms(1) by (rule rnd_near)
  have "0 \<le> K" using assms(1) by (rule order_trans [OF abs_ge_zero])
  then have "K * u \<le> K" using u_bounds mult_left_mono [of u 1 K] by simp
  then have "\<bar>rnd (a * x) + c\<bar> \<le> 2 * K + L" using 1 assms by linarith
  then have "\<bar>rnd (rnd (a * x) + c) - (rnd (a * x) + c)\<bar> \<le> (2 * K + L) * u" by (rule rnd_near)
  with 1 show ?thesis by (simp add: algebra_simps abs_le_iff)
qed

end

interpretation double: rounding dbl "1 / 2 ^ 53"
proof
  show "dbl x \<le> dbl y" if "x \<le> y" for x y using that by (rule dbl_mono)
  show "\<bar>dbl x - x\<bar> \<le> \<bar>x\<bar> * (1 / 2 ^ 53)" for x using dbl_error [of x] by simp
qed simp_all

end
