(* ===== verification/Lights.thy ===== *)
theory Lights
  imports Platform Doubles
begin

text \<open>
  The lights module of the board, \<open>src/hardware/liblight/lights.c\<close>: it opens the device of the
  backlight, reads the range of the panel's brightness from two files of the kernel at the first open,
  and sets the brightness the framework asks for by writing a number to a third.  Between the two lies
  a mapping by two straight lines, computed with doubles (\<open>Doubles\<close>) whose coefficients are kept after
  their first computation.

  System calls go through the history of \<open>Platform\<close> (no Bluetooth callbacks are registered).  An
  operation that reads indeterminate memory, follows a null pointer, leaves an array or converts a
  double outside the range of \<open>int\<close> returns \<open>None\<close>.  A call of the module is one step; its mutex, which
  makes concurrent calls of \<open>open\<close> and the writes exclusive, is not represented.
\<close>

definition LCD_FILE :: string where
  "LCD_FILE = ''/sys/class/backlight/act_pwm_backlight/brightness''"

definition LCD_FILE_MAX :: string where
  "LCD_FILE_MAX = ''/sys/class/backlight/act_pwm_backlight/max_brightness''"

definition LCD_FILE_MIN :: string where
  "LCD_FILE_MIN = ''/sys/class/backlight/act_pwm_backlight/min_brightness''"

abbreviation (input) MAPPING_POINT_NUM :: nat where "MAPPING_POINT_NUM \<equiv> 3"
abbreviation (input) EINVAL :: int where "EINVAL \<equiv> 22"

text \<open>The constants \<open>0.5f\<close> and \<open>0.3f\<close> are of type \<open>float\<close>: one half is exact, three tenths is the nearest
  number of 24 binary digits.\<close>

definition android_backlight_percentage_array :: "rat list" where
  "android_backlight_percentage_array = [0, 1 / 2, 1]"

definition actual_backlight_percentage_array :: "rat list" where
  "actual_backlight_percentage_array = [0, 5033165 / 2 ^ 24, 1]"

record line_coefficient_t =
  coeff_a :: rat
  coeff_b :: rat

text \<open>\<open>BRIGHTNESS_ON\<close>, the full brightness of the framework, comes from a header outside the repository;
  \<open>errno\<close> and the size and content of memory that nobody wrote are those of the surroundings.\<close>

record lights_env =
  BRIGHTNESS_ON :: int
  errno_at :: "history \<Rightarrow> int"
  stack_buf :: "history \<Rightarrow> nat \<Rightarrow> u8"
  light_device_size :: nat

record lights_st = platform +
  lenv :: lights_env
  max_brightness :: int
  dim_brightness :: int
  first_open :: bool
  coeff_inited :: bool
  coeffs :: "line_coefficient_t option list"

definition lights_boot :: "os_env \<Rightarrow> lights_env \<Rightarrow> lights_st" where
  "lights_boot env e = \<lparr>bt_vendor_cbacks = None, calls = [], os = env, fds = (\<lambda>_. []), ttys = (\<lambda>_. quiet_termios),
     lenv = e, max_brightness = -1, dim_brightness = -1, first_open = True, coeff_inited = False,
     coeffs = [Some \<lparr>coeff_a = 0, coeff_b = 0\<rparr>, Some \<lparr>coeff_a = 0, coeff_b = 0\<rparr>]\<rparr>"

section \<open>Files\<close>

definition get_errno :: "lights_st \<Rightarrow> int" where
  "get_errno s = errno_at (lenv s) (calls s)"

text \<open>\<open>errno\<close> is read after \<open>close\<close>.\<close>

definition write_int :: "string \<Rightarrow> int \<Rightarrow> lights_st \<Rightarrow> int \<times> lights_st" where
  "write_int path value s =
     (let (fd, s) = sys_open path O_RDWR s in
      if fd \<ge> 0 then
        let (amt, s) = sys_write fd (bytes_of (int_dec value @ [LF])) s;
            s = sys_close fd s
        in (if amt = -1 then - get_errno s else 0, s)
      else (- get_errno s, s))"

text \<open>\<open>while (count > 0 && buf[count-1] == '\n') count--\<close>\<close>

fun strip_newlines :: "u8 list \<Rightarrow> nat \<Rightarrow> nat" where
  "strip_newlines buf 0 = 0"
| "strip_newlines buf (Suc n) = (if buf ! n = 10 then strip_newlines buf n else Suc n)"

text \<open>\<open>count\<close> is a \<open>size_t\<close>: the \<open>-1\<close> of a failed \<open>read\<close> becomes its greatest value, which is not below
  \<open>size\<close>.  The result, the count as an \<open>int\<close>, and the buffer.\<close>

definition readFromFile :: "string \<Rightarrow> u8 list \<Rightarrow> lights_st \<Rightarrow> int \<times> u8 list \<times> lights_st" where
  "readFromFile path buf s =
     (let size = length buf; (fd, s) = sys_open path O_RDONLY s in
      if fd = -1 then (-1, buf, s)
      else
        let (r, s) = sys_read fd size s;
            buf = put_bytes (case r of None \<Rightarrow> [] | Some bs \<Rightarrow> bs) buf;
            count = (case r of None \<Rightarrow> 2 ^ 32 - 1 | Some bs \<Rightarrow> length bs);
            (count, buf) =
              (if count > 0 then
                 let count = strip_newlines buf (if count < size then count else size - 1)
                 in (count, buf[count := 0])
               else (count, buf[0 := 0]))
        in (int count, buf, sys_close fd s))"

section \<open>Brightness\<close>

definition rgb_to_brightness :: "u32 \<Rightarrow> int" where
  "rgb_to_brightness color =
     (let color = color AND 0x00ffffff in
      (77 * uint (drop_bit 16 color AND 0xff) + 150 * uint (drop_bit 8 color AND 0xff)
        + 29 * uint (color AND 0xff)) div 2 ^ 8)"

text \<open>The coefficients stay indeterminate when the line is vertical.\<close>

definition get_line_coefficient :: "rat \<Rightarrow> rat \<Rightarrow> rat \<Rightarrow> rat \<Rightarrow> line_coefficient_t option" where
  "get_line_coefficient x0 y0 x1 y1 =
     (if x0 \<noteq> x1 then
        Some \<lparr>coeff_a = dbl (dbl (y1 - y0) / dbl (x1 - x0)),
              coeff_b = dbl (dbl (dbl (y0 * x1) - dbl (y1 * x0)) / dbl (x1 - x0))\<rparr>
      else None)"

definition point_m :: "lights_st \<Rightarrow> nat \<Rightarrow> rat" where
  "point_m s i = dbl (android_backlight_percentage_array ! i * of_int (BRIGHTNESS_ON (lenv s)))"

definition point_n :: "lights_st \<Rightarrow> nat \<Rightarrow> rat" where
  "point_n s i =
     dbl (dbl (actual_backlight_percentage_array ! i * of_int (max_brightness s - dim_brightness s))
            + of_int (dim_brightness s))"

definition init_coeffs :: "lights_st \<Rightarrow> lights_st" where
  "init_coeffs s =
     (if coeff_inited s then s
      else s\<lparr>coeffs := map (\<lambda>i. get_line_coefficient (point_m s (i - 1)) (point_n s (i - 1)) (point_m s i) (point_n s i))
                          [1..<MAPPING_POINT_NUM],
             coeff_inited := True\<rparr>)"

function find_segment :: "lights_st \<Rightarrow> int \<Rightarrow> nat \<Rightarrow> nat" where
  "find_segment s b i =
     (if i < MAPPING_POINT_NUM then if of_int b \<le> point_m s i then i else find_segment s b (Suc i) else i)"
  by pat_completeness auto
termination by (relation "measure (\<lambda>(s, b, i). MAPPING_POINT_NUM - i)") auto

declare find_segment.simps [simp del]

definition double_to_int :: "rat \<Rightarrow> int option" where
  "double_to_int x = (let n = to_int x in if - (2 ^ 31) \<le> n \<and> n < 2 ^ 31 then Some n else None)"

definition getBrightnessByLineMapping :: "int \<Rightarrow> lights_st \<Rightarrow> (int \<times> lights_st) option" where
  "getBrightnessByLineMapping b s =
     (let s = init_coeffs s in
      if b \<noteq> 0 then
        let i = find_segment s b 1 in
        if i - 1 < length (coeffs s) then
          (case coeffs s ! (i - 1) of
             None \<Rightarrow> None
           | Some c \<Rightarrow>
               map_option (\<lambda>b. (b, s)) (double_to_int (dbl (dbl (coeff_a c * of_int b) + coeff_b c))))
        else None
      else Some (b, s))"

definition set_light_backlight :: "u32 \<Rightarrow> lights_st \<Rightarrow> (int \<times> lights_st) option" where
  "set_light_backlight color s =
     (case getBrightnessByLineMapping (rgb_to_brightness color) s of
        None \<Rightarrow> None
      | Some (brightness, s) \<Rightarrow> Some (write_int LCD_FILE brightness s))"

section \<open>The module\<close>

text \<open>A device is its address; \<open>None\<close> is \<open>NULL\<close>.\<close>

definition close_lights :: "nat option \<Rightarrow> lights_st \<Rightarrow> int \<times> lights_st" where
  "close_lights dev s = (0, case dev of None \<Rightarrow> s | Some a \<Rightarrow> sys_free a s)"

definition LIGHT_ID_BACKLIGHT :: string where
  "LIGHT_ID_BACKLIGHT = ''backlight''"

text \<open>The part of \<open>open_lights\<close> under the mutex: the range of the panel.\<close>

definition open_range :: "lights_st \<Rightarrow> int \<times> lights_st" where
  "open_range s =
     (if first_open s then
        let (r, buf, s) = readFromFile LCD_FILE_MAX (map (stack_buf (lenv s) (calls s)) [0..<10]) s in
        if r = -1 then (-1, s)
        else
          let s = s\<lparr>max_brightness := atoi (cstring_of buf)\<rparr>;
              (r, buf, s) = readFromFile LCD_FILE_MIN buf s
          in if r = -1 then (-1, s)
             else (0, s\<lparr>dim_brightness := atoi (cstring_of buf), first_open := False\<rparr>)
      else (0, s))"

text \<open>The result, what the call stored in \<open>*device\<close> (\<open>None\<close>: nothing), and the state.  The block that
  \<open>malloc\<close> returns is cleared without a check.\<close>

definition open_lights :: "string \<Rightarrow> lights_st \<Rightarrow> (int \<times> nat option \<times> lights_st) option" where
  "open_lights name s =
     (if name \<noteq> LIGHT_ID_BACKLIGHT then Some (- EINVAL, None, s)
      else
        let (dev, s) = sys_malloc (light_device_size (lenv s)) s in
        case dev of
          None \<Rightarrow> None
        | Some a \<Rightarrow> let (r, s) = open_range s in Some (r, Some a, s))"

end
