(* ===== verification/Lights_Mapping.thy ===== *)
theory Lights_Mapping
  imports Lights
begin

text \<open>
  The mapping of the brightness in \<open>lights.c\<close>: with 255 as the full brightness of the framework it
  follows, up to the rounding of the doubles, the two lines through \<open>(0, min)\<close>, \<open>(127.5, min + 0.3f *
  (max - min))\<close> and \<open>(255, max)\<close>; it is monotone and stays in the range of the panel.
\<close>

section \<open>The two lines\<close>

abbreviation knee :: rat where "knee \<equiv> 5033165 / 16777216"

definition range_ok :: "int \<Rightarrow> int \<Rightarrow> bool" where
  "range_ok dm mx \<longleftrightarrow> 0 \<le> dm \<and> dm \<le> mx \<and> mx < 10 ^ 9"

text \<open>The lines from \<open>p\<close> to \<open>q\<close> in exact arithmetic.\<close>

definition line_spec :: "rat \<Rightarrow> rat \<Rightarrow> int \<Rightarrow> rat" where
  "line_spec p q b =
     (if b \<le> 127 then p + knee * (q - p) * (2 / 255) * of_int b
      else p + knee * (q - p) + (1 - knee) * (q - p) * (2 / 255) * (of_int b - 255 / 2))"

text \<open>The corner of the two lines and the values on them as the doubles of the program.\<close>

definition corner :: "rat \<Rightarrow> rat \<Rightarrow> rat" where
  "corner p q = dbl (dbl (knee * (q - p)) + p)"

definition slope :: "rat \<Rightarrow> rat" where
  "slope d = dbl (dbl d / (255 / 2))"

definition offset :: "rat \<Rightarrow> rat \<Rightarrow> rat" where
  "offset c q = dbl (dbl (dbl (c * 255) - q * (255 / 2)) / (255 / 2))"

definition line_value :: "rat \<Rightarrow> rat \<Rightarrow> int \<Rightarrow> rat" where
  "line_value p q b =
     (let c = corner p q in
      if b \<le> 127 then dbl (dbl (slope (c - p) * of_int b) + p)
      else dbl (dbl (slope (q - c) * of_int b) + offset c q))"

section \<open>Error bounds\<close>

text \<open>The bounds are written as literals, for linear arithmetic.\<close>

lemma dbl_near: "\<bar>x\<bar> \<le> K \<Longrightarrow> \<bar>dbl x - x\<bar> \<le> K / 9007199254740992"
  using double.rnd_near [of x K] by simp

lemma dbl_affine_near:
  assumes "\<bar>a * x\<bar> \<le> K" "\<bar>c\<bar> \<le> K"
  shows "\<bar>dbl (dbl (a * x) + c) - (a * x + c)\<bar> \<le> K / 2251799813685248"
  using double.affine_near [OF assms] by simp

lemma half_range: "x / (255 / 2) = 2 / 255 * x" for x :: rat
  by simp

lemma corner_near:
  assumes "0 \<le> p" "p \<le> q" "q < 1000000000"
  shows "\<bar>corner p q - (p + knee * (q - p))\<bar> \<le> 1 / 2097152"
proof -
  have "\<bar>knee * (q - p)\<bar> \<le> 1000000000" "\<bar>p\<bar> \<le> 1000000000" using assms by auto
  from dbl_affine_near [OF this] show ?thesis unfolding corner_def add.commute [of p] by simp
qed

text \<open>A slope: a difference next to \<open>d\<close>, rounded, divided by 127.5 and rounded again.\<close>

lemma slope_near:
  assumes "\<bar>x - d\<bar> \<le> 1 / 2097152" "0 \<le> d" "d \<le> 1000000000"
  shows "\<bar>slope x - d * (2 / 255)\<bar> \<le> 1 / 67108864"
proof -
  have "\<bar>x\<bar> \<le> 2000000000" using assms by linarith
  then have 1: "\<bar>dbl x - x\<bar> \<le> 2000000000 / 9007199254740992" by (rule dbl_near)
  have "\<bar>2 / 255 * dbl x\<bar> \<le> 20000000" using 1 assms by linarith
  then have "\<bar>slope x - 2 / 255 * dbl x\<bar> \<le> 20000000 / 9007199254740992" unfolding slope_def half_range by (rule dbl_near)
  then show ?thesis using 1 assms by linarith
qed

lemma offset_near:
  assumes "\<bar>c - r\<bar> \<le> 1 / 2097152" "0 \<le> r" "r \<le> 1000000000" "0 \<le> q" "q \<le> 1000000000"
  shows "\<bar>offset c q - (2 * r - q)\<bar> \<le> 1 / 262144"
proof -
  have "\<bar>c * 255\<bar> \<le> 300000000000" using assms by linarith
  then have 1: "\<bar>dbl (c * 255) - c * 255\<bar> \<le> 300000000000 / 9007199254740992" by (rule dbl_near)
  let ?x = "dbl (c * 255) - q * (255 / 2)"
  have "\<bar>?x\<bar> \<le> 300000000000" using 1 assms by linarith
  then have 2: "\<bar>dbl ?x - ?x\<bar> \<le> 300000000000 / 9007199254740992" by (rule dbl_near)
  have "\<bar>2 / 255 * dbl ?x\<bar> \<le> 3000000000" using 1 2 assms by linarith
  then have "\<bar>offset c q - 2 / 255 * dbl ?x\<bar> \<le> 3000000000 / 9007199254740992" unfolding offset_def half_range by (rule dbl_near)
  then show ?thesis using 1 2 assms by linarith
qed

text \<open>The value on a line whose slope and offset are near \<open>a\<close> and \<open>r\<close>.\<close>

lemma value_near:
  assumes "\<bar>s - a\<bar> \<le> 1 / 67108864" "\<bar>t - r\<bar> \<le> 1 / 262144"
    and "0 \<le> a" "a \<le> 8000000" "\<bar>r\<bar> \<le> 1000000000" "0 \<le> x" "x \<le> 255"
  shows "\<bar>dbl (dbl (s * x) + t) - (a * x + r)\<bar> \<le> 1 / 65536"
proof -
  have "\<bar>s * x - a * x\<bar> = \<bar>s - a\<bar> * x" using assms(6) by (simp add: abs_mult flip: left_diff_distrib)
  also have "\<dots> \<le> 1 / 67108864 * 255" using assms by (intro mult_mono) auto
  finally have 1: "\<bar>s * x - a * x\<bar> \<le> 255 / 67108864" by simp
  have "0 \<le> a * x" "a * x \<le> 8000000 * 255" using assms mult_mono [of a 8000000 x 255] by simp_all
  then have "\<bar>s * x\<bar> \<le> 3000000000" "\<bar>t\<bar> \<le> 3000000000" using 1 assms(2,5) by linarith+
  from dbl_affine_near [OF this] 1 assms(2) show ?thesis by linarith
qed

lemma line_value_near:
  assumes "0 \<le> p" "p \<le> q" "q < 1000000000" "0 \<le> b" "b \<le> 255"
  shows "\<bar>line_value p q b - line_spec p q b\<bar> \<le> 1 / 65536"
proof -
  define k where "k = knee * (q - p)"
  let ?c = "corner p q"
  note c = corner_near [OF assms(1-3), folded k_def]
  have k: "0 \<le> k" "k \<le> q - p" using assms(2) by (simp_all add: k_def)
  have k': "(1 - knee) * (q - p) = q - p - k" unfolding k_def by (simp add: field_simps)
  have b: "0 \<le> (of_int b :: rat)" "(of_int b :: rat) \<le> 255" using assms(4,5) by auto
  have x: "\<bar>(?c - p) - k\<bar> \<le> 1 / 2097152" "\<bar>(q - ?c) - (q - p - k)\<bar> \<le> 1 / 2097152" using c by linarith+
  have "k \<le> 1000000000" "0 \<le> q - p - k" "q - p - k \<le> 1000000000" using k assms by linarith+
  note s = slope_near [OF x(1) k(1) this(1)] slope_near [OF x(2) this(2,3)]
  have "0 \<le> p + k" "p + k \<le> 1000000000" "0 \<le> q" "q \<le> 1000000000" using k assms by linarith+
  note o = offset_near [OF c this]
  show ?thesis
  proof (cases "b \<le> 127")
    case True
    have "k * (2 / 255) * of_int b + p = line_spec p q b"
      using True unfolding line_spec_def k_def [symmetric] by simp
    then show ?thesis using True value_near [OF s(1) _ _ _ _ b, of p p] k assms(1-3)
      by (simp add: line_value_def Let_def)
  next
    case False
    have "(q - p - k) * (2 / 255) * of_int b + (2 * (p + k) - q) = line_spec p q b"
      using False unfolding line_spec_def k' k_def [symmetric] by (simp add: field_simps)
    then show ?thesis using False value_near [OF s(2) o _ _ _ b] k assms(1-3)
      by (simp add: line_value_def Let_def abs_le_iff)
  qed
qed

section \<open>Range and monotonicity\<close>

lemma rat_range:
  assumes "range_ok dm mx"
  shows "0 \<le> (of_int dm :: rat)" "(of_int dm :: rat) \<le> of_int mx" "(of_int mx :: rat) < 1000000000"
    "\<bar>dm\<bar> < 2 ^ 53" "\<bar>mx\<bar> < 2 ^ 53"
  using assms by (auto simp: range_ok_def)

lemma dbl_range [simp]:
  assumes "range_ok dm mx"
  shows "dbl (of_int dm) = of_int dm" "dbl (of_int mx) = of_int mx"
    "dbl (of_int mx - of_int dm) = of_int mx - of_int dm"
  using assms dbl_int [of "mx - dm"] by (auto simp: range_ok_def)

lemma dbl_halves [simp]:
  "\<bar>n\<bar> < 1000000000 \<Longrightarrow> dbl (of_int n * 255 / 2) = of_int n * 255 / 2"
  "\<bar>n\<bar> < 1000000000 \<Longrightarrow> dbl (255 * of_int n / 2) = 255 * of_int n / 2"
  by (rule dbl_exact [of _ "n * 255" "-1"]; simp add: power_int_minus)+

lemma corner_range:
  assumes "range_ok dm mx"
  shows "of_int dm \<le> corner (of_int dm) (of_int mx)" "corner (of_int dm) (of_int mx) \<le> of_int mx"
proof -
  note r = rat_range [OF assms]
  have "dbl (dbl 0 + of_int dm) \<le> corner (of_int dm) (of_int mx)"
    unfolding corner_def using r by (intro dbl_mono add_right_mono) simp_all
  then show "of_int dm \<le> corner (of_int dm) (of_int mx)" using assms by simp
  have "corner (of_int dm) (of_int mx) \<le> dbl (dbl (of_int mx - of_int dm) + of_int dm)"
    unfolding corner_def using r by (intro dbl_mono add_right_mono) simp_all
  then show "corner (of_int dm) (of_int mx) \<le> of_int mx" using assms by simp
qed

lemma slope_nonneg: "0 \<le> d \<Longrightarrow> 0 \<le> slope d"
  by (auto simp: slope_def intro!: dbl_nonneg)

lemma slope_range:
  "range_ok dm mx \<Longrightarrow> 0 \<le> slope (corner (of_int dm) (of_int mx) - of_int dm)"
  "range_ok dm mx \<Longrightarrow> 0 \<le> slope (of_int mx - corner (of_int dm) (of_int mx))"
  using corner_range [of dm mx] by (simp_all add: slope_nonneg)

text \<open>A panel of one level: everything is exact.\<close>

lemma line_value_const:
  assumes "range_ok dm dm"
  shows "line_value (of_int dm) (of_int dm) b = of_int dm"
proof -
  have "dbl (of_int dm * 255) = of_int dm * 255"
    using assms dbl_int [of "dm * 255"] by (simp add: range_ok_def)
  moreover have "of_int dm * 255 - of_int dm * 255 / 2 = (of_int dm * 255 / 2 :: rat)" by simp
  ultimately have "offset (of_int dm) (of_int dm) = of_int dm"
    using assms by (simp add: offset_def range_ok_def)
  then show ?thesis using assms by (simp add: line_value_def corner_def slope_def Let_def)
qed

lemma line_spec_step: "p \<le> q \<Longrightarrow> line_spec p q 127 + (q - p) / 255 \<le> line_spec p q 128"
  by (simp add: line_spec_def field_simps)

lemma near_step:
  "\<bar>v - s\<bar> \<le> 1 / 65536 \<Longrightarrow> \<bar>v' - s'\<bar> \<le> 1 / 65536 \<Longrightarrow> 1 \<le> d \<Longrightarrow> s + d / 255 \<le> s' \<Longrightarrow> v \<le> v'" for v :: rat
  by linarith

lemma line_value_step:
  assumes "range_ok dm mx"
  shows "line_value (of_int dm) (of_int mx) 127 \<le> line_value (of_int dm) (of_int mx) 128"
proof (cases "dm = mx")
  case True
  then show ?thesis using assms by (simp add: line_value_const)
next
  case False
  note r = rat_range [OF assms]
  have near: "\<bar>line_value (of_int dm) (of_int mx) x - line_spec (of_int dm) (of_int mx) x\<bar> \<le> 1 / 65536"
    if "0 \<le> x" "x \<le> 255" for x using line_value_near [OF r(1-3) that] .
  have "\<bar>line_value (of_int dm) (of_int mx) 127 - line_spec (of_int dm) (of_int mx) 127\<bar> \<le> 1 / 65536"
    "\<bar>line_value (of_int dm) (of_int mx) 128 - line_spec (of_int dm) (of_int mx) 128\<bar> \<le> 1 / 65536"
    using near [of 127] near [of 128] by simp_all
  moreover have "(of_int (dm + 1) :: rat) \<le> of_int mx" using False assms unfolding of_int_le_iff
    by (simp add: range_ok_def)
  then have "(1 :: rat) \<le> of_int mx - of_int dm" unfolding of_int_add by simp
  ultimately show ?thesis using line_spec_step [OF r(2)] near_step by blast
qed

lemma line_value_mono:
  assumes r: "range_ok dm mx" and b: "b \<le> b'"
  shows "line_value (of_int dm) (of_int mx) b \<le> line_value (of_int dm) (of_int mx) b'" (is "?v b \<le> ?v b'")
proof -
  have lo: "?v x \<le> ?v y" if "x \<le> y" "y \<le> 127" for x y
    using that double.affine_mono [OF slope_range(1) [OF r], of "of_int x" "of_int y"] by (simp add: line_value_def Let_def)
  have hi: "?v x \<le> ?v y" if "x \<le> y" "128 \<le> x" for x y
    using that double.affine_mono [OF slope_range(2) [OF r], of "of_int x" "of_int y"] by (simp add: line_value_def Let_def)
  consider "b' \<le> 127" | "128 \<le> b" | "b \<le> 127" "128 \<le> b'" by linarith
  then show ?thesis
  proof cases
    case 3
    then show ?thesis using lo [of b 127] hi [of 128 b'] line_value_step [OF r] by simp
  qed (use lo hi b in auto)
qed

lemma line_value_ge:
  assumes "range_ok dm mx" "0 \<le> b"
  shows "of_int dm \<le> line_value (of_int dm) (of_int mx) b"
proof -
  have "line_value (of_int dm) (of_int mx) 0 = of_int dm" using assms(1) by (simp add: line_value_def Let_def)
  then show ?thesis using line_value_mono [OF assms] by simp
qed

lemma line_spec_le:
  assumes "p \<le> q" "0 \<le> b" "b \<le> 255"
  shows "line_spec p q b \<le> q"
proof (cases "b \<le> 127")
  case True
  have "knee * (q - p) * (2 / 255) * of_int b \<le> knee * (q - p) * (2 / 255) * 127"
    using True assms(1) by (intro mult_left_mono) auto
  then show ?thesis using True assms(1) by (simp add: line_spec_def)
next
  case False
  have "(1 - knee) * (q - p) * (2 / 255) * (of_int b - 255 / 2) \<le> (1 - knee) * (q - p) * (2 / 255) * (255 / 2)"
    using assms by (intro mult_left_mono) auto
  also have "\<dots> = q - p - knee * (q - p)" by (simp add: field_simps)
  finally have "(1 - knee) * (q - p) * (2 / 255) * (of_int b - 255 / 2) \<le> q - p - knee * (q - p)" .
  then have "p + knee * (q - p) + (1 - knee) * (q - p) * (2 / 255) * (of_int b - 255 / 2) \<le> q" by linarith
  then show ?thesis using False unfolding line_spec_def by (simp only: if_False)
qed

lemma line_value_lt:
  assumes "range_ok dm mx" "0 \<le> b" "b \<le> 255"
  shows "line_value (of_int dm) (of_int mx) b < of_int mx + 1"
  using line_value_near [OF rat_range(1-3) [OF assms(1)] assms(2,3)] line_spec_le [OF rat_range(2) [OF assms(1)] assms(2,3)]
  by linarith

section \<open>The mapping of the program\<close>

text \<open>The coefficients that are kept are those of the range in the state.\<close>

definition coeffs_ok :: "lights_st \<Rightarrow> bool" where
  "coeffs_ok s \<longleftrightarrow> (coeff_inited s \<longrightarrow> coeffs s = coeffs (init_coeffs (s\<lparr>coeff_inited := False\<rparr>)))"

definition full_255 :: "lights_st \<Rightarrow> bool" where
  "full_255 s \<longleftrightarrow> BRIGHTNESS_ON (lenv s) = 255 \<and> range_ok (dim_brightness s) (max_brightness s) \<and> coeffs_ok s"

lemma dbl_literals [simp]: "dbl (255 / 2) = 255 / 2" "dbl 255 = 255"
  using dbl_exact [of _ 255 "-1"] dbl_int [of 255] by (simp_all add: power_int_minus)

lemma points_m:
  assumes "BRIGHTNESS_ON (lenv s) = 255"
  shows "point_m s 0 = 0" "point_m s (Suc 0) = 255 / 2" "point_m s 2 = 255"
  using assms by (simp_all add: point_m_def android_backlight_percentage_array_def)

lemma points_n:
  assumes "range_ok (dim_brightness s) (max_brightness s)"
  shows "point_n s 0 = of_int (dim_brightness s)"
    "point_n s (Suc 0) = corner (of_int (dim_brightness s)) (of_int (max_brightness s))"
    "point_n s 2 = of_int (max_brightness s)"
  using assms by (simp_all add: point_n_def actual_backlight_percentage_array_def corner_def)

lemma first_line:
  assumes "range_ok dm mx"
  shows "get_line_coefficient 0 (of_int dm) (255 / 2) c = Some \<lparr>coeff_a = slope (c - of_int dm), coeff_b = of_int dm\<rparr>"
  using assms by (simp add: get_line_coefficient_def slope_def range_ok_def)

lemma second_line:
  assumes "range_ok dm mx"
  shows "get_line_coefficient (255 / 2) c 255 (of_int mx) = Some \<lparr>coeff_a = slope (of_int mx - c), coeff_b = offset c (of_int mx)\<rparr>"
  using assms by (simp add: get_line_coefficient_def slope_def offset_def range_ok_def)

lemma coeffs_init:
  assumes "full_255 s"
  defines "c \<equiv> corner (of_int (dim_brightness s)) (of_int (max_brightness s))"
  shows "coeffs (init_coeffs s) = [Some \<lparr>coeff_a = slope (c - of_int (dim_brightness s)), coeff_b = of_int (dim_brightness s)\<rparr>,
      Some \<lparr>coeff_a = slope (of_int (max_brightness s) - c), coeff_b = offset c (of_int (max_brightness s))\<rparr>]"
proof -
  from assms(1) have "coeffs (init_coeffs s) = coeffs (init_coeffs (s\<lparr>coeff_inited := False\<rparr>))"
    by (auto simp: full_255_def coeffs_ok_def init_coeffs_def point_m_def point_n_def)
  also have "\<dots> = map (\<lambda>i. get_line_coefficient (point_m s (i - 1)) (point_n s (i - 1)) (point_m s i) (point_n s i)) [1..<3]"
    by (simp add: init_coeffs_def point_m_def point_n_def)
  also have "[1..<3] = [Suc 0, 2]" by (simp add: upt_rec)
  finally show ?thesis using assms(1)
    by (simp add: full_255_def points_m points_n first_line [of _ "max_brightness s"] second_line [of "dim_brightness s"] c_def)
qed

lemma init_coeffs_same [simp]:
  "lenv (init_coeffs s) = lenv s" "dim_brightness (init_coeffs s) = dim_brightness s"
  "max_brightness (init_coeffs s) = max_brightness s" "calls (init_coeffs s) = calls s" "os (init_coeffs s) = os s"
  "first_open (init_coeffs s) = first_open s" "coeff_inited (init_coeffs s)" "fds (init_coeffs s) = fds s"
  by (simp_all add: init_coeffs_def)

lemma find_segment_255:
  assumes "BRIGHTNESS_ON (lenv s) = 255" "b \<le> 255"
  shows "find_segment s b (Suc 0) = (if b \<le> 127 then 1 else 2)"
proof -
  have "(of_int b \<le> (255 / 2 :: rat)) = (2 * of_int b \<le> (255 :: rat))" by (simp add: mult.commute)
  also have "\<dots> = (of_int (2 * b) \<le> (of_int 255 :: rat))" by simp
  also have "\<dots> = (b \<le> 127)" unfolding of_int_le_iff by linarith
  finally have half: "(of_int b \<le> (255 / 2 :: rat)) = (b \<le> 127)" .
  have "(of_int b :: rat) \<le> 255" using assms(2) by simp
  then show ?thesis using points_m(2,3) [OF assms(1)] half
    by (simp add: find_segment.simps [of _ _ "Suc 0"] find_segment.simps [of _ _ 2] numeral_2_eq_2 [symmetric])
qed

lemma to_int_range:
  assumes "of_int m \<le> x" "x < of_int n + 1" "0 \<le> m"
  shows "m \<le> to_int x" "to_int x \<le> n" "to_int x = \<lfloor>x\<rfloor>"
proof -
  have "0 \<le> x" using assms by (meson of_int_0_le_iff order_trans)
  then show "to_int x = \<lfloor>x\<rfloor>" by (simp add: to_int_def)
  then show "m \<le> to_int x" "to_int x \<le> n" using assms by linarith+
qed

lemma mapping_255:
  assumes s: "full_255 s" and b: "0 < b" "b \<le> 255"
  defines "v \<equiv> line_value (of_int (dim_brightness s)) (of_int (max_brightness s)) b"
  shows "getBrightnessByLineMapping b s = Some (\<lfloor>v\<rfloor>, init_coeffs s)"
    "dim_brightness s \<le> \<lfloor>v\<rfloor>" "\<lfloor>v\<rfloor> \<le> max_brightness s"
proof -
  let ?i = "if b \<le> 127 then 1 else 2 :: nat" and ?u = "init_coeffs s"
  have r: "range_ok (dim_brightness s) (max_brightness s)" using s by (simp add: full_255_def)
  have "of_int (dim_brightness s) \<le> v" "v < of_int (max_brightness s) + 1"
    using line_value_ge [OF r] line_value_lt [OF r] b by (simp_all add: v_def)
  note v = to_int_range [OF this]
  have m: "0 \<le> dim_brightness s" "max_brightness s < 10 ^ 9" using r by (auto simp: range_ok_def)
  then show "dim_brightness s \<le> \<lfloor>v\<rfloor>" "\<lfloor>v\<rfloor> \<le> max_brightness s" using v by auto
  have i: "find_segment ?u b 1 = ?i" using find_segment_255 [of ?u b] s b by (simp add: full_255_def)
  obtain c where c: "coeffs ?u ! (?i - 1) = Some c" "?i - 1 < length (coeffs ?u)"
      "dbl (dbl (coeff_a c * of_int b) + coeff_b c) = v"
    by (cases "b \<le> 127") (simp_all add: coeffs_init [OF s] v_def line_value_def Let_def)
  have "- 2147483648 \<le> to_int v" "to_int v < 2147483648" using v(1,2) [OF m(1)] m by simp_all
  then have "double_to_int v = Some \<lfloor>v\<rfloor>" using v(3) [OF m(1)] by (simp only: double_to_int_def Let_def) simp
  then show "getBrightnessByLineMapping b s = Some (\<lfloor>v\<rfloor>, init_coeffs s)"
    unfolding getBrightnessByLineMapping_def Let_def i using b c by simp
qed

lemma mapping_0: "getBrightnessByLineMapping 0 s = Some (0, init_coeffs s)"
  by (simp add: getBrightnessByLineMapping_def Let_def)

end
