(* ===== verification/Lights_Run.thy ===== *)
theory Lights_Run
  imports Lights_Mapping
begin

text \<open>
  The calls of the lights module in sequence: what the first open reads, what is written for a
  brightness, and what holds over every sequence of calls.
\<close>

section \<open>Reading the range\<close>

lemma strip_newlines_le: "strip_newlines buf n \<le> n"
  by (induction n) (auto simp: le_SucI)

lemma bytes_of_nth: "i < length s \<Longrightarrow> bytes_of s ! i = of_nat (of_char (s ! i))"
  by (simp add: bytes_of_def)

lemma LF_byte: "(of_nat (of_char c) :: u8) = 10 \<longleftrightarrow> c = LF"
proof
  assume "(of_nat (of_char c) :: u8) = 10"
  then have "unat (of_nat (of_char c) :: u8) = 10" by simp
  moreover have "(of_char c :: nat) < 256" by (metis nat_of_char_less_256)
  ultimately have "of_char c = (of_char LF :: nat)" by (simp add: unat_of_nat8)
  then show "c = LF" by (simp only: of_char_eq_iff)
qed simp

lemma digits_no_LF: "list_all char_isdigit s \<Longrightarrow> LF \<notin> set s \<and> CHR 0x00 \<notin> set s"
  by (auto simp: list_all_iff char_isdigit_def Let_def)

text \<open>A file that holds a number of at most nine digits and a newline.\<close>

lemma strip_number:
  assumes "list_all char_isdigit ds" "ds \<noteq> []" "length ds \<le> 9" "length buf = 10"
  defines "b \<equiv> put_bytes (bytes_of (ds @ [LF])) buf"
  shows "strip_newlines b (min (length ds + 1) 9) = length ds"
proof -
  have nth: "b ! i = (if i < length ds then of_nat (of_char (ds ! i)) else 10)" if "i \<le> length ds" for i
    using that by (auto simp: b_def put_bytes_def nth_append bytes_of_nth bytes_of_def)
  obtain k where k: "length ds = Suc k" using assms(2) by (cases ds) auto
  have "ds ! k \<noteq> LF" using digits_no_LF [OF assms(1)] k by (metis lessI nth_mem)
  then have stop: "strip_newlines b (Suc k) = Suc k" using nth [of k] k LF_byte [of "ds ! k"] by simp
  show ?thesis
  proof (cases "length ds = 9")
    case True
    then show ?thesis using stop k by (simp add: eval_nat_numeral)
  next
    case False
    then have "min (length ds + 1) 9 = Suc (Suc k)" using assms(3) k by simp
    then show ?thesis using stop nth [of "Suc k"] k by simp
  qed
qed

lemma readFromFile_bytes:
  assumes "os_file (os s) path = bs" "bs \<noteq> []" "length buf = 10"
    and "0 \<le> os_open (os s) (calls s) path O_RDONLY" "\<And>h fd. \<not> os_read_err (os s) h fd"
  defines "b \<equiv> put_bytes (take 10 bs) buf" and "fd \<equiv> os_open (os s) (calls s) path O_RDONLY"
  defines "k \<equiv> strip_newlines b (min (length bs) 9)"
  shows "readFromFile path buf s = (int k, b[k := 0],
    s\<lparr>calls := calls s @ [Sys_open path O_RDONLY fd, Sys_read fd 10, Sys_close fd], fds := (fds s)(fd := drop 10 bs)\<rparr>)"
proof -
  have "length (take 10 bs) < 10 \<Longrightarrow> length (take 10 bs) = min (length bs) 9"
    "\<not> length (take 10 bs) < 10 \<Longrightarrow> 9 = min (length bs) 9" by auto
  then show ?thesis using assms(1-5) unfolding k_def b_def fd_def
    by (simp add: readFromFile_def sys_open_def sys_read_def sys_close_def Let_def del: length_take)
qed

lemma readFromFile_number:
  assumes "os_file (os s) path = bytes_of (nat_dec n @ [LF])" "n < 10 ^ 9" "length buf = 10"
    and "0 \<le> os_open (os s) (calls s) path O_RDONLY" "\<And>h fd. \<not> os_read_err (os s) h fd"
  defines "fd \<equiv> os_open (os s) (calls s) path O_RDONLY"
  shows "\<exists>k buf' f. readFromFile path buf s = (int k, buf',
      s\<lparr>calls := calls s @ [Sys_open path O_RDONLY fd, Sys_read fd 10, Sys_close fd], fds := f\<rparr>)
    \<and> length buf' = 10 \<and> atoi (cstring_of buf') = int n"
proof -
  let ?ds = "nat_dec n" and ?bs = "bytes_of (nat_dec n @ [LF])"
  let ?b = "put_bytes ?bs buf"
  have ds: "list_all char_isdigit ?ds" "?ds \<noteq> []" "length ?ds \<le> 9"
    using nat_dec_digits length_nat_dec [of n 8] assms(2) by simp_all
  have t: "take 10 ?bs = ?bs" using ds(3) by simp
  let ?b' = "?b[length ?ds := 0]"
  have b': "?b' = bytes_of ?ds @ 0 # drop (length ?ds + 1) buf"
    by (simp add: put_bytes_def list_update_append bytes_of_def)
  have "cstring_of ?b' = ?ds" unfolding b' using digits_no_LF [OF ds(1)] by (intro cstring_of_bytes) simp
  then have "atoi (cstring_of ?b') = int n" using atoi_nat_dec [of "[]" n] by simp
  moreover have "length ?b' = 10" using ds(3) assms(3) by (simp add: put_bytes_def)
  moreover have "strip_newlines ?b (min (length ?bs) 9) = length ?ds"
    using strip_number [OF ds assms(3)] by simp
  note readFromFile_bytes [OF assms(1) _ assms(3-5), unfolded t this, folded fd_def]
  ultimately show ?thesis by (auto simp: bytes_of_def)
qed

text \<open>An error of \<open>read\<close> goes unnoticed: nine bytes of the stack are taken for the content.\<close>

lemma readFromFile_error:
  assumes "0 \<le> os_open (os s) (calls s) path O_RDONLY" "\<And>h fd. os_read_err (os s) h fd" "length buf = 10" "buf ! 8 \<noteq> 10"
  shows "fst (readFromFile path buf s) = 9" "fst (snd (readFromFile path buf s)) = buf[9 := 0]"
proof -
  have "strip_newlines buf 9 = 9" using assms(4) by (simp add: eval_nat_numeral)
  then show "fst (readFromFile path buf s) = 9" "fst (snd (readFromFile path buf s)) = buf[9 := 0]"
    using assms by (simp_all add: readFromFile_def sys_open_def sys_read_def sys_close_def put_bytes_def Let_def)
qed

section \<open>Sequences of calls\<close>

text \<open>The framework has a device, and can set the light, only after an \<open>open\<close> that succeeded.\<close>

datatype lights_op = Open_lights string | Set_light u32 | Close_lights nat

inductive lights_step :: "lights_st \<Rightarrow> lights_op \<Rightarrow> lights_st \<Rightarrow> bool" where
  step_open: "open_lights name s = Some (r, d, t) \<Longrightarrow> lights_step s (Open_lights name) t"
| step_set: "\<not> first_open s \<Longrightarrow> set_light_backlight color s = Some (r, t) \<Longrightarrow> lights_step s (Set_light color) t"
| step_close: "close_lights (Some a) s = (r, t) \<Longrightarrow> lights_step s (Close_lights a) t"

text \<open>What the calls of a history wrote.\<close>

fun writes :: "history \<Rightarrow> u8 list list" where
  "writes [] = []"
| "writes (Sys_write fd bs r # cs) = bs # writes cs"
| "writes (_ # cs) = writes cs"

lemma writes_append [simp]: "writes (cs @ ds) = writes cs @ writes ds"
  by (induction cs rule: writes.induct) auto

definition level_text :: "int \<Rightarrow> u8 list" where
  "level_text v = bytes_of (int_dec v @ [LF])"

text \<open>The surroundings: the two files hold the range of the panel, and what can be opened can be read.\<close>

definition panel_files :: "int \<Rightarrow> int \<Rightarrow> os_env \<Rightarrow> bool" where
  "panel_files dm mx env \<longleftrightarrow> range_ok dm mx
     \<and> os_file env LCD_FILE_MAX = bytes_of (nat_dec (nat mx) @ [LF])
     \<and> os_file env LCD_FILE_MIN = bytes_of (nat_dec (nat dm) @ [LF])
     \<and> (\<forall>h p m. -1 \<le> os_open env h p m) \<and> (\<forall>h fd. \<not> os_read_err env h fd)"

definition lights_inv :: "os_env \<Rightarrow> lights_env \<Rightarrow> int \<Rightarrow> int \<Rightarrow> lights_st \<Rightarrow> bool" where
  "lights_inv env e dm mx s \<longleftrightarrow> os s = env \<and> lenv s = e \<and> coeffs_ok s
     \<and> (coeff_inited s \<longrightarrow> \<not> first_open s)
     \<and> (\<not> first_open s \<longrightarrow> dim_brightness s = dm \<and> max_brightness s = mx)
     \<and> (\<forall>bs \<in> set (writes (calls s)). \<exists>v. bs = level_text v \<and> (v = 0 \<or> dm \<le> v \<and> v \<le> mx))"

lemma coeffs_ok_frame [simp]: "coeffs_ok (s\<lparr>calls := cs, fds := f\<rparr>) = coeffs_ok s" "coeffs_ok (s\<lparr>calls := cs\<rparr>) = coeffs_ok s"
  by (simp_all add: coeffs_ok_def init_coeffs_def point_m_def point_n_def)

lemma coeffs_ok_init [simp]: "coeffs_ok s \<Longrightarrow> coeffs_ok (init_coeffs s)"
  by (auto simp: coeffs_ok_def init_coeffs_def point_m_def point_n_def)

lemma readFromFile_panel:
  assumes "panel_files dm mx (os s)" "length buf = 10" "(path, n) \<in> {(LCD_FILE_MAX, mx), (LCD_FILE_MIN, dm)}"
  obtains cs where "readFromFile path buf s = (-1, buf, s\<lparr>calls := calls s @ cs\<rparr>)" "writes cs = []"
          "os_open (os s) (calls s) path O_RDONLY = -1"
  | k buf' cs f where "readFromFile path buf s = (int k, buf', s\<lparr>calls := calls s @ cs, fds := f\<rparr>)" "writes cs = []"
      "length buf' = 10" "atoi (cstring_of buf') = n" "0 \<le> os_open (os s) (calls s) path O_RDONLY"
proof -
  have r: "0 \<le> n" "n < 10 ^ 9" "os_file (os s) path = bytes_of (nat_dec (nat n) @ [LF])"
      "-1 \<le> os_open (os s) (calls s) path O_RDONLY" "\<And>h fd. \<not> os_read_err (os s) h fd"
    using assms(1,3) by (auto simp: panel_files_def range_ok_def)
  show ?thesis
  proof (cases "os_open (os s) (calls s) path O_RDONLY = -1")
    case True
    then show ?thesis by (intro that(1)) (auto simp: readFromFile_def sys_open_def Let_def)
  next
    case False
    then have "0 \<le> os_open (os s) (calls s) path O_RDONLY" using r(4) by simp
    with readFromFile_number [OF r(3) _ assms(2) this r(5)] r(1,2) that(2) show ?thesis by fastforce
  qed
qed

lemma open_range_cases:
  assumes "panel_files dm mx (os s)" "first_open s"
  obtains cs f m where "open_range s = (-1, s\<lparr>calls := calls s @ cs, fds := f, max_brightness := m\<rparr>)" "writes cs = []"
      "\<exists>h p. os_open (os s) h p O_RDONLY = -1"
  | cs f where "open_range s = (0, s\<lparr>calls := calls s @ cs, fds := f, max_brightness := mx, dim_brightness := dm,
      first_open := False\<rparr>)" "writes cs = []"
proof -
  let ?buf = "map (stack_buf (lenv s) (calls s)) [0..<10]"
  have len: "length ?buf = 10" by simp
  show ?thesis
  proof (rule readFromFile_panel [OF assms(1) len, of LCD_FILE_MAX mx])
    fix cs assume "readFromFile LCD_FILE_MAX ?buf s = (-1, ?buf, s\<lparr>calls := calls s @ cs\<rparr>)" "writes cs = []"
      and o: "os_open (os s) (calls s) LCD_FILE_MAX O_RDONLY = -1"
    then show ?thesis using that(1) [where cs = cs and f = "fds s" and m = "max_brightness s"] assms(2) by (auto simp: open_range_def)
  next
    fix k buf cs f
    assume 1: "readFromFile LCD_FILE_MAX ?buf s = (int k, buf, s\<lparr>calls := calls s @ cs, fds := f\<rparr>)" "writes cs = []"
      "length buf = 10" "atoi (cstring_of buf) = mx"
    let ?s = "s\<lparr>calls := calls s @ cs, fds := f, max_brightness := mx\<rparr>"
    have p: "panel_files dm mx (os ?s)" using assms(1) by simp
    show ?thesis
    proof (rule readFromFile_panel [OF p 1(3), of LCD_FILE_MIN dm])
      fix ds assume 2: "readFromFile LCD_FILE_MIN buf ?s = (-1, buf, ?s\<lparr>calls := calls ?s @ ds\<rparr>)" "writes ds = []"
        and o: "os_open (os ?s) (calls ?s) LCD_FILE_MIN O_RDONLY = -1"
      then show ?thesis using 1 that(1) [where cs = "cs @ ds" and f = f and m = mx] assms(2) by (auto simp: open_range_def)
    next
      fix l buf' ds g
      assume 2: "readFromFile LCD_FILE_MIN buf ?s = (int l, buf', ?s\<lparr>calls := calls ?s @ ds, fds := g\<rparr>)" "writes ds = []"
        "length buf' = 10" "atoi (cstring_of buf') = dm"
      then show ?thesis using 1 that(2) [where cs = "cs @ ds" and f = g] assms(2) by (auto simp: open_range_def)
    qed simp
  qed simp
qed

text \<open>The calls that writing a number makes.\<close>

definition write_calls :: "string \<Rightarrow> int \<Rightarrow> lights_st \<Rightarrow> history" where
  "write_calls path v s =
     (let h = calls s; fd = os_open (os s) h path O_RDWR; op = Sys_open path O_RDWR fd in
      if fd < 0 then [op]
      else [op, Sys_write fd (level_text v) (os_write (os s) (h @ [op]) fd (level_text v)), Sys_close fd])"

lemma write_int_calls: "\<exists>r f. write_int path v s = (r, s\<lparr>calls := calls s @ write_calls path v s, fds := f\<rparr>)"
proof -
  let ?f = "fds (snd (sys_open path O_RDWR s))"
  have "snd (write_int path v s) = s\<lparr>calls := calls s @ write_calls path v s, fds := ?f\<rparr>"
    by (simp add: write_int_def write_calls_def sys_open_def sys_write_def sys_close_def level_text_def Let_def)
  then show ?thesis by (metis prod.collapse)
qed

lemma writes_write_calls: "set (writes (write_calls path v s)) \<subseteq> {level_text v}"
  by (simp add: write_calls_def Let_def)

section \<open>Colours\<close>

lemma byte_range: "0 \<le> uint (w AND 0xff :: u32)" "uint (w AND 0xff :: u32) \<le> 255"
proof -
  have "uint (w AND 0xff) = uint w AND 255" by (simp add: uint_and)
  then show "uint (w AND 0xff) \<le> 255" by (simp add: AND_upper2)
qed simp

lemma rgb_range: "0 \<le> rgb_to_brightness color" "rgb_to_brightness color \<le> 255"
proof -
  let ?c = "color AND 0x00ffffff"
  note b = byte_range [of "drop_bit 16 ?c"] byte_range [of "drop_bit 8 ?c"] byte_range [of ?c]
  have "77 * uint (drop_bit 16 ?c AND 0xff) + 150 * uint (drop_bit 8 ?c AND 0xff) + 29 * uint (?c AND 0xff) < 256 * 256"
    using b by linarith
  then show "rgb_to_brightness color \<le> 255" unfolding rgb_to_brightness_def Let_def by simp
  show "0 \<le> rgb_to_brightness color" 
    using b unfolding rgb_to_brightness_def Let_def by (intro pos_imp_zdiv_nonneg_iff [THEN iffD2]) simp_all
qed

text \<open>The alpha channel does not count, and a grey has its own level.\<close>

lemma rgb_channels:
  "rgb_to_brightness color =
     (77 * uint (drop_bit 16 color AND 0xff) + 150 * uint (drop_bit 8 color AND 0xff) + 29 * uint (color AND 0xff)) div 256"
proof -
  have m: "(0x00ffffff :: u32) = mask 24" "(0xff :: u32) = mask 8" by (simp_all add: mask_eq_exp_minus_1)
  have "drop_bit n (color AND mask 24) AND mask 8 = drop_bit n color AND mask 8" if "n \<le> 16" for n
    by (rule bit_word_eqI) (use that in \<open>auto simp: bit_simps\<close>)
  from this [of 16] this [of 8] this [of 0] show ?thesis
    unfolding rgb_to_brightness_def Let_def m by simp
qed

lemma rgb_grey:
  assumes "drop_bit 16 color AND 0xff = g" "drop_bit 8 color AND 0xff = g" "color AND 0xff = g"
  shows "rgb_to_brightness color = uint g"
  unfolding rgb_channels assms by simp

section \<open>Setting the light\<close>

definition level_of :: "int \<Rightarrow> int \<Rightarrow> int \<Rightarrow> int" where
  "level_of dm mx b = (if b = 0 then 0 else \<lfloor>line_value (of_int dm) (of_int mx) b\<rfloor>)"

lemma mapping_level:
  assumes "full_255 s" "0 \<le> b" "b \<le> 255"
  shows "getBrightnessByLineMapping b s = Some (level_of (dim_brightness s) (max_brightness s) b, init_coeffs s)"
  using assms mapping_255(1) [of s b] by (auto simp: level_of_def mapping_0)

lemma level_of_range:
  assumes "range_ok dm mx" "0 < b" "b \<le> 255"
  shows "dm \<le> level_of dm mx b" "level_of dm mx b \<le> mx"
  using line_value_ge [OF assms(1), of b] line_value_lt [OF assms(1), of b] assms(2,3)
  by (auto simp: level_of_def le_floor_iff floor_le_iff)

lemma set_light_255:
  fixes color :: u32
  assumes "full_255 s"
  defines "v \<equiv> level_of (dim_brightness s) (max_brightness s) (rgb_to_brightness color)"
  shows "\<exists>r f. set_light_backlight color s = Some (r, (init_coeffs s)\<lparr>
      calls := calls s @ write_calls LCD_FILE v (init_coeffs s), fds := f\<rparr>)"
  using mapping_level [OF assms(1) rgb_range, of color] write_int_calls [of LCD_FILE v "init_coeffs s"]
  by (auto simp: set_light_backlight_def v_def)

lemma step_open_inv:
  assumes "panel_files dm mx env" "lights_inv env e dm mx s" "open_lights name s = Some (r, d, t)"
  shows "lights_inv env e dm mx t"
proof (cases "name = LIGHT_ID_BACKLIGHT")
  case True
  let ?n = "light_device_size (lenv s)"
  let ?s = "s\<lparr>calls := calls s @ [Malloc ?n (os_malloc (os s) (calls s) ?n)]\<rparr>"
  have inv: "lights_inv env e dm mx ?s" using assms(2) by (simp add: lights_inv_def)
  have t: "open_range ?s = (r, t)" using assms(3) True
    by (cases "os_malloc (os s) (calls s) ?n")
      (auto simp: open_lights_def sys_malloc_def Let_def split: prod.splits)
  show ?thesis
  proof (cases "first_open s")
    case fo: True
    have p: "panel_files dm mx (os ?s)" "first_open ?s" using assms(1,2) fo by (simp_all add: lights_inv_def)
    show ?thesis
      by (rule open_range_cases [OF p]) (use t inv fo in \<open>auto simp: lights_inv_def coeffs_ok_def\<close>)
  next
    case False
    then show ?thesis using t inv by (simp add: open_range_def)
  qed
next
  case False
  then show ?thesis using assms(2,3) by (simp add: open_lights_def)
qed

lemma step_set_inv:
  assumes "range_ok dm mx" "BRIGHTNESS_ON e = 255" "lights_inv env e dm mx s" "\<not> first_open s"
  shows "\<exists>r t. set_light_backlight color s = Some (r, t) \<and> lights_inv env e dm mx t"
proof -
  let ?b = "rgb_to_brightness color" and ?v = "level_of dm mx (rgb_to_brightness color)"
  have dm: "dim_brightness s = dm" "max_brightness s = mx" "full_255 s"
    using assms by (simp_all add: lights_inv_def full_255_def)
  obtain r f where set: "set_light_backlight color s = Some (r, (init_coeffs s)\<lparr>
      calls := calls s @ write_calls LCD_FILE ?v (init_coeffs s), fds := f\<rparr>)"
    using set_light_255 [OF dm(3), of color] unfolding dm(1,2) by blast
  have "?v = 0 \<or> dm \<le> ?v \<and> ?v \<le> mx"
    using level_of_range [OF assms(1), of ?b] rgb_range [of color] by (auto simp: level_of_def)
  then show ?thesis using set assms(3,4) writes_write_calls [of LCD_FILE ?v "init_coeffs s"]
    by (fastforce simp: lights_inv_def)
qed

lemma lights_run_inv:
  assumes "runs lights_step s cs t" "panel_files dm mx env" "BRIGHTNESS_ON e = 255" "lights_inv env e dm mx s"
  shows "lights_inv env e dm mx t"
  using assms
proof (induction rule: runs.induct)
  case (runs_cons s c t cs u)
  have "lights_inv env e dm mx t" using runs_cons.hyps(1)
  proof cases
    case (step_set color r)
    have "range_ok dm mx" using runs_cons.prems(1) by (simp add: panel_files_def)
    from step_set_inv [OF this runs_cons.prems(2,3) step_set(2), of color] step_set show ?thesis by auto
  next
    case (step_close a r)
    then show ?thesis using runs_cons.prems(3) by (auto simp: close_lights_def sys_free_def lights_inv_def)
  qed (use step_open_inv runs_cons.prems in blast)
  then show ?case using runs_cons by blast
qed

lemma lights_boot_inv: "lights_inv env e dm mx (lights_boot env e)"
  by (simp add: lights_inv_def lights_boot_def coeffs_ok_def)

text \<open>Surroundings in which no call fails.\<close>

definition all_calls_work :: "os_env \<Rightarrow> bool" where
  "all_calls_work env \<longleftrightarrow> (\<forall>h p m. 0 \<le> os_open env h p m) \<and> (\<forall>h n. os_malloc env h n \<noteq> None)
     \<and> (\<forall>h fd bs. os_write env h fd bs \<noteq> -1)"

lemma open_backlight:
  assumes "panel_files dm mx env" "all_calls_work env"
  shows "\<exists>a t. open_lights LIGHT_ID_BACKLIGHT (lights_boot env e) = Some (0, Some a, t)
    \<and> writes (calls t) = [] \<and> lights_inv env e dm mx t \<and> \<not> first_open t"
proof -
  let ?n = "light_device_size e"
  have "os_malloc env [] ?n \<noteq> None" using assms(2) unfolding all_calls_work_def by blast
  then obtain a where a: "os_malloc env [] ?n = Some a" by blast
  let ?s = "lights_boot env e\<lparr>calls := [Malloc ?n (Some a)]\<rparr>"
  have "panel_files dm mx (os ?s)" "first_open ?s" using assms(1) by (simp_all add: lights_boot_def)
  then obtain cs f where r: "open_range ?s = (0, ?s\<lparr>calls := calls ?s @ cs, fds := f, max_brightness := mx,
      dim_brightness := dm, first_open := False\<rparr>)" "writes cs = []"
  proof (rule open_range_cases)
    assume "\<exists>h p. os_open (os ?s) h p O_RDONLY = -1"
    then obtain h q where "os_open env h q O_RDONLY = -1" by (auto simp: lights_boot_def)
    then show ?thesis using assms(2) unfolding all_calls_work_def by (metis not_one_le_zero neg_0_le_iff_le)
  qed
  then show ?thesis using a
    by (simp add: open_lights_def sys_malloc_def lights_boot_def Let_def lights_inv_def coeffs_ok_def)
qed

section \<open>The types of the state\<close>

text \<open>The numbers of the state have at most nine digits, so that the difference of the range is an \<open>int\<close>, and
  there are two coefficients, whatever the files contain.\<close>

definition lights_typed :: "lights_st \<Rightarrow> bool" where
  "lights_typed s \<longleftrightarrow> \<bar>max_brightness s\<bar> < 10 ^ 9 \<and> \<bar>dim_brightness s\<bar> < 10 ^ 9 \<and> length (coeffs s) = 2"

lemma cstring_short: "n < length b \<Longrightarrow> length (cstring_of (b[n := 0])) \<le> n"
proof -
  assume "n < length b"
  then have "b[n := 0] = take n b @ 0 # drop (Suc n) b" by (simp add: upd_conv_take_nth_drop)
  then have "cstring_of (b[n := 0]) = map (\<lambda>b. char_of (unat b)) (takeWhile (\<lambda>b. b \<noteq> 0) (take n b))"
    by (simp add: cstring_of_def takeWhile_tail)
  then show "length (cstring_of (b[n := 0])) \<le> n"
    using length_takeWhile_le [of "\<lambda>b. b \<noteq> 0" "take n b"] by simp
qed

lemma sys_read_frame:
  assumes "sys_read fd n s = (r, t)"
  shows "\<exists>cs f. t = s\<lparr>calls := cs, fds := f\<rparr>" "length (case r of None \<Rightarrow> [] | Some bs \<Rightarrow> bs) \<le> n"
proof -
  have "t = s\<lparr>calls := calls t, fds := fds t\<rparr>" using assms by (auto simp: sys_read_def Let_def split: if_splits)
  then show "\<exists>cs f. t = s\<lparr>calls := cs, fds := f\<rparr>" by blast
  show "length (case r of None \<Rightarrow> [] | Some bs \<Rightarrow> bs) \<le> n"
    using assms by (auto simp: sys_read_def Let_def split: if_splits)
qed

lemma readFromFile_frame: "\<exists>cs f. snd (snd (readFromFile path buf s)) = s\<lparr>calls := cs, fds := f\<rparr>"
proof -
  let ?t = "snd (snd (readFromFile path buf s))"
  have "?t = s\<lparr>calls := calls ?t, fds := fds ?t\<rparr>"
    by (simp add: readFromFile_def sys_open_def sys_read_def sys_close_def Let_def split: if_splits)
  then show ?thesis by blast
qed

lemma readFromFile_buf:
  assumes "readFromFile path buf s = (r, buf', t)" "length buf = 10"
  shows "r = -1 \<and> buf' = buf \<or> (\<exists>b n. length b = 10 \<and> n \<le> 9 \<and> buf' = b[n := 0])"
proof -
  obtain fd s1 where o: "sys_open path O_RDONLY s = (fd, s1)" by force
  obtain q s2 where rd: "sys_read fd 10 s1 = (q, s2)" by force
  define bs where "bs = (case q of None \<Rightarrow> [] | Some bs \<Rightarrow> bs)"
  define b where "b = put_bytes bs buf"
  have len: "length b = 10" using sys_read_frame(2) [OF rd] assms(2) by (simp add: b_def bs_def put_bytes_def)
  define c where "c = (case q of None \<Rightarrow> 2 ^ 32 - 1 | Some bs \<Rightarrow> length bs)"
  define n where "n = (if 0 < c then strip_newlines b (if c < 10 then c else 9) else 0)"
  have "strip_newlines b (if c < 10 then c else 9) \<le> 9"
    using strip_newlines_le [of b "if c < 10 then c else 9"] by (auto split: if_splits)
  then have n: "n \<le> 9" by (simp add: n_def)
  have "buf' = b[n := 0]" if "fd \<noteq> -1"
    using assms that unfolding readFromFile_def Let_def assms(2) o
    by (auto simp: rd Let_def b_def bs_def c_def n_def split: option.splits if_splits)
  moreover have "r = -1 \<and> buf' = buf" if "fd = -1" using assms(1) that o by (simp add: readFromFile_def Let_def)
  ultimately show ?thesis using len n by blast
qed

lemma readFromFile_typed:
  assumes "readFromFile path buf s = (r, buf', t)" "length buf = 10"
  shows "length buf' = 10" "r \<noteq> -1 \<Longrightarrow> \<bar>atoi (cstring_of buf')\<bar> < 10 ^ 9"
    "\<exists>cs f. t = s\<lparr>calls := cs, fds := f\<rparr>"
proof -
  show "\<exists>cs f. t = s\<lparr>calls := cs, fds := f\<rparr>" using readFromFile_frame [of path buf s] assms(1) by simp
  from readFromFile_buf [OF assms] assms(2) show "length buf' = 10" by auto
  assume "r \<noteq> -1"
  with readFromFile_buf [OF assms] obtain b n where b: "length b = 10" "n \<le> 9" "buf' = b[n := 0]" by blast
  then have "length (cstring_of buf') \<le> 9" using cstring_short [of n b] by simp
  then show "\<bar>atoi (cstring_of buf')\<bar> < 10 ^ 9" by (rule atoi_bound)
qed

lemma open_range_typed:
  assumes "lights_typed s" "open_range s = (r, t)"
  shows "lights_typed t"
proof (cases "first_open s")
  case True
  let ?buf = "map (stack_buf (lenv s) (calls s)) [0..<10]"
  obtain q b u where 1: "readFromFile LCD_FILE_MAX ?buf s = (q, b, u)" by (metis prod.exhaust)
  note t1 = readFromFile_typed [OF 1]
  show ?thesis
  proof (cases "q = -1")
    case True
    then show ?thesis using 1 t1 assms \<open>first_open s\<close> by (auto simp: open_range_def lights_typed_def)
  next
    case False
    let ?u = "u\<lparr>max_brightness := atoi (cstring_of b)\<rparr>"
    have u: "lights_typed ?u" using t1(2,3) False assms(1) by (auto simp: lights_typed_def)
    obtain q' b' v where 2: "readFromFile LCD_FILE_MIN b ?u = (q', b', v)" by (metis prod.exhaust)
    have "length b = 10" using t1(1) by simp
    from readFromFile_typed [OF 2 this] u 1 2 False assms(2) \<open>first_open s\<close> show ?thesis
      by (auto simp: open_range_def lights_typed_def split: if_splits)
  qed
next
  case False
  then show ?thesis using assms by (simp add: open_range_def)
qed

lemma lights_step_typed: "lights_step s c t \<Longrightarrow> lights_typed s \<Longrightarrow> lights_typed t"
proof (induction rule: lights_step.induct)
  case (step_open name s r d t)
  show ?case
  proof (cases "name = LIGHT_ID_BACKLIGHT")
    case True
    let ?s = "snd (sys_malloc (light_device_size (lenv s)) s)"
    have "lights_typed ?s" using step_open.prems by (simp add: lights_typed_def sys_malloc_def Let_def)
    moreover have "\<exists>r. open_range ?s = (r, t)" using step_open.hyps True
      by (auto simp: open_lights_def split: prod.splits option.splits)
    ultimately show ?thesis using open_range_typed by blast
  next
    case False
    then show ?thesis using step_open by (simp add: open_lights_def)
  qed
next
  case (step_set s color r t)
  then have "\<exists>b q. write_int LCD_FILE b (init_coeffs s) = (q, t)"
    by (auto simp: set_light_backlight_def getBrightnessByLineMapping_def Let_def split: option.splits if_splits)
  then obtain b f where "t = (init_coeffs s)\<lparr>calls := calls (init_coeffs s) @ write_calls LCD_FILE b (init_coeffs s), fds := f\<rparr>"
    using write_int_calls by (metis Pair_inject)
  moreover have "length (coeffs (init_coeffs s)) = 2"
    using step_set.prems by (simp add: init_coeffs_def lights_typed_def)
  ultimately show ?case using step_set.prems by (simp add: lights_typed_def)
next
  case (step_close a s r t)
  then show ?case by (auto simp: close_lights_def sys_free_def lights_typed_def)
qed

section \<open>Concrete surroundings\<close>

definition quiet_lenv :: lights_env where
  "quiet_lenv = \<lparr>BRIGHTNESS_ON = 255, errno_at = (\<lambda>h. 0), stack_buf = (\<lambda>h i. 65), light_device_size = 64\<rparr>"

text \<open>The files of a panel with levels from \<open>dm\<close> to \<open>mx\<close>.\<close>

definition panel_os :: "int \<Rightarrow> int \<Rightarrow> os_env" where
  "panel_os dm mx = quiet_os [LCD_FILE \<mapsto> [], LCD_FILE_MAX \<mapsto> bytes_of (nat_dec (nat mx) @ [LF]),
     LCD_FILE_MIN \<mapsto> bytes_of (nat_dec (nat dm) @ [LF])]"

lemma LCD_FILES_differ: "LCD_FILE \<noteq> LCD_FILE_MAX" "LCD_FILE \<noteq> LCD_FILE_MIN" "LCD_FILE_MAX \<noteq> LCD_FILE_MIN"
  by (simp_all add: LCD_FILE_def LCD_FILE_MAX_def LCD_FILE_MIN_def)

lemma panel_os_files: "range_ok dm mx \<Longrightarrow> panel_files dm mx (panel_os dm mx)"
  using LCD_FILES_differ by (auto simp: panel_files_def panel_os_def quiet_os_def)

definition opened :: "int \<Rightarrow> int \<Rightarrow> lights_st" where
  "opened dm mx = (lights_boot (panel_os dm mx) quiet_lenv)\<lparr>dim_brightness := dm, max_brightness := mx, first_open := False\<rparr>"

lemma full_255_opened: "range_ok dm mx \<Longrightarrow> full_255 (opened dm mx)"
  by (simp add: full_255_def opened_def coeffs_ok_def lights_boot_def quiet_lenv_def)

lemma range_1000: "range_ok 10 1000"
  by (simp add: range_ok_def)

section \<open>Properties\<close>

text \<open>(C11) The mapping of a brightness follows the two lines of the specification to within one level
  (the fraction is cut off) and 1/65536, and stays in the range of the panel.\<close>

theorem backlight_mapping:
  assumes "full_255 s" "0 < b" "b \<le> 255"
  shows "\<exists>r. getBrightnessByLineMapping b s = Some (r, init_coeffs s)
    \<and> dim_brightness s \<le> r \<and> r \<le> max_brightness s
    \<and> line_spec (of_int (dim_brightness s)) (of_int (max_brightness s)) b - 1 - 1 / 65536 < of_int r
    \<and> of_int r \<le> line_spec (of_int (dim_brightness s)) (of_int (max_brightness s)) b + 1 / 65536"
proof -
  let ?v = "line_value (of_int (dim_brightness s)) (of_int (max_brightness s)) b"
  let ?l = "line_spec (of_int (dim_brightness s)) (of_int (max_brightness s)) b"
  have "range_ok (dim_brightness s) (max_brightness s)" using assms(1) by (simp add: full_255_def)
  from line_value_near [OF rat_range(1-3) [OF this], of b] assms(2,3)
  have "\<bar>?v - ?l\<bar> \<le> 1 / 65536" by simp
  moreover have "of_int \<lfloor>?v\<rfloor> \<le> ?v" "?v < of_int \<lfloor>?v\<rfloor> + 1" by linarith+
  ultimately have "?l - 1 - 1 / 65536 < of_int \<lfloor>?v\<rfloor>" "of_int \<lfloor>?v\<rfloor> \<le> ?l + 1 / 65536" by linarith+
  with mapping_255 [OF assms] show ?thesis by blast
qed

theorem backlight_monotone:
  assumes "full_255 s" "0 \<le> b" "b \<le> b'" "b' \<le> 255"
  shows "\<exists>r r'. getBrightnessByLineMapping b s = Some (r, init_coeffs s)
    \<and> getBrightnessByLineMapping b' s = Some (r', init_coeffs s) \<and> r \<le> r'"
proof -
  let ?l = "level_of (dim_brightness s) (max_brightness s)"
  have r: "range_ok (dim_brightness s) (max_brightness s)" using assms(1) by (simp add: full_255_def)
  have "?l b \<le> ?l b'"
  proof (cases "b = 0")
    case True
    have "0 \<le> dim_brightness s" using r by (simp add: range_ok_def)
    then show ?thesis using True level_of_range(1) [OF r, of b'] assms by (cases "b' = 0") (auto simp: level_of_def [of _ _ 0])
  next
    case False
    then show ?thesis using line_value_mono [OF r assms(3)] assms(2,3) by (simp add: level_of_def floor_mono)
  qed
  then show ?thesis using mapping_level [OF assms(1), of b] mapping_level [OF assms(1), of b'] assms(2-4) by auto
qed

text \<open>(C10) Whatever the framework calls, in which order and with which colours, every number written to
  a file is \<open>0\<close> or a level between the minimum and the maximum the panel reports, and after a successful
  open setting the light never leaves the coefficients or the range of \<open>int\<close>.\<close>

theorem backlight_values_safe:
  assumes "panel_files dm mx env" and "BRIGHTNESS_ON e = 255" and "runs lights_step (lights_boot env e) cs t"
  shows "(\<forall>bs \<in> set (writes (calls t)). \<exists>v. bs = level_text v \<and> (v = 0 \<or> dm \<le> v \<and> v \<le> mx))
    \<and> (\<not> first_open t \<longrightarrow> (\<forall>color. set_light_backlight color t \<noteq> None))"
proof -
  have inv: "lights_inv env e dm mx t" using lights_run_inv [OF assms(3,1,2) lights_boot_inv] .
  have "range_ok dm mx" using assms(1) by (simp add: panel_files_def)
  with step_set_inv [OF _ assms(2) inv] inv show ?thesis by (fastforce simp: lights_inv_def)
qed

interpretation lights_types: kept_invariant lights_step lights_typed
  by unfold_locales (rule lights_step_typed)

text \<open>(C13) Whatever the files contain and whatever fails, over every sequence of calls the numbers of the range
  have at most nine digits, their difference is an \<open>int\<close>, and there are two coefficients.\<close>

theorem lights_numbers_typed:
  assumes "runs lights_step (lights_boot env e) cs t"
  shows "\<bar>max_brightness t\<bar> < 10 ^ 9 \<and> \<bar>dim_brightness t\<bar> < 10 ^ 9
    \<and> - (2 ^ 31) \<le> max_brightness t - dim_brightness t \<and> max_brightness t - dim_brightness t < 2 ^ 31
    \<and> length (coeffs t) = MAPPING_POINT_NUM - 1"
proof -
  have "lights_typed t"
    by (rule lights_types.runs_keep [OF assms]) (simp add: lights_typed_def lights_boot_def)
  then show ?thesis by (auto simp: lights_typed_def)
qed

text \<open>(C12) On a board whose calls work, opening the backlight and setting a colour writes one number to
  the brightness file: nothing but \<open>0\<close> for black, else the level of the colour's brightness.\<close>

theorem backlight_set:
  assumes "panel_files dm mx env" "BRIGHTNESS_ON e = 255" "all_calls_work env"
  shows "\<exists>a t u fd n. open_lights LIGHT_ID_BACKLIGHT (lights_boot env e) = Some (0, Some a, t)
    \<and> set_light_backlight color t = Some (0, u)
    \<and> calls u = calls t @ [Sys_open LCD_FILE O_RDWR fd,
        Sys_write fd (level_text (level_of dm mx (rgb_to_brightness color))) n, Sys_close fd]
    \<and> writes (calls t) = []"
proof -
  obtain a t where t: "open_lights LIGHT_ID_BACKLIGHT (lights_boot env e) = Some (0, Some a, t)" "writes (calls t) = []"
      "lights_inv env e dm mx t" "\<not> first_open t"
    using open_backlight [OF assms(1,3)] by blast
  have full: "full_255 t" and dm: "dim_brightness t = dm" "max_brightness t = mx" "os t = env"
    using t(3,4) assms(1,2) by (simp_all add: lights_inv_def full_255_def panel_files_def)
  let ?v = "level_of dm mx (rgb_to_brightness color)" and ?t = "init_coeffs t"
  let ?fd = "os_open env (calls t) LCD_FILE O_RDWR"
  have "set_light_backlight color t = Some (write_int LCD_FILE ?v ?t)"
    using mapping_level [OF full rgb_range, of color] by (simp add: set_light_backlight_def dm)
  moreover have "fst (write_int LCD_FILE ?v ?t) = 0"
    using assms(3) by (simp add: all_calls_work_def write_int_def sys_open_def sys_write_def Let_def dm)
  moreover have "calls (snd (write_int LCD_FILE ?v ?t)) = calls t @ write_calls LCD_FILE ?v ?t"
    using write_int_calls [of LCD_FILE ?v ?t] by auto
  moreover have "\<exists>n. write_calls LCD_FILE ?v ?t = [Sys_open LCD_FILE O_RDWR ?fd, Sys_write ?fd (level_text ?v) n, Sys_close ?fd]"
    using assms(3) by (simp add: all_calls_work_def write_calls_def Let_def dm not_less)
  ultimately have "\<exists>u n. set_light_backlight color t = Some (0, u) \<and> calls u = calls t @
      [Sys_open LCD_FILE O_RDWR ?fd, Sys_write ?fd (level_text ?v) n, Sys_close ?fd]"
    by (metis prod.collapse)
  with t(1,2) show ?thesis by blast
qed

text \<open>Full brightness does not always give the panel's maximum: the coefficients are rounded, the sum
  falls short of the maximum, and the conversion to \<open>int\<close> cuts the fraction off.\<close>

theorem full_brightness_short:
  "getBrightnessByLineMapping 255 (opened 0 365) = Some (364, init_coeffs (opened 0 365))"
proof -
  note dyadic = dbl_dyadic [of 1837105225 24] dbl_dyadic [of 4286578615 24] dbl_dyadic [of 468461832375 24]
    dbl_dyadic [of "-312307857225" 24] dbl_dyadic [of "-1224736695" 23] dbl_dyadic [of 6421147906211839 44]
  have d: "dbl (1837105225 / 16777216) = 1837105225 / 16777216" "dbl (4286578615 / 16777216) = 4286578615 / 16777216"
    "dbl (468461832375 / 16777216) = 468461832375 / 16777216" "dbl (- (312307857225 / 16777216)) = - (312307857225 / 16777216)"
    "dbl (- (1224736695 / 8388608)) = - (1224736695 / 8388608)"
    "dbl (6421147906211839 / 17592186044416) = 6421147906211839 / 17592186044416"
    using dyadic by simp_all
  have c: "corner 0 365 = 1837105225 / 16777216" by (simp add: corner_def d)
  have s: "slope (365 - corner 0 365) = 4512430138028915 / 2251799813685248"
    using dbl_eqI [of "4286578615 / 16777216 / (255 / 2)" 51 4512430138028915] by (simp add: slope_def c d)
  have p: "dbl (4512430138028915 / 2251799813685248 * 255) = 8989606915604479 / 17592186044416"
    using dbl_eqI [of "4512430138028915 / 2251799813685248 * 255" 44 8989606915604479] by simp
  have off: "offset (corner 0 365) 365 = - (1224736695 / 8388608)" by (simp add: offset_def c d)
  have "line_value 0 365 255 = dbl (dbl (slope (365 - corner 0 365) * 255) + offset (corner 0 365) 365)"
    by (simp add: line_value_def Let_def)
  also have "\<dots> = dbl (8989606915604479 / 17592186044416 + - (1224736695 / 8388608))" by (simp only: s p off)
  also have "\<dots> = 6421147906211839 / 17592186044416" by (simp add: d)
  finally have line: "line_value 0 365 255 = 6421147906211839 / 17592186044416" .
  have "full_255 (opened 0 365)" by (rule full_255_opened) (simp add: range_ok_def)
  from mapping_255(1) [OF this, of 255]
  have "getBrightnessByLineMapping 255 (opened 0 365)
      = Some (\<lfloor>line_value 0 365 255\<rfloor>, init_coeffs (opened 0 365))" by (simp add: opened_def)
  moreover have "\<lfloor>line_value 0 365 255\<rfloor> = 364" unfolding line by (simp add: floor_eq_iff)
  ultimately show ?thesis by simp
qed

text \<open>When the files of the range open but cannot be read, \<open>open_lights\<close> succeeds all the same, and takes
  nine bytes of its stack for both numbers.\<close>

theorem lights_read_error:
  assumes "first_open s" and "\<And>h p m. 0 \<le> os_open (os s) h p m" and "\<And>h fd. os_read_err (os s) h fd"
    and "os_malloc (os s) (calls s) (light_device_size (lenv s)) = Some a"
    and "\<And>h. stack_buf (lenv s) h 8 \<noteq> 10"
  shows "\<exists>t h. open_lights LIGHT_ID_BACKLIGHT s = Some (0, Some a, t)
    \<and> max_brightness t = atoi (cstring_of (map (stack_buf (lenv s) h) [0..<9] @ [0]))
    \<and> dim_brightness t = max_brightness t \<and> \<not> first_open t"
proof -
  let ?s = "snd (sys_malloc (light_device_size (lenv s)) s)"
  let ?b = "map (stack_buf (lenv s) (calls ?s)) [0..<10]" and ?c = "map (stack_buf (lenv s) (calls ?s)) [0..<9] @ [0]"
  have env: "os ?s = os s" "lenv ?s = lenv s" "first_open ?s" using assms(1) by (simp_all add: sys_malloc_def Let_def)
  have opens: "os_open (os s) h p m \<noteq> -1" for h p m using assms(2) [of h p m] by simp
  have "strip_newlines ?b 9 = 9" "strip_newlines ?c 9 = 9"
    using assms(5) by (simp_all add: eval_nat_numeral nth_append)
  moreover have "?b[9 := 0] = ?c" "?c[9 := 0] = ?c" by (simp_all add: eval_nat_numeral)
  ultimately have rd: "\<exists>u. readFromFile path b u' = (9, ?c, u) \<and> os u = os u' \<and> lenv u = lenv u'
      \<and> max_brightness u = max_brightness u'"
    if "b \<in> {?b, ?c}" "os u' = os s" for b path u'
    using that assms(3) opens by (auto simp: readFromFile_def sys_open_def sys_read_def sys_close_def put_bytes_def Let_def)
  obtain u where u: "readFromFile LCD_FILE_MAX ?b ?s = (9, ?c, u)" "os u = os s" "lenv u = lenv s"
    using rd [of ?b ?s LCD_FILE_MAX] env by auto
  obtain v where v: "readFromFile LCD_FILE_MIN ?c (u\<lparr>max_brightness := atoi (cstring_of ?c)\<rparr>) = (9, ?c, v)"
      "max_brightness v = atoi (cstring_of ?c)"
    using rd [of ?c "u\<lparr>max_brightness := atoi (cstring_of ?c)\<rparr>" LCD_FILE_MIN] u(2) by auto
  have "open_range ?s = (0, v\<lparr>dim_brightness := atoi (cstring_of ?c), first_open := False\<rparr>)"
    using u v env by (simp add: open_range_def)
  moreover have "fst (sys_malloc (light_device_size (lenv s)) s) = Some a" using assms(4) by (simp add: sys_malloc_def Let_def)
  ultimately show ?thesis using v(2) by (auto simp: open_lights_def split_beta)
qed

text \<open>When a file of the range cannot be opened, the device that was allocated, and already stored in
  \<open>*device\<close>, is not freed.\<close>

theorem lights_open_leak:
  assumes "first_open s" and "\<And>h. os_open (os s) h LCD_FILE_MAX O_RDONLY = -1"
    and "os_malloc (os s) (calls s) (light_device_size (lenv s)) = Some a"
  shows "\<exists>t. open_lights LIGHT_ID_BACKLIGHT s = Some (-1, Some a, t)
    \<and> calls t = calls s @ [Malloc (light_device_size (lenv s)) (Some a), Sys_open LCD_FILE_MAX O_RDONLY (-1)]"
  using assms by (simp add: open_lights_def open_range_def readFromFile_def sys_malloc_def sys_open_def Let_def)

section \<open>Witnesses\<close>

theorem backlight_mapping_witness:
  "\<exists>r. getBrightnessByLineMapping 100 (opened 10 1000) = Some (r, init_coeffs (opened 10 1000)) \<and> 10 \<le> r \<and> r \<le> 1000"
  using backlight_mapping [OF full_255_opened [OF range_1000], of 100] by (auto simp: opened_def)

theorem backlight_monotone_witness:
  "\<exists>r r'. getBrightnessByLineMapping 127 (opened 10 1000) = Some (r, init_coeffs (opened 10 1000))
    \<and> getBrightnessByLineMapping 128 (opened 10 1000) = Some (r', init_coeffs (opened 10 1000)) \<and> r \<le> r'"
  using backlight_monotone [OF full_255_opened [OF range_1000], of 127 128] by simp

lemma works: "all_calls_work (panel_os 10 1000 \<lparr>os_open := \<lambda>h p m. 3\<rparr>)"
  "panel_files 10 1000 (panel_os 10 1000 \<lparr>os_open := \<lambda>h p m. 3\<rparr>)" "BRIGHTNESS_ON quiet_lenv = 255"
  using panel_os_files [OF range_1000]
  by (simp_all add: panel_files_def all_calls_work_def quiet_lenv_def panel_os_def quiet_os_def)

theorem backlight_set_witness:
  "\<exists>a t u. open_lights LIGHT_ID_BACKLIGHT (lights_boot (panel_os 10 1000 \<lparr>os_open := \<lambda>h p m. 3\<rparr>) quiet_lenv) = Some (0, Some a, t)
    \<and> set_light_backlight 0xff808080 t = Some (0, u)
    \<and> writes (calls u) = [level_text (level_of 10 1000 128)]"
proof -
  have "rgb_to_brightness 0xff808080 = 128" by (simp add: rgb_to_brightness_def)
  with backlight_set [OF works(2,3,1), of "0xff808080"] show ?thesis by fastforce
qed

theorem backlight_values_safe_witness:
  "\<exists>t. runs lights_step (lights_boot (panel_os 10 1000 \<lparr>os_open := \<lambda>h p m. 3\<rparr>) quiet_lenv)
      [Open_lights LIGHT_ID_BACKLIGHT, Set_light 0xffffffff] t
    \<and> (\<forall>bs \<in> set (writes (calls t)). \<exists>v. bs = level_text v \<and> (v = 0 \<or> 10 \<le> v \<and> v \<le> 1000))"
proof -
  let ?env = "panel_os 10 1000 \<lparr>os_open := \<lambda>h p m. 3\<rparr>"
  obtain a t where t: "open_lights LIGHT_ID_BACKLIGHT (lights_boot ?env quiet_lenv) = Some (0, Some a, t)"
      "lights_inv ?env quiet_lenv 10 1000 t" "\<not> first_open t"
    using open_backlight [OF works(2,1)] by blast
  obtain r u where u: "set_light_backlight 0xffffffff t = Some (r, u)"
    using step_set_inv [OF range_1000 works(3) t(2,3)] by blast
  have r: "runs lights_step (lights_boot ?env quiet_lenv) [Open_lights LIGHT_ID_BACKLIGHT, Set_light 0xffffffff] u"
    by (rule runs_cons, rule step_open, rule t(1), rule runs_cons, rule step_set, rule t(3), rule u, rule runs_nil)
  with backlight_values_safe [OF works(2,3) r] show ?thesis by blast
qed

theorem lights_numbers_typed_witness:
  "\<exists>t. runs lights_step (lights_boot (panel_os 10 1000 \<lparr>os_open := \<lambda>h p m. 3\<rparr>) quiet_lenv)
      [Open_lights LIGHT_ID_BACKLIGHT] t \<and> max_brightness t = 1000 \<and> length (coeffs t) = 2"
proof -
  let ?env = "panel_os 10 1000 \<lparr>os_open := \<lambda>h p m. 3\<rparr>"
  obtain a t where t: "open_lights LIGHT_ID_BACKLIGHT (lights_boot ?env quiet_lenv) = Some (0, Some a, t)"
      "lights_inv ?env quiet_lenv 10 1000 t" "\<not> first_open t"
    using open_backlight [OF works(2,1)] by blast
  have r: "runs lights_step (lights_boot ?env quiet_lenv) [Open_lights LIGHT_ID_BACKLIGHT] t"
    by (rule runs_cons, rule step_open, rule t(1), rule runs_nil)
  have "max_brightness t = 1000" using t(2,3) by (simp add: lights_inv_def)
  then show ?thesis using lights_numbers_typed [OF r] r by auto
qed

theorem lights_read_error_witness:
  "\<exists>t a. open_lights LIGHT_ID_BACKLIGHT
      (lights_boot (panel_os 10 1000 \<lparr>os_open := \<lambda>h p m. 3, os_read_err := \<lambda>h fd. True\<rparr>) quiet_lenv) = Some (0, Some a, t)
    \<and> max_brightness t = 0"
proof -
  let ?s = "lights_boot (panel_os 10 1000 \<lparr>os_open := \<lambda>h p m. 3, os_read_err := \<lambda>h fd. True\<rparr>) quiet_lenv"
  have 1: "first_open ?s" "\<And>h p m. 0 \<le> os_open (os ?s) h p m" "\<And>h fd. os_read_err (os ?s) h fd"
      "os_malloc (os ?s) (calls ?s) (light_device_size (lenv ?s)) = Some 0" "\<And>h. stack_buf (lenv ?s) h 8 \<noteq> 10"
    by (simp_all add: lights_boot_def quiet_lenv_def panel_os_def quiet_os_def)
  have 2: "atoi (cstring_of (map (stack_buf (lenv ?s) h) [0..<9] @ [0])) = 0" for h
    by (simp add: lights_boot_def quiet_lenv_def cstring_of_def atoi_def char_isspace_def char_isdigit_def digits_value_def upt_rec char_of_def)
  from lights_read_error [OF 1] 2 show ?thesis by force
qed

end
