(* ===== verification/Nrx_Text.thy ===== *)
theory Nrx_Text
  imports Prelude
begin

text \<open>
  The text functions of the Nanoradio library (\<open>src/hardware/wifi/nrx600/event.c\<close>): the tokens of an event
  message, numbers as \<open>strtoul\<close> reads them, and the conversion of hexadecimal text into bytes.

  A pointer into a text is the rest of the text; cutting a token off (\<open>*q = '\0'\<close>) is the token as a
  string of its own, since the two parts of the buffer do not overlap.
\<close>

abbreviation (input) EINVAL :: int where "EINVAL \<equiv> 22"
abbreviation (input) E2BIG :: int where "E2BIG \<equiv> 7"

section \<open>Tokens\<close>

definition strip_end :: "string \<Rightarrow> string" where
  "strip_end s = rev (dropWhile char_isspace (rev s))"

text \<open>\<open>split_token\<close> with \<open>skip_whitespace\<close> set, as all callers do: the token (\<open>None\<close> for \<open>NULL\<close>) and the
  new value of \<open>*buf\<close>.\<close>

definition split_token :: "string \<Rightarrow> string \<Rightarrow> string option \<times> string" where
  "split_token separator buf =
     (let s = dropWhile char_isspace buf in
      if s = [] then (None, buf)
      else
        let q = dropWhile (\<lambda>c. c \<notin> set separator) s in
        (Some (strip_end (takeWhile (\<lambda>c. c \<notin> set separator) s)), if q = [] then q else tl q))"

section \<open>Numbers\<close>

text \<open>\<open>strtoul(s, NULL, 0)\<close>: white space, a sign, the prefix \<open>0x\<close> or \<open>0\<close> for the base, digits; a value that
  does not fit is the greatest \<open>unsigned long\<close>, and a minus sign negates modulo \<open>2 ^ 32\<close>.\<close>

definition digit_of :: "char \<Rightarrow> nat" where
  "digit_of c = (let n = of_char c :: nat in
     if 48 \<le> n \<and> n \<le> 57 then n - 48
     else if 97 \<le> n \<and> n \<le> 122 then n - 87
     else if 65 \<le> n \<and> n \<le> 90 then n - 55 else 36)"

definition base_value :: "nat \<Rightarrow> string \<Rightarrow> nat" where
  "base_value base s = foldl (\<lambda>a c. a * base + digit_of c) 0 (takeWhile (\<lambda>c. digit_of c < base) s)"

definition unsigned_value :: "string \<Rightarrow> nat" where
  "unsigned_value s =
     (case s of
        CHR ''0'' # x # d # r \<Rightarrow>
          if (x = CHR ''x'' \<or> x = CHR ''X'') \<and> digit_of d < 16 then base_value 16 (d # r) else base_value 8 s
      | CHR ''0'' # r \<Rightarrow> base_value 8 s
      | _ \<Rightarrow> base_value 10 s)"

definition strtoul0 :: "string \<Rightarrow> u32" where
  "strtoul0 s =
     (let s = dropWhile char_isspace s;
          neg = (take 1 s = ''-'');
          n = unsigned_value (if take 1 s = ''-'' \<or> take 1 s = ''+'' then drop 1 s else s)
      in if 2 ^ 32 \<le> n then - 1 else if neg then - of_nat n else of_nat n)"

section \<open>Hexadecimal text\<close>

definition CHAR2HEX :: "char \<Rightarrow> int" where
  "CHAR2HEX x =
     (let n = of_char x :: int in
      if 48 \<le> n \<and> n \<le> 57 then n - 48
      else if 65 \<le> n \<and> n \<le> 70 then n - 65 + 10
      else if 97 \<le> n \<and> n \<le> 102 then n - 97 + 10
      else -1)"

definition hexlen :: "string \<Rightarrow> nat" where
  "hexlen s = length (takeWhile (\<lambda>c. c \<in> set ''0123456789abcdefABCDEF'') s)"

text \<open>The loop of \<open>nrx_string_to_binary\<close> from position \<open>i\<close> of the buffer; \<open>None\<close> for a store outside the
  buffer or a read past the end of the text.\<close>

fun string_to_binary_loop :: "string \<Rightarrow> nat \<Rightarrow> u8 list \<Rightarrow> (nat \<times> u8 list) option" where
  "string_to_binary_loop [] i vect = Some (i, vect)"
| "string_to_binary_loop [c] i vect = (if CHAR2HEX c < 0 then Some (i, vect) else None)"
| "string_to_binary_loop (c # d # str) i vect =
     (if CHAR2HEX c < 0 then Some (i, vect)
      else if length vect \<le> i then None
      else string_to_binary_loop str (Suc i)
        (vect[i := of_int (CHAR2HEX c * 16) + of_int (CHAR2HEX d)]))"

definition nrx_string_to_binary :: "string \<Rightarrow> u8 list \<Rightarrow> nat \<Rightarrow> (int \<times> u8 list) option" where
  "nrx_string_to_binary str buf sz =
     (if hexlen str mod 2 \<noteq> 0 then Some (- EINVAL, buf)
      else if sz < hexlen str div 2 then Some (- E2BIG, buf)
      else map_option (\<lambda>(i, b). (int i, b)) (string_to_binary_loop str 0 buf))"

text \<open>The other direction, \<open>%02x\<close> or \<open>%02X\<close> for every byte.\<close>

definition hex_digit :: "bool \<Rightarrow> nat \<Rightarrow> char" where
  "hex_digit upper n = (if upper then ''0123456789ABCDEF'' else ''0123456789abcdef'') ! n"

definition hex_text :: "bool \<Rightarrow> u8 list \<Rightarrow> string" where
  "hex_text upper bs =
     concat (map (\<lambda>b. [hex_digit upper (unat b div 16), hex_digit upper (unat b mod 16)]) bs)"

section \<open>Facts\<close>

lemma char_eq_int: "c = d \<longleftrightarrow> (of_char c :: int) = of_char d"
  by simp

lemma hexdigits: "c \<in> set ''0123456789abcdefABCDEF'' \<longleftrightarrow> 0 \<le> CHAR2HEX c"
proof -
  have "0 \<le> CHAR2HEX c \<longleftrightarrow> (let n = of_char c :: int in
      48 \<le> n \<and> n \<le> 57 \<or> 97 \<le> n \<and> n \<le> 102 \<or> 65 \<le> n \<and> n \<le> 70)"
    by (auto simp: CHAR2HEX_def Let_def)
  moreover have "c \<in> set ''0123456789abcdefABCDEF'' \<longleftrightarrow> (let n = of_char c :: int in
      n \<in> {48,49,50,51,52,53,54,55,56,57,97,98,99,100,101,102,65,66,67,68,69,70})"
    unfolding list.set insert_iff char_eq_int [of c] by (simp add: Let_def del: of_char_eq_iff)
  moreover have "48 \<le> n \<and> n \<le> 57 \<longleftrightarrow> n \<in> set [48..57]" "97 \<le> n \<and> n \<le> 102 \<longleftrightarrow> n \<in> set [97..102]"
    "65 \<le> n \<and> n \<le> 70 \<longleftrightarrow> n \<in> set [65..70]" for n :: int by (simp_all only: set_upto atLeastAtMost_iff)
  ultimately show ?thesis by (simp add: Let_def)
qed

lemma hexlen_alt: "hexlen s = length (takeWhile (\<lambda>c. 0 \<le> CHAR2HEX c) s)"
  unfolding hexlen_def hexdigits ..

lemma CHAR2HEX_hex_digit [simp]: "n < 16 \<Longrightarrow> CHAR2HEX (hex_digit upper n) = int n"
proof -
  assume "n < 16"
  then have "n \<in> set [0..<16]" by simp
  moreover have "list_all (\<lambda>n. CHAR2HEX (hex_digit upper n) = int n) [0..<16]"
    by (cases upper) (simp_all add: upt_rec hex_digit_def CHAR2HEX_def)
  ultimately show ?thesis unfolding list_all_iff by blast
qed

lemma hex_text_simps [simp]:
  "hex_text upper [] = []"
  "hex_text upper (b # bs) = hex_digit upper (unat b div 16) # hex_digit upper (unat b mod 16) # hex_text upper bs"
  by (simp_all add: hex_text_def)

lemma nibble_less [simp]: "unat (b :: u8) div 16 < 16"
  using unsigned_less [of b, where ?'a = nat] by simp

lemma hexlen_hex_text:
  "rest = [] \<or> CHAR2HEX (hd rest) < 0 \<Longrightarrow> hexlen (hex_text upper bs @ rest) = 2 * length bs"
  by (induction bs) (auto simp: hexlen_alt takeWhile_eq_Nil_iff)

lemma nibbles_join: "of_nat (unat b div 16) * 16 + of_nat (unat b mod 16) = (b :: u8)"
proof -
  have "of_nat (unat b div 16) * 16 + of_nat (unat b mod 16) = (of_nat (unat b div 16 * 16 + unat b mod 16) :: u8)"
    by (simp only: of_nat_add of_nat_mult of_nat_numeral)
  also have "\<dots> = b" by (simp only: div_mult_mod_eq of_nat_unat ucast_id)
  finally show ?thesis .
qed

lemma string_to_binary_loop_hex:
  assumes "rest = [] \<or> CHAR2HEX (hd rest) < 0" "i + length bs \<le> length vect"
  shows "string_to_binary_loop (hex_text upper bs @ rest) i vect
    = Some (i + length bs, take i vect @ bs @ drop (i + length bs) vect)"
  using assms(2)
proof (induction bs arbitrary: i vect)
  case Nil
  show ?case
  proof (cases rest)
    case (Cons c r)
    then have "CHAR2HEX c < 0" using assms(1) by simp
    then show ?thesis using Cons by (cases r) auto
  qed simp
next
  case (Cons b bs)
  let ?v = "vect[i := b]"
  have "string_to_binary_loop (hex_text upper bs @ rest) (Suc i) ?v
      = Some (Suc i + length bs, take (Suc i) ?v @ bs @ drop (Suc i + length bs) ?v)"
    by (rule Cons.IH) (use Cons.prems in simp)
  moreover have "take (Suc i) ?v = take i vect @ [b]"
    using Cons.prems by (simp add: take_Suc_conv_app_nth)
  ultimately show ?case using Cons.prems by (simp add: nibbles_join)
qed

lemma string_to_binary_loop_safe:
  "even (hexlen str) \<Longrightarrow> i + hexlen str div 2 \<le> length vect \<Longrightarrow> string_to_binary_loop str i vect \<noteq> None"
proof (induction str i vect rule: string_to_binary_loop.induct)
  case (2 c i vect)
  then show ?case by (auto simp: hexlen_alt split: if_splits)
next
  case (3 c d str i vect)
  show ?case
  proof (cases "CHAR2HEX c < 0")
    case False
    then have "hexlen (c # d # str) = 2 + hexlen str" using "3.prems"(1) by (auto simp: hexlen_alt split: if_splits)
    then show ?thesis using False "3.IH" "3.prems" by simp
  qed simp
qed simp

text \<open>(C25) Hexadecimal text in either case is turned back into the bytes it stands for and what follows
  the digits is ignored; a text with an odd number of digits or with more bytes than the buffer takes is
  refused; no text makes the conversion leave a buffer of the given size.\<close>

theorem string_to_binary_roundtrip:
  assumes "sz \<le> length buf"
  shows "(\<forall>upper bs rest. rest = [] \<or> CHAR2HEX (hd rest) < 0 \<longrightarrow>
      nrx_string_to_binary (hex_text upper bs @ rest) buf sz =
        (if length bs \<le> sz then Some (int (length bs), bs @ drop (length bs) buf) else Some (- E2BIG, buf)))
    \<and> (\<forall>str. odd (hexlen str) \<longrightarrow> nrx_string_to_binary str buf sz = Some (- EINVAL, buf))
    \<and> (\<forall>str. nrx_string_to_binary str buf sz \<noteq> None)"
proof (intro conjI allI impI)
  show "nrx_string_to_binary (hex_text upper bs @ rest) buf sz =
      (if length bs \<le> sz then Some (int (length bs), bs @ drop (length bs) buf) else Some (- E2BIG, buf))"
    if "rest = [] \<or> CHAR2HEX (hd rest) < 0" for upper bs rest
    using assms that hexlen_hex_text [OF that] string_to_binary_loop_hex [OF that, of 0 bs buf upper]
    by (auto simp: nrx_string_to_binary_def)
  show "nrx_string_to_binary str buf sz = Some (- EINVAL, buf)" if "odd (hexlen str)" for str
    using that by (simp add: nrx_string_to_binary_def odd_iff_mod_2_eq_one)
  show "nrx_string_to_binary str buf sz \<noteq> None" for str
    using string_to_binary_loop_safe [of str 0 buf] assms
    by (auto simp: nrx_string_to_binary_def even_iff_mod_2_eq_zero)
qed

lemma string_to_binary_roundtrip_witness:
  "nrx_string_to_binary (hex_text True [0xA5, 7] @ '' rest'') [0, 0, 9] 3 = Some (2, [0xA5, 7, 9])"
  using string_to_binary_roundtrip [of 3 "[0, 0, 9]", THEN conjunct1, rule_format, of "'' rest''" True "[0xA5, 7]"]
  by (simp add: CHAR2HEX_def)

end
