(* ===== verification/Nrx_Context.thy ===== *)
theory Nrx_Context
  imports Platform Nrx_Text
begin

text \<open>
  The context of the Nanoradio library (\<open>struct nrx_context_data\<close> in \<open>nrx_priv.h\<close>) and its surroundings.

  The context holds the two sockets, the version of the wireless extensions and two lists of handlers.  A
  list (\<open>TAILQ\<close>) is the list of its elements with their addresses; the objects the handlers' user data
  points to are in two maps from addresses, one for custom events and one for the objects of MIB triggers and
  of notifications.  Address 0 is \<open>NULL\<close>.  A callback the application
  passes is a number, 0 for a null pointer; what it returns is given by the environment, like the answers
  of the kernel and of \<open>malloc\<close>, as a function of the history of all calls.  A callback of the application
  does not call the library itself.

  An access through a null pointer, into freed memory or past an array is the fault \<open>Bad_access\<close>; a call of
  \<open>exit\<close> is \<open>Exited\<close>.
\<close>

named_theorems nrx_simps \<open>effects of single calls on the parts of the state\<close>

section \<open>Types\<close>

datatype nrx_op = NRX_CB_TRIGGER | NRX_CB_CANCEL

type_synonym address = nat
type_synonym callback = nat

text \<open>What the event data of a callback points to.  Wireless and netlink data are the bytes from the address
  to the end of the receive buffer, wireless data with its command and size.\<close>

datatype nrx_data =
    Null_data
  | We_data u16 "u8 list" u32
  | Nl_data "u8 list"
  | Custom_data "(string \<times> string option) list"
  | Mib_data u32 u32
  | Scan_data u32 u32
  | Conn_lost_data "u8 list" u32 u32
  | Rate_data u8

datatype helper_fn =
    Mibtrigger_helper
  | Nrx_handle_scan_notification
  | Nrx_handle_conn_lost_notification
  | Nrx_handle_rate_notification

datatype custom_handler = Custom_user callback | Custom_helper helper_fn
datatype we_handler_fn = We_user callback | Nrx_handle_custom_event
datatype netlink_handler_fn = Netlink_user callback | Rtnetlink_event

record nrx_we_event =
  we_cmd :: u16
  we_handler :: we_handler_fn
  we_user_data :: address

record nrx_netlink_event =
  nl_type :: u16
  nl_pid :: u32
  nl_seq :: u32
  nl_handler :: netlink_handler_fn
  nl_user_data :: address

record nrx_custom_event_t =
  ce_type :: string
  ce_id :: u32
  ce_handler :: custom_handler
  ce_user_data :: address
  ev_handler :: address

record nrx_event_helper_data =
  hd_cb :: callback
  hd_user_data :: address

record nrx_scan_notification_t =
  sn_pol :: u32
  sn_handler :: callback
  sn_user_data :: address

record nrx_conn_lost_notification_t =
  cln_type :: u32
  cln_handler :: callback
  cln_user_data :: address

record nrx_notification_t =
  nt_handler :: callback
  nt_user_data :: address

datatype helper_object =
    Event_helper nrx_event_helper_data
  | Scan_helper nrx_scan_notification_t
  | Conn_lost_helper nrx_conn_lost_notification_t
  | Rate_helper nrx_notification_t

section \<open>Surroundings\<close>

text \<open>The driver's ioctls, with the parameters the library fills in.\<close>

record mib_trigger_param =
  mt_mib_id :: string
  mt_mib_id_len :: nat
  mt_gating_trig_id :: "32 word"
  mt_supv_interval :: u32
  mt_level :: u32
  mt_dir :: u8
  mt_event_count :: u16
  mt_trigmode :: u16

record scan_conf_param =
  sc_preamble :: u32
  sc_rate :: u8
  sc_probes_per_ch :: u8
  sc_notif_pol :: u16
  sc_scan_period :: u32
  sc_probe_delay :: u32
  sc_pa_min_ch_time :: u16
  sc_pa_max_ch_time :: u16
  sc_ac_min_ch_time :: u16
  sc_ac_max_ch_time :: u16
  sc_as_scan_period :: u32
  sc_as_min_ch_time :: u16
  sc_as_max_ch_time :: u16
  sc_max_scan_period :: u32
  sc_max_as_scan_period :: u32
  sc_period_repetition :: u8

record scan_job_param =
  sj_ssid :: "u8 list"
  sj_bssid :: "u8 list"
  sj_scan_type :: u8
  sj_channels :: "u8 list"
  sj_flags :: u32
  sj_prio :: u8
  sj_ap_exclude :: u8
  sj_sf_id :: u32
  sj_run_every_nth_period :: u8

record bt_conf_param =
  bt_vendor :: u8
  bt_pta_mode :: u8
  bt_pta_def :: "u8 list"
  bt_len :: int
  bt_antenna_dual :: u8
  bt_antenna_sel0 :: u8
  bt_antenna_sel1 :: u8
  bt_antenna_level0 :: u8
  bt_antenna_level1 :: u8

text \<open>The commands by the type of their parameter: none (\<open>struct nrx_ioc\<close>), a flag, a number that is
  written, a number that is read; those with a structure of their own are constructors of \<open>nrx_ioc\<close>.\<close>

datatype plain_ioc =
    NRXIOCREASSOCIATE | NRXIOCPSENABLE | NRXIOCPSDISABLE | NRXIOCWMMPSDISABLE | NRXIOCFWSUICIDE | NRXIOCSHUTDOWN
  | NRXIOWSCANLISTFLUSH

datatype bool_ioc =
    NRXIOWENABLEHTRATES | NRXIOWWMM | NRXIOWLINKSUPERV | NRXIOWMULTIDOMAIN | NRXIOWMULTIDOMAINENFORCE
  | NRXIOWBTCOEXENABLE

datatype write_ioc =
    NRXIOWLINKSUPERVRXBEACONCOUNT | NRXIOWLINKSUPERVRXBEACONTIMEOUT | NRXIOWLINKSUPERVTXFAILCOUNT
  | NRXIOWLINKSUPERVRTRIPCOUNT | NRXIOWLINKSUPERVRTRIPSILENT | NRXIOWFRAGMENTTHR | NRXIOWRTSTHR
  | NRXIOCTXRATEMONDISABLE | NRXIOCRXRATEMONDISABLE | NRXIOWWMMPSENABLE | NRXIOWROAMENABLE | NRXIOWBEACONPERIOD
  | NRXIOWDTIMPERIOD | NRXIOWATIMWINDOW | NRXIOWJOINTIMEOUT | NRXIOWCORECOUNT | NRXIOSNDADDTS | NRXIOSNDDELTS
  | NRXIOWSCANDELFILTER | NRXIOWSCANDELJOB | NRXIOWDELMIBTRIG

datatype read_ioc =
    NRXIORENABLEHTRATES | NRXIORFRAGMENTTHR | NRXIORRTSTHR | NRXIORTXRATE | NRXIORRXRATE | NRXIORPSENABLE
  | NRXIORBEACONPERIOD | NRXIORDTIMPERIOD | NRXIORATIMWINDOW | NRXIORJOINTIMEOUT | NRXIORCORECOUNT
  | NRXIOCSOFTAPCLIENTS

datatype nrx_ioc =
    Plain_ioc plain_ioc
  | Bool_ioc bool_ioc bool
  | Write_ioc write_ioc u32
  | Read_ioc read_ioc
  | NRXIOWOPRATES "u8 list"
  | NRXIOWREGCHANNELS "u8 list"
  | NRXIOWRREGISTRY u32
  | NRXIOWRDOESTRIGEXIST u32 string
  | NRXIOWTXRATEMONENABLE u32 u8
  | NRXIOWRXRATEMONENABLE u32 u8
  | NRXIOWPSCONF u32 u32 u32 u16
  | NRXIOWWMMPSCONF u32 bool bool bool bool
  | NRXIOWROAMADDSSIDFILTER "u8 list"
  | NRXIOWROAMDELSSIDFILTER "u8 list"
  | NRXIOWROAMCONFFILTER u8 u8 u8
  | NRXIOWROAMCONFRSSITHR u8 int int u32
  | NRXIOWROAMCONFSNRTHR u8 u32 u32 u32
  | NRXIOWROAMCONFDSTHR u8 u32 u32
  | NRXIOWROAMCONFRATETHR u8 u8 u8
  | NRXIOWROAMCONFNETELECTION u32 u32
  | NRXIOWROAMCONFAUTH u8 u32 u32
  | NRXIOWCONFDELAYSPREAD u32 u16
  | NRXIOWHEARTBEAT "u32 option"
  | NRXIOWARPCONF u8 u32
  | NRXIOWBTCOEXCONF bt_conf_param
  | NRXIOWANTENNADIV u32 int
  | NRXIOCACTIVITYTIMEOUT u32 u32
  | NRXIOWSCANCONF scan_conf_param
  | NRXIOWSCANJOBSTATE u32 u32
  | NRXIOWRSCANADDFILTER u32 int u32 u16
  | NRXIOWRSCANADDJOB scan_job_param
  | NRXIOWSCANTRIGJOB u32 u16
  | NRXIOWREGMIBTRIG mib_trigger_param
  | NRXIORDSCPMAP
  | NRXIOWDSCPMAP "u8 list"
  | NRXIOWRGETMIB string u32
  | NRXIOWSETMIB string "u8 list"

text \<open>The ioctls of the wireless extensions; \<open>None\<close> is the interface of the context.\<close>

datatype iw_request =
    SIOCGIWNICKN string u16
  | SIOCGIWRANGE "string option"
  | SIOCGIWSCAN u16
  | SIOCSIWRETRY bool u8
  | SIOCGIWFREQ

datatype ncall =
    Callback callback nrx_op nrx_data address int
  | Malloc_ret "address option"
  | Free_of address
  | Free_context
  | Socket_netlink int
  | Bind_link int int
  | Close_of int
  | Shutdown_of int
  | Poll_of int int int
  | Recvfrom int int
  | Nrx_ioctl nrx_ioc int
  | Iw_ioctl iw_request int

type_synonym nhistory = "ncall list"

text \<open>\<open>nx_ioctl\<close>, \<open>nx_iw\<close>: the results of the ioctls; what they leave in their parameters are the other functions
  (the length of the data, mantissa and exponent of the frequency, the version of the wireless extensions).
  \<open>nx_ioctl_value\<close> is a single number, a flag or an id.  \<open>nx_stack\<close> and \<open>nx_stack_bssid\<close> are what an uninitialised
  local structure holds.
  \<open>nx_recv\<close>: the result of \<open>recvfrom\<close> and the content of the caller's buffer behind the call;
  \<open>nx_poll\<close>: the result and the events of the two descriptors.\<close>

record nrx_env =
  nx_malloc :: "nhistory \<Rightarrow> address option"
  nx_callback :: "nhistory \<Rightarrow> callback \<Rightarrow> nrx_op \<Rightarrow> nrx_data \<Rightarrow> address \<Rightarrow> int"
  nx_socket :: "nhistory \<Rightarrow> int"
  nx_bind :: "nhistory \<Rightarrow> int \<Rightarrow> int"
  nx_errno :: "nhistory \<Rightarrow> int"
  nx_poll :: "nhistory \<Rightarrow> int \<times> u16 \<times> u16"
  nx_recv :: "nhistory \<Rightarrow> int \<times> u8 list"
  nx_ioctl :: "nhistory \<Rightarrow> nrx_ioc \<Rightarrow> int"
  nx_ioctl_dscpmap :: "nhistory \<Rightarrow> u8 list"
  nx_ioctl_trig_id :: "nhistory \<Rightarrow> u32"
  nx_ioctl_mib :: "nhistory \<Rightarrow> u32 \<times> u8 list"
  nx_ioctl_scan_id :: "nhistory \<Rightarrow> u32"
  nx_ioctl_value :: "nhistory \<Rightarrow> u32"
  nx_stack :: "nhistory \<Rightarrow> u32 \<times> u32"
  nx_stack_bssid :: "nhistory \<Rightarrow> nat \<Rightarrow> u8"
  nx_iw :: "nhistory \<Rightarrow> iw_request \<Rightarrow> int"
  nx_iw_length :: "nhistory \<Rightarrow> u16"
  nx_iw_freq :: "nhistory \<Rightarrow> 32 word \<times> 16 word"
  nx_iw_version :: "nhistory \<Rightarrow> u8"

record nrx_st =
  sock :: int
  netlink_sock :: int
  wx_version :: u32
  netlink_handlers :: "(address \<times> nrx_netlink_event) list"
  we_handlers :: "(address \<times> nrx_we_event) list"
  customs :: "address \<Rightarrow> nrx_custom_event_t option"
  helpers :: "address \<Rightarrow> helper_object option"
  ncalls :: nhistory
  nenv :: nrx_env

datatype fault = Bad_access | Exited int

type_synonym 'a outcome = "fault + 'a \<times> nrx_st"

section \<open>Single calls\<close>

definition nlog :: "ncall \<Rightarrow> nrx_st \<Rightarrow> nrx_st" where
  "nlog c s = s\<lparr>ncalls := ncalls s @ [c]\<rparr>"

definition nmalloc :: "nrx_st \<Rightarrow> address option \<times> nrx_st" where
  "nmalloc s = (let r = nx_malloc (nenv s) (ncalls s) in (r, nlog (Malloc_ret r) s))"

definition nfree :: "address \<Rightarrow> nrx_st \<Rightarrow> nrx_st" where
  "nfree a s = nlog (Free_of a) s"

definition errno :: "nrx_st \<Rightarrow> int" where
  "errno s = nx_errno (nenv s) (ncalls s)"

text \<open>\<open>(*handler)(ctx, operation, data, size, user_data)\<close> for a callback of the application.\<close>

definition call_user :: "callback \<Rightarrow> nrx_op \<Rightarrow> nrx_data \<Rightarrow> address \<Rightarrow> nrx_st \<Rightarrow> int outcome" where
  "call_user cb op d ud s =
     (if cb = 0 then Inl Bad_access
      else let r = nx_callback (nenv s) (ncalls s) cb op d ud in Inr (r, nlog (Callback cb op d ud r) s))"

definition nclose :: "int \<Rightarrow> nrx_st \<Rightarrow> nrx_st" where
  "nclose fd s = nlog (Close_of fd) s"

text \<open>\<open>nrx_nrxioctl\<close>: 0 or an error number.\<close>

definition nrx_nrxioctl :: "nrx_ioc \<Rightarrow> nrx_st \<Rightarrow> int \<times> nrx_st" where
  "nrx_nrxioctl p s =
     (let r = nx_ioctl (nenv s) (ncalls s) p; t = nlog (Nrx_ioctl p r) s
      in (if r < 0 then errno t else 0, t))"

definition nrx_iwioctl :: "iw_request \<Rightarrow> nrx_st \<Rightarrow> int \<times> nrx_st" where
  "nrx_iwioctl p s =
     (let r = nx_iw (nenv s) (ncalls s) p; t = nlog (Iw_ioctl p r) s
      in (if r < 0 then errno t else 0, t))"

section \<open>Memory\<close>

text \<open>The blocks a history leaves allocated, and whether every \<open>free\<close> in it is of an allocated block.\<close>

fun block_step :: "address set \<Rightarrow> ncall \<Rightarrow> address set" where
  "block_step L (Malloc_ret (Some a)) = insert a L"
| "block_step L (Free_of a) = L - {a}"
| "block_step L _ = L"

definition live :: "nhistory \<Rightarrow> address set" where
  "live h = foldl block_step {} h"

fun frees_from :: "address set \<Rightarrow> nhistory \<Rightarrow> bool" where
  "frees_from L [] = True"
| "frees_from L (c # cs) = ((case c of Free_of a \<Rightarrow> a \<in> L | _ \<Rightarrow> True) \<and> frees_from (block_step L c) cs)"

definition frees_ok :: "nhistory \<Rightarrow> bool" where
  "frees_ok h = frees_from {} h"

text \<open>What C promises of \<open>malloc\<close>: no null pointer and no block that is still in use.\<close>

definition malloc_ok :: "nrx_env \<Rightarrow> bool" where
  "malloc_ok e \<longleftrightarrow> (\<forall>h a. nx_malloc e h = Some a \<longrightarrow> a \<noteq> 0 \<and> a \<notin> live h)"

lemma live_Nil [simp]: "live [] = {}"
  by (simp add: live_def)

lemma live_append [simp]: "live (h @ cs) = foldl block_step (live h) cs"
  by (simp add: live_def)

lemma frees_from_append:
  "frees_from L (h @ cs) \<longleftrightarrow> frees_from L h \<and> frees_from (foldl block_step L h) cs"
  by (induction h arbitrary: L) (simp_all add: conj_assoc)

lemma frees_ok_append [simp]: "frees_ok (h @ cs) \<longleftrightarrow> frees_ok h \<and> frees_from (live h) cs"
  by (simp add: frees_ok_def frees_from_append live_def)

lemma frees_ok_Nil [simp]: "frees_ok []"
  by (simp add: frees_ok_def)

lemma nlog_simps [simp, nrx_simps]:
  "sock (nlog c s) = sock s" "netlink_sock (nlog c s) = netlink_sock s" "wx_version (nlog c s) = wx_version s"
  "netlink_handlers (nlog c s) = netlink_handlers s" "we_handlers (nlog c s) = we_handlers s"
  "customs (nlog c s) = customs s" "helpers (nlog c s) = helpers s" "nenv (nlog c s) = nenv s"
  "ncalls (nlog c s) = ncalls s @ [c]"
  by (simp_all add: nlog_def)

section \<open>The netlink socket\<close>

text \<open>\<open>_nrx_create_netlink_socket\<close> returns the negated \<open>errno\<close> on failure, behind the \<open>close\<close> when \<open>bind\<close>
  fails; \<open>nrx_event_connection_number\<close> stores whatever it returns.\<close>

definition nrx_create_netlink_socket :: "nrx_st \<Rightarrow> int \<times> nrx_st" where
  "nrx_create_netlink_socket s =
     (let fd = nx_socket (nenv s) (ncalls s); s = nlog (Socket_netlink fd) s in
      if fd < 0 then (- errno s, s)
      else
        let r = nx_bind (nenv s) (ncalls s) fd; s = nlog (Bind_link fd r) s in
        if r < 0 then (let s = nclose fd s in (- errno s, s)) else (fd, s))"

definition nrx_event_connection_number :: "nrx_st \<Rightarrow> int \<times> nrx_st" where
  "nrx_event_connection_number s =
     (if netlink_sock s < 0
      then (let (r, s) = nrx_create_netlink_socket s in (r, s\<lparr>netlink_sock := r\<rparr>))
      else (netlink_sock s, s))"

text \<open>\<open>nrx_wait_event\<close> polls again after an interrupted call (\<open>goto again\<close>), so it need not return.\<close>

abbreviation (input) EINTR :: int where "EINTR \<equiv> 4"
abbreviation (input) EWOULDBLOCK :: int where "EWOULDBLOCK \<equiv> 11"
abbreviation (input) EPIPE :: int where "EPIPE \<equiv> 32"
abbreviation (input) POLLIN :: u16 where "POLLIN \<equiv> 1"
abbreviation (input) POLL_BAD :: u16 where "POLL_BAD \<equiv> 0x38"

partial_function (option) nrx_poll_again :: "int \<Rightarrow> nrx_st \<Rightarrow> (int \<times> nrx_st) option" where
  "nrx_poll_again timeout s =
     (let (r, rev0, rev1) = nx_poll (nenv s) (ncalls s);
          s' = nlog (Poll_of (netlink_sock s) (sock s) timeout) s in
      if r < 0 then (if errno s' = EINTR then nrx_poll_again timeout s' else Some (errno s', s'))
      else Some (if rev0 AND POLLIN \<noteq> 0 then 0
        else if rev0 AND POLL_BAD \<noteq> 0 then EPIPE
        else if rev1 AND POLL_BAD \<noteq> 0 then EPIPE
        else EWOULDBLOCK, s'))"

definition nrx_wait_event :: "int \<Rightarrow> nrx_st \<Rightarrow> (int \<times> nrx_st) option" where
  "nrx_wait_event timeout s =
     (let (fd, s) = nrx_event_connection_number s in
      if fd < 0 then Some (- fd, s) else if sock s < 0 then Some (EPIPE, s) else nrx_poll_again timeout s)"

lemma connection_number_keeps [simp]:
  "we_handlers (snd (nrx_event_connection_number s)) = we_handlers s"
  "netlink_handlers (snd (nrx_event_connection_number s)) = netlink_handlers s"
  "customs (snd (nrx_event_connection_number s)) = customs s"
  "helpers (snd (nrx_event_connection_number s)) = helpers s"
  "nenv (snd (nrx_event_connection_number s)) = nenv s"
  "sock (snd (nrx_event_connection_number s)) = sock s"
  "live (ncalls (snd (nrx_event_connection_number s))) = live (ncalls s)"
  "frees_ok (ncalls (snd (nrx_event_connection_number s))) = frees_ok (ncalls s)"
  by (simp_all add: nrx_event_connection_number_def nrx_create_netlink_socket_def nclose_def Let_def split_beta)

end
