(* ===== verification/Nrx_Helpers.thy ===== *)
theory Nrx_Helpers
  imports Nrx_Context
begin

text \<open>
  The handlers the library itself registers for custom events: of MIB triggers (\<open>event.c\<close>), scan notifications
  (\<open>scan.c\<close>), lost connections and rates (\<open>radio.c\<close>).  Each has an object of its own with the callback of the
  application, and frees it when it is cancelled.
\<close>

section \<open>MIB triggers as custom events\<close>

fun mib_vars :: "(string \<times> string option) list \<Rightarrow> u32 \<times> u32 \<Rightarrow> (u32 \<times> u32) option" where
  "mib_vars [] m = Some m"
| "mib_vars ((var, val) # vs) (i, v) =
     (if var = ''id'' then (case val of None \<Rightarrow> None | Some w \<Rightarrow> mib_vars vs (strtoul0 w, v))
      else if var = ''value'' then (case val of None \<Rightarrow> None | Some w \<Rightarrow> mib_vars vs (i, strtoul0 w))
      else mib_vars vs (i, v))"

definition mibtrigger_helper :: "nrx_op \<Rightarrow> nrx_data \<Rightarrow> address \<Rightarrow> nrx_st \<Rightarrow> int outcome" where
  "mibtrigger_helper op d p s =
     (case helpers s p of
        Some (Event_helper h) \<Rightarrow>
          (case op of
             NRX_CB_CANCEL \<Rightarrow>
               (case call_user (hd_cb h) NRX_CB_CANCEL Null_data (hd_user_data h) s of
                  Inl f \<Rightarrow> Inl f
                | Inr (r, s) \<Rightarrow> Inr (r, nfree p (s\<lparr>helpers := (helpers s)(p := None)\<rparr>)))
           | NRX_CB_TRIGGER \<Rightarrow>
               (case d of
                  Custom_data vs \<Rightarrow>
                    (case mib_vars vs (0, 0) of
                       None \<Rightarrow> Inl Bad_access
                     | Some (i, v) \<Rightarrow> call_user (hd_cb h) NRX_CB_TRIGGER (Mib_data i v) (hd_user_data h) s)
                | _ \<Rightarrow> Inl Bad_access))
      | _ \<Rightarrow> Inl Bad_access)"

section \<open>Scan notifications as custom events\<close>

text \<open>\<open>nrx_handle_scan_notification\<close> of \<open>scan.c\<close>: \<open>notif\<close> is not initialised, so a notification without
  \<open>policy\<close> or \<open>jobid\<close> leaves what was on the stack.\<close>

fun scan_vars :: "(string \<times> string option) list \<Rightarrow> u32 \<times> u32 \<Rightarrow> (u32 \<times> u32) option" where
  "scan_vars [] notif = Some notif"
| "scan_vars ((var, val) # vs) (pol, sj) =
     (if var = ''policy'' then (case val of None \<Rightarrow> None | Some w \<Rightarrow> scan_vars vs (strtoul0 w, sj))
      else if var = ''jobid'' then (case val of None \<Rightarrow> None | Some w \<Rightarrow> scan_vars vs (pol, strtoul0 w))
      else scan_vars vs (pol, sj))"

definition nrx_handle_scan_notification :: "nrx_op \<Rightarrow> nrx_data \<Rightarrow> address \<Rightarrow> nrx_st \<Rightarrow> int outcome" where
  "nrx_handle_scan_notification op d p s =
     (case helpers s p of
        Some (Scan_helper n) \<Rightarrow>
          (case op of
             NRX_CB_CANCEL \<Rightarrow>
               (case call_user (sn_handler n) NRX_CB_CANCEL Null_data (sn_user_data n) s of
                  Inl f \<Rightarrow> Inl f
                | Inr (_, s) \<Rightarrow> Inr (0, nfree p (s\<lparr>helpers := (helpers s)(p := None)\<rparr>)))
           | NRX_CB_TRIGGER \<Rightarrow>
               (case d of
                  Custom_data vs \<Rightarrow>
                    (case scan_vars vs (nx_stack (nenv s) (ncalls s)) of
                       None \<Rightarrow> Inl Bad_access
                     | Some (pol, sj) \<Rightarrow>
                         if pol AND sn_pol n \<noteq> 0 then
                           (case call_user (sn_handler n) NRX_CB_TRIGGER (Scan_data pol sj) (sn_user_data n) s of
                              Inl f \<Rightarrow> Inl f
                            | Inr (_, s) \<Rightarrow> Inr (0, s))
                         else Inr (0, s))
                | _ \<Rightarrow> Inl Bad_access))
      | _ \<Rightarrow> Inl Bad_access)"

section \<open>Lost connections and rates as custom events\<close>

text \<open>\<open>nrx_handle_conn_lost_notification\<close> of \<open>radio.c\<close>: the type of the event, and \<open>cl.bssid\<close> and
  \<open>cl.reason_code\<close>, which are not initialised.\<close>

fun conn_lost_vars ::
    "(string \<times> string option) list \<Rightarrow> u32 \<times> u8 list \<times> u32 \<Rightarrow> (u32 \<times> u8 list \<times> u32) option" where
  "conn_lost_vars [] c = Some c"
| "conn_lost_vars ((var, val) # vs) (type, bssid, reason) =
     (if var = ''type'' then (case val of None \<Rightarrow> None | Some w \<Rightarrow> conn_lost_vars vs (strtoul0 w, bssid, reason))
      else if var = ''bssid'' then
        (case val of
           None \<Rightarrow> None
         | Some w \<Rightarrow>
             (case nrx_string_to_binary w bssid 6 of
                None \<Rightarrow> None
              | Some (_, b) \<Rightarrow> conn_lost_vars vs (type, b, reason)))
      else if var = ''reason'' then
        (case val of None \<Rightarrow> None | Some w \<Rightarrow> conn_lost_vars vs (type, bssid, strtoul0 w))
      else conn_lost_vars vs (type, bssid, reason))"

abbreviation (input) NRX_BLR_AUTH_FAIL :: u32 where "NRX_BLR_AUTH_FAIL \<equiv> 1"
abbreviation (input) NRX_BLR_ASSOC_FAIL :: u32 where "NRX_BLR_ASSOC_FAIL \<equiv> 2"
abbreviation (input) NRX_BLR_DEAUTH :: u32 where "NRX_BLR_DEAUTH \<equiv> 4"

definition cl_type :: "u32 \<Rightarrow> u32" where
  "cl_type type =
     (if type = 0 then NRX_BLR_AUTH_FAIL
      else if type = 1 then NRX_BLR_ASSOC_FAIL
      else if type = 2 then NRX_BLR_DEAUTH
      else if type = 3 then NRX_BLR_DEAUTH
      else 0)"

definition nrx_handle_conn_lost_notification :: "nrx_op \<Rightarrow> nrx_data \<Rightarrow> address \<Rightarrow> nrx_st \<Rightarrow> int outcome" where
  "nrx_handle_conn_lost_notification op d p s =
     (case helpers s p of
        Some (Conn_lost_helper n) \<Rightarrow>
          (case op of
             NRX_CB_CANCEL \<Rightarrow>
               (case call_user (cln_handler n) NRX_CB_CANCEL Null_data (cln_user_data n) s of
                  Inl f \<Rightarrow> Inl f
                | Inr (_, s) \<Rightarrow> Inr (0, nfree p (s\<lparr>helpers := (helpers s)(p := None)\<rparr>)))
           | NRX_CB_TRIGGER \<Rightarrow>
               (case d of
                  Custom_data vs \<Rightarrow>
                    (case conn_lost_vars vs (- 1, map (nx_stack_bssid (nenv s) (ncalls s)) [0..<6],
                            fst (nx_stack (nenv s) (ncalls s))) of
                       None \<Rightarrow> Inl Bad_access
                     | Some (type, bssid, reason) \<Rightarrow>
                         if cln_type n = 0 \<or> cl_type type AND cln_type n \<noteq> 0 then
                           (case call_user (cln_handler n) NRX_CB_TRIGGER (Conn_lost_data bssid (cl_type type) reason)
                                   (cln_user_data n) s of
                              Inl f \<Rightarrow> Inl f
                            | Inr (_, s) \<Rightarrow> Inr (0, s))
                         else Inr (0, s))
                | _ \<Rightarrow> Inl Bad_access))
      | _ \<Rightarrow> Inl Bad_access)"

text \<open>\<open>nrx_handle_rate_notification\<close>: a rate has 8 bits; 0 is taken for a message without rate.\<close>

fun rate_vars :: "(string \<times> string option) list \<Rightarrow> u8 \<Rightarrow> u8 option" where
  "rate_vars [] rate = Some rate"
| "rate_vars ((var, val) # vs) rate =
     (if var = ''value'' then (case val of None \<Rightarrow> None | Some w \<Rightarrow> rate_vars vs (ucast (strtoul0 w)))
      else rate_vars vs rate)"

definition nrx_handle_rate_notification :: "nrx_op \<Rightarrow> nrx_data \<Rightarrow> address \<Rightarrow> nrx_st \<Rightarrow> int outcome" where
  "nrx_handle_rate_notification op d p s =
     (case helpers s p of
        Some (Rate_helper n) \<Rightarrow>
          (case op of
             NRX_CB_CANCEL \<Rightarrow>
               (case call_user (nt_handler n) NRX_CB_CANCEL Null_data (nt_user_data n) s of
                  Inl f \<Rightarrow> Inl f
                | Inr (_, s) \<Rightarrow> Inr (0, nfree p (s\<lparr>helpers := (helpers s)(p := None)\<rparr>)))
           | NRX_CB_TRIGGER \<Rightarrow>
               (case d of
                  Custom_data vs \<Rightarrow>
                    (case rate_vars vs 0 of
                       None \<Rightarrow> Inl Bad_access
                     | Some rate \<Rightarrow>
                         if rate \<noteq> 0 then
                           (case call_user (nt_handler n) NRX_CB_TRIGGER (Rate_data rate) (nt_user_data n) s of
                              Inl f \<Rightarrow> Inl f
                            | Inr (_, s) \<Rightarrow> Inr (0, s))
                         else Inr (0, s))
                | _ \<Rightarrow> Inl Bad_access))
      | _ \<Rightarrow> Inl Bad_access)"

section \<open>Calling the handler of a custom event\<close>

definition call_helper :: "helper_fn \<Rightarrow> nrx_op \<Rightarrow> nrx_data \<Rightarrow> address \<Rightarrow> nrx_st \<Rightarrow> int outcome" where
  "call_helper f op d p s =
     (case f of
        Mibtrigger_helper \<Rightarrow> mibtrigger_helper op d p s
      | Nrx_handle_scan_notification \<Rightarrow> nrx_handle_scan_notification op d p s
      | Nrx_handle_conn_lost_notification \<Rightarrow> nrx_handle_conn_lost_notification op d p s
      | Nrx_handle_rate_notification \<Rightarrow> nrx_handle_rate_notification op d p s)"

definition call_custom :: "custom_handler \<Rightarrow> nrx_op \<Rightarrow> nrx_data \<Rightarrow> address \<Rightarrow> nrx_st \<Rightarrow> int outcome" where
  "call_custom h op d ud s =
     (case h of Custom_user cb \<Rightarrow> call_user cb op d ud s | Custom_helper f \<Rightarrow> call_helper f op d ud s)"

section \<open>Facts\<close>

lemma call_user_keeps [nrx_simps]:
  assumes "call_user cb op d ud s = Inr (r, t)"
  shows "sock t = sock s" "netlink_sock t = netlink_sock s" "wx_version t = wx_version s"
    "netlink_handlers t = netlink_handlers s" "we_handlers t = we_handlers s"
    "customs t = customs s" "helpers t = helpers s" "nenv t = nenv s"
    "ncalls t = ncalls s @ [Callback cb op d ud r]" "cb \<noteq> 0"
  using assms by (auto simp: call_user_def Let_def split: if_splits)

text \<open>What no handler does, called or cancelled: touch the lists or the sockets.\<close>

definition same_lists :: "nrx_st \<Rightarrow> nrx_st \<Rightarrow> bool" where
  "same_lists s t \<longleftrightarrow> we_handlers t = we_handlers s \<and> netlink_handlers t = netlink_handlers s
     \<and> sock t = sock s \<and> netlink_sock t = netlink_sock s \<and> wx_version t = wx_version s \<and> nenv t = nenv s"

lemma mibtrigger_lists: "mibtrigger_helper op d p s = Inr (r, t) \<Longrightarrow> same_lists s t"
  by (auto simp: mibtrigger_helper_def nfree_def same_lists_def nrx_simps
      split: option.splits helper_object.splits nrx_op.splits nrx_data.splits sum.splits prod.splits)

lemma scan_notification_lists: "nrx_handle_scan_notification op d p s = Inr (r, t) \<Longrightarrow> same_lists s t"
  by (auto simp: nrx_handle_scan_notification_def nfree_def same_lists_def nrx_simps
      split: option.splits helper_object.splits nrx_op.splits nrx_data.splits sum.splits prod.splits if_splits)

lemma conn_lost_notification_lists: "nrx_handle_conn_lost_notification op d p s = Inr (r, t) \<Longrightarrow> same_lists s t"
  by (auto simp: nrx_handle_conn_lost_notification_def nfree_def same_lists_def nrx_simps
      split: option.splits helper_object.splits nrx_op.splits nrx_data.splits sum.splits prod.splits if_splits)

lemma rate_notification_lists: "nrx_handle_rate_notification op d p s = Inr (r, t) \<Longrightarrow> same_lists s t"
  by (auto simp: nrx_handle_rate_notification_def nfree_def same_lists_def nrx_simps
      split: option.splits helper_object.splits nrx_op.splits nrx_data.splits sum.splits prod.splits if_splits)

lemma call_custom_lists: "call_custom h op d ud s = Inr (r, t) \<Longrightarrow> same_lists s t"
  by (auto simp: call_custom_def call_helper_def same_lists_def nrx_simps
      split: custom_handler.splits helper_fn.splits
      dest: mibtrigger_lists [unfolded same_lists_def] scan_notification_lists [unfolded same_lists_def]
        conn_lost_notification_lists [unfolded same_lists_def] rate_notification_lists [unfolded same_lists_def])

end
