(* ===== verification/Nrx_Event.thy ===== *)
theory Nrx_Event
  imports Nrx_Helpers
begin

text \<open>
  Handlers of events (\<open>src/hardware/wifi/nrx600/event.c\<close>): registering, cancelling and calling them, the
  custom events of the driver, and the MIB triggers that are built on them.

  A custom event is registered as an object of its own plus a handler for \<open>IWEVCUSTOM\<close> whose user data is
  that object; a MIB trigger adds a third object.  So a callback of the application stands at the end of a
  chain of up to three objects, and cancelling any of them must take the whole chain down.
\<close>

abbreviation (input) ENOENT :: int where "ENOENT \<equiv> 2"
abbreviation (input) IWEVCUSTOM :: u16 where "IWEVCUSTOM \<equiv> 0x8C02"
abbreviation (input) IW_CUSTOM_MAX :: nat where "IW_CUSTOM_MAX \<equiv> 256"
abbreviation (input) RTM_NEWLINK :: u16 where "RTM_NEWLINK \<equiv> 16"
abbreviation (input) RTM_DELLINK :: u16 where "RTM_DELLINK \<equiv> 17"

section \<open>Cancelling handlers\<close>

text \<open>\<open>nrx_handle_custom_event\<close> with \<open>NRX_CB_CANCEL\<close>.\<close>

definition custom_event_cancelled :: "address \<Rightarrow> nrx_st \<Rightarrow> int outcome" where
  "custom_event_cancelled priv s =
     (case customs s priv of
        None \<Rightarrow> Inl Bad_access
      | Some ce \<Rightarrow>
          (case call_custom (ce_handler ce) NRX_CB_CANCEL Null_data (ce_user_data ce) s of
             Inl f \<Rightarrow> Inl f
           | Inr (_, s) \<Rightarrow> Inr (0, nfree priv (s\<lparr>customs := (customs s)(priv := None)\<rparr>))))"

definition cancel_we_fn :: "we_handler_fn \<Rightarrow> address \<Rightarrow> nrx_st \<Rightarrow> int outcome" where
  "cancel_we_fn h ud s =
     (case h of
        We_user cb \<Rightarrow> call_user cb NRX_CB_CANCEL Null_data ud s
      | Nrx_handle_custom_event \<Rightarrow> custom_event_cancelled ud s)"

definition unlink :: "address \<Rightarrow> (address \<times> 'a) list \<Rightarrow> (address \<times> 'a) list" where
  "unlink a xs = takeWhile (\<lambda>x. fst x \<noteq> a) xs @ tl (dropWhile (\<lambda>x. fst x \<noteq> a) xs)"

definition nrx_cancel_we_event_handler :: "address \<Rightarrow> nrx_st \<Rightarrow> int outcome" where
  "nrx_cancel_we_event_handler handle s =
     (case map_of (we_handlers s) handle of
        None \<Rightarrow> Inr (EINVAL, s)
      | Some ev \<Rightarrow>
          (case cancel_we_fn (we_handler ev) (we_user_data ev)
                  (s\<lparr>we_handlers := unlink handle (we_handlers s)\<rparr>) of
             Inl f \<Rightarrow> Inl f
           | Inr (_, s) \<Rightarrow> Inr (0, nfree handle s)))"

definition cancel_netlink_fn :: "netlink_handler_fn \<Rightarrow> address \<Rightarrow> nrx_st \<Rightarrow> int outcome" where
  "cancel_netlink_fn h ud s =
     (case h of
        Netlink_user cb \<Rightarrow> call_user cb NRX_CB_CANCEL Null_data ud s
      | Rtnetlink_event \<Rightarrow> Inr (0, s))"

definition nrx_cancel_netlink_handler :: "address \<Rightarrow> nrx_st \<Rightarrow> unit outcome" where
  "nrx_cancel_netlink_handler handle s =
     (case map_of (netlink_handlers s) handle of
        None \<Rightarrow> Inr ((), s)
      | Some ev \<Rightarrow>
          (case cancel_netlink_fn (nl_handler ev) (nl_user_data ev)
                  (s\<lparr>netlink_handlers := unlink handle (netlink_handlers s)\<rparr>) of
             Inl f \<Rightarrow> Inl f
           | Inr (_, s) \<Rightarrow> Inr ((), nfree handle s)))"

definition find_we_by_userdata :: "address \<Rightarrow> nrx_st \<Rightarrow> (address \<times> nrx_we_event) option" where
  "find_we_by_userdata ud s = find (\<lambda>(a, ev). we_user_data ev = ud) (we_handlers s)"

definition nrx_cancel_custom_event :: "address \<Rightarrow> nrx_st \<Rightarrow> int outcome" where
  "nrx_cancel_custom_event handle s =
     (if handle = 0 then Inl (Exited 1)
      else case find_we_by_userdata handle s of
        None \<Rightarrow> Inr (EINVAL, s)
      | Some _ \<Rightarrow>
          (case customs s handle of
             None \<Rightarrow> Inl Bad_access
           | Some ce \<Rightarrow> nrx_cancel_we_event_handler (ev_handler ce) s))"

text \<open>The elements of a part of the handler list that are still linked.\<close>

definition linked :: "nrx_st \<Rightarrow> (address \<times> nrx_we_event) list \<Rightarrow> (address \<times> nrx_we_event) list" where
  "linked s xs = filter (\<lambda>x. fst x \<in> fst ` set (we_handlers s)) xs"

text \<open>The loop of \<open>nrx_cancel_custom_event_by_id\<close> over the rest of the list: the successor is read before
  the element is cancelled, so it may be gone itself when the loop gets there.\<close>

function (sequential) cancel_by_id_loop ::
    "string option \<Rightarrow> u32 \<Rightarrow> (address \<times> nrx_we_event) list \<Rightarrow> int \<Rightarrow> nrx_st \<Rightarrow> int outcome" where
  "cancel_by_id_loop type i [] ret s = Inr (ret, s)"
| "cancel_by_id_loop type i ((a, ev) # rest) ret s =
     (if a \<notin> fst ` set (we_handlers s) then Inl Bad_access
      else if we_cmd ev = IWEVCUSTOM \<and> we_handler ev = Nrx_handle_custom_event then
        (case customs s (we_user_data ev) of
           None \<Rightarrow> Inl Bad_access
         | Some ce \<Rightarrow>
             if ce_id ce = i \<and> (type = None \<or> type = Some (ce_type ce)) then
               (case nrx_cancel_custom_event (we_user_data ev) s of
                  Inl f \<Rightarrow> Inl f
                | Inr (r, s) \<Rightarrow>
                    if r \<noteq> 0 then Inr (r, s)
                    else cancel_by_id_loop type i (take 1 rest @ linked s (drop 1 rest)) r s)
             else cancel_by_id_loop type i rest ret s)
      else cancel_by_id_loop type i rest ret s)"
  by pat_completeness auto

termination
  by (relation "measure (\<lambda>(t, i, xs, r, s). length xs)")
    (auto simp: linked_def min_def intro!: le_less_trans [OF length_filter_le])

definition nrx_cancel_custom_event_by_id :: "string option \<Rightarrow> u32 \<Rightarrow> nrx_st \<Rightarrow> int outcome" where
  "nrx_cancel_custom_event_by_id type i s = cancel_by_id_loop type i (we_handlers s) 0 s"

section \<open>Registering handlers\<close>

definition nrx_register_we_event_handler ::
    "u16 \<Rightarrow> we_handler_fn \<Rightarrow> address \<Rightarrow> nrx_st \<Rightarrow> address \<times> nrx_st" where
  "nrx_register_we_event_handler cmd h ud s =
     (let s = snd (nrx_event_connection_number s);
          (ev, s) = nmalloc s
      in case ev of
           None \<Rightarrow> (0, s)
         | Some a \<Rightarrow>
             (a, s\<lparr>we_handlers := we_handlers s @
               [(a, \<lparr>we_cmd = cmd, we_handler = h, we_user_data = ud\<rparr>)]\<rparr>))"

definition nrx_register_netlink_handler ::
    "u16 \<Rightarrow> u32 \<Rightarrow> u32 \<Rightarrow> netlink_handler_fn \<Rightarrow> address \<Rightarrow> nrx_st \<Rightarrow> address \<times> nrx_st" where
  "nrx_register_netlink_handler type pid seq h ud s =
     (let (ev, s) = nmalloc s
      in case ev of
           None \<Rightarrow> (0, s)
         | Some a \<Rightarrow>
             (a, s\<lparr>netlink_handlers := netlink_handlers s @
               [(a, \<lparr>nl_type = type, nl_pid = pid, nl_seq = seq, nl_handler = h, nl_user_data = ud\<rparr>)]\<rparr>))"

text \<open>\<open>ce->type\<close> has 32 bytes (\<open>strlcpy\<close>).\<close>

definition nrx_register_custom_event ::
    "string option \<Rightarrow> u32 \<Rightarrow> custom_handler \<Rightarrow> address \<Rightarrow> nrx_st \<Rightarrow> address \<times> nrx_st" where
  "nrx_register_custom_event type i h ud s =
     (let (m, s) = nmalloc s
      in case m of
           None \<Rightarrow> (0, s)
         | Some p \<Rightarrow>
             let ce = \<lparr>ce_type = (case type of None \<Rightarrow> [] | Some t \<Rightarrow> take 31 t), ce_id = i, ce_handler = h,
                   ce_user_data = ud, ev_handler = 0\<rparr>;
                 (ev, s) = nrx_register_we_event_handler IWEVCUSTOM Nrx_handle_custom_event p s
             in if ev = 0 then (0, nfree p s)
                else (p, s\<lparr>customs := (customs s)(p \<mapsto> ce\<lparr>ev_handler := ev\<rparr>)\<rparr>))"

text \<open>A new object with the callback of the application, given to one of the library's own handlers.\<close>

definition register_helper :: "string \<Rightarrow> u32 \<Rightarrow> helper_fn \<Rightarrow> helper_object \<Rightarrow> nrx_st \<Rightarrow> address \<times> nrx_st" where
  "register_helper type i f obj s =
     (let (m, s) = nmalloc s
      in case m of
           None \<Rightarrow> (0, s)
         | Some p \<Rightarrow>
             nrx_register_custom_event (Some type) i (Custom_helper f) p (s\<lparr>helpers := (helpers s)(p \<mapsto> obj)\<rparr>))"

definition nrx_register_mib_trigger_event_handler :: "u32 \<Rightarrow> callback \<Rightarrow> address \<Rightarrow> nrx_st \<Rightarrow> address \<times> nrx_st" where
  "nrx_register_mib_trigger_event_handler i cb ud s =
     register_helper ''MIBTRIG'' i Mibtrigger_helper (Event_helper \<lparr>hd_cb = cb, hd_user_data = ud\<rparr>) s"

definition nrx_cancel_mib_trigger_event_handler :: "address \<Rightarrow> nrx_st \<Rightarrow> int outcome" where
  "nrx_cancel_mib_trigger_event_handler handle s = nrx_cancel_custom_event handle s"

text \<open>The triggers of the driver itself.  \<open>strncpy\<close> leaves \<open>param.mib_id\<close> (16 bytes) without a terminating
  zero when the name has 16 characters or more, and \<open>strlen\<close> then reads on.\<close>

definition nrx_register_mib_trigger ::
    "string \<Rightarrow> 32 word \<Rightarrow> u32 \<Rightarrow> 32 word \<Rightarrow> u8 \<Rightarrow> u16 \<Rightarrow> u16 \<Rightarrow> nrx_st \<Rightarrow> (int \<times> u32 option) outcome" where
  "nrx_register_mib_trigger mib_id gating interval level dir count mode s =
     (if 16 \<le> length mib_id then Inl Bad_access
      else
        let param = \<lparr>mt_mib_id = mib_id, mt_mib_id_len = length mib_id, mt_gating_trig_id = gating,
              mt_supv_interval = interval, mt_level = level, mt_dir = dir, mt_event_count = count,
              mt_trigmode = mode\<rparr>;
            (ret, s) = nrx_nrxioctl (NRXIOWREGMIBTRIG param) s
        in Inr ((ret, if ret \<noteq> 0 then None else Some (nx_ioctl_trig_id (nenv s) (ncalls s))), s))"

definition nrx_del_mib_trigger :: "u32 \<Rightarrow> nrx_st \<Rightarrow> int \<times> nrx_st" where
  "nrx_del_mib_trigger trig_id s = nrx_nrxioctl (Write_ioc NRXIOWDELMIBTRIG trig_id) s"

section \<open>Set-up and end\<close>

definition nrx_netlink_init :: "nrx_st \<Rightarrow> nrx_st" where
  "nrx_netlink_init s =
     (let s = s\<lparr>netlink_sock := -1, netlink_handlers := [], we_handlers := []\<rparr>;
          s = snd (nrx_register_netlink_handler RTM_NEWLINK 0 0 Rtnetlink_event 0 s)
      in snd (nrx_register_netlink_handler RTM_DELLINK 0 0 Rtnetlink_event 0 s))"

lemma length_unlink:
  "map_of xs a = Some v \<Longrightarrow> length (unlink a xs) < length xs"
proof -
  assume "map_of xs a = Some v"
  then have "a \<in> fst ` set xs" by (metis domI dom_map_of_conv_image_fst)
  then have "dropWhile (\<lambda>x. fst x \<noteq> a) xs \<noteq> []" by (auto simp: dropWhile_eq_Nil_conv)
  then show ?thesis using takeWhile_dropWhile_id [of "\<lambda>x. fst x \<noteq> a" xs] unfolding unlink_def
    by (metis (no_types, lifting) append_self_conv2 diff_less length_append length_greater_0_conv length_tl nat_add_left_cancel_less zero_less_one)
qed

lemma cancel_we_fn_lists: "cancel_we_fn h ud s = Inr (r, t) \<Longrightarrow> same_lists s t"
  by (auto simp: cancel_we_fn_def custom_event_cancelled_def nfree_def nrx_simps same_lists_def
      split: we_handler_fn.splits option.splits sum.splits dest!: call_custom_lists call_user_keeps)

lemma cancel_netlink_fn_lists: "cancel_netlink_fn h ud s = Inr (r, t) \<Longrightarrow> same_lists s t"
  by (auto simp: cancel_netlink_fn_def same_lists_def nrx_simps split: netlink_handler_fn.splits)

lemma cancel_we_lists:
  "nrx_cancel_we_event_handler a s = Inr (r, t) \<Longrightarrow> map_of (we_handlers s) a = Some ev \<Longrightarrow>
    we_handlers t = unlink a (we_handlers s) \<and> netlink_handlers t = netlink_handlers s \<and> sock t = sock s"
  by (auto simp: nrx_cancel_we_event_handler_def nfree_def same_lists_def
      split: sum.splits option.splits dest!: cancel_we_fn_lists)

lemma cancel_netlink_lists:
  "nrx_cancel_netlink_handler a s = Inr (r, t) \<Longrightarrow> map_of (netlink_handlers s) a = Some ev \<Longrightarrow>
    netlink_handlers t = unlink a (netlink_handlers s) \<and> we_handlers t = we_handlers s \<and> sock t = sock s"
  by (auto simp: nrx_cancel_netlink_handler_def nfree_def same_lists_def
      split: sum.splits option.splits dest!: cancel_netlink_fn_lists)

function cancel_all_netlink :: "nrx_st \<Rightarrow> unit outcome" where
  "cancel_all_netlink s =
     (case netlink_handlers s of
        [] \<Rightarrow> Inr ((), s)
      | (a, _) # _ \<Rightarrow>
          (case nrx_cancel_netlink_handler a s of
             Inl f \<Rightarrow> Inl f
           | Inr (_, s) \<Rightarrow> cancel_all_netlink s))"
  by pat_completeness auto

termination
  by (relation "measure (\<lambda>s. length (netlink_handlers s))") (auto dest!: cancel_netlink_lists simp: unlink_def)

function cancel_all_we :: "nrx_st \<Rightarrow> unit outcome" where
  "cancel_all_we s =
     (case we_handlers s of
        [] \<Rightarrow> Inr ((), s)
      | (a, _) # _ \<Rightarrow>
          (case nrx_cancel_we_event_handler a s of
             Inl f \<Rightarrow> Inl f
           | Inr (_, s) \<Rightarrow> cancel_all_we s))"
  by pat_completeness auto

termination
  by (relation "measure (\<lambda>s. length (we_handlers s))") (auto dest!: cancel_we_lists simp: unlink_def)

declare cancel_all_netlink.simps [simp del] cancel_all_we.simps [simp del]

definition nrx_netlink_free :: "nrx_st \<Rightarrow> unit outcome" where
  "nrx_netlink_free s =
     (let s = (if 0 \<le> netlink_sock s then (nclose (netlink_sock s) s)\<lparr>netlink_sock := -1\<rparr> else s)
      in case cancel_all_netlink s of
           Inl f \<Rightarrow> Inl f
         | Inr (_, s) \<Rightarrow> cancel_all_we s)"

definition nrx_free_context :: "nrx_st \<Rightarrow> unit outcome" where
  "nrx_free_context s =
     (if 0 \<le> sock s
      then case nrx_netlink_free ((nclose (sock s) (nlog (Shutdown_of (sock s)) s))\<lparr>sock := -1\<rparr>) of
             Inl f \<Rightarrow> Inl f
           | Inr (_, s) \<Rightarrow> Inr ((), nlog Free_context s)
      else Inr ((), nlog Free_context s))"

end
