(* ===== verification/Nrx_Dispatch.thy ===== *)
theory Nrx_Dispatch
  imports Nrx_Event
begin

text \<open>
  How an event reaches its callbacks (\<open>src/hardware/wifi/nrx600/event.c\<close>): \<open>nrx_next_event\<close> receives a packet of
  netlink messages into a buffer of 1024 bytes, \<open>netlink_event\<close> walks over the messages, \<open>rtnetlink_event\<close>
  over the attributes of a message, \<open>we_dispatch\<close> over the handlers, and \<open>nrx_handle_custom_event\<close> takes the
  text of a custom event apart.

  A pointer into the buffer is an offset; the lengths are 32 bits wide and wrap, as \<open>size_t\<close> does.  A read
  outside the buffer is \<open>Bad_access\<close>.
\<close>

section \<open>Custom events\<close>

lemma split_token_shorter: "split_token sep buf = (Some t, rest) \<Longrightarrow> length rest < length buf"
proof -
  assume h: "split_token sep buf = (Some t, rest)"
  let ?s = "dropWhile char_isspace buf"
  have tl: "(if q = [] then q else tl q) = tl q" for q :: string by (cases q) simp_all
  have s: "?s \<noteq> []"
  proof
    assume "?s = []"
    with h show False unfolding split_token_def Let_def by simp
  qed
  with h have r: "rest = tl (dropWhile (\<lambda>c. c \<notin> set sep) ?s)"
    unfolding split_token_def Let_def tl if_not_P [OF s] by blast
  have "length rest \<le> length ?s - 1"
    unfolding r length_tl by (rule diff_le_mono) (rule length_dropWhile_le)
  also have "\<dots> < length buf"
    using s length_dropWhile_le [of char_isspace buf] by (cases ?s) auto
  finally show ?thesis .
qed

text \<open>The loop over the variables of a custom event: \<open>Inr None\<close> when it is for another id.  A variable without
  name makes \<open>strcmp\<close> read a null pointer; the arrays of variables have eight elements and are not checked.\<close>

function parse_vars ::
    "nrx_custom_event_t \<Rightarrow> string \<Rightarrow> (string \<times> string option) list \<Rightarrow>
      fault + (string \<times> string option) list option" where
  "parse_vars ce ntoken vars =
     (case split_token '',()'' ntoken of
        (None, _) \<Rightarrow> Inr (Some vars)
      | (Some token, ntoken') \<Rightarrow>
          let (var, token) = split_token ''='' token;
              (val, token) = split_token ''='' token
          in case var of
               None \<Rightarrow> Inl Bad_access
             | Some v \<Rightarrow>
                 if v = ''id'' \<and> ce_id ce \<noteq> 0 \<and> (case val of None \<Rightarrow> False | Some w \<Rightarrow> strtoul0 w \<noteq> ce_id ce)
                 then Inr None
                 else if 8 \<le> length vars then Inl Bad_access
                 else parse_vars ce ntoken' (vars @ [(v, val)]))"
  by pat_completeness auto

termination
  by (relation "measure (\<lambda>(ce, buf, vars). length buf)") (auto dest: sym [THEN split_token_shorter])

declare parse_vars.simps [simp del]

text \<open>The text of a custom event: who it is for and what it says.\<close>

datatype custom_msg = Not_for_me | For_me bool "(string \<times> string option) list"

definition parse_custom :: "nrx_custom_event_t \<Rightarrow> string \<Rightarrow> fault + custom_msg" where
  "parse_custom ce msg =
     (case split_token '',()'' msg of
        (None, _) \<Rightarrow> Inl Bad_access
      | (Some token, ntoken) \<Rightarrow>
          if token \<noteq> ''NRX'' then Inr Not_for_me
          else case split_token '',()'' ntoken of
            (None, _) \<Rightarrow> Inl Bad_access
          | (Some token, ntoken) \<Rightarrow>
              let cancel = (token = ''CANCEL'');
                  (token, ntoken) =
                    (if cancel then split_token '',()'' ntoken else (Some token, ntoken))
              in if ce_type ce \<noteq> [] \<and> token = None then Inl Bad_access
                 else if ce_type ce \<noteq> [] \<and> token \<noteq> Some (ce_type ce) then Inr Not_for_me
                 else case parse_vars ce ntoken [] of
                   Inl f \<Rightarrow> Inl f
                 | Inr None \<Rightarrow> Inr Not_for_me
                 | Inr (Some vars) \<Rightarrow> Inr (For_me cancel vars))"

text \<open>\<open>nrx_handle_custom_event\<close> with \<open>NRX_CB_TRIGGER\<close>.\<close>

definition custom_event_triggered :: "u8 list \<Rightarrow> u32 \<Rightarrow> address \<Rightarrow> nrx_st \<Rightarrow> int outcome" where
  "custom_event_triggered mem len priv s =
     (let hlen = (if sint (wx_version s - 19) < 0 then 4 else 0) + 4;
          plen = STREAM_TO_UINT16 mem (hlen - 4)
      in if length mem < hlen then Inl Bad_access
         else if len \<noteq> of_nat (unat plen + hlen) \<or> IW_CUSTOM_MAX < unat plen then Inr (0, s)
         else if length mem < hlen + unat plen then Inl Bad_access
         else case customs s priv of
           None \<Rightarrow> Inl Bad_access
         | Some ce \<Rightarrow>
             (case parse_custom ce (cstring_of (take (unat plen) (drop hlen mem))) of
                Inl f \<Rightarrow> Inl f
              | Inr Not_for_me \<Rightarrow> Inr (0, s)
              | Inr (For_me cancel vars) \<Rightarrow>
                  if cancel then
                    (case nrx_cancel_custom_event priv s of Inl f \<Rightarrow> Inl f | Inr (_, s) \<Rightarrow> Inr (0, s))
                  else if ce_handler ce = Custom_user 0 then Inr (0, s)
                  else
                    (case call_custom (ce_handler ce) NRX_CB_TRIGGER (Custom_data vars) (ce_user_data ce) s of
                       Inl f \<Rightarrow> Inl f
                     | Inr (r, s) \<Rightarrow> Inr (if r \<noteq> 0 then ENOENT else 0, s))))"

section \<open>Handlers of wireless events\<close>

definition trigger_we_fn :: "we_handler_fn \<Rightarrow> u16 \<Rightarrow> u8 list \<Rightarrow> u32 \<Rightarrow> address \<Rightarrow> nrx_st \<Rightarrow> int outcome" where
  "trigger_we_fn h cmd mem len ud s =
     (case h of
        We_user cb \<Rightarrow> call_user cb NRX_CB_TRIGGER (We_data cmd mem len) ud s
      | Nrx_handle_custom_event \<Rightarrow> custom_event_triggered mem len ud s)"

text \<open>\<open>TAILQ_FOREACH\<close> reads the successor out of the element after its handler has run.\<close>

function (sequential) we_dispatch_loop ::
    "u16 \<Rightarrow> u8 list \<Rightarrow> u32 \<Rightarrow> (address \<times> nrx_we_event) list \<Rightarrow> nrx_st \<Rightarrow> unit outcome" where
  "we_dispatch_loop cmd mem len [] s = Inr ((), s)"
| "we_dispatch_loop cmd mem len ((a, ev) # rest) s =
     (if we_cmd ev = 0 \<or> we_cmd ev = cmd then
        (case trigger_we_fn (we_handler ev) cmd mem len (we_user_data ev) s of
           Inl f \<Rightarrow> Inl f
         | Inr (_, t) \<Rightarrow>
             if a \<notin> fst ` set (we_handlers t) then Inl Bad_access
             else we_dispatch_loop cmd mem len (linked t rest) t)
      else we_dispatch_loop cmd mem len rest s)"
  by pat_completeness auto

termination
  by (relation "measure (\<lambda>(c, m, l, xs, s). length xs)") (auto simp: linked_def less_Suc_eq_le)

definition we_dispatch :: "u16 \<Rightarrow> u8 list \<Rightarrow> u32 \<Rightarrow> nrx_st \<Rightarrow> unit outcome" where
  "we_dispatch cmd mem len s = we_dispatch_loop cmd mem len (we_handlers s) s"

section \<open>Attributes of a message\<close>

definition peek16 :: "u8 list \<Rightarrow> nat \<Rightarrow> u16 option" where
  "peek16 mem i = (if i + 2 \<le> length mem then Some (STREAM_TO_UINT16 mem i) else None)"

definition peek32 :: "u8 list \<Rightarrow> nat \<Rightarrow> u32 option" where
  "peek32 mem i = (if i + 4 \<le> length mem then Some (STREAM_TO_UINT32 mem i) else None)"

text \<open>\<open>NLMSG_ALIGN\<close> and \<open>RTA_ALIGN\<close>.\<close>

definition align4 :: "u32 \<Rightarrow> u32" where
  "align4 n = (n + 3) AND NOT 3"

abbreviation (input) IFLA_WIRELESS :: u16 where "IFLA_WIRELESS \<equiv> 11"

lemma align4_alt: "align4 n = push_bit 2 (drop_bit 2 (n + 3))"
proof -
  have "align4 n = (n + 3) AND NOT (mask 2)" by (simp add: align4_def mask_eq_exp_minus_1)
  also have "\<dots> = push_bit 2 (drop_bit 2 (n + 3))"
    by (rule bit_word_eqI) (auto simp: bit_simps not_less simp del: mask_numeral dest!: le_Suc_ex)
  finally show ?thesis .
qed

lemma unat_align4: "unat n + 3 < 2 ^ 32 \<Longrightarrow> unat (align4 n) = (unat n + 3) div 4 * 4"
proof -
  assume n: "unat n + 3 < 2 ^ 32"
  then have s: "unat (n + 3) = unat n + 3" by (simp add: unat_word_ariths)
  have "unat (align4 n) = take_bit 32 (push_bit 2 (drop_bit 2 (take_bit 32 (unat (n + 3)))))"
    unfolding align4_alt unsigned_push_bit_eq unsigned_drop_bit_eq by simp
  also have "\<dots> = (unat n + 3) div 4 * 4 mod 2 ^ 32"
    using n by (simp only: s push_bit_eq_mult drop_bit_eq_div take_bit_eq_mod) simp
  also have "\<dots> = (unat n + 3) div 4 * 4"
    by (rule mod_less) (rule le_less_trans [OF _ n], simp)
  finally show ?thesis .
qed

lemma align4_u16: "unat (align4 (ucast (l :: u16))) = (unat l + 3) div 4 * 4"
proof -
  have l: "unat l < 2 ^ 16" using unsigned_less [of l, where ?'a = nat] by simp
  then have "unat (ucast l :: u32) = unat l" by (simp add: unsigned_ucast_eq take_bit_nat_eq_self)
  with l show ?thesis by (subst unat_align4) auto
qed

lemma align4_u16_pos: "\<not> l < 4 \<Longrightarrow> 0 < unat (align4 (ucast (l :: u16)))"
  by (auto simp: align4_u16 word_less_nat_alt)

text \<open>The loop of \<open>rtnetlink_event\<close> from the attribute at offset \<open>rta\<close>, with \<open>rta_len\<close> bytes left to it.\<close>

function rtnetlink_walk :: "u8 list \<Rightarrow> nat \<Rightarrow> u32 \<Rightarrow> nrx_st \<Rightarrow> int outcome" where
  "rtnetlink_walk mem rta rta_len s =
     (if rta_len < 4 then Inr (0, s)
      else case peek16 mem rta of
        None \<Rightarrow> Inl Bad_access
      | Some l \<Rightarrow>
          if l < 4 \<or> rta_len < ucast l then Inr (0, s)
          else
            (case (case peek16 mem (rta + 2) of
                     None \<Rightarrow> Inl Bad_access
                   | Some type \<Rightarrow>
                       if type = IFLA_WIRELESS then
                         if l - 4 < 4 then Inl (Exited 1)
                         else (case peek16 mem (rta + 6) of
                                 None \<Rightarrow> Inl Bad_access
                               | Some cmd \<Rightarrow> we_dispatch cmd (drop (rta + 8) mem) (ucast l - 4 - 4) s)
                       else Inr ((), s)) of
               Inl f \<Rightarrow> Inl f
             | Inr (_, s) \<Rightarrow>
                 rtnetlink_walk mem (rta + unat (align4 (ucast l))) (rta_len - align4 (ucast l)) s))"
  by pat_completeness auto

termination
  by (relation "measure (\<lambda>(mem, rta, l, s). length mem - rta)")
    (auto simp: peek16_def split: if_splits intro!: diff_less_mono2 dest: align4_u16_pos)

declare rtnetlink_walk.simps [simp del]

text \<open>\<open>rtnetlink_event\<close> with \<open>NRX_CB_TRIGGER\<close> for the message at offset \<open>nh\<close>.\<close>

definition rtnetlink_event :: "u8 list \<Rightarrow> nat \<Rightarrow> nrx_st \<Rightarrow> int outcome" where
  "rtnetlink_event mem nh s =
     (case peek32 mem nh of
        None \<Rightarrow> Inl Bad_access
      | Some nlmsg_len \<Rightarrow>
          if nlmsg_len < 16 then Inr (EINVAL, s)
          else rtnetlink_walk mem (nh + 16 + 16) (nlmsg_len - 16) s)"

section \<open>Messages\<close>

definition field_match :: "'a :: zero \<Rightarrow> 'a option \<Rightarrow> bool option" where
  "field_match want got = (if want = 0 then Some True else map_option (\<lambda>v. want = v) got)"

definition nl_match :: "u8 list \<Rightarrow> nat \<Rightarrow> nrx_netlink_event \<Rightarrow> bool option" where
  "nl_match mem nh ev =
     (case field_match (nl_type ev) (peek16 mem (nh + 4)) of
        None \<Rightarrow> None
      | Some False \<Rightarrow> Some False
      | Some True \<Rightarrow>
          (case field_match (nl_pid ev) (peek32 mem (nh + 12)) of
             None \<Rightarrow> None
           | Some False \<Rightarrow> Some False
           | Some True \<Rightarrow> field_match (nl_seq ev) (peek32 mem (nh + 8))))"

definition trigger_netlink_fn :: "netlink_handler_fn \<Rightarrow> u8 list \<Rightarrow> nat \<Rightarrow> address \<Rightarrow> nrx_st \<Rightarrow> int outcome" where
  "trigger_netlink_fn h mem nh ud s =
     (case h of
        Netlink_user cb \<Rightarrow> call_user cb NRX_CB_TRIGGER (Nl_data (drop nh mem)) ud s
      | Rtnetlink_event \<Rightarrow> rtnetlink_event mem nh s)"

text \<open>No handler changes the list of netlink handlers.\<close>

fun netlink_dispatch_loop ::
    "u8 list \<Rightarrow> nat \<Rightarrow> (address \<times> nrx_netlink_event) list \<Rightarrow> bool \<Rightarrow> nrx_st \<Rightarrow> int outcome" where
  "netlink_dispatch_loop mem nh [] handled s = Inr (if handled then 0 else ENOENT, s)"
| "netlink_dispatch_loop mem nh ((_, ev) # evs) handled s =
     (case nl_match mem nh ev of
        None \<Rightarrow> Inl Bad_access
      | Some False \<Rightarrow> netlink_dispatch_loop mem nh evs handled s
      | Some True \<Rightarrow>
          (case trigger_netlink_fn (nl_handler ev) mem nh (nl_user_data ev) s of
             Inl f \<Rightarrow> Inl f
           | Inr (r, s) \<Rightarrow> netlink_dispatch_loop mem nh evs (handled \<or> r = 0) s))"

definition netlink_dispatch :: "u8 list \<Rightarrow> nat \<Rightarrow> nrx_st \<Rightarrow> int outcome" where
  "netlink_dispatch mem nh s = netlink_dispatch_loop mem nh (netlink_handlers s) False s"

text \<open>The loop of \<open>netlink_event\<close>.  A length of nearly \<open>2 ^ 32\<close> is rounded to 0, so it need not end.\<close>

partial_function (option) netlink_event :: "u8 list \<Rightarrow> nat \<Rightarrow> u32 \<Rightarrow> nrx_st \<Rightarrow> int outcome option" where
  "netlink_event mem nh len s =
     (if len < 16 then Some (Inr (0, s))
      else case peek32 mem nh of
        None \<Rightarrow> Some (Inl Bad_access)
      | Some l \<Rightarrow>
          if l < 16 \<or> len < l then Some (Inr (0, s))
          else
            (case netlink_dispatch mem nh s of
               Inl f \<Rightarrow> Some (Inl f)
             | Inr (_, s) \<Rightarrow> netlink_event mem (nh + unat (align4 l)) (len - align4 l) s))"

definition nrx_next_event :: "nrx_st \<Rightarrow> int outcome option" where
  "nrx_next_event s =
     (let (fd, s) = nrx_event_connection_number s
      in if fd < 0 then Some (Inr (errno s, s))
         else
           let (n, buf) = nx_recv (nenv s) (ncalls s); s = nlog (Recvfrom fd n) s
           in if n < 0 then Some (Inr (errno s, s))
              else if n = 0 then Some (Inr (0, s))
              else netlink_event buf 0 (of_int n) s)"

end
