(* ===== verification/Nrx_Scan.thy ===== *)
theory Nrx_Scan
  imports Nrx_Event
begin

text \<open>
  Scanning (\<open>src/hardware/wifi/nrx600/scan.c\<close>): the configuration of the scanner with its checks, scan filters
  and jobs, notifications, and the walk over the entries of a list of scan results.
\<close>

abbreviation (input) EOPNOTSUPP :: int where "EOPNOTSUPP \<equiv> 95"

section \<open>Configuration\<close>

definition supp_rates :: "u8 list" where
  "supp_rates = [2, 4, 11, 12, 18, 22, 24, 36, 44, 48, 66, 72, 96, 108]"

definition nrx_is_supp_rate :: "u8 \<Rightarrow> bool" where
  "nrx_is_supp_rate rate = (rate \<in> set supp_rates)"

text \<open>Milliseconds to time units of 1024 microseconds.\<close>

definition MS2TU :: "u32 \<Rightarrow> u32" where
  "MS2TU t = t - t div 43"

record scan_times =
  st_scan_period :: u32
  st_probe_delay :: u16
  st_pa_ch_time :: u16
  st_ac_min_ch_time :: u16
  st_ac_max_ch_time :: u16
  st_as_scan_period :: u32
  st_as_min_ch_time :: u16
  st_as_max_ch_time :: u16
  st_max_scan_period :: u32
  st_max_as_scan_period :: u32

definition nrx_conf_scan :: "u32 \<Rightarrow> u8 \<Rightarrow> u8 \<Rightarrow> u32 \<Rightarrow> scan_times \<Rightarrow> u8 \<Rightarrow> nrx_st \<Rightarrow> int \<times> nrx_st" where
  "nrx_conf_scan preamble rate probes_per_ch pol t period_repetition s =
     (if \<not> 1 \<le> probes_per_ch then (EINVAL, s)
      else if \<not> st_ac_min_ch_time t \<le> st_ac_max_ch_time t then (EINVAL, s)
      else if \<not> st_as_min_ch_time t \<le> st_as_max_ch_time t then (EINVAL, s)
      else if \<not> 1 \<le> st_probe_delay t then (EINVAL, s)
      else if \<not> 1 \<le> period_repetition then (EINVAL, s)
      else if \<not> (rate = 0 \<or> nrx_is_supp_rate rate) then (EINVAL, s)
      else nrx_nrxioctl (NRXIOWSCANCONF
        \<lparr>sc_preamble = preamble, sc_rate = rate, sc_probes_per_ch = probes_per_ch, sc_notif_pol = ucast pol,
         sc_scan_period = MS2TU (st_scan_period t), sc_probe_delay = ucast (st_probe_delay t),
         sc_pa_min_ch_time = st_pa_ch_time t, sc_pa_max_ch_time = st_pa_ch_time t,
         sc_ac_min_ch_time = st_ac_min_ch_time t, sc_ac_max_ch_time = st_ac_max_ch_time t,
         sc_as_scan_period = MS2TU (st_as_scan_period t),
         sc_as_min_ch_time = st_as_min_ch_time t, sc_as_max_ch_time = st_as_max_ch_time t,
         sc_max_scan_period = MS2TU (st_max_scan_period t),
         sc_max_as_scan_period = MS2TU (st_max_as_scan_period t),
         sc_period_repetition = period_repetition\<rparr>) s)"

section \<open>Filters and jobs\<close>

definition nrx_set_scan_job_state :: "u32 \<Rightarrow> u32 \<Rightarrow> nrx_st \<Rightarrow> int \<times> nrx_st" where
  "nrx_set_scan_job_state sj_id state s = nrx_nrxioctl (NRXIOWSCANJOBSTATE sj_id state) s"

definition nrx_add_scan_filter :: "u32 \<Rightarrow> int \<Rightarrow> u32 \<Rightarrow> u16 \<Rightarrow> nrx_st \<Rightarrow> int \<times> u32 option \<times> nrx_st" where
  "nrx_add_scan_filter bss_type rssi_thr snr_thr threshold_type s =
     (if \<not> (- 120 \<le> rssi_thr \<and> rssi_thr \<le> 100) then (EINVAL, None, s)
      else if \<not> snr_thr \<le> 40 then (EINVAL, None, s)
      else
        let (ret, s) = nrx_nrxioctl (NRXIOWRSCANADDFILTER bss_type rssi_thr snr_thr threshold_type) s
        in (ret, Some (if ret = 0 then nx_ioctl_scan_id (nenv s) (ncalls s) else 0), s))"

definition nrx_delete_scan_filter :: "u32 \<Rightarrow> nrx_st \<Rightarrow> int \<times> nrx_st" where
  "nrx_delete_scan_filter sf_id s = nrx_nrxioctl (Write_ioc NRXIOWSCANDELFILTER sf_id) s"

text \<open>The loop over the channels.  \<open>nrx_ch_list_t\<close> has 14 channels and \<open>param.channels\<close> has 16: reading
  the fifteenth is outside the list.  \<open>Inl\<close> for a fault, \<open>Inr None\<close> for a channel with a high byte.\<close>

fun copy_channels :: "u16 list \<Rightarrow> nat \<Rightarrow> nat \<Rightarrow> u8 list \<Rightarrow> fault + u8 list option" where
  "copy_channels channel i 0 acc = Inr (Some acc)"
| "copy_channels channel i (Suc n) acc =
     (if length channel \<le> i then Inl Bad_access
      else if channel ! i AND 0xFF00 \<noteq> 0 then Inr None
      else copy_channels channel (Suc i) n (acc @ [ucast (channel ! i)]))"

record scan_job =
  jb_ssid :: "u8 list"
  jb_ssid_len :: u32
  jb_bssid :: "u8 list"
  jb_scan_type :: u8
  jb_ch_len :: "32 word"
  jb_channel :: "u16 list"
  jb_flags :: u32
  jb_prio :: u8
  jb_ap_exclude :: u8
  jb_sf_id :: u32
  jb_run_every_nth_period :: u8

text \<open>\<open>ch_list.len > sizeof(param.channels)\<close> compares as unsigned numbers, so a negative length is refused.\<close>

definition nrx_add_scan_job :: "scan_job \<Rightarrow> nrx_st \<Rightarrow> (int \<times> u32 option) outcome" where
  "nrx_add_scan_job j s =
     (if \<not> (1 \<le> jb_prio j \<and> jb_prio j \<le> 128) then Inr ((EINVAL, None), s)
      else if \<not> (jb_ap_exclude j = 0 \<or> jb_ap_exclude j = 1) then Inr ((EINVAL, None), s)
      else if 32 < jb_ssid_len j then Inr ((EINVAL, None), s)
      else if 16 < jb_ch_len j then Inr ((EINVAL, None), s)
      else
        case copy_channels (jb_channel j) 0 (nat (sint (jb_ch_len j))) [] of
          Inl f \<Rightarrow> Inl f
        | Inr None \<Rightarrow> Inr ((EINVAL, None), s)
        | Inr (Some chs) \<Rightarrow>
            let (ret, s) = nrx_nrxioctl (NRXIOWRSCANADDJOB
                  \<lparr>sj_ssid = take (unat (jb_ssid_len j)) (jb_ssid j), sj_bssid = jb_bssid j,
                   sj_scan_type = jb_scan_type j, sj_channels = chs, sj_flags = jb_flags j, sj_prio = jb_prio j,
                   sj_ap_exclude = jb_ap_exclude j, sj_sf_id = jb_sf_id j,
                   sj_run_every_nth_period = jb_run_every_nth_period j\<rparr>) s
            in Inr ((ret, Some (if ret = 0 then nx_ioctl_scan_id (nenv s) (ncalls s) else 0)), s))"

definition nrx_delete_scan_job :: "u32 \<Rightarrow> nrx_st \<Rightarrow> int \<times> nrx_st" where
  "nrx_delete_scan_job sj_id s = nrx_nrxioctl (Write_ioc NRXIOWSCANDELJOB sj_id) s"

definition nrx_trigger_scan_ex :: "u32 \<Rightarrow> u16 \<Rightarrow> nrx_st \<Rightarrow> int \<times> nrx_st" where
  "nrx_trigger_scan_ex sj_id channel_interval s = nrx_nrxioctl (NRXIOWSCANTRIGJOB sj_id channel_interval) s"

definition nrx_trigger_scan :: "u32 \<Rightarrow> nrx_st \<Rightarrow> int \<times> nrx_st" where
  "nrx_trigger_scan sj_id s = nrx_trigger_scan_ex sj_id 100 s"

definition nrx_flush_scanlist :: "nrx_st \<Rightarrow> int \<times> nrx_st" where
  "nrx_flush_scanlist s = nrx_nrxioctl (Plain_ioc NRXIOWSCANLISTFLUSH) s"

definition nrx_scan_adm_ssid_pool :: int where
  "nrx_scan_adm_ssid_pool = EOPNOTSUPP"

definition nrx_scan_adm_job_ssid :: int where
  "nrx_scan_adm_job_ssid = EOPNOTSUPP"

section \<open>Notifications\<close>

definition nrx_register_scan_notification_handler ::
    "u32 \<Rightarrow> callback \<Rightarrow> address \<Rightarrow> nrx_st \<Rightarrow> address outcome" where
  "nrx_register_scan_notification_handler pol cb ud s =
     (if cb = 0 then Inl (Exited 1)
      else Inr (register_helper ''SCANNOTIFICATION'' 0 Nrx_handle_scan_notification
        (Scan_helper \<lparr>sn_pol = pol, sn_handler = cb, sn_user_data = ud\<rparr>) s))"

definition nrx_cancel_scan_notification_handler :: "address \<Rightarrow> nrx_st \<Rightarrow> int outcome" where
  "nrx_cancel_scan_notification_handler handle s =
     (if handle = 0 then Inl (Exited 1) else nrx_cancel_custom_event handle s)"

section \<open>Scan results\<close>

text \<open>Entries of a buffer of scan results, each with its length, itself included, in front.  A pointer into
  the buffer is an offset, \<open>None\<close> for the null pointer that asks for the first entry; the result is the error
  number or the new offset and the size.\<close>

abbreviation (input) nrx_E2BIG :: int where "nrx_E2BIG \<equiv> 7"

definition entry_at :: "u8 list \<Rightarrow> nat \<Rightarrow> int + nat \<times> u16" where
  "entry_at buf p =
     (if length buf - p < 2 then Inl nrx_E2BIG
      else
        let len = STREAM_TO_UINT16 buf p
        in if length buf - p < unat len then Inl nrx_E2BIG else Inr (p, len))"

text \<open>\<open>None\<close> for a read outside the buffer: \<open>end - p\<close> is converted to an unsigned number, so behind the end of
  the buffer it is never less than \<open>sizeof(len)\<close>.\<close>

definition nrx_scan_get_event :: "u8 list \<Rightarrow> nat option \<Rightarrow> (int + nat \<times> u16) option" where
  "nrx_scan_get_event buf event =
     (case event of
        None \<Rightarrow> Some (entry_at buf 0)
      | Some p \<Rightarrow>
          if length buf < p then None
          else if length buf - p < 2 then Some (Inl nrx_E2BIG)
          else
            let q = p + unat (STREAM_TO_UINT16 buf p)
            in if length buf < q then None else Some (entry_at buf q))"

section \<open>Facts\<close>

text \<open>The conversion to time units is never short, and long by less than two parts in ten thousand and one
  unit.\<close>

theorem ms2tu_accuracy:
  "1000 * unat t \<le> 1024 * unat (MS2TU t) \<and> 43 * (1024 * unat (MS2TU t)) \<le> 43 * (1000 * unat t) + 8 * unat t + 43 * 1024"
proof -
  have "t div 43 \<le> t" by (simp add: word_le_nat_alt unat_div)
  then have u: "unat (MS2TU t) = unat t - unat t div 43"
    by (simp add: MS2TU_def unat_sub unat_div)
  have "43 * (unat t div 43) \<le> unat t" "unat t < 43 * (unat t div 43) + 43" by linarith+
  then show ?thesis unfolding u by linarith
qed

text \<open>A list of more than 14 channels makes the library read behind it, although it has a check of the length;
  a channel number of more than 8 bits before that is refused.\<close>

lemma copy_channels_ok:
  "i + n \<le> length channel \<Longrightarrow> \<forall>k. i \<le> k \<longrightarrow> k < i + n \<longrightarrow> channel ! k AND 0xFF00 = 0 \<Longrightarrow>
    copy_channels channel i n acc = Inr (Some (acc @ map ucast (take n (drop i channel))))"
proof (induction n arbitrary: i acc)
  case (Suc n)
  have "take (Suc n) (drop i channel) = channel ! i # take n (drop (Suc i) channel)"
    using Suc.prems(1) by (simp add: Cons_nth_drop_Suc [symmetric])
  then show ?case using Suc by simp
qed simp

lemma copy_channels_overrun:
  "i \<le> length channel \<Longrightarrow> length channel < i + n \<Longrightarrow> \<forall>c\<in>set channel. c AND 0xFF00 = 0 \<Longrightarrow>
    copy_channels channel i n acc = Inl Bad_access"
proof (induction n arbitrary: i acc)
  case (Suc n)
  then show ?case by (cases "i = length channel") auto
qed simp

theorem scan_job_channels_overrun:
  assumes "length (jb_channel j) = 14" "\<forall>c\<in>set (jb_channel j). c AND 0xFF00 = 0"
    and "jb_ch_len j = 15 \<or> jb_ch_len j = 16"
    and "1 \<le> jb_prio j" "jb_prio j \<le> 128" "jb_ap_exclude j = 0" "jb_ssid_len j \<le> 32"
  shows "nrx_add_scan_job j s = Inl Bad_access"
proof -
  have "copy_channels (jb_channel j) 0 (nat (sint (jb_ch_len j))) [] = Inl Bad_access"
    by (rule copy_channels_overrun) (use assms(1-3) in auto)
  then show ?thesis using assms(3-7) by (auto simp: nrx_add_scan_job_def not_less)
qed

text \<open>An entry as the driver writes it.\<close>

definition scan_entry :: "u8 list \<Rightarrow> bool" where
  "scan_entry e \<longleftrightarrow> 2 \<le> length e \<and> length e < 65536 \<and> STREAM_TO_UINT16 e 0 = of_nat (length e)"

lemma entry_len:
  "scan_entry e \<Longrightarrow> STREAM_TO_UINT16 (pre @ e @ post) (length pre) = of_nat (length e)"
proof -
  assume e: "scan_entry e"
  then obtain a b r where "e = a # b # r" by (auto simp: scan_entry_def Suc_le_length_iff numeral_2_eq_2)
  with e show ?thesis by (simp add: scan_entry_def STREAM_TO_UINT16_def nth_append)
qed

lemma entry_at_entry: "scan_entry e \<Longrightarrow> entry_at (pre @ e @ post) (length pre) = Inr (length pre, of_nat (length e))"
  by (simp add: entry_at_def entry_len unat_of_nat16 scan_entry_def)

lemma next_entry:
  "scan_entry e \<Longrightarrow> nrx_scan_get_event (pre @ e @ post) (Some (length pre)) = Some (entry_at (pre @ e @ post) (length (pre @ e)))"
  using unat_of_nat16 [of "length e"] entry_len [of e pre post] by (auto simp: nrx_scan_get_event_def scan_entry_def)

text \<open>(C17) Asked again and again with its last answer, \<open>nrx_scan_get_event\<close> gives the entries of a buffer in order,
  each with its place and size, and then the error that ends the list.\<close>

theorem scan_events_in_order:
  assumes "list_all scan_entry (pre @ e # post)"
  defines "buf \<equiv> concat (pre @ e # post)"
  shows "(pre = [] \<longrightarrow> nrx_scan_get_event buf None = Some (Inr (0, of_nat (length e))))
    \<and> nrx_scan_get_event buf (Some (length (concat pre))) =
        Some (case post of [] \<Rightarrow> Inl nrx_E2BIG
          | f # _ \<Rightarrow> Inr (length (concat (pre @ [e])), of_nat (length f)))"
proof
  have b: "buf = concat pre @ e @ concat post" by (simp add: buf_def)
  have e: "scan_entry e" using assms(1) by simp
  show "pre = [] \<longrightarrow> nrx_scan_get_event buf None = Some (Inr (0, of_nat (length e)))"
    using entry_at_entry [OF e, of "[]" "concat post"] by (simp add: b nrx_scan_get_event_def)
  show "nrx_scan_get_event buf (Some (length (concat pre))) =
        Some (case post of [] \<Rightarrow> Inl nrx_E2BIG
          | f # _ \<Rightarrow> Inr (length (concat (pre @ [e])), of_nat (length f)))"
  proof (cases post)
    case Nil
    then show ?thesis using next_entry [OF e, of "concat pre" "[]"] by (simp add: b entry_at_def)
  next
    case (Cons f fs)
    then have "scan_entry f" using assms(1) by simp
    from entry_at_entry [OF this, of "concat pre @ e" "concat fs"] next_entry [OF e, of "concat pre" "concat post"]
    show ?thesis using Cons by (simp add: b)
  qed
qed

lemma scan_events_in_order_witness:
  "nrx_scan_get_event (concat ([[3, 0, 7]] @ [2, 0] # [])) (Some (length (concat [[3, 0, 7 :: u8]]))) = Some (Inl nrx_E2BIG)"
proof -
  have "list_all scan_entry ([[3, 0, 7]] @ [2, 0] # [])" by (simp add: scan_entry_def STREAM_TO_UINT16_def)
  from scan_events_in_order [OF this] show ?thesis by simp
qed

text \<open>An entry of length 0 is given again for ever.\<close>

theorem scan_event_stuck:
  assumes "p + 2 \<le> length buf" "STREAM_TO_UINT16 buf p = 0"
  shows "nrx_scan_get_event buf (Some p) = Some (Inr (p, 0))"
  using assms by (simp add: nrx_scan_get_event_def entry_at_def)

end
