(* ===== verification/Nrx_Tables.thy ===== *)
theory Nrx_Tables
  imports Nrx_Context
begin

text \<open>
  The smaller services of the Nanoradio library: the priority map (\<open>priomap.c\<close>), channel numbers (\<open>cvt.c\<close>),
  MIB values (\<open>mib.c\<close>) and the wireless extensions (\<open>wext.c\<close>).  A pointer argument that may be null is an
  option; the context is not null (\<open>NRX_ASSERT\<close>).
\<close>

section \<open>The priority map\<close>

text \<open>128 bytes, two entries of four bits in each.\<close>

type_synonym nrx_priomap = "u8 list"

definition nrx_priomap_read :: "nrx_priomap option \<Rightarrow> nrx_st \<Rightarrow> int \<times> nrx_priomap option \<times> nrx_st" where
  "nrx_priomap_read priomap s =
     (case priomap of
        None \<Rightarrow> (EINVAL, None, s)
      | Some m \<Rightarrow>
          (let (ret, s) = nrx_nrxioctl NRXIORDSCPMAP s
           in (ret, Some (if ret \<noteq> 0 then m else nx_ioctl_dscpmap (nenv s) (ncalls s)), s)))"

definition nrx_priomap_write :: "nrx_priomap \<Rightarrow> nrx_st \<Rightarrow> int \<times> nrx_st" where
  "nrx_priomap_write priomap s = nrx_nrxioctl (NRXIOWDSCPMAP priomap) s"

definition nrx_priomap_clear :: "nrx_priomap option \<Rightarrow> int \<times> nrx_priomap option" where
  "nrx_priomap_clear priomap =
     (case priomap of None \<Rightarrow> (EINVAL, None) | Some m \<Rightarrow> (0, Some (replicate 128 0)))"

text \<open>The result, and what is stored to \<open>uprio\<close>.\<close>

definition nrx_priomap_get :: "nrx_priomap \<Rightarrow> u8 \<Rightarrow> bool \<Rightarrow> int \<times> u8 option" where
  "nrx_priomap_get priomap tos uprio_null =
     (if uprio_null then (EINVAL, None)
      else
        let u = priomap ! (unat tos div 2);
            u = (if unat tos mod 2 \<noteq> 0 then drop_bit 4 u else u)
        in (0, Some (u AND 7)))"

definition nrx_priomap_set :: "nrx_priomap option \<Rightarrow> u8 \<Rightarrow> u8 \<Rightarrow> int \<times> nrx_priomap option" where
  "nrx_priomap_set priomap tos uprio =
     (case priomap of
        None \<Rightarrow> (EINVAL, None)
      | Some m \<Rightarrow>
          if \<not> uprio < 8 then (EINVAL, Some m)
          else
            let odd = (unat tos mod 2 \<noteq> 0);
                uprio = (if odd then push_bit 4 uprio else uprio);
                mask = (if odd then drop_bit 4 0xF0 else 0xF0);
                i = unat tos div 2
            in (0, Some (m[i := (m ! i AND mask) OR uprio])))"

text \<open>\<open>DSCP(0, CP, CU)\<close>.\<close>

definition DSCP :: "u8 \<Rightarrow> u8 \<Rightarrow> u8" where
  "DSCP cp cu = push_bit 2 cp OR cu"

definition nrx_priomap_set_dscp :: "nrx_priomap option \<Rightarrow> u8 \<Rightarrow> u8 \<Rightarrow> int \<times> nrx_priomap option" where
  "nrx_priomap_set_dscp priomap dscp uprio =
     (case priomap of
        None \<Rightarrow> (EINVAL, None)
      | Some _ \<Rightarrow>
          if \<not> dscp < 64 then (EINVAL, priomap)
          else if \<not> uprio < 8 then (EINVAL, priomap)
          else
            let (ret, m) = nrx_priomap_set priomap (DSCP dscp 0) uprio in
            if ret \<noteq> 0 then (ret, m) else
            let (ret, m) = nrx_priomap_set m (DSCP dscp 1) uprio in
            if ret \<noteq> 0 then (ret, m) else
            let (ret, m) = nrx_priomap_set m (DSCP dscp 2) uprio in
            if ret \<noteq> 0 then (ret, m) else
            let (ret, m) = nrx_priomap_set m (DSCP dscp 3) uprio in
            (ret, m))"

section \<open>Channels\<close>

definition ftable :: "(u16 \<times> u32) list" where
  "ftable =
     map (\<lambda>c. (of_nat c, of_nat ((2412 + (c - 1) * 5) * 1000))) [1, 2, 3, 4, 5, 6, 7, 8, 9, 10, 11, 12, 13]
     @ [(14, 2484 * 1000)]
     @ map (\<lambda>c. (of_nat c, of_nat ((5000 + c * 5) * 1000)))
         [36, 40, 44, 48, 52, 56, 60, 64, 100, 104, 108, 112, 116, 120, 124, 128, 132, 136, 140,
          149, 153, 157, 161]
     @ map (\<lambda>c. (of_nat c, of_nat ((4000 + c * 5) * 1000))) [184, 188, 192, 196]"

definition nrx_convert_channel_to_frequency :: "u16 \<Rightarrow> int \<times> u32 option" where
  "nrx_convert_channel_to_frequency channel =
     (case find (\<lambda>(c, f). channel = c) ftable of None \<Rightarrow> (EINVAL, None) | Some (c, f) \<Rightarrow> (0, Some f))"

definition nrx_convert_frequency_to_channel :: "u32 \<Rightarrow> int \<times> u16 option" where
  "nrx_convert_frequency_to_channel frequency =
     (case find (\<lambda>(c, f). frequency = f) ftable of None \<Rightarrow> (EINVAL, None) | Some (c, f) \<Rightarrow> (0, Some c))"

section \<open>MIB values\<close>

text \<open>\<open>param.mib_id\<close> has 32 bytes; the driver writes the value to the caller's buffer and its size to
  \<open>param\<close>.\<close>

definition nrx_get_mib_val :: "string \<Rightarrow> u32 \<Rightarrow> nrx_st \<Rightarrow> int \<times> (u32 \<times> u8 list) option \<times> nrx_st" where
  "nrx_get_mib_val mib_id len s =
     (let (ret, s) = nrx_nrxioctl (NRXIOWRGETMIB (take 31 mib_id) len) s
      in (ret, if ret \<noteq> 0 then None else Some (nx_ioctl_mib (nenv s) (ncalls s)), s))"

definition nrx_set_mib_val :: "string \<Rightarrow> u8 list \<Rightarrow> nrx_st \<Rightarrow> int \<times> nrx_st" where
  "nrx_set_mib_val mib_id buf s = nrx_nrxioctl (NRXIOWSETMIB (take 31 mib_id) buf) s"

section \<open>Wireless extensions\<close>

definition nrx_get_nickname :: "string \<Rightarrow> u32 \<Rightarrow> nrx_st \<Rightarrow> int \<times> nrx_st" where
  "nrx_get_nickname ifname len s = nrx_iwioctl (SIOCGIWNICKN ifname (ucast len)) s"

definition get_range :: "string option \<Rightarrow> nrx_st \<Rightarrow> int \<times> nrx_st" where
  "get_range ifname s = nrx_iwioctl (SIOCGIWRANGE ifname) s"

definition nrx_check_wext :: "string option \<Rightarrow> nrx_st \<Rightarrow> int \<times> nrx_st" where
  "nrx_check_wext ifname s = get_range ifname s"

definition nrx_get_wxconfig :: "nrx_st \<Rightarrow> int \<times> nrx_st" where
  "nrx_get_wxconfig s =
     (let (ret, s) = get_range None s
      in if ret \<noteq> 0 then (ret, s)
         else (0, s\<lparr>wx_version := ucast (nx_iw_version (nenv s) (ncalls s))\<rparr>))"

text \<open>The length of the results is 16 bits wide in \<open>struct iwreq\<close>.\<close>

definition nrx_get_scan_list :: "u32 \<Rightarrow> nrx_st \<Rightarrow> int \<times> u32 \<times> nrx_st" where
  "nrx_get_scan_list len s =
     (let (ret, s) = nrx_iwioctl (SIOCGIWSCAN (ucast len)) s
      in (ret, if ret = 0 then ucast (nx_iw_length (nenv s) (ncalls s)) else 0, s))"

definition nrx_set_tx_retry_limits :: "u8 \<Rightarrow> u8 \<Rightarrow> nrx_st \<Rightarrow> int \<times> nrx_st" where
  "nrx_set_tx_retry_limits short_limit long_limit s =
     (if \<not> short_limit \<le> 126 then (EINVAL, s)
      else if \<not> long_limit \<le> 126 then (EINVAL, s)
      else
        let (ret, s) = nrx_iwioctl (SIOCSIWRETRY False short_limit) s
        in if ret \<noteq> 0 then (ret, s) else nrx_iwioctl (SIOCSIWRETRY True long_limit) s)"

text \<open>The two loops that bring the exponent of a frequency to 3.\<close>

function freq_down :: "u32 \<Rightarrow> u32 \<Rightarrow> u32 \<times> u32" where
  "freq_down m e = (if e < 3 then freq_down (m div 10) (e + 1) else (m, e))"
  by pat_completeness auto

termination
  by (relation "measure (\<lambda>(m, e). 3 - unat e)") (auto simp: word_less_nat_alt unat_word_ariths)

function freq_up :: "u32 \<Rightarrow> u32 \<Rightarrow> u32" where
  "freq_up m e = (if 3 < e then freq_up (m * 10) (e - 1) else m)"
  by pat_completeness auto

termination
proof (relation "measure (\<lambda>(m, e). unat e)")
  fix m e :: u32
  assume "3 < e"
  then have "unat (e - 1) < unat e" by (intro measure_unat) auto
  then show "((m * 10, e - 1), (m, e)) \<in> measure (\<lambda>(m, e). unat e)" by simp
qed simp

declare freq_down.simps [simp del] freq_up.simps [simp del]

text \<open>\<open>iwr.u.freq.m\<close> is a signed number of 32 bits, \<open>iwr.u.freq.e\<close> one of 16 bits; both are stored to
  unsigned variables of 32 bits.\<close>

definition nrx_get_curr_freq :: "nrx_st \<Rightarrow> int \<times> u32 option \<times> nrx_st" where
  "nrx_get_curr_freq s =
     (let (ret, s) = nrx_iwioctl SIOCGIWFREQ s
      in if ret \<noteq> 0 then (ret, None, s)
         else
           let (fm, fe) = nx_iw_freq (nenv s) (ncalls s);
               (m, e) = freq_down fm (scast fe)
           in (0, Some (freq_up m e), s))"

section \<open>Entries of the map\<close>

definition entry :: "nrx_priomap \<Rightarrow> nat \<Rightarrow> u8" where
  "entry m t = (if odd t then drop_bit 4 (m ! (t div 2)) else m ! (t div 2)) AND 7"

lemma priomap_get_entry: "nrx_priomap_get m tos False = (0, Some (entry m (unat tos)))"
  by (simp add: nrx_priomap_get_def entry_def Let_def odd_iff_mod_2_eq_one)

lemma small_bit: "u < (8 :: u8) \<Longrightarrow> 3 \<le> n \<Longrightarrow> \<not> bit u n"
proof -
  assume u: "u < 8" and n: "3 \<le> n"
  have "take_bit 3 (unat u) = unat u"
    using u by (intro take_bit_nat_eq_self) (simp add: word_less_nat_alt)
  then have "take_bit 3 u = u" by (simp add: unsigned_take_bit_eq word_unat_eq_iff)
  then show ?thesis using n by (metis bit_take_bit_iff not_less)
qed

lemma less_8: "n < (8 :: nat) \<longleftrightarrow> n \<in> {0, 1, 2, 3, 4, 5, 6, 7}"
  by auto

lemma nibbles:
  assumes "u < (8 :: u8)"
  shows "((b AND 0xF0) OR u) AND 7 = u" "drop_bit 4 ((b AND 0xF0) OR u) AND 7 = drop_bit 4 b AND 7"
    "drop_bit 4 ((b AND 0xF) OR push_bit 4 u) AND 7 = u" "((b AND 0xF) OR push_bit 4 u) AND 7 = b AND 7"
proof -
  note s = small_bit [OF assms]
  show "((b AND 0xF0) OR u) AND 7 = u"
    by (rule bit_word_eqI) (auto simp: less_8 bit_simps s)
  show "drop_bit 4 ((b AND 0xF0) OR u) AND 7 = drop_bit 4 b AND 7"
    by (rule bit_word_eqI) (auto simp: less_8 bit_simps s)
  show "drop_bit 4 ((b AND 0xF) OR push_bit 4 u) AND 7 = u"
    by (rule bit_word_eqI) (auto simp: less_8 bit_simps s)
  show "((b AND 0xF) OR push_bit 4 u) AND 7 = b AND 7"
    by (rule bit_word_eqI) (auto simp: less_8 bit_simps s)
qed

lemma set_entry:
  assumes "length m = 128" "uprio < 8"
  shows "\<exists>m'. nrx_priomap_set (Some m) tos uprio = (0, Some m') \<and> length m' = 128
    \<and> (\<forall>t. t < 256 \<longrightarrow> entry m' t = (if t = unat tos then uprio else entry m t))"
proof -
  let ?i = "unat tos div 2" and ?o = "odd (unat tos)"
  let ?b = "if ?o then (m ! ?i AND 0xF) OR push_bit 4 uprio else (m ! ?i AND 0xF0) OR uprio"
  have i: "?i < 128" using unsigned_less [of tos, where ?'a = nat] by simp
  have eq: "nrx_priomap_set (Some m) tos uprio = (0, Some (m[?i := ?b]))"
    using assms(2) by (simp add: nrx_priomap_set_def Let_def odd_iff_mod_2_eq_one)
  have "entry (m[?i := ?b]) t = (if t = unat tos then uprio else entry m t)" if "t < 256" for t
  proof (cases "t div 2 = ?i")
    case True
    have "t = unat tos \<longleftrightarrow> (odd t \<longleftrightarrow> ?o)" using True by (metis div_mult_mod_eq odd_iff_mod_2_eq_one even_iff_mod_2_eq_zero)
    then show ?thesis using True i assms nibbles [OF assms(2), of "m ! ?i"] by (auto simp: entry_def)
  qed (auto simp: entry_def)
  then show ?thesis using assms(1) by (intro exI [of _ "m[?i := ?b]"]) (simp add: eq)
qed

lemma DSCP_unat:
  assumes "dscp < 64" "k < 4"
  shows "unat (DSCP dscp k) = 4 * unat dscp + unat k"
proof -
  have d: "unat dscp < 64" "unat k < 4" using assms by (simp_all add: word_less_nat_alt)
  have k: "bit k n \<Longrightarrow> n < 2" for n
  proof -
    have "take_bit 2 (unat k) = unat k" using d by (intro take_bit_nat_eq_self) simp
    then have "take_bit 2 k = k" by (simp add: unsigned_take_bit_eq word_unat_eq_iff)
    then show "bit k n \<Longrightarrow> n < 2" by (metis bit_take_bit_iff)
  qed
  have "DSCP dscp k = push_bit 2 dscp + k"
    unfolding DSCP_def by (rule disjunctive_add [symmetric]) (auto simp: bit_simps dest: k)
  moreover have "unat (push_bit 2 dscp) = 4 * unat dscp"
    unfolding unsigned_push_bit_eq using d by (simp add: push_bit_eq_mult take_bit_eq_mod)
  ultimately show ?thesis using d by (simp add: unat_word_ariths)
qed

text \<open>(C24) After an entry of the priority map is set, reading it gives the priority that was set and reading any
  other entry what it gave before; setting a code point sets the four entries that have it in their upper six
  bits.  A priority or code point out of range changes nothing.\<close>

theorem priomap_set_get:
  assumes "length m = 128"
  shows "(if uprio < 8
          then \<exists>m'. nrx_priomap_set (Some m) tos uprio = (0, Some m') \<and> length m' = 128 \<and>
            (\<forall>t. nrx_priomap_get m' t False = (if t = tos then (0, Some uprio) else nrx_priomap_get m t False))
          else nrx_priomap_set (Some m) tos uprio = (EINVAL, Some m))
    \<and> (if dscp < 64 \<and> uprio < 8
       then \<exists>m'. nrx_priomap_set_dscp (Some m) dscp uprio = (0, Some m') \<and> length m' = 128 \<and>
         (\<forall>t. nrx_priomap_get m' t False =
            (if unat t div 4 = unat dscp then (0, Some uprio) else nrx_priomap_get m t False))
       else nrx_priomap_set_dscp (Some m) dscp uprio = (EINVAL, Some m))"
proof (intro conjI)
  have t: "unat t < 256" for t :: u8 using unsigned_less [of t, where ?'a = nat] by simp
  show "if uprio < 8
          then \<exists>m'. nrx_priomap_set (Some m) tos uprio = (0, Some m') \<and> length m' = 128 \<and>
            (\<forall>t. nrx_priomap_get m' t False = (if t = tos then (0, Some uprio) else nrx_priomap_get m t False))
          else nrx_priomap_set (Some m) tos uprio = (EINVAL, Some m)"
  proof (cases "uprio < 8")
    case True
    from set_entry [OF assms True, of tos] obtain m' where "nrx_priomap_set (Some m) tos uprio = (0, Some m')"
        "length m' = 128" "\<forall>t. t < 256 \<longrightarrow> entry m' t = (if t = unat tos then uprio else entry m t)" by blast
    with t True show ?thesis by (auto simp: priomap_get_entry word_unat_eq_iff)
  qed (simp add: nrx_priomap_set_def)
  show "if dscp < 64 \<and> uprio < 8
       then \<exists>m'. nrx_priomap_set_dscp (Some m) dscp uprio = (0, Some m') \<and> length m' = 128 \<and>
         (\<forall>t. nrx_priomap_get m' t False =
            (if unat t div 4 = unat dscp then (0, Some uprio) else nrx_priomap_get m t False))
       else nrx_priomap_set_dscp (Some m) dscp uprio = (EINVAL, Some m)"
  proof (cases "dscp < 64 \<and> uprio < 8")
    case True
    then have d: "dscp < 64" and u: "uprio < 8" by simp_all
    obtain m0 where m0: "nrx_priomap_set (Some m) (DSCP dscp 0) uprio = (0, Some m0)" "length m0 = 128"
        "\<forall>t. t < 256 \<longrightarrow> entry m0 t = (if t = unat (DSCP dscp 0) then uprio else entry m t)"
      using set_entry [OF assms u] by blast
    obtain m1 where m1: "nrx_priomap_set (Some m0) (DSCP dscp 1) uprio = (0, Some m1)" "length m1 = 128"
        "\<forall>t. t < 256 \<longrightarrow> entry m1 t = (if t = unat (DSCP dscp 1) then uprio else entry m0 t)"
      using set_entry [OF m0(2) u] by blast
    obtain m2 where m2: "nrx_priomap_set (Some m1) (DSCP dscp 2) uprio = (0, Some m2)" "length m2 = 128"
        "\<forall>t. t < 256 \<longrightarrow> entry m2 t = (if t = unat (DSCP dscp 2) then uprio else entry m1 t)"
      using set_entry [OF m1(2) u] by blast
    obtain m3 where m3: "nrx_priomap_set (Some m2) (DSCP dscp 3) uprio = (0, Some m3)" "length m3 = 128"
        "\<forall>t. t < 256 \<longrightarrow> entry m3 t = (if t = unat (DSCP dscp 3) then uprio else entry m2 t)"
      using set_entry [OF m2(2) u] by blast
    have c: "k div 4 = unat dscp \<longleftrightarrow> k = unat (DSCP dscp 0) \<or> k = unat (DSCP dscp 1) \<or> k = unat (DSCP dscp 2)
        \<or> k = unat (DSCP dscp 3)" for k
      using DSCP_unat [OF d, of 0] DSCP_unat [OF d, of 1] DSCP_unat [OF d, of 2] DSCP_unat [OF d, of 3] by auto
    have e: "entry m3 (unat t) = (if unat t div 4 = unat dscp then uprio else entry m (unat t))" for t :: u8
      using m0(3) m1(3) m2(3) m3(3) t [of t] unfolding c by simp
    have "nrx_priomap_set_dscp (Some m) dscp uprio = (0, Some m3)"
      using d u m0(1) m1(1) m2(1) m3(1) by (simp add: nrx_priomap_set_dscp_def)
    with m3(2) e True show ?thesis by (auto simp: priomap_get_entry)
  qed (auto simp: nrx_priomap_set_dscp_def)
qed

lemma priomap_set_get_witness:
  "\<exists>m'. nrx_priomap_set_dscp (Some (replicate 128 0)) 46 6 = (0, Some m') \<and> length m' = 128 \<and>
     (\<forall>t. nrx_priomap_get m' t False =
        (if unat t div 4 = unat (46 :: u8) then (0, Some 6) else nrx_priomap_get (replicate 128 0) t False))"
proof -
  have "(46 :: u8) < 64 \<and> (6 :: u8) < 8" by simp
  with priomap_set_get [of "replicate 128 0" 6 0 46] show ?thesis by (simp only: length_replicate if_True refl)
qed

section \<open>Channel numbers\<close>

lemma find_key: "distinct (map fst xs) \<Longrightarrow> (k, v) \<in> set xs \<Longrightarrow> find (\<lambda>(a, b). k = a) xs = Some (k, v)"
  by (induction xs) force+

lemma find_value: "distinct (map snd xs) \<Longrightarrow> (k, v) \<in> set xs \<Longrightarrow> find (\<lambda>(a, b). v = b) xs = Some (k, v)"
  by (induction xs) force+

lemma same_value: "distinct (map snd xs) \<Longrightarrow> (a, v) \<in> set xs \<Longrightarrow> (b, v) \<in> set xs \<Longrightarrow> a = b"
  by (fastforce simp: distinct_map inj_on_def)

lemma find_in: "find P xs = Some x \<Longrightarrow> x \<in> set xs \<and> P x"
  by (induction xs) (auto split: if_splits)

lemma ftable_distinct: "distinct (map fst ftable)" "distinct (map snd ftable)"
  by (simp_all add: ftable_def)

text \<open>The conversions of channel numbers are inverse to each other.\<close>

theorem channel_frequency_inverse:
  "nrx_convert_channel_to_frequency c = (0, Some f) \<longleftrightarrow> nrx_convert_frequency_to_channel f = (0, Some c)"
proof -
  have "nrx_convert_channel_to_frequency c = (0, Some f) \<longleftrightarrow> (c, f) \<in> set ftable"
    using find_key [OF ftable_distinct(1), of c f]
    by (auto simp: nrx_convert_channel_to_frequency_def split: option.splits dest!: find_in
        dest: eq_key_imp_eq_value [OF ftable_distinct(1)])
  moreover have "nrx_convert_frequency_to_channel f = (0, Some c) \<longleftrightarrow> (c, f) \<in> set ftable"
    using find_value [OF ftable_distinct(2), of c f]
    by (auto simp: nrx_convert_frequency_to_channel_def split: option.splits dest!: find_in
        dest: same_value [OF ftable_distinct(2)])
  ultimately show ?thesis by simp
qed

section \<open>Frequencies\<close>

lemma freq_up_value: "freq_up m e = m * 10 ^ (unat e - 3)"
proof (induction m e rule: freq_up.induct)
  case (1 m e)
  show ?case
  proof (cases "3 < e")
    case True
    then have "e \<noteq> 0" "3 < unat e" by (auto simp: word_less_nat_alt)
    from unat_minus_one [OF this(1)] this(2) have "unat (e - 1) = unat e - 1" "3 < unat e" .
    moreover have "unat e - 3 = Suc (unat e - 1 - 3)" using calculation(2) by simp
    ultimately show ?thesis using 1 True by (subst freq_up.simps) simp
  next
    case False
    then show ?thesis by (subst freq_up.simps) (simp add: word_less_nat_alt)
  qed
qed

lemma ten_power_zero: "32 \<le> k \<Longrightarrow> (10 :: u32) ^ k = 0"
proof -
  assume k: "32 \<le> k"
  have "(10 :: u32) ^ k = 5 ^ k * 2 ^ k" by (simp flip: power_mult_distrib)
  also have "(2 :: u32) ^ k = 0" using k by (simp only: exp_eq_zero_iff) simp
  finally show ?thesis by simp
qed

text \<open>A frequency in Hz, that is with exponent 0, is divided by 1000; with a negative exponent the loops run
  \<open>2 ^ 32\<close> times and the answer is 0.\<close>

theorem curr_freq_negative_exponent:
  assumes "nx_iw (nenv s) (ncalls s) SIOCGIWFREQ = 0"
    and "nx_iw_freq (nenv s) (ncalls s @ [Iw_ioctl SIOCGIWFREQ 0]) = (fm, fe)" "sint fe < 0"
  shows "fst (snd (nrx_get_curr_freq s)) = Some 0"
proof -
  have b: "- (2 ^ 15) \<le> sint fe" using sint_greater_eq [of fe] by simp
  have u: "uint (scast fe :: u32) = sint fe + 2 ^ 32"
  proof -
    have "uint (scast fe :: u32) = sint fe mod 2 ^ 32" unfolding scast_eq uint_word_of_int by simp
    also have "\<dots> = (sint fe + 2 ^ 32) mod 2 ^ 32" by simp
    also have "\<dots> = sint fe + 2 ^ 32" using assms(3) b by (intro mod_pos_pos_trivial) auto
    finally show ?thesis .
  qed
  then have "2 ^ 31 \<le> unat (scast fe :: u32)" using b by (simp add: unat_eq_nat_uint)
  then have e: "\<not> scast fe < (3 :: u32)" "32 \<le> unat (scast fe :: u32) - 3" by (simp_all add: word_less_nat_alt)
  then have "freq_down fm (scast fe) = (fm, scast fe)" by (subst freq_down.simps) simp
  then show ?thesis
    using assms(1,2) e(2) by (simp add: nrx_get_curr_freq_def nrx_iwioctl_def freq_up_value ten_power_zero)
qed

end
