(* ===== verification/Nrx_Radio.thy ===== *)
theory Nrx_Radio
  imports Nrx_Scan Nrx_Tables
begin

text \<open>
  The radio (\<open>src/hardware/wifi/nrx600/radio.c\<close>): rates, channels, thresholds and their notifications, link
  supervision.  Pointers that the code asserts are not null; what a function stores through a pointer is an
  option in its result.
\<close>

section \<open>Transmission power and rates\<close>

definition nrx_set_max_tx_power :: "u8 \<Rightarrow> u8 \<Rightarrow> nrx_st \<Rightarrow> int \<times> nrx_st" where
  "nrx_set_max_tx_power qpsk ofdm s =
     (if \<not> qpsk \<le> 19 then (EINVAL, s)
      else if \<not> ofdm \<le> 19 then (EINVAL, s)
      else nrx_set_mib_val ''5.4'' [qpsk, ofdm] s)"

definition nrx_get_curr_channel :: "nrx_st \<Rightarrow> int \<times> u16 option \<times> nrx_st" where
  "nrx_get_curr_channel s =
     (let (ret, freq, s) = nrx_get_curr_freq s
      in case freq of
           None \<Rightarrow> (ret, None, s)
         | Some f \<Rightarrow> (let (r, c) = nrx_convert_frequency_to_channel f in (r, c, s)))"

text \<open>Lists of the application: the length it says and the array, which has 14 elements.\<close>

record nrx_rate_list_t =
  rl_len :: int
  rl_rates :: "u8 list"

record nrx_retry_list_t =
  ry_len :: int
  ry_retries :: "u8 list"

text \<open>\<open>penalty_rates->len > len\<close> compares as unsigned numbers, behind the test for less than 1.  An overflow of the
  sum of the results is left out: they are error numbers.\<close>

definition nrx_set_adaptive_tx_rate_mode ::
    "u8 \<Rightarrow> u8 \<Rightarrow> nrx_rate_list_t option \<Rightarrow> nrx_st \<Rightarrow> int outcome" where
  "nrx_set_adaptive_tx_rate_mode modes initial_rate penalty_rates s =
     (if \<not> modes AND 0xF0 = 0 then Inr (EINVAL, s)
      else if \<not> nrx_is_supp_rate initial_rate then Inr (EINVAL, s)
      else if case penalty_rates of None \<Rightarrow> False | Some l \<Rightarrow> rl_len l < 1 \<or> 14 < rl_len l then Inr (EINVAL, s)
      else if case penalty_rates of None \<Rightarrow> False | Some l \<Rightarrow> int (length (rl_rates l)) < rl_len l then Inl Bad_access
      else
        let rates = (case penalty_rates of
              None \<Rightarrow> supp_rates
            | Some l \<Rightarrow> sort (take (nat (rl_len l)) (rl_rates l)))
        in if initial_rate \<notin> set rates then Inr (EINVAL, s)
           else
             let (r1, s) = nrx_set_mib_val ''5.2.5'' rates s;
                 (r2, s) = nrx_set_mib_val ''5.2.2'' [modes] s;
                 (r3, s) = nrx_set_mib_val ''5.2.14'' [initial_rate] s
             in Inr (if r1 + r2 + r3 \<noteq> 0 then EINVAL else 0, s))"

text \<open>\<open>for (i = 0; i < len; i++) NRX_CHECK(p(xs[i]))\<close>; a read past the array is a fault.\<close>

fun check_each :: "('a \<Rightarrow> bool) \<Rightarrow> 'a list \<Rightarrow> nat \<Rightarrow> nat \<Rightarrow> fault + bool" where
  "check_each p xs i 0 = Inr True"
| "check_each p xs i (Suc n) =
     (if length xs \<le> i then Inl Bad_access
      else if p (xs ! i) then check_each p xs (Suc i) n
      else Inr False)"

text \<open>The inner loop stops at the first supported rate that is the given one.\<close>

definition rate_index :: "u8 \<Rightarrow> nat" where
  "rate_index rate = length (takeWhile (\<lambda>r. r \<noteq> rate) supp_rates)"

fun set_retries :: "u8 list \<Rightarrow> u8 list \<Rightarrow> nat \<Rightarrow> nat \<Rightarrow> u8 list \<Rightarrow> fault + u8 list" where
  "set_retries rates retries i 0 vec = Inr vec"
| "set_retries rates retries i (Suc n) vec =
     (if length rates \<le> i then Inl Bad_access
      else if rate_index (rates ! i) < 14 then
        (if length retries \<le> i then Inl Bad_access
         else set_retries rates retries (Suc i) n (vec[rate_index (rates ! i) := retries ! i]))
      else set_retries rates retries (Suc i) n vec)"

text \<open>One of the two halves: nothing is set for a null pointer.\<close>

definition update_retries ::
    "string \<Rightarrow> nrx_retry_list_t option \<Rightarrow> nrx_rate_list_t \<Rightarrow> u8 list \<Rightarrow> nrx_st \<Rightarrow> int outcome" where
  "update_retries mib_id retries rates vec s =
     (case retries of
        None \<Rightarrow> Inr (0, s)
      | Some r \<Rightarrow>
          (case set_retries (rl_rates rates) (ry_retries r) 0 (nat (rl_len rates)) vec of
             Inl f \<Rightarrow> Inl f
           | Inr vec \<Rightarrow> Inr (nrx_set_mib_val mib_id vec s)))"

definition nrx_set_tx_retry_limit_by_rate ::
    "nrx_retry_list_t option \<Rightarrow> nrx_retry_list_t option \<Rightarrow> nrx_rate_list_t \<Rightarrow> nrx_st \<Rightarrow> int outcome" where
  "nrx_set_tx_retry_limit_by_rate orig subsequent rates s =
     (if orig = None \<and> subsequent = None then Inl (Exited 1)
      else
        case check_each nrx_is_supp_rate (rl_rates rates) 0 (nat (rl_len rates)) of
          Inl f \<Rightarrow> Inl f
        | Inr False \<Rightarrow> Inr (EINVAL, s)
        | Inr True \<Rightarrow>
            (case nrx_get_mib_val ''5.2.12'' 14 s of
               (ret, None, s) \<Rightarrow> Inr (ret, s)
             | (_, Some (len2, vec), s) \<Rightarrow>
                 (case nrx_get_mib_val ''5.2.13'' 14 s of
                    (ret, None, s) \<Rightarrow> Inr (ret, s)
                  | (_, Some (len3, vec'), s) \<Rightarrow>
                      if 14 \<noteq> len2 \<or> 14 \<noteq> len3 then Inr (EINVAL, s)
                      else
                        (case update_retries ''5.2.12'' orig rates vec s of
                           Inl f \<Rightarrow> Inl f
                         | Inr (ret, s) \<Rightarrow>
                             if ret \<noteq> 0 then Inr (ret, s) else update_retries ''5.2.13'' subsequent rates vec' s))))"

definition nrx_lock_rate :: "u8 \<Rightarrow> nrx_st \<Rightarrow> int \<times> nrx_st" where
  "nrx_lock_rate rate s =
     (if \<not> nrx_is_supp_rate rate then (EINVAL, s) else nrx_set_mib_val ''5.2.11'' [rate] s)"

definition nrx_unlock_rate :: "nrx_st \<Rightarrow> int \<times> nrx_st" where
  "nrx_unlock_rate s = nrx_set_mib_val ''5.2.11'' [0] s"

text \<open>\<open>NRX_MAX_NUM_RATES\<close> is 24, and the array of the application has 14 elements.\<close>

definition nrx_set_op_rates :: "nrx_rate_list_t \<Rightarrow> nrx_st \<Rightarrow> int outcome" where
  "nrx_set_op_rates rates s =
     (if \<not> (1 \<le> rl_len rates \<and> rl_len rates \<le> 24) then Inr (EINVAL, s)
      else
        case check_each (\<lambda>r. nrx_is_supp_rate (r AND 0x7F)) (rl_rates rates) 0 (nat (rl_len rates)) of
          Inl f \<Rightarrow> Inl f
        | Inr False \<Rightarrow> Inr (EINVAL, s)
        | Inr True \<Rightarrow> Inr (nrx_nrxioctl (NRXIOWOPRATES (take (nat (rl_len rates)) (rl_rates rates))) s))"

definition nrx_enable_ht_rates :: "nrx_st \<Rightarrow> int \<times> nrx_st" where
  "nrx_enable_ht_rates s = nrx_nrxioctl (Bool_ioc NRXIOWENABLEHTRATES True) s"

definition nrx_disable_ht_rates :: "nrx_st \<Rightarrow> int \<times> nrx_st" where
  "nrx_disable_ht_rates s = nrx_nrxioctl (Bool_ioc NRXIOWENABLEHTRATES False) s"

text \<open>A number that the driver gives.\<close>

definition read_value :: "read_ioc \<Rightarrow> nrx_st \<Rightarrow> int \<times> u32 option \<times> nrx_st" where
  "read_value c s =
     (let (ret, s) = nrx_nrxioctl (Read_ioc c) s
      in (ret, if ret \<noteq> 0 then None else Some (nx_ioctl_value (nenv s) (ncalls s)), s))"

definition nrx_ht_rates_enabled :: "nrx_st \<Rightarrow> int \<times> u32 option \<times> nrx_st" where
  "nrx_ht_rates_enabled s = read_value NRXIORENABLEHTRATES s"

section \<open>WMM, channels and counters\<close>

definition nrx_enable_wmm :: "nrx_st \<Rightarrow> int \<times> nrx_st" where
  "nrx_enable_wmm s = nrx_nrxioctl (Bool_ioc NRXIOWWMM True) s"

definition nrx_disable_wmm :: "nrx_st \<Rightarrow> int \<times> nrx_st" where
  "nrx_disable_wmm s = nrx_nrxioctl (Bool_ioc NRXIOWWMM False) s"

definition nrx_reassociate :: "nrx_st \<Rightarrow> int \<times> nrx_st" where
  "nrx_reassociate s = nrx_nrxioctl (Plain_ioc NRXIOCREASSOCIATE) s"

definition nrx_set_channel_list :: "int \<Rightarrow> u16 list \<Rightarrow> nrx_st \<Rightarrow> int outcome" where
  "nrx_set_channel_list len channel s =
     (if \<not> (1 \<le> len \<and> len \<le> 14) then Inr (EINVAL, s)
      else
        case copy_channels channel 0 (nat len) [] of
          Inl f \<Rightarrow> Inl f
        | Inr None \<Rightarrow> Inr (EINVAL, s)
        | Inr (Some chs) \<Rightarrow> Inr (nrx_nrxioctl (NRXIOWREGCHANNELS chs) s))"

definition region_channels :: "u32 \<Rightarrow> nat option" where
  "region_channels code =
     (if code = 0x40 then Some 14 else if code = 0x10 then Some 11 else if code = 0x30 then Some 13 else None)"

definition nrx_set_region_code :: "u32 \<Rightarrow> nrx_st \<Rightarrow> int \<times> nrx_st" where
  "nrx_set_region_code code s =
     (case region_channels code of
        None \<Rightarrow> (EINVAL, s)
      | Some n \<Rightarrow> nrx_nrxioctl (NRXIOWREGCHANNELS (map (\<lambda>i. of_nat (i + 1)) [0..<n])) s)"

definition nrx_reset_traffic_filter_counters :: "nrx_st \<Rightarrow> int \<times> nrx_st" where
  "nrx_reset_traffic_filter_counters s = nrx_set_mib_val ''5.22.3'' (UINT32_TO_STREAM 0) s"

definition nrx_get_traffic_filter_counters :: "nrx_st \<Rightarrow> int \<times> (u32 \<times> u8 list) option \<times> nrx_st" where
  "nrx_get_traffic_filter_counters s = nrx_get_mib_val ''5.22.3'' 4 s"

end
