(* ===== verification/Nrx_Monitor.thy ===== *)
theory Nrx_Monitor
  imports Nrx_Radio
begin

text \<open>
  Monitoring of the radio link (\<open>src/hardware/wifi/nrx600/radio.c\<close>): thresholds as triggers of the driver, link
  supervision, and the notifications of lost connections, rates, failed transmissions and missed beacons.
\<close>

section \<open>Triggers\<close>

text \<open>\<open>param.mib_id\<close> has 16 bytes; \<open>None\<close> for a null pointer.\<close>

definition nrx_check_trigger_existence :: "u32 \<Rightarrow> string option \<Rightarrow> nrx_st \<Rightarrow> int \<times> u32 option \<times> nrx_st" where
  "nrx_check_trigger_existence thr_id mib_id s =
     (let m = (case mib_id of None \<Rightarrow> [] | Some m \<Rightarrow> m) in
      if \<not> length m < 16 then (EINVAL, None, s)
      else
        let (ret, s) = nrx_nrxioctl (NRXIOWRDOESTRIGEXIST thr_id m) s
        in (ret, if ret \<noteq> 0 then None else Some (nx_ioctl_value (nenv s) (ncalls s)), s))"

text \<open>\<open>dir\<close> has one of the two directions, or both, and nothing else.\<close>

definition dir_ok :: "u32 \<Rightarrow> bool" where
  "dir_ok dir \<longleftrightarrow> dir \<noteq> 0 \<and> dir AND NOT 1 AND NOT 2 = 0"

abbreviation (input) NRX_THR_RISING :: u32 where "NRX_THR_RISING \<equiv> 1"
abbreviation (input) NRX_THR_FALLING :: u32 where "NRX_THR_FALLING \<equiv> 2"
abbreviation (input) NRX_DT_BEACON :: u32 where "NRX_DT_BEACON \<equiv> 1"
abbreviation (input) NRX_DT_DATA :: u32 where "NRX_DT_DATA \<equiv> 2"

definition nrx_enable_link_monitoring :: "u32 \<Rightarrow> u8 \<Rightarrow> nrx_st \<Rightarrow> (int \<times> u32 option) outcome" where
  "nrx_enable_link_monitoring interval miss_thres s =
     (if \<not> 1 \<le> interval then Inr ((EINVAL, None), s)
      else if \<not> (1 \<le> miss_thres \<and> miss_thres \<le> 99) then Inr ((EINVAL, None), s)
      else nrx_register_mib_trigger ''5.2.9'' 0 interval (ucast miss_thres) (ucast NRX_THR_RISING) 1 1 s)"

definition nrx_disable_link_monitoring :: "u32 \<Rightarrow> nrx_st \<Rightarrow> int \<times> nrx_st" where
  "nrx_disable_link_monitoring thr_id s =
     (case nrx_check_trigger_existence thr_id (Some ''5.2.9'') s of
        (ret, None, s) \<Rightarrow> (ret, s)
      | (_, Some does_exist, s) \<Rightarrow>
          if \<not> (thr_id \<noteq> 0 \<and> does_exist \<noteq> 0) then (EINVAL, s) else nrx_del_mib_trigger thr_id s)"

definition nrx_enable_snr_threshold :: "u32 \<Rightarrow> u32 \<Rightarrow> u32 \<Rightarrow> u32 \<Rightarrow> nrx_st \<Rightarrow> (int \<times> u32 option) outcome" where
  "nrx_enable_snr_threshold snr_thr chk_period dir type s =
     (if \<not> 100 \<le> chk_period then Inr ((EINVAL, None), s)
      else if \<not> chk_period \<le> 2100000 then Inr ((EINVAL, None), s)
      else if \<not> snr_thr \<le> 40 then Inr ((EINVAL, None), s)
      else if \<not> dir_ok dir then Inr ((EINVAL, None), s)
      else if type = NRX_DT_BEACON then
        nrx_register_mib_trigger ''5.2.7'' 0 (chk_period * 1000) snr_thr (ucast dir) 1 1 s
      else if type = NRX_DT_DATA then
        nrx_register_mib_trigger ''5.2.8'' 0 (chk_period * 1000) snr_thr (ucast dir) 1 1 s
      else Inr ((EINVAL, None), s))"

text \<open>A trigger may be on one of two values; the second is asked for when the first has none.\<close>

definition disable_either :: "string \<Rightarrow> string \<Rightarrow> u32 \<Rightarrow> nrx_st \<Rightarrow> int \<times> nrx_st" where
  "disable_either mib1 mib2 thr_id s =
     (case nrx_check_trigger_existence thr_id (Some mib1) s of
        (ret, None, s) \<Rightarrow> (ret, s)
      | (_, Some does_exist, s) \<Rightarrow>
          if does_exist = 0 then
            (case nrx_check_trigger_existence thr_id (Some mib2) s of
               (ret, None, s) \<Rightarrow> (ret, s)
             | (_, Some does_exist, s) \<Rightarrow>
                 if \<not> (thr_id \<noteq> 0 \<and> does_exist \<noteq> 0) then (EINVAL, s) else nrx_del_mib_trigger thr_id s)
          else nrx_del_mib_trigger thr_id s)"

definition nrx_disable_snr_threshold :: "u32 \<Rightarrow> nrx_st \<Rightarrow> int \<times> nrx_st" where
  "nrx_disable_snr_threshold thr_id s = disable_either ''5.2.7'' ''5.2.8'' thr_id s"

definition nrx_get_snr :: "u32 \<Rightarrow> nrx_st \<Rightarrow> int \<times> (u32 \<times> u8 list) option \<times> nrx_st" where
  "nrx_get_snr type s =
     (if type = NRX_DT_BEACON then nrx_get_mib_val ''5.2.7'' 4 s
      else if type = NRX_DT_DATA then nrx_get_mib_val ''5.2.8'' 4 s
      else (EINVAL, None, s))"

definition nrx_enable_rssi_threshold :: "int \<Rightarrow> u32 \<Rightarrow> u32 \<Rightarrow> u32 \<Rightarrow> nrx_st \<Rightarrow> (int \<times> u32 option) outcome" where
  "nrx_enable_rssi_threshold rssi_thr chk_period dir type s =
     (if \<not> 100 \<le> chk_period then Inr ((EINVAL, None), s)
      else if \<not> chk_period \<le> 2100000 then Inr ((EINVAL, None), s)
      else if \<not> (- 120 \<le> rssi_thr \<and> rssi_thr \<le> 0) then Inr ((EINVAL, None), s)
      else if \<not> dir_ok dir then Inr ((EINVAL, None), s)
      else if type = NRX_DT_BEACON then
        nrx_register_mib_trigger ''5.2.3'' 0 (chk_period * 1000) (of_int rssi_thr) (ucast dir) 1 1 s
      else if type = NRX_DT_DATA then
        nrx_register_mib_trigger ''5.2.6'' 0 (chk_period * 1000) (of_int rssi_thr) (ucast dir) 1 1 s
      else Inr ((EINVAL, None), s))"

definition nrx_disable_rssi_threshold :: "u32 \<Rightarrow> nrx_st \<Rightarrow> int \<times> nrx_st" where
  "nrx_disable_rssi_threshold thr_id s = disable_either ''5.2.3'' ''5.2.6'' thr_id s"

definition nrx_get_rssi :: "u32 \<Rightarrow> nrx_st \<Rightarrow> int \<times> (u32 \<times> u8 list) option \<times> nrx_st" where
  "nrx_get_rssi type s =
     (if type = NRX_DT_BEACON then nrx_get_mib_val ''5.2.3'' 4 s
      else if type = NRX_DT_DATA then nrx_get_mib_val ''5.2.6'' 4 s
      else (EINVAL, None, s))"

text \<open>The windows are powers of two, the one for data first.\<close>

definition conf_windows :: "string \<Rightarrow> string \<Rightarrow> u8 \<Rightarrow> u8 \<Rightarrow> nrx_st \<Rightarrow> int \<times> nrx_st" where
  "conf_windows mib_data mib_beacon beacon_order data_order s =
     (if \<not> beacon_order \<le> 4 then (EINVAL, s)
      else if \<not> data_order \<le> 4 then (EINVAL, s)
      else
        let (err, s) = nrx_set_mib_val mib_data [push_bit (unat data_order) 1] s
        in if err \<noteq> 0 then (err, s) else nrx_set_mib_val mib_beacon [push_bit (unat beacon_order) 1] s)"

definition nrx_conf_rssi :: "u8 \<Rightarrow> u8 \<Rightarrow> nrx_st \<Rightarrow> int \<times> nrx_st" where
  "nrx_conf_rssi beacon_order data_order s = conf_windows ''5.2.16.1'' ''5.2.16.2'' beacon_order data_order s"

definition nrx_conf_snr :: "u8 \<Rightarrow> u8 \<Rightarrow> nrx_st \<Rightarrow> int \<times> nrx_st" where
  "nrx_conf_snr beacon_order data_order s = conf_windows ''5.2.17.1'' ''5.2.17.2'' beacon_order data_order s"

definition nrx_set_per_cutoff_thr :: "u32 \<Rightarrow> nrx_st \<Rightarrow> int \<times> nrx_st" where
  "nrx_set_per_cutoff_thr thr s =
     (if \<not> 0 < thr then (EINVAL, s)
      else if \<not> thr \<le> 1000 then (EINVAL, s)
      else nrx_set_mib_val ''5.2.15.4'' (UINT16_TO_STREAM (ucast thr)) s)"

definition nrx_enable_per_threshold :: "u32 \<Rightarrow> u32 \<Rightarrow> u32 \<Rightarrow> nrx_st \<Rightarrow> (int \<times> u32 option) outcome" where
  "nrx_enable_per_threshold chk_period per_thr dir s =
     (if \<not> per_thr \<le> 100 then Inr ((EINVAL, None), s)
      else if \<not> 100 \<le> chk_period then Inr ((EINVAL, None), s)
      else if \<not> chk_period \<le> 2100000 then Inr ((EINVAL, None), s)
      else if \<not> dir_ok dir then Inr ((EINVAL, None), s)
      else nrx_register_mib_trigger ''5.2.10'' 0 (chk_period * 1000) per_thr (ucast dir) 1 1 s)"

text \<open>A trigger on the interference error rate is not to be removed here.\<close>

definition nrx_disable_per_threshold :: "u32 \<Rightarrow> nrx_st \<Rightarrow> int \<times> nrx_st" where
  "nrx_disable_per_threshold thr_id s =
     (case nrx_check_trigger_existence thr_id (Some ''5.2.15.3'') s of
        (ret, None, s) \<Rightarrow> (ret, s)
      | (_, Some is_ier_thr, s) \<Rightarrow>
          if \<not> is_ier_thr = 0 then (EINVAL, s)
          else
            (case nrx_check_trigger_existence thr_id (Some ''5.2.10'') s of
               (ret, None, s) \<Rightarrow> (ret, s)
             | (_, Some does_exist, s) \<Rightarrow>
                 if \<not> (thr_id \<noteq> 0 \<and> does_exist \<noteq> 0) then (EINVAL, s) else nrx_del_mib_trigger thr_id s))"

definition nrx_get_per :: "nrx_st \<Rightarrow> int \<times> (u32 \<times> u8 list) option \<times> nrx_st" where
  "nrx_get_per s = nrx_get_mib_val ''5.2.10'' 4 s"

section \<open>Thresholds of the rates\<close>

definition nrx_enable_tx_rate_threshold :: "u32 \<Rightarrow> u8 \<Rightarrow> u32 \<Rightarrow> nrx_st \<Rightarrow> int \<times> u32 option \<times> nrx_st" where
  "nrx_enable_tx_rate_threshold sample_len thr_limit dir s =
     (if \<not> dir = NRX_THR_FALLING then (EINVAL, None, s)
      else if \<not> 1 \<le> sample_len then (EINVAL, None, s)
      else
        let (ret, s) = nrx_nrxioctl (NRXIOWTXRATEMONENABLE sample_len thr_limit) s
        in (ret, if ret = 0 then Some (nx_ioctl_value (nenv s) (ncalls s)) else None, s))"

definition nrx_disable_tx_rate_threshold :: "u32 \<Rightarrow> nrx_st \<Rightarrow> int \<times> nrx_st" where
  "nrx_disable_tx_rate_threshold thr_id s = nrx_nrxioctl (Write_ioc NRXIOCTXRATEMONDISABLE thr_id) s"

definition nrx_get_tx_rate :: "nrx_st \<Rightarrow> int \<times> u32 option \<times> nrx_st" where
  "nrx_get_tx_rate s = read_value NRXIORTXRATE s"

definition nrx_enable_rx_rate_threshold :: "u32 \<Rightarrow> u8 \<Rightarrow> u32 \<Rightarrow> nrx_st \<Rightarrow> int \<times> u32 option \<times> nrx_st" where
  "nrx_enable_rx_rate_threshold sample_len thr_rate dir s =
     (if \<not> dir = NRX_THR_FALLING then (EINVAL, None, s)
      else if \<not> 1 \<le> sample_len then (EINVAL, None, s)
      else
        let (ret, s) = nrx_nrxioctl (NRXIOWRXRATEMONENABLE sample_len thr_rate) s
        in (ret, if ret = 0 then Some (nx_ioctl_value (nenv s) (ncalls s)) else None, s))"

definition nrx_disable_rx_rate_threshold :: "u32 \<Rightarrow> nrx_st \<Rightarrow> int \<times> nrx_st" where
  "nrx_disable_rx_rate_threshold thr_id s = nrx_nrxioctl (Write_ioc NRXIOCRXRATEMONDISABLE thr_id) s"

definition nrx_get_rx_rate :: "nrx_st \<Rightarrow> int \<times> u32 option \<times> nrx_st" where
  "nrx_get_rx_rate s = read_value NRXIORRXRATE s"

section \<open>Link supervision and limits\<close>

definition nrx_enable_link_supervision :: "nrx_st \<Rightarrow> int \<times> nrx_st" where
  "nrx_enable_link_supervision s = nrx_nrxioctl (Bool_ioc NRXIOWLINKSUPERV True) s"

definition nrx_disable_link_supervision :: "nrx_st \<Rightarrow> int \<times> nrx_st" where
  "nrx_disable_link_supervision s = nrx_nrxioctl (Bool_ioc NRXIOWLINKSUPERV False) s"

definition nrx_conf_link_supervision_rx_beacon :: "u32 \<Rightarrow> u32 \<Rightarrow> nrx_st \<Rightarrow> int \<times> nrx_st" where
  "nrx_conf_link_supervision_rx_beacon limit timeout s =
     (if \<not> timeout \<le> 2100000 then (EINVAL, s)
      else
        let (ret, s) = nrx_nrxioctl (Write_ioc NRXIOWLINKSUPERVRXBEACONCOUNT limit) s
        in if ret \<noteq> 0 then (ret, s)
           else nrx_nrxioctl (Write_ioc NRXIOWLINKSUPERVRXBEACONTIMEOUT (timeout * 1000)) s)"

definition nrx_conf_link_supervision_tx :: "u32 \<Rightarrow> nrx_st \<Rightarrow> int \<times> nrx_st" where
  "nrx_conf_link_supervision_tx limit s = nrx_nrxioctl (Write_ioc NRXIOWLINKSUPERVTXFAILCOUNT limit) s"

definition nrx_conf_link_supervision_roundtrip :: "u32 \<Rightarrow> u32 \<Rightarrow> nrx_st \<Rightarrow> int \<times> nrx_st" where
  "nrx_conf_link_supervision_roundtrip limit silent_intervals s =
     (let (ret, s) = nrx_nrxioctl (Write_ioc NRXIOWLINKSUPERVRTRIPCOUNT limit) s
      in if ret \<noteq> 0 then (ret, s)
         else nrx_nrxioctl (Write_ioc NRXIOWLINKSUPERVRTRIPSILENT silent_intervals) s)"

definition nrx_get_fragment_thr :: "nrx_st \<Rightarrow> int \<times> u32 option \<times> nrx_st" where
  "nrx_get_fragment_thr s = read_value NRXIORFRAGMENTTHR s"

text \<open>The threshold is checked with \<open>NRX_ASSERT\<close>, as if it were a pointer: 0 ends the process.\<close>

definition nrx_set_fragment_thr :: "u32 \<Rightarrow> nrx_st \<Rightarrow> int outcome" where
  "nrx_set_fragment_thr thr s =
     (if thr = 0 then Inl (Exited 1) else Inr (nrx_nrxioctl (Write_ioc NRXIOWFRAGMENTTHR thr) s))"

definition nrx_get_rts_thr :: "nrx_st \<Rightarrow> int \<times> u32 option \<times> nrx_st" where
  "nrx_get_rts_thr s = read_value NRXIORRTSTHR s"

definition nrx_set_rts_thr :: "u32 \<Rightarrow> nrx_st \<Rightarrow> int outcome" where
  "nrx_set_rts_thr thr s =
     (if thr = 0 then Inl (Exited 1) else Inr (nrx_nrxioctl (Write_ioc NRXIOWRTSTHR thr) s))"

text \<open>The buffer behind the call is what the driver wrote, with a zero behind it when there is room.\<close>

definition nrx_get_registry :: "u32 \<Rightarrow> nrx_st \<Rightarrow> int \<times> (u32 \<times> u8 list) option \<times> nrx_st" where
  "nrx_get_registry len s =
     (let (ret, s) = nrx_nrxioctl (NRXIOWRREGISTRY len) s
      in if ret \<noteq> 0 then (ret, None, s)
         else
           let (n, registry) = nx_ioctl_mib (nenv s) (ncalls s)
           in (0, Some (n, if n < len then registry[unat n := 0] else registry), s))"

definition nrx_enable_tx_fail_notification :: "u32 \<Rightarrow> nrx_st \<Rightarrow> int \<times> nrx_st" where
  "nrx_enable_tx_fail_notification limit s = nrx_set_mib_val ''5.2.19.8'' (UINT32_TO_STREAM limit) s"

definition nrx_disable_tx_fail_notification :: "nrx_st \<Rightarrow> int \<times> nrx_st" where
  "nrx_disable_tx_fail_notification s = nrx_set_mib_val ''5.2.19.8'' (UINT32_TO_STREAM 0) s"

definition nrx_enable_missed_beacon_notification :: "u32 \<Rightarrow> nrx_st \<Rightarrow> int \<times> nrx_st" where
  "nrx_enable_missed_beacon_notification limit s = nrx_set_mib_val ''5.2.19.6'' (UINT32_TO_STREAM limit) s"

definition nrx_disable_missed_beacon_notification :: "nrx_st \<Rightarrow> int \<times> nrx_st" where
  "nrx_disable_missed_beacon_notification s = nrx_set_mib_val ''5.2.19.6'' (UINT32_TO_STREAM 0) s"

end
