(* ===== verification/Nrx_Subscribe.thy ===== *)
theory Nrx_Subscribe
  imports Nrx_Monitor
begin

text \<open>
  Callbacks for notifications (\<open>src/hardware/wifi/nrx600/radio.c\<close>, and the reset of \<open>param.c\<close>): each is a custom
  event of its own type.  A null callback or a null handle ends the process.
\<close>

section \<open>With an object of the library\<close>

definition nrx_register_conn_lost_notification :: "u32 \<Rightarrow> callback \<Rightarrow> address \<Rightarrow> nrx_st \<Rightarrow> address outcome" where
  "nrx_register_conn_lost_notification type cb ud s =
     (if cb = 0 then Inl (Exited 1)
      else Inr (register_helper ''CONNLOST'' 0 Nrx_handle_conn_lost_notification
        (Conn_lost_helper \<lparr>cln_type = type, cln_handler = cb, cln_user_data = ud\<rparr>) s))"

definition nrx_register_tx_rate_threshold_callback :: "u32 \<Rightarrow> callback \<Rightarrow> address \<Rightarrow> nrx_st \<Rightarrow> address outcome" where
  "nrx_register_tx_rate_threshold_callback thr_id cb ud s =
     (if cb = 0 then Inl (Exited 1)
      else Inr (register_helper ''TXRATE'' thr_id Nrx_handle_rate_notification
        (Rate_helper \<lparr>nt_handler = cb, nt_user_data = ud\<rparr>) s))"

definition nrx_register_rx_rate_threshold_callback :: "u32 \<Rightarrow> callback \<Rightarrow> address \<Rightarrow> nrx_st \<Rightarrow> address outcome" where
  "nrx_register_rx_rate_threshold_callback thr_id cb ud s =
     (if cb = 0 then Inl (Exited 1)
      else Inr (register_helper ''RXRATE'' thr_id Nrx_handle_rate_notification
        (Rate_helper \<lparr>nt_handler = cb, nt_user_data = ud\<rparr>) s))"

text \<open>MIB triggers.\<close>

definition nrx_register_link_monitoring_callback :: "u32 \<Rightarrow> callback \<Rightarrow> address \<Rightarrow> nrx_st \<Rightarrow> address outcome" where
  "nrx_register_link_monitoring_callback thr_id cb ud s =
     (if cb = 0 then Inl (Exited 1) else Inr (nrx_register_mib_trigger_event_handler thr_id cb ud s))"

definition nrx_register_snr_threshold_callback :: "u32 \<Rightarrow> callback \<Rightarrow> address \<Rightarrow> nrx_st \<Rightarrow> address outcome" where
  "nrx_register_snr_threshold_callback thr_id cb ud s =
     (if cb = 0 then Inl (Exited 1) else Inr (nrx_register_mib_trigger_event_handler thr_id cb ud s))"

definition nrx_register_rssi_threshold_callback :: "u32 \<Rightarrow> callback \<Rightarrow> address \<Rightarrow> nrx_st \<Rightarrow> address outcome" where
  "nrx_register_rssi_threshold_callback thr_id cb ud s =
     (if cb = 0 then Inl (Exited 1) else Inr (nrx_register_mib_trigger_event_handler thr_id cb ud s))"

definition nrx_register_per_threshold_callback :: "u32 \<Rightarrow> callback \<Rightarrow> address \<Rightarrow> nrx_st \<Rightarrow> address outcome" where
  "nrx_register_per_threshold_callback thr_id cb ud s =
     (if cb = 0 then Inl (Exited 1) else Inr (nrx_register_mib_trigger_event_handler thr_id cb ud s))"

section \<open>The callback itself as handler\<close>

definition nrx_register_conn_incompatible_notification :: "callback \<Rightarrow> address \<Rightarrow> nrx_st \<Rightarrow> address outcome" where
  "nrx_register_conn_incompatible_notification cb ud s =
     (if cb = 0 then Inl (Exited 1)
      else Inr (nrx_register_custom_event (Some ''CONNINCOMPATIBLE'') 0 (Custom_user cb) ud s))"

definition nrx_register_tx_fail_notification :: "callback \<Rightarrow> address \<Rightarrow> nrx_st \<Rightarrow> address outcome" where
  "nrx_register_tx_fail_notification cb ud s =
     (if cb = 0 then Inl (Exited 1)
      else Inr (nrx_register_custom_event (Some ''TXFAIL'') 0 (Custom_user cb) ud s))"

definition nrx_register_missed_beacon_notification :: "callback \<Rightarrow> address \<Rightarrow> nrx_st \<Rightarrow> address outcome" where
  "nrx_register_missed_beacon_notification cb ud s =
     (if cb = 0 then Inl (Exited 1)
      else Inr (nrx_register_custom_event (Some ''NOBEACON'') 0 (Custom_user cb) ud s))"

definition nrx_register_dev_reset_notification :: "callback \<Rightarrow> address \<Rightarrow> nrx_st \<Rightarrow> address outcome" where
  "nrx_register_dev_reset_notification cb ud s =
     (if cb = 0 then Inl (Exited 1)
      else Inr (nrx_register_custom_event (Some ''RESET'') 0 (Custom_user cb) ud s))"

section \<open>Cancelling\<close>

definition cancel_handle :: "address \<Rightarrow> nrx_st \<Rightarrow> int outcome" where
  "cancel_handle handle s = (if handle = 0 then Inl (Exited 1) else nrx_cancel_custom_event handle s)"

definition nrx_cancel_link_monitoring_callback :: "address \<Rightarrow> nrx_st \<Rightarrow> int outcome" where
  "nrx_cancel_link_monitoring_callback handle s =
     (if handle = 0 then Inl (Exited 1) else nrx_cancel_mib_trigger_event_handler handle s)"

definition nrx_cancel_snr_threshold_callback :: "address \<Rightarrow> nrx_st \<Rightarrow> int outcome" where
  "nrx_cancel_snr_threshold_callback handle s =
     (if handle = 0 then Inl (Exited 1) else nrx_cancel_mib_trigger_event_handler handle s)"

definition nrx_cancel_rssi_threshold_callback :: "address \<Rightarrow> nrx_st \<Rightarrow> int outcome" where
  "nrx_cancel_rssi_threshold_callback handle s =
     (if handle = 0 then Inl (Exited 1) else nrx_cancel_mib_trigger_event_handler handle s)"

definition nrx_cancel_per_threshold_callback :: "address \<Rightarrow> nrx_st \<Rightarrow> int outcome" where
  "nrx_cancel_per_threshold_callback handle s =
     (if handle = 0 then Inl (Exited 1) else nrx_cancel_mib_trigger_event_handler handle s)"

definition nrx_cancel_conn_lost_notification :: "address \<Rightarrow> nrx_st \<Rightarrow> int outcome" where
  "nrx_cancel_conn_lost_notification handle s = cancel_handle handle s"

definition nrx_cancel_conn_incompatible_notification :: "address \<Rightarrow> nrx_st \<Rightarrow> int outcome" where
  "nrx_cancel_conn_incompatible_notification handle s = cancel_handle handle s"

definition nrx_cancel_tx_rate_threshold_callback :: "address \<Rightarrow> nrx_st \<Rightarrow> int outcome" where
  "nrx_cancel_tx_rate_threshold_callback handle s = cancel_handle handle s"

definition nrx_cancel_rx_rate_threshold_callback :: "address \<Rightarrow> nrx_st \<Rightarrow> int outcome" where
  "nrx_cancel_rx_rate_threshold_callback handle s = cancel_handle handle s"

definition nrx_cancel_tx_fail_notification :: "address \<Rightarrow> nrx_st \<Rightarrow> int outcome" where
  "nrx_cancel_tx_fail_notification handle s = cancel_handle handle s"

definition nrx_cancel_missed_beacon_notification :: "address \<Rightarrow> nrx_st \<Rightarrow> int outcome" where
  "nrx_cancel_missed_beacon_notification handle s = cancel_handle handle s"

definition nrx_cancel_dev_reset_notification :: "address \<Rightarrow> nrx_st \<Rightarrow> int outcome" where
  "nrx_cancel_dev_reset_notification handle s = cancel_handle handle s"

lemmas nrx_subscriptions =
  nrx_register_conn_lost_notification_def nrx_register_tx_rate_threshold_callback_def
  nrx_register_rx_rate_threshold_callback_def nrx_register_link_monitoring_callback_def
  nrx_register_snr_threshold_callback_def nrx_register_rssi_threshold_callback_def
  nrx_register_per_threshold_callback_def nrx_register_conn_incompatible_notification_def
  nrx_register_tx_fail_notification_def nrx_register_missed_beacon_notification_def
  nrx_register_dev_reset_notification_def nrx_register_scan_notification_handler_def

lemmas nrx_cancellations =
  cancel_handle_def nrx_cancel_link_monitoring_callback_def nrx_cancel_snr_threshold_callback_def
  nrx_cancel_rssi_threshold_callback_def nrx_cancel_per_threshold_callback_def
  nrx_cancel_conn_lost_notification_def nrx_cancel_conn_incompatible_notification_def
  nrx_cancel_tx_rate_threshold_callback_def nrx_cancel_rx_rate_threshold_callback_def
  nrx_cancel_tx_fail_notification_def nrx_cancel_missed_beacon_notification_def
  nrx_cancel_dev_reset_notification_def nrx_cancel_scan_notification_handler_def
  nrx_cancel_mib_trigger_event_handler_def

end
