(* ===== verification/Nrx_Memory.thy ===== *)
theory Nrx_Memory
  imports Nrx_Dispatch Nrx_Subscribe
begin

text \<open>
  The memory of the event handlers: what an application does with the library, in any order, keeps every
  block that \<open>malloc\<close> returned in exactly one object, and frees none twice.
\<close>

section \<open>The invariant\<close>

definition list_blocks :: "nrx_st \<Rightarrow> address list" where
  "list_blocks s = map fst (we_handlers s) @ map fst (netlink_handlers s)"

definition owned :: "nrx_st \<Rightarrow> address set" where
  "owned s = set (list_blocks s) \<union> dom (customs s) \<union> dom (helpers s)"

text \<open>Every block stands in one place.\<close>

definition blocks_ok :: "nrx_st \<Rightarrow> bool" where
  "blocks_ok s \<longleftrightarrow> malloc_ok (nenv s) \<and> distinct (list_blocks s)
     \<and> set (list_blocks s) \<inter> dom (customs s) = {} \<and> set (list_blocks s) \<inter> dom (helpers s) = {}
     \<and> dom (customs s) \<inter> dom (helpers s) = {}
     \<and> live (ncalls s) = owned s \<and> frees_ok (ncalls s)"

fun is_helper :: "custom_handler \<Rightarrow> bool" where
  "is_helper (Custom_user cb) = False"
| "is_helper (Custom_helper f) = True"

text \<open>The chains: a handler for custom events and its object know each other, and the object of a MIB
  trigger or a scan notification is the only one that uses its third object.\<close>

definition handlers_chained :: "nrx_st \<Rightarrow> bool" where
  "handlers_chained s \<longleftrightarrow> (\<forall>a ev. (a, ev) \<in> set (we_handlers s) \<longrightarrow> we_handler ev = Nrx_handle_custom_event \<longrightarrow>
     (\<exists>ce. customs s (we_user_data ev) = Some ce \<and> ev_handler ce = a))"

definition customs_chained :: "nrx_st \<Rightarrow> bool" where
  "customs_chained s \<longleftrightarrow> (\<forall>p ce. customs s p = Some ce \<longrightarrow>
     (\<exists>ev. (ev_handler ce, ev) \<in> set (we_handlers s) \<and> we_handler ev = Nrx_handle_custom_event \<and> we_user_data ev = p))"

definition helpers_chained :: "nrx_st \<Rightarrow> bool" where
  "helpers_chained s \<longleftrightarrow> (\<forall>p ce. customs s p = Some ce \<longrightarrow> is_helper (ce_handler ce) \<longrightarrow>
     ce_user_data ce \<in> dom (helpers s) \<and>
     (\<forall>q cf. customs s q = Some cf \<longrightarrow> is_helper (ce_handler cf) \<longrightarrow>
        ce_user_data cf = ce_user_data ce \<longrightarrow> q = p))"

definition nrx_inv :: "nrx_st \<Rightarrow> bool" where
  "nrx_inv s \<longleftrightarrow> blocks_ok s \<and> handlers_chained s \<and> customs_chained s \<and> helpers_chained s"

lemma nrx_invD:
  assumes "nrx_inv s"
  shows "blocks_ok s" "handlers_chained s" "customs_chained s" "helpers_chained s"
  using assms by (auto simp: nrx_inv_def)

lemma blocks_okD:
  assumes "blocks_ok s"
  shows "malloc_ok (nenv s)" "distinct (map fst (we_handlers s))" "distinct (map fst (netlink_handlers s))"
    "live (ncalls s) = owned s" "frees_ok (ncalls s)"
  using assms by (auto simp: blocks_ok_def list_blocks_def)

lemma unlink_filter: "distinct (map fst xs) \<Longrightarrow> unlink a xs = filter (\<lambda>x. fst x \<noteq> a) xs"
proof (induction xs)
  case (Cons x xs)
  then have IH: "unlink a xs = filter (\<lambda>x. fst x \<noteq> a) xs" by simp
  show ?case
  proof (cases "fst x = a")
    case True
    with Cons.prems have "filter (\<lambda>x. fst x \<noteq> a) xs = xs" by (auto simp: filter_id_conv image_iff)
    with True show ?thesis by (simp add: unlink_def)
  next
    case False
    with IH show ?thesis by (simp add: unlink_def)
  qed
qed (simp add: unlink_def)

section \<open>Removing a chain\<close>

definition chain_custom :: "nrx_we_event \<Rightarrow> address set" where
  "chain_custom ev = (if we_handler ev = Nrx_handle_custom_event then {we_user_data ev} else {})"

definition chain_helper :: "nrx_st \<Rightarrow> nrx_we_event \<Rightarrow> address set" where
  "chain_helper s ev = {h. \<exists>p ce. p \<in> chain_custom ev \<and> customs s p = Some ce
     \<and> is_helper (ce_handler ce) \<and> h = ce_user_data ce}"

lemma blocks_removed:
  assumes "W \<inter> N = {}" "(W \<union> N) \<inter> C = {}" "(W \<union> N) \<inter> H = {}" "C \<inter> H = {}" "L = W \<union> N \<union> C \<union> H"
    and "a \<in> W" "P \<subseteq> C" "Q \<subseteq> H"
  shows "(W - {a}) \<inter> N = {}" "((W - {a}) \<union> N) \<inter> (C - P) = {}" "((W - {a}) \<union> N) \<inter> (H - Q) = {}"
    "(C - P) \<inter> (H - Q) = {}" "L - ({a} \<union> P \<union> Q) = (W - {a}) \<union> N \<union> (C - P) \<union> (H - Q)"
  using assms by blast+

lemma chain_removed_blocks:
  assumes "nrx_inv s" "(a, ev) \<in> set (we_handlers s)"
    and t: "we_handlers t = filter (\<lambda>x. fst x \<noteq> a) (we_handlers s)" "netlink_handlers t = netlink_handlers s"
      "customs t = customs s |` (- chain_custom ev)" "helpers t = helpers s |` (- chain_helper s ev)"
      "nenv t = nenv s" "live (ncalls t) = live (ncalls s) - ({a} \<union> chain_custom ev \<union> chain_helper s ev)"
      "frees_ok (ncalls t)"
  shows "blocks_ok t"
proof -
  note b = nrx_invD(1) [OF assms(1), unfolded blocks_ok_def list_blocks_def owned_def]
  have c: "chain_custom ev \<subseteq> dom (customs s)" "chain_helper s ev \<subseteq> dom (helpers s)"
    using assms(2) nrx_invD(2,4) [OF assms(1)]
    by (fastforce simp: chain_custom_def chain_helper_def handlers_chained_def helpers_chained_def split: if_splits)+
  have w: "set (map fst (we_handlers t)) = set (map fst (we_handlers s)) - {a}" by (auto simp: t)
  have d: "distinct (map fst (we_handlers t))" using b by (simp add: t distinct_map_filter)
  have a: "a \<in> set (map fst (we_handlers s))" using assms(2) by force
  have dom: "dom (customs t) = dom (customs s) - chain_custom ev" "dom (helpers t) = dom (helpers s) - chain_helper s ev"
    by (auto simp: t)
  show ?thesis
    unfolding blocks_ok_def list_blocks_def owned_def distinct_append set_append w dom t(2,5,6)
    using b d t(7) blocks_removed [OF _ _ _ _ _ a c, where N = "set (map fst (netlink_handlers s))"
        and L = "live (ncalls s)"] by (simp del: set_map)
qed

lemma chain_removed:
  assumes "nrx_inv s" "(a, ev) \<in> set (we_handlers s)"
    and t: "we_handlers t = filter (\<lambda>x. fst x \<noteq> a) (we_handlers s)" "netlink_handlers t = netlink_handlers s"
      "customs t = customs s |` (- chain_custom ev)" "helpers t = helpers s |` (- chain_helper s ev)"
      "nenv t = nenv s" "live (ncalls t) = live (ncalls s) - ({a} \<union> chain_custom ev \<union> chain_helper s ev)"
      "frees_ok (ncalls t)"
  shows "nrx_inv t"
proof -
  have one: "(a, ew) \<in> set (we_handlers s) \<Longrightarrow> ew = ev" for ew
    using blocks_okD(2) [OF nrx_invD(1) [OF assms(1)]] assms(2) by (metis eq_key_imp_eq_value)
  have own: "ev_handler ce = a" if "p \<in> chain_custom ev" "customs s p = Some ce" for p ce
    using nrx_invD(2) [OF assms(1)] assms(2) that
    by (auto simp: handlers_chained_def chain_custom_def split: if_splits) (metis option.inject)
  have "handlers_chained t"
    unfolding handlers_chained_def t
  proof (intro allI impI)
    fix b ew assume b: "(b, ew) \<in> set (filter (\<lambda>x. fst x \<noteq> a) (we_handlers s))" "we_handler ew = Nrx_handle_custom_event"
    then obtain ce where ce: "customs s (we_user_data ew) = Some ce" "ev_handler ce = b"
      using nrx_invD(2) [OF assms(1)] by (auto simp: handlers_chained_def)
    with own b(1) have "we_user_data ew \<notin> chain_custom ev" by auto
    with ce show "\<exists>ce. (customs s |` (- chain_custom ev)) (we_user_data ew) = Some ce \<and> ev_handler ce = b" by simp
  qed
  moreover have "customs_chained t"
    unfolding customs_chained_def t
  proof (intro allI impI)
    fix p ce assume "(customs s |` (- chain_custom ev)) p = Some ce"
    then have p: "customs s p = Some ce" "p \<notin> chain_custom ev" by (auto simp: restrict_map_def split: if_splits)
    then obtain ew where ew: "(ev_handler ce, ew) \<in> set (we_handlers s)" "we_handler ew = Nrx_handle_custom_event"
        "we_user_data ew = p"
      using nrx_invD(3) [OF assms(1)] by (auto simp: customs_chained_def)
    have "ev_handler ce \<noteq> a"
      using one ew p(2) by (auto simp: chain_custom_def)
    with ew show "\<exists>ew. (ev_handler ce, ew) \<in> set (filter (\<lambda>x. fst x \<noteq> a) (we_handlers s)) \<and>
        we_handler ew = Nrx_handle_custom_event \<and> we_user_data ew = p" by auto
  qed
  moreover have "helpers_chained t"
    unfolding helpers_chained_def
  proof (intro allI impI)
    fix p ce assume "customs t p = Some ce" and m: "is_helper (ce_handler ce)"
    then have p: "customs s p = Some ce" "p \<notin> chain_custom ev"
      by (auto simp: t restrict_map_def split: if_splits)
    from nrx_invD(4) [OF assms(1)] p m have h: "ce_user_data ce \<in> dom (helpers s)"
      and u: "customs s q = Some cf \<Longrightarrow> is_helper (ce_handler cf) \<Longrightarrow> ce_user_data cf = ce_user_data ce \<Longrightarrow> q = p"
      for q cf by (auto simp: helpers_chained_def)
    have "ce_user_data ce \<notin> chain_helper s ev"
    proof
      assume "ce_user_data ce \<in> chain_helper s ev"
      then obtain q cf where "q \<in> chain_custom ev" "customs s q = Some cf" "is_helper (ce_handler cf)"
          "ce_user_data cf = ce_user_data ce" by (auto simp: chain_helper_def)
      with u p(2) show False by blast
    qed
    with h have "ce_user_data ce \<in> dom (helpers t)" by (auto simp: t)
    moreover have "customs t q = Some cf \<Longrightarrow> customs s q = Some cf" for q cf
      by (simp add: t restrict_map_def split: if_splits)
    ultimately show "ce_user_data ce \<in> dom (helpers t) \<and> (\<forall>q cf. customs t q = Some cf \<longrightarrow>
        is_helper (ce_handler cf) \<longrightarrow> ce_user_data cf = ce_user_data ce \<longrightarrow> q = p)"
      using u by blast
  qed
  ultimately show ?thesis using chain_removed_blocks [OF assms] by (simp add: nrx_inv_def)
qed

section \<open>Cancelling keeps the invariant\<close>

lemma call_user_live:
  "call_user cb op d ud s = Inr (r, t) \<Longrightarrow> live (ncalls t) = live (ncalls s) \<and> (frees_ok (ncalls t) = frees_ok (ncalls s))"
  by (auto dest: call_user_keeps(9))

text \<open>What cancelling a handler does to the memory.\<close>

lemma custom_cancelled_user:
  assumes "custom_event_cancelled p s = Inr (r, t)" "customs s p = Some ce" "ce_handler ce = Custom_user cb"
  shows "customs t = (customs s)(p := None)" "helpers t = helpers s"
    "\<exists>q. ncalls t = ncalls s @ [Callback cb NRX_CB_CANCEL Null_data (ce_user_data ce) q, Free_of p]"
  using assms by (auto simp: custom_event_cancelled_def call_custom_def nfree_def call_user_def Let_def
      split: sum.splits if_splits)

text \<open>What a third object says whom to tell.\<close>

fun helper_target :: "helper_fn \<Rightarrow> helper_object \<Rightarrow> callback \<times> address" where
  "helper_target Mibtrigger_helper (Event_helper h) = (hd_cb h, hd_user_data h)"
| "helper_target Nrx_handle_scan_notification (Scan_helper n) = (sn_handler n, sn_user_data n)"
| "helper_target Nrx_handle_conn_lost_notification (Conn_lost_helper n) = (cln_handler n, cln_user_data n)"
| "helper_target Nrx_handle_rate_notification (Rate_helper n) = (nt_handler n, nt_user_data n)"
| "helper_target _ _ = (0, 0)"

lemma custom_cancelled_helper:
  assumes "custom_event_cancelled p s = Inr (r, t)" "customs s p = Some ce" "ce_handler ce = Custom_helper f"
    "helpers s (ce_user_data ce) = Some h"
  shows "customs t = (customs s)(p := None)" "helpers t = (helpers s)(ce_user_data ce := None)"
    "\<exists>q. ncalls t = ncalls s @ [Callback (fst (helper_target f h)) NRX_CB_CANCEL Null_data (snd (helper_target f h)) q,
       Free_of (ce_user_data ce), Free_of p]"
  using assms by (cases "(f, h)" rule: helper_target.cases;
      auto simp: custom_event_cancelled_def call_custom_def call_helper_def mibtrigger_helper_def
        nrx_handle_scan_notification_def nrx_handle_conn_lost_notification_def nrx_handle_rate_notification_def
        nfree_def call_user_def Let_def split: sum.splits if_splits)+

lemma cancel_we_fn_memory:
  assumes "nrx_inv s" "(a, ev) \<in> set (we_handlers s)"
    and "cancel_we_fn (we_handler ev) (we_user_data ev) (s\<lparr>we_handlers := ws\<rparr>) = Inr (r, t)"
  shows "customs t = customs s |` (- chain_custom ev) \<and> helpers t = helpers s |` (- chain_helper s ev)
    \<and> live (ncalls t) = live (ncalls s) - (chain_custom ev \<union> chain_helper s ev) \<and> frees_ok (ncalls t)"
proof -
  have b: "live (ncalls s) = owned s" "frees_ok (ncalls s)" "dom (customs s) \<inter> dom (helpers s) = {}"
    using nrx_invD(1) [OF assms(1)] by (auto simp: blocks_ok_def)
  show ?thesis
  proof (cases "we_handler ev")
    case (We_user cb)
    then have "call_user cb NRX_CB_CANCEL Null_data (we_user_data ev) (s\<lparr>we_handlers := ws\<rparr>) = Inr (r, t)"
      using assms(3) by (simp add: cancel_we_fn_def)
    from call_user_keeps(6,7,9) [OF this] We_user b(2) show ?thesis
      by (simp add: chain_custom_def chain_helper_def restrict_map_def)
  next
    case Nrx_handle_custom_event
    let ?p = "we_user_data ev"
    obtain ce where ce: "customs s ?p = Some ce"
      using nrx_invD(2) [OF assms(1)] assms(2) Nrx_handle_custom_event by (auto simp: handlers_chained_def)
    have o: "?p \<in> live (ncalls s)" using ce b(1) by (auto simp: owned_def)
    have c: "custom_event_cancelled ?p (s\<lparr>we_handlers := ws\<rparr>) = Inr (r, t)"
      using assms(3) Nrx_handle_custom_event by (simp add: cancel_we_fn_def)
    have p: "chain_custom ev = {?p}" using Nrx_handle_custom_event by (simp add: chain_custom_def)
    show ?thesis
    proof (cases "ce_handler ce")
      case (Custom_user cb)
      then have "chain_helper s ev = {}" using ce p by (simp add: chain_helper_def)
      with custom_cancelled_user [OF c _ Custom_user] ce o b(2) p show ?thesis
        by (auto simp: restrict_complement_singleton_eq)
    next
      case (Custom_helper f)
      then have "ce_user_data ce \<in> dom (helpers s)"
        using nrx_invD(4) [OF assms(1)] ce Custom_helper by (auto simp: helpers_chained_def)
      then obtain h where h: "helpers s (ce_user_data ce) = Some h" by auto
      have q: "chain_helper s ev = {ce_user_data ce}" using ce p Custom_helper by (auto simp: chain_helper_def)
      have "ce_user_data ce \<in> live (ncalls s)" "ce_user_data ce \<noteq> ?p"
        using b ce h by (auto simp: owned_def)
      with custom_cancelled_helper [OF c _ Custom_helper] ce h o b(2) p q show ?thesis
        by (auto simp: restrict_complement_singleton_eq)
    qed
  qed
qed

lemma cancel_we_inv:
  assumes "nrx_inv s" "nrx_cancel_we_event_handler a s = Inr (r, t)"
  shows "nrx_inv t"
proof (cases "map_of (we_handlers s) a")
  case None
  then show ?thesis using assms by (simp add: nrx_cancel_we_event_handler_def)
next
  case (Some ev)
  then have ev: "(a, ev) \<in> set (we_handlers s)" by (rule map_of_SomeD)
  let ?u = "s\<lparr>we_handlers := unlink a (we_handlers s)\<rparr>"
  obtain r' u where u: "cancel_we_fn (we_handler ev) (we_user_data ev) ?u = Inr (r', u)" "t = nfree a u"
    using assms(2) Some by (auto simp: nrx_cancel_we_event_handler_def split: sum.splits)
  note m = cancel_we_fn_memory [OF assms(1) ev u(1)]
  note l = cancel_we_fn_lists [OF u(1), unfolded same_lists_def]
  have b: "blocks_ok s" using nrx_invD(1) [OF assms(1)] .
  have "a \<in> set (list_blocks s)" using ev by (force simp: list_blocks_def)
  then have a: "a \<in> live (ncalls s)" "a \<notin> chain_custom ev" "a \<notin> chain_helper s ev"
    using b ev nrx_invD(2,4) [OF assms(1)]
    by (fastforce simp: blocks_ok_def owned_def chain_custom_def chain_helper_def handlers_chained_def
        helpers_chained_def split: if_splits)+
  show ?thesis
    by (rule chain_removed [OF assms(1) ev])
      (use l m a in \<open>auto simp: u(2) nfree_def unlink_filter [OF blocks_okD(2) [OF b]]\<close>)
qed

lemma cancel_custom_inv: "nrx_inv s \<Longrightarrow> nrx_cancel_custom_event p s = Inr (r, t) \<Longrightarrow> nrx_inv t"
  by (auto simp: nrx_cancel_custom_event_def split: if_splits option.splits dest: cancel_we_inv)

lemma cancel_by_id_inv: "nrx_inv s \<Longrightarrow> cancel_by_id_loop ty i xs ret s = Inr (r, t) \<Longrightarrow> nrx_inv t"
proof (induction ty i xs ret s rule: cancel_by_id_loop.induct)
  case (2 ty i a ev rest ret s)
  then show ?case by (auto split: if_splits option.splits sum.splits dest: cancel_custom_inv)
qed simp

lemma cancel_netlink_inv:
  assumes "nrx_inv s" "nrx_cancel_netlink_handler a s = Inr (r, t)"
  shows "nrx_inv t"
proof (cases "map_of (netlink_handlers s) a")
  case None
  then show ?thesis using assms by (simp add: nrx_cancel_netlink_handler_def)
next
  case (Some ev)
  then have ev: "(a, ev) \<in> set (netlink_handlers s)" by (rule map_of_SomeD)
  let ?u = "s\<lparr>netlink_handlers := unlink a (netlink_handlers s)\<rparr>"
  obtain r' u where u: "cancel_netlink_fn (nl_handler ev) (nl_user_data ev) ?u = Inr (r', u)" "t = nfree a u"
    using assms(2) Some by (auto simp: nrx_cancel_netlink_handler_def split: sum.splits)
  note b = nrx_invD(1) [OF assms(1), unfolded blocks_ok_def list_blocks_def owned_def]
  have f: "frees_ok (ncalls s)" using b by blast
  have k: "customs u = customs s" "helpers u = helpers s" "live (ncalls u) = live (ncalls s)" "frees_ok (ncalls u)"
    using u(1) f by (auto simp: cancel_netlink_fn_def split: netlink_handler_fn.splits dest: call_user_keeps(6,7,9))
  have l: "we_handlers u = we_handlers s" "nenv u = nenv s"
      "netlink_handlers u = filter (\<lambda>x. fst x \<noteq> a) (netlink_handlers s)"
    using cancel_netlink_fn_lists [OF u(1)] b by (simp_all add: same_lists_def unlink_filter)
  have n: "set (map fst (filter (\<lambda>x. fst x \<noteq> a) (netlink_handlers s))) = set (map fst (netlink_handlers s)) - {a}" by auto
  have d: "distinct (map fst (filter (\<lambda>x. fst x \<noteq> a) (netlink_handlers s)))" using b by (simp add: distinct_map_filter)
  have a: "a \<in> set (map fst (netlink_handlers s))" using ev by force
  have "a \<in> live (ncalls s)" using a b by simp
  then have "blocks_ok t"
    unfolding blocks_ok_def list_blocks_def owned_def u(2) nfree_def nlog_simps distinct_append set_append l n k
    using b d k(3,4) a by (auto simp del: set_map)
  with nrx_invD [OF assms(1)] show ?thesis
    by (simp add: nrx_inv_def handlers_chained_def customs_chained_def helpers_chained_def u(2) nfree_def k l)
qed

section \<open>Registering keeps the invariant\<close>

lemma nmalloc_cases:
  assumes "nmalloc s = (m, t)"
  shows "t = nlog (Malloc_ret m) s"
    and "malloc_ok (nenv s) \<Longrightarrow> m = Some a \<Longrightarrow> a \<noteq> 0 \<and> a \<notin> live (ncalls s)"
  using assms by (auto simp: nmalloc_def malloc_ok_def Let_def)

lemma socket_inv: "nrx_inv s \<Longrightarrow> nrx_inv (snd (nrx_event_connection_number s))"
  by (simp add: nrx_inv_def blocks_ok_def list_blocks_def owned_def handlers_chained_def customs_chained_def
      helpers_chained_def)

lemma nlog_inv: "nrx_inv s \<Longrightarrow> block_step L c = L \<Longrightarrow> (\<And>L. block_step L c = L) \<Longrightarrow> (\<And>a. c \<noteq> Free_of a) \<Longrightarrow> nrx_inv (nlog c s)"
  by (cases c) (auto simp: nrx_inv_def blocks_ok_def list_blocks_def owned_def handlers_chained_def
      customs_chained_def helpers_chained_def)

lemma malloc_failed_inv: "nrx_inv s \<Longrightarrow> nrx_inv (nlog (Malloc_ret None) s)"
  by (rule nlog_inv) simp_all

text \<open>A new block, put in a handler list or made a third object.\<close>

lemma we_handler_added:
  assumes "nrx_inv s" "a \<notin> live (ncalls s)" "we_handler ev \<noteq> Nrx_handle_custom_event"
  shows "nrx_inv (nlog (Malloc_ret (Some a)) s\<lparr>we_handlers := we_handlers s @ [(a, ev)]\<rparr>)"
proof -
  note b = nrx_invD(1) [OF assms(1), unfolded blocks_ok_def]
  have "a \<notin> owned s" using b assms(2) by blast
  then have "blocks_ok (nlog (Malloc_ret (Some a)) s\<lparr>we_handlers := we_handlers s @ [(a, ev)]\<rparr>)"
    using b by (auto simp: blocks_ok_def list_blocks_def owned_def)
  with nrx_invD [OF assms(1)] assms(3) show ?thesis
    by (fastforce simp: nrx_inv_def handlers_chained_def customs_chained_def helpers_chained_def)
qed

lemma netlink_handler_added:
  assumes "nrx_inv s" "a \<notin> live (ncalls s)"
  shows "nrx_inv (nlog (Malloc_ret (Some a)) s\<lparr>netlink_handlers := netlink_handlers s @ [(a, ev)]\<rparr>)"
proof -
  note b = nrx_invD(1) [OF assms(1), unfolded blocks_ok_def]
  have "a \<notin> owned s" using b assms(2) by blast
  then have "blocks_ok (nlog (Malloc_ret (Some a)) s\<lparr>netlink_handlers := netlink_handlers s @ [(a, ev)]\<rparr>)"
    using b by (auto simp: blocks_ok_def list_blocks_def owned_def)
  with nrx_invD [OF assms(1)] show ?thesis
    by (simp add: nrx_inv_def handlers_chained_def customs_chained_def helpers_chained_def)
qed

lemma helper_added:
  assumes "nrx_inv s" "a \<notin> live (ncalls s)"
  shows "nrx_inv (nlog (Malloc_ret (Some a)) s\<lparr>helpers := (helpers s)(a \<mapsto> h)\<rparr>)"
proof -
  note b = nrx_invD(1) [OF assms(1), unfolded blocks_ok_def]
  have "a \<notin> owned s" using b assms(2) by blast
  then have "blocks_ok (nlog (Malloc_ret (Some a)) s\<lparr>helpers := (helpers s)(a \<mapsto> h)\<rparr>)"
    using b by (auto simp: blocks_ok_def list_blocks_def owned_def)
  with nrx_invD [OF assms(1)] show ?thesis
    by (fastforce simp: nrx_inv_def handlers_chained_def customs_chained_def helpers_chained_def)
qed

text \<open>Two new blocks: the object of a custom event and its handler.\<close>

lemma custom_added:
  assumes "nrx_inv s" "p \<notin> live (ncalls s)" "a \<notin> live (ncalls s)" "a \<noteq> p"
    and h: "is_helper (ce_handler ce) \<Longrightarrow> ce_user_data ce \<in> dom (helpers s) \<and>
      (\<forall>q cf. customs s q = Some cf \<longrightarrow> is_helper (ce_handler cf) \<longrightarrow> ce_user_data cf \<noteq> ce_user_data ce)"
    and ev: "ev_handler ce = a" "we_handler ev = Nrx_handle_custom_event" "we_user_data ev = p"
    and t: "we_handlers t = we_handlers s @ [(a, ev)]" "netlink_handlers t = netlink_handlers s"
      "customs t = (customs s)(p \<mapsto> ce)" "helpers t = helpers s" "nenv t = nenv s"
      "live (ncalls t) = insert a (insert p (live (ncalls s)))" "frees_ok (ncalls t)"
  shows "nrx_inv t"
proof -
  note b = nrx_invD(1) [OF assms(1), unfolded blocks_ok_def]
  have n: "a \<notin> owned s" "p \<notin> owned s" using b assms(2,3) by blast+
  then have "blocks_ok t"
    using b \<open>a \<noteq> p\<close> t(6,7) by (auto simp: blocks_ok_def list_blocks_def owned_def t(1-5))
  moreover have "handlers_chained t"
    unfolding handlers_chained_def t(1,3)
  proof (intro allI impI)
    fix b ew assume b: "(b, ew) \<in> set (we_handlers s @ [(a, ev)])" "we_handler ew = Nrx_handle_custom_event"
    show "\<exists>ce'. ((customs s)(p \<mapsto> ce)) (we_user_data ew) = Some ce' \<and> ev_handler ce' = b"
    proof (cases "(b, ew) \<in> set (we_handlers s)")
      case True
      with b(2) obtain ce' where "customs s (we_user_data ew) = Some ce'" "ev_handler ce' = b"
        using nrx_invD(2) [OF assms(1)] by (auto simp: handlers_chained_def)
      moreover from this n have "we_user_data ew \<noteq> p" by (auto simp: owned_def)
      ultimately show ?thesis by simp
    qed (use b ev in auto)
  qed
  moreover have "customs_chained t"
    using nrx_invD(3) [OF assms(1)] ev by (fastforce simp: customs_chained_def t(1,3))
  moreover have "helpers_chained t"
  proof -
    have "customs s p = None" using n by (auto simp: owned_def)
    then show ?thesis
      using nrx_invD(4) [OF assms(1)] h unfolding helpers_chained_def t(3,4)
      by (simp split: if_splits) metis
  qed
  ultimately show ?thesis by (simp add: nrx_inv_def)
qed

lemma register_we_inv:
  "nrx_inv s \<Longrightarrow> nrx_inv (snd (nrx_register_we_event_handler cmd (We_user cb) ud s))"
proof -
  assume "nrx_inv s"
  then have i: "nrx_inv (snd (nrx_event_connection_number s))" (is "nrx_inv ?s") by (rule socket_inv)
  obtain m u where m: "nmalloc ?s = (m, u)" by fastforce
  show ?thesis
  proof (cases m)
    case None
    then show ?thesis using malloc_failed_inv [OF i] nmalloc_cases(1) [OF m] m
      by (simp add: nrx_register_we_event_handler_def Let_def)
  next
    case (Some a)
    then have "a \<notin> live (ncalls ?s)" using nmalloc_cases(2) [OF m blocks_okD(1) [OF nrx_invD(1) [OF i]]] by simp
    from we_handler_added [OF i this, of "\<lparr>we_cmd = cmd, we_handler = We_user cb, we_user_data = ud\<rparr>"]
    show ?thesis using Some nmalloc_cases(1) [OF m] m by (simp add: nrx_register_we_event_handler_def Let_def)
  qed
qed

lemma register_netlink_inv:
  "nrx_inv s \<Longrightarrow> nrx_inv (snd (nrx_register_netlink_handler ty pid seq h ud s))"
proof -
  assume i: "nrx_inv s"
  obtain m u where m: "nmalloc s = (m, u)" by fastforce
  from i show ?thesis
    using nmalloc_cases(1) [OF m] nmalloc_cases(2) [OF m blocks_okD(1) [OF nrx_invD(1) [OF i]]] m
    by (cases m) (auto simp: nrx_register_netlink_handler_def Let_def intro: malloc_failed_inv netlink_handler_added)
qed

lemma register_custom_inv:
  assumes i: "nrx_inv s"
    and h: "is_helper h \<Longrightarrow> ud \<in> dom (helpers s) \<and>
      (\<forall>q cf. customs s q = Some cf \<longrightarrow> is_helper (ce_handler cf) \<longrightarrow> ce_user_data cf \<noteq> ud)"
  shows "nrx_inv (snd (nrx_register_custom_event ty j h ud s))"
proof -
  note ok = blocks_okD(1) [OF nrx_invD(1) [OF i]]
  obtain m u where m: "nmalloc s = (m, u)" by fastforce
  note m' = nmalloc_cases(1) [OF m] nmalloc_cases(2) [OF m ok]
  show ?thesis
  proof (cases m)
    case None
    then show ?thesis using i m m' by (simp add: nrx_register_custom_event_def malloc_failed_inv)
  next
    case (Some p)
    let ?v = "snd (nrx_event_connection_number u)"
    obtain n w where n: "nmalloc ?v = (n, w)" by fastforce
    have v: "nenv ?v = nenv s" "live (ncalls ?v) = insert p (live (ncalls s))" "frees_ok (ncalls ?v)"
        "customs ?v = customs s" "helpers ?v = helpers s" "we_handlers ?v = we_handlers s"
        "netlink_handlers ?v = netlink_handlers s"
      using m' Some blocks_okD(5) [OF nrx_invD(1) [OF i]] by simp_all
    note n' = nmalloc_cases(1) [OF n] nmalloc_cases(2) [OF n, unfolded v(1,2), OF ok]
    have p: "p \<notin> live (ncalls s)" using m' Some by simp
    show ?thesis
    proof (cases n)
      case None
      then have "snd (nrx_register_custom_event ty j h ud s) = nfree p w"
        using m n Some by (simp add: nrx_register_custom_event_def nrx_register_we_event_handler_def Let_def)
      moreover have "nrx_inv (nfree p w)"
        using nrx_invD [OF i] None v n' p
        by (simp add: nrx_inv_def blocks_ok_def list_blocks_def owned_def handlers_chained_def customs_chained_def
            helpers_chained_def nfree_def)
      ultimately show ?thesis by simp
    next
      case (Some a)
      let ?ce = "\<lparr>ce_type = (case ty of None \<Rightarrow> [] | Some t \<Rightarrow> take 31 t), ce_id = j, ce_handler = h,
          ce_user_data = ud, ev_handler = a\<rparr>"
      let ?ev = "\<lparr>we_cmd = IWEVCUSTOM, we_handler = Nrx_handle_custom_event, we_user_data = p\<rparr>"
      have a: "a \<noteq> 0" "a \<noteq> p" "a \<notin> live (ncalls s)" using n'(2) Some by auto
      have r: "snd (nrx_register_custom_event ty j h ud s) =
          w\<lparr>we_handlers := we_handlers s @ [(a, ?ev)], customs := (customs s)(p \<mapsto> ?ce)\<rparr>"
        using m n Some \<open>m = Some p\<close> a n'(1) v
        by (simp add: nrx_register_custom_event_def nrx_register_we_event_handler_def Let_def)
      show ?thesis
        unfolding r
        by (rule custom_added [OF i p a(3,2), where ce = ?ce and ev = ?ev])
          (use h v n'(1) Some in auto)
    qed
  qed
qed

lemma register_helper_inv:
  assumes i: "nrx_inv s" and p: "p \<notin> live (ncalls s)"
  shows "nrx_inv (snd (nrx_register_custom_event ty j (Custom_helper f) p
    (nlog (Malloc_ret (Some p)) s\<lparr>helpers := (helpers s)(p \<mapsto> h)\<rparr>)))"
proof (rule register_custom_inv)
  show "nrx_inv (nlog (Malloc_ret (Some p)) s\<lparr>helpers := (helpers s)(p \<mapsto> h)\<rparr>)" by (rule helper_added [OF i p])
  have "ce_user_data cf \<noteq> p" if "customs s q = Some cf" "is_helper (ce_handler cf)" for q cf
  proof -
    from that have "ce_user_data cf \<in> dom (helpers s)" using nrx_invD(4) [OF i] by (auto simp: helpers_chained_def)
    then show ?thesis using p blocks_okD(4) [OF nrx_invD(1) [OF i]] by (auto simp: owned_def)
  qed
  then show "p \<in> dom (helpers (nlog (Malloc_ret (Some p)) s\<lparr>helpers := (helpers s)(p \<mapsto> h)\<rparr>)) \<and>
      (\<forall>q cf. customs (nlog (Malloc_ret (Some p)) s\<lparr>helpers := (helpers s)(p \<mapsto> h)\<rparr>) q = Some cf \<longrightarrow>
        is_helper (ce_handler cf) \<longrightarrow> ce_user_data cf \<noteq> p)" by auto
qed

lemma register_helper_new_inv: "nrx_inv s \<Longrightarrow> nrx_inv (snd (register_helper ty j f obj s))"
proof -
  assume i: "nrx_inv s"
  obtain m u where m: "nmalloc s = (m, u)" by fastforce
  show ?thesis
    using nmalloc_cases(1) [OF m] nmalloc_cases(2) [OF m blocks_okD(1) [OF nrx_invD(1) [OF i]]] m i
    by (cases m) (auto simp: register_helper_def intro: malloc_failed_inv register_helper_inv)
qed

lemma register_mib_inv: "nrx_inv s \<Longrightarrow> nrx_inv (snd (nrx_register_mib_trigger_event_handler j cb ud s))"
  by (simp add: nrx_register_mib_trigger_event_handler_def register_helper_new_inv)

lemma register_user_inv: "nrx_inv s \<Longrightarrow> nrx_inv (snd (nrx_register_custom_event ty j (Custom_user cb) ud s))"
  by (rule register_custom_inv) simp_all

section \<open>Events keep the invariant\<close>

lemma call_user_inv: "nrx_inv s \<Longrightarrow> call_user cb op d ud s = Inr (r, t) \<Longrightarrow> nrx_inv t"
  by (auto simp: call_user_def Let_def split: if_splits intro: nlog_inv)

lemma call_custom_trigger_inv:
  "nrx_inv s \<Longrightarrow> call_custom h NRX_CB_TRIGGER d ud s = Inr (r, t) \<Longrightarrow> nrx_inv t"
  by (auto simp: call_custom_def call_helper_def mibtrigger_helper_def nrx_handle_scan_notification_def
        nrx_handle_conn_lost_notification_def nrx_handle_rate_notification_def
      split: custom_handler.splits helper_fn.splits helper_object.splits option.splits nrx_data.splits sum.splits if_splits
      dest: call_user_inv)

lemma custom_triggered_inv: "nrx_inv s \<Longrightarrow> custom_event_triggered mem len p s = Inr (r, t) \<Longrightarrow> nrx_inv t"
  by (auto simp: custom_event_triggered_def Let_def split: if_splits option.splits sum.splits custom_msg.splits
      dest: call_custom_trigger_inv cancel_custom_inv)

lemma we_dispatch_loop_inv: "nrx_inv s \<Longrightarrow> we_dispatch_loop cmd mem len evs s = Inr (r, t) \<Longrightarrow> nrx_inv t"
proof (induction cmd mem len evs s rule: we_dispatch_loop.induct)
  case (2 cmd mem len a ev rest s)
  have "nrx_inv u" if "trigger_we_fn (we_handler ev) cmd mem len (we_user_data ev) s = Inr (q, u)" for q u
    using that 2(3) by (auto simp: trigger_we_fn_def split: we_handler_fn.splits dest: call_user_inv custom_triggered_inv)
  with 2 show ?case by (auto split: if_splits sum.splits)
qed simp

lemma rtnetlink_walk_inv: "nrx_inv s \<Longrightarrow> rtnetlink_walk mem rta l s = Inr (r, t) \<Longrightarrow> nrx_inv t"
proof (induction mem rta l s arbitrary: r t rule: rtnetlink_walk.induct)
  case (1 mem rta l s)
  then show ?case
    by (subst (asm) (2) rtnetlink_walk.simps)
      (auto split: if_splits option.splits sum.splits simp: we_dispatch_def dest: we_dispatch_loop_inv)
qed

lemma netlink_dispatch_loop_inv:
  "nrx_inv s \<Longrightarrow> netlink_dispatch_loop mem nh evs h s = Inr (r, t) \<Longrightarrow> nrx_inv t"
proof (induction evs arbitrary: h s)
  case (Cons x evs)
  obtain a ev where x: "x = (a, ev)" by fastforce
  have "nrx_inv u" if "trigger_netlink_fn (nl_handler ev) mem nh (nl_user_data ev) s = Inr (q, u)" for q u
    using that Cons.prems(1)
    by (auto simp: trigger_netlink_fn_def rtnetlink_event_def
        split: netlink_handler_fn.splits option.splits if_splits dest: call_user_inv rtnetlink_walk_inv)
  with Cons x show ?case by (auto split: option.splits bool.splits sum.splits)
qed simp

lemma netlink_dispatch_inv: "nrx_inv s \<Longrightarrow> netlink_dispatch mem nh s = Inr (r, t) \<Longrightarrow> nrx_inv t"
  by (simp add: netlink_dispatch_def netlink_dispatch_loop_inv)

lemma netlink_event_inv:
  "netlink_event mem nh len s = Some out \<Longrightarrow> nrx_inv s \<longrightarrow> (\<forall>r t. out = Inr (r, t) \<longrightarrow> nrx_inv t)"
proof (rule netlink_event.raw_induct
    [where P = "\<lambda>mem nh len s out. nrx_inv s \<longrightarrow> (\<forall>r t. out = Inr (r, t) \<longrightarrow> nrx_inv t)"], goal_cases)
  case (1 f mem nh len s out)
  then show ?case
    by (fastforce split: if_splits option.splits sum.splits dest: netlink_dispatch_inv)
qed

lemma next_event_inv: "nrx_inv s \<Longrightarrow> nrx_next_event s = Some (Inr (r, t)) \<Longrightarrow> nrx_inv t"
proof -
  assume i: "nrx_inv s" and e: "nrx_next_event s = Some (Inr (r, t))"
  have i': "nrx_inv (snd (nrx_event_connection_number s))" using i by (rule socket_inv)
  have "nrx_inv (nlog (Recvfrom fd n) (snd (nrx_event_connection_number s)))" for fd n
    by (rule nlog_inv [OF i']) simp_all
  with i' e show ?thesis
    by (auto simp: nrx_next_event_def Let_def split_beta split: if_splits dest!: netlink_event_inv)
qed

lemma poll_again_inv: "nrx_poll_again timeout s = Some out \<Longrightarrow> nrx_inv s \<longrightarrow> nrx_inv (snd out)"
proof (rule nrx_poll_again.raw_induct [where P = "\<lambda>timeout s out. nrx_inv s \<longrightarrow> nrx_inv (snd out)"], goal_cases)
  case (1 f timeout s out)
  have "nrx_inv s \<Longrightarrow> nrx_inv (nlog (Poll_of a b c) s)" for a b c by (rule nlog_inv) simp_all
  with 1 show ?case by (auto simp: Let_def split_beta split: if_splits)
qed

lemma wait_event_inv: "nrx_inv s \<Longrightarrow> nrx_wait_event timeout s = Some (r, t) \<Longrightarrow> nrx_inv t"
  by (auto simp: nrx_wait_event_def split_beta split: if_splits dest!: poll_again_inv intro: socket_inv)

section \<open>Everything an application does\<close>

text \<open>The notifications, with their number: a policy, a type or the id of a threshold.\<close>

datatype subscription =
    Scan_done u32
  | Conn_lost u32
  | Conn_incompatible
  | Tx_rate u32
  | Rx_rate u32
  | Link_monitoring u32
  | Snr u32
  | Rssi u32
  | Per u32
  | Tx_fail
  | Missed_beacon
  | Dev_reset

fun subscribe :: "subscription \<Rightarrow> callback \<Rightarrow> address \<Rightarrow> nrx_st \<Rightarrow> address outcome" where
  "subscribe (Scan_done pol) = nrx_register_scan_notification_handler pol"
| "subscribe (Conn_lost type) = nrx_register_conn_lost_notification type"
| "subscribe Conn_incompatible = nrx_register_conn_incompatible_notification"
| "subscribe (Tx_rate i) = nrx_register_tx_rate_threshold_callback i"
| "subscribe (Rx_rate i) = nrx_register_rx_rate_threshold_callback i"
| "subscribe (Link_monitoring i) = nrx_register_link_monitoring_callback i"
| "subscribe (Snr i) = nrx_register_snr_threshold_callback i"
| "subscribe (Rssi i) = nrx_register_rssi_threshold_callback i"
| "subscribe (Per i) = nrx_register_per_threshold_callback i"
| "subscribe Tx_fail = nrx_register_tx_fail_notification"
| "subscribe Missed_beacon = nrx_register_missed_beacon_notification"
| "subscribe Dev_reset = nrx_register_dev_reset_notification"

fun cancel_subscription :: "subscription \<Rightarrow> address \<Rightarrow> nrx_st \<Rightarrow> int outcome" where
  "cancel_subscription (Scan_done pol) = nrx_cancel_scan_notification_handler"
| "cancel_subscription (Conn_lost type) = nrx_cancel_conn_lost_notification"
| "cancel_subscription Conn_incompatible = nrx_cancel_conn_incompatible_notification"
| "cancel_subscription (Tx_rate i) = nrx_cancel_tx_rate_threshold_callback"
| "cancel_subscription (Rx_rate i) = nrx_cancel_rx_rate_threshold_callback"
| "cancel_subscription (Link_monitoring i) = nrx_cancel_link_monitoring_callback"
| "cancel_subscription (Snr i) = nrx_cancel_snr_threshold_callback"
| "cancel_subscription (Rssi i) = nrx_cancel_rssi_threshold_callback"
| "cancel_subscription (Per i) = nrx_cancel_per_threshold_callback"
| "cancel_subscription Tx_fail = nrx_cancel_tx_fail_notification"
| "cancel_subscription Missed_beacon = nrx_cancel_missed_beacon_notification"
| "cancel_subscription Dev_reset = nrx_cancel_dev_reset_notification"

lemma subscribe_inv: "nrx_inv s \<Longrightarrow> subscribe k cb ud s = Inr (r, t) \<Longrightarrow> nrx_inv t"
proof -
  assume i: "nrx_inv s" and r: "subscribe k cb ud s = Inr (r, t)"
  have h: "nrx_inv t" if "register_helper ty j f obj s = (r, t)" for ty j f obj
    using register_helper_new_inv [OF i, of ty j f obj] that by simp
  have u: "nrx_inv t" if "nrx_register_custom_event ty j (Custom_user cb) ud s = (r, t)" for ty j
    using register_user_inv [OF i, of ty j cb ud] that by simp
  show ?thesis
    using r by (cases k) (auto simp: nrx_subscriptions nrx_register_mib_trigger_event_handler_def split: if_splits
      dest: h u)
qed

lemma cancel_subscription_inv: "nrx_inv s \<Longrightarrow> cancel_subscription k p s = Inr (r, t) \<Longrightarrow> nrx_inv t"
  by (cases k) (auto simp: nrx_cancellations split: if_splits dest: cancel_custom_inv)

datatype nrx_request =
    Register_we u16 callback address
  | Cancel_we address
  | Register_netlink u16 u32 u32 callback address
  | Cancel_netlink address
  | Register_custom "string option" u32 callback address
  | Cancel_custom address
  | Cancel_custom_by_id "string option" u32
  | Register_mib_trigger u32 callback address
  | Cancel_mib_trigger address
  | Subscribe subscription callback address
  | Cancel_subscription subscription address
  | Wait_event int
  | Next_event

text \<open>A call that returns; one that faults or does not return takes no step.\<close>

fun nrx_serves :: "nrx_st \<Rightarrow> nrx_request \<Rightarrow> nrx_st \<Rightarrow> bool" where
  "nrx_serves s (Register_we cmd cb ud) t = (t = snd (nrx_register_we_event_handler cmd (We_user cb) ud s))"
| "nrx_serves s (Cancel_we a) t = (\<exists>r. nrx_cancel_we_event_handler a s = Inr (r, t))"
| "nrx_serves s (Register_netlink ty pid seq cb ud) t =
     (t = snd (nrx_register_netlink_handler ty pid seq (Netlink_user cb) ud s))"
| "nrx_serves s (Cancel_netlink a) t = (nrx_cancel_netlink_handler a s = Inr ((), t))"
| "nrx_serves s (Register_custom ty i cb ud) t = (t = snd (nrx_register_custom_event ty i (Custom_user cb) ud s))"
| "nrx_serves s (Cancel_custom p) t = (\<exists>r. nrx_cancel_custom_event p s = Inr (r, t))"
| "nrx_serves s (Cancel_custom_by_id ty i) t = (\<exists>r. nrx_cancel_custom_event_by_id ty i s = Inr (r, t))"
| "nrx_serves s (Register_mib_trigger i cb ud) t = (t = snd (nrx_register_mib_trigger_event_handler i cb ud s))"
| "nrx_serves s (Cancel_mib_trigger p) t = (\<exists>r. nrx_cancel_mib_trigger_event_handler p s = Inr (r, t))"
| "nrx_serves s (Subscribe k cb ud) t = (\<exists>r. subscribe k cb ud s = Inr (r, t))"
| "nrx_serves s (Cancel_subscription k p) t = (\<exists>r. cancel_subscription k p s = Inr (r, t))"
| "nrx_serves s (Wait_event n) t = (\<exists>r. nrx_wait_event n s = Some (r, t))"
| "nrx_serves s Next_event t = (\<exists>r. nrx_next_event s = Some (Inr (r, t)))"

lemma nrx_serves_inv: "nrx_inv s \<Longrightarrow> nrx_serves s req t \<Longrightarrow> nrx_inv t"
  by (cases req)
    (auto simp: nrx_cancel_mib_trigger_event_handler_def nrx_cancel_custom_event_by_id_def
      intro: register_we_inv register_netlink_inv register_custom_inv register_mib_inv
      dest: subscribe_inv cancel_subscription_inv cancel_we_inv cancel_netlink_inv cancel_custom_inv cancel_by_id_inv wait_event_inv next_event_inv)

interpretation nrx: kept_invariant nrx_serves nrx_inv
  by unfold_locales (rule nrx_serves_inv)

text \<open>A fresh context (\<open>nrx_init_context\<close> clears it with \<open>memset\<close>).\<close>

definition nrx_fresh :: "nrx_env \<Rightarrow> int \<Rightarrow> nrx_st" where
  "nrx_fresh e fd = \<lparr>sock = fd, netlink_sock = 0, wx_version = 0, netlink_handlers = [], we_handlers = [],
     customs = Map.empty, helpers = Map.empty, ncalls = [], nenv = e\<rparr>"

lemma nrx_init_inv: "malloc_ok e \<Longrightarrow> nrx_inv (nrx_netlink_init (nrx_fresh e fd))"
proof -
  assume e: "malloc_ok e"
  have "nrx_inv ((nrx_fresh e fd)\<lparr>netlink_sock := -1, netlink_handlers := [], we_handlers := []\<rparr>)"
    using e by (simp add: nrx_fresh_def nrx_inv_def blocks_ok_def list_blocks_def owned_def handlers_chained_def
        customs_chained_def helpers_chained_def)
  then show ?thesis by (simp add: nrx_netlink_init_def Let_def register_netlink_inv)
qed


section \<open>Quiet surroundings\<close>

text \<open>For concrete runs: \<open>malloc\<close> always finds a block, behind all that it gave before; nothing fails.\<close>

fun block_sum :: "nhistory \<Rightarrow> nat" where
  "block_sum [] = 0"
| "block_sum (Malloc_ret (Some a) # h) = a + block_sum h"
| "block_sum (_ # h) = block_sum h"

definition quiet_nrx_env :: nrx_env where
  "quiet_nrx_env = \<lparr>nx_malloc = \<lambda>h. Some (Suc (block_sum h)), nx_callback = \<lambda>_ _ _ _ _. 0, nx_socket = \<lambda>_. 5,
     nx_bind = \<lambda>_ _. 0, nx_errno = \<lambda>_. 0, nx_poll = \<lambda>_. (1, POLLIN, 0), nx_recv = \<lambda>_. (0, []),
     nx_ioctl = \<lambda>_ _. 0, nx_ioctl_dscpmap = \<lambda>_. replicate 128 0, nx_ioctl_trig_id = \<lambda>_. 0, nx_ioctl_mib = \<lambda>_. (0, []),
     nx_ioctl_scan_id = \<lambda>_. 1, nx_ioctl_value = \<lambda>_. 0, nx_stack = \<lambda>_. (0, 0), nx_stack_bssid = \<lambda>_ _. 0,
     nx_iw = \<lambda>_ _. 0, nx_iw_length = \<lambda>_. 0, nx_iw_freq = \<lambda>_. (2412, 6), nx_iw_version = \<lambda>_. 22\<rparr>"

lemma block_sum_append [simp]: "block_sum (h @ k) = block_sum h + block_sum k"
  by (induction h rule: block_sum.induct) simp_all

lemma live_block_sum: "a \<in> live h \<Longrightarrow> a \<le> block_sum h"
proof (induction h rule: rev_induct)
  case (snoc c h)
  then show ?case by (cases "(live h, c)" rule: block_step.cases) auto
qed simp

lemma quiet_malloc_ok: "malloc_ok quiet_nrx_env"
  by (auto simp: malloc_ok_def quiet_nrx_env_def dest: live_block_sum)


end
