(* ===== verification/Nrx_Delivery.thy ===== *)
theory Nrx_Delivery
  imports Nrx_Memory
begin

text \<open>
  What reaches the callbacks: the text of a custom event, printed as the driver does and taken apart again,
  the end of a context, and the attributes of a netlink message.
\<close>

section \<open>The text of a custom event\<close>

text \<open>\<open>NRX(TYPE,key=value,..)\<close>, or \<open>NRX(CANCEL,TYPE,..)\<close>.\<close>

definition plain :: "string \<Rightarrow> bool" where
  "plain s \<longleftrightarrow> s \<noteq> [] \<and> (\<forall>c\<in>set s. \<not> char_isspace c \<and> c \<notin> set '',()='' \<and> c \<noteq> CHR 0x00)"

definition var_text :: "string \<times> string \<Rightarrow> string" where
  "var_text v = fst v @ ''='' @ snd v"

definition vars_text :: "(string \<times> string) list \<Rightarrow> string" where
  "vars_text vars = concat (map (\<lambda>v. '','' @ var_text v) vars) @ '')''"

definition custom_text :: "bool \<Rightarrow> string \<Rightarrow> (string \<times> string) list \<Rightarrow> string" where
  "custom_text cancel ty vars = ''NRX('' @ (if cancel then ''CANCEL,'' else []) @ ty @ vars_text vars"

lemma strip_end_id: "s \<noteq> [] \<Longrightarrow> \<not> char_isspace (last s) \<Longrightarrow> strip_end s = s"
  by (cases s rule: rev_cases) (simp_all add: strip_end_def)

lemma split_token_at:
  assumes "s \<noteq> []" "\<forall>c\<in>set s. \<not> char_isspace c" "set s \<inter> set sep = {}"
  shows "c \<in> set sep \<Longrightarrow> split_token sep (s @ c # r) = (Some s, r)" "split_token sep s = (Some s, [])"
proof -
  have d: "dropWhile char_isspace (s @ t) = s @ t" for t using assms(1,2) by (cases s) auto
  have t0: "takeWhile (\<lambda>c. c \<notin> set sep) s = s" "dropWhile (\<lambda>c. c \<notin> set sep) s = []"
    using assms(3) by (auto simp: takeWhile_eq_all_conv)
  have t: "takeWhile (\<lambda>c. c \<notin> set sep) (s @ t) = s @ takeWhile (\<lambda>c. c \<notin> set sep) t"
    "dropWhile (\<lambda>c. c \<notin> set sep) (s @ t) = dropWhile (\<lambda>c. c \<notin> set sep) t" for t
    using assms(3) by (auto simp: takeWhile_append dropWhile_append)
  have e: "strip_end s = s" using assms(1,2) by (intro strip_end_id) auto
  show "c \<in> set sep \<Longrightarrow> split_token sep (s @ c # r) = (Some s, r)"
    using assms(1) by (simp add: split_token_def Let_def d t e)
  show "split_token sep s = (Some s, [])"
    using assms(1) d [of "[]"] by (simp add: split_token_def Let_def e t0)
qed

lemma plainD: "plain s \<Longrightarrow> s \<noteq> [] \<and> (\<forall>c\<in>set s. \<not> char_isspace c) \<and> set s \<inter> set '',()'' = {} \<and> set s \<inter> set ''='' = {}"
  by (auto simp: plain_def)

lemma vars_text_simps: "vars_text [] = '')''" "vars_text (v # vs) = '','' @ var_text v @ vars_text vs"
  by (simp_all add: vars_text_def)

lemma vars_text_start: "\<exists>c r. c \<in> set '',()'' \<and> vars_text vars = c # r"
  by (cases vars) (auto simp: vars_text_simps)

lemma split_before_vars:
  assumes "s \<noteq> []" "\<forall>c\<in>set s. \<not> char_isspace c" "set s \<inter> set '',()'' = {}"
  shows "split_token '',()'' (s @ vars_text vars) = (Some s, tl (vars_text vars))"
proof -
  obtain c r where "c \<in> set '',()''" "vars_text vars = c # r" using vars_text_start by blast
  with split_token_at(1) [OF assms, of c r] show ?thesis by simp
qed

lemma split_var:
  assumes "plain k" "plain v"
  shows "split_token '',()'' (var_text (k, v) @ vars_text vars) = (Some (var_text (k, v)), tl (vars_text vars))"
    "split_token ''='' (var_text (k, v)) = (Some k, v)" "split_token ''='' v = (Some v, [])"
proof -
  note k = plainD [OF assms(1)] and v = plainD [OF assms(2)]
  have "\<not> char_isspace CHR ''=''" by (simp add: char_isspace_def)
  with k v show "split_token '',()'' (var_text (k, v) @ vars_text vars) = (Some (var_text (k, v)), tl (vars_text vars))"
    by (intro split_before_vars) (auto simp: var_text_def)
  show "split_token ''='' (var_text (k, v)) = (Some k, v)"
    using split_token_at(1) [of k "''=''" "CHR ''=''" v] k by (simp add: var_text_def)
  show "split_token ''='' v = (Some v, [])" using split_token_at(2) [of v "''=''"] v by blast
qed

text \<open>A variable that says the event is for another id.\<close>

definition other_id :: "nrx_custom_event_t \<Rightarrow> string \<times> string \<Rightarrow> bool" where
  "other_id ce v \<longleftrightarrow> fst v = ''id'' \<and> ce_id ce \<noteq> 0 \<and> strtoul0 (snd v) \<noteq> ce_id ce"

definition plain_var :: "string \<times> string \<Rightarrow> bool" where
  "plain_var v \<longleftrightarrow> plain (fst v) \<and> plain (snd v)"

lemma parse_vars_text:
  assumes "list_all plain_var vars" "length acc \<le> 8"
  shows "parse_vars ce (tl (vars_text vars)) acc =
    (if list_ex (other_id ce) (take (9 - length acc) vars) then Inr None
     else if 8 < length acc + length vars then Inl Bad_access
     else Inr (Some (acc @ map (\<lambda>(k, v). (k, Some v)) vars)))"
  using assms
proof (induction vars arbitrary: acc)
  case Nil
  then show ?case by (simp add: parse_vars.simps vars_text_simps split_token_def)
next
  case (Cons x vars)
  obtain k v where x: "x = (k, v)" by fastforce
  then have p: "plain k" "plain v" "list_all plain_var vars" "plain_var x"
    using Cons.prems by (simp_all add: plain_var_def [of "(k, v)"])
  have t: "take (9 - length acc) (x # vars) = x # take (9 - length (acc @ [(k, Some v)])) vars"
    using Cons.prems(2) by (simp add: take_Cons' Suc_diff_le)
  have step: "parse_vars ce (tl (vars_text (x # vars))) acc =
      (if other_id ce x then Inr None else if 8 \<le> length acc then Inl Bad_access
       else parse_vars ce (tl (vars_text vars)) (acc @ [(k, Some v)]))"
    by (subst parse_vars.simps) (simp add: x vars_text_simps split_var [OF p(1,2)] other_id_def)
  show ?case
  proof (cases "length acc = 8")
    case True
    then show ?thesis by (simp add: step t)
  next
    case False
    with Cons.prems(2) have "length (acc @ [(k, Some v)]) \<le> 8" by simp
    from Cons.IH [OF p(3) this] Cons.prems(2) False show ?thesis unfolding step t by (simp add: x)
  qed
qed

lemma parse_custom_text:
  assumes "plain ty" "list_all plain_var vars" "cancel \<or> ty \<noteq> ''CANCEL''"
  shows "parse_custom ce (custom_text cancel ty vars) =
    (if ce_type ce \<noteq> [] \<and> ce_type ce \<noteq> ty then Inr Not_for_me
     else if list_ex (other_id ce) (take 9 vars) then Inr Not_for_me
     else if 8 < length vars then Inl Bad_access
     else Inr (For_me cancel (map (\<lambda>(k, v). (k, Some v)) vars)))"
proof -
  have n: "split_token '',()'' (''NRX('' @ r) = (Some ''NRX'', r)" for r
    using split_token_at(1) [of "''NRX''" "'',()''" "CHR ''(''" r] by (simp add: char_isspace_def)
  have c: "split_token '',()'' (''CANCEL,'' @ r) = (Some ''CANCEL'', r)" for r
    using split_token_at(1) [of "''CANCEL''" "'',()''" "CHR '',''" r] by (simp add: char_isspace_def)
  have t: "split_token '',()'' (ty @ vars_text vars) = (Some ty, tl (vars_text vars))"
    using plainD [OF assms(1)] by (intro split_before_vars) auto
  have v: "parse_vars ce (tl (vars_text vars)) [] =
    (if list_ex (other_id ce) (take 9 vars) then Inr None
     else if 8 < length vars then Inl Bad_access
     else Inr (Some (map (\<lambda>(k, v). (k, Some v)) vars)))"
    using parse_vars_text [OF assms(2), of "[]"] by simp
  show ?thesis
  proof (cases cancel)
    case True
    then show ?thesis unfolding parse_custom_def custom_text_def n using c t v by simp
  next
    case False
    then show ?thesis unfolding parse_custom_def custom_text_def n using t v assms(3) by simp
  qed
qed

section \<open>Delivery\<close>

lemma cstring_of_zero: "cstring_of (bs @ 0 # m) = cstring_of bs"
proof -
  have "takeWhile (\<lambda>b. b \<noteq> 0) (bs @ 0 # m) = takeWhile (\<lambda>b. b \<noteq> 0) bs"
    by (induction bs) simp_all
  then show ?thesis by (simp only: cstring_of_def)
qed

lemma cstring_of_text: "CHR 0x00 \<notin> set s \<Longrightarrow> cstring_of (bytes_of s) = s"
  using cstring_of_bytes [of s "[]"] by (simp add: cstring_of_zero)

lemma nrx_field_shift: "STREAM_TO_UINT16 (xs @ ys) (length xs) = STREAM_TO_UINT16 ys 0"
  by (simp add: STREAM_TO_UINT16_def nth_append)

lemma plain_no_zero: "plain s \<Longrightarrow> CHR 0x00 \<notin> set s"
  unfolding plain_def by blast

lemma vars_text_no_zero: "list_all plain_var vars \<Longrightarrow> CHR 0x00 \<notin> set (vars_text vars)"
proof (induction vars)
  case (Cons v vars)
  then have "CHR 0x00 \<notin> set (fst v)" "CHR 0x00 \<notin> set (snd v)" "CHR 0x00 \<notin> set (vars_text vars)"
    by (simp_all add: plain_var_def plain_no_zero)
  then show ?case by (simp add: vars_text_simps var_text_def)
qed (simp add: vars_text_simps)

lemma custom_text_no_zero:
  "plain ty \<Longrightarrow> list_all plain_var vars \<Longrightarrow> CHR 0x00 \<notin> set (custom_text cancel ty vars)"
  by (simp add: custom_text_def plain_no_zero vars_text_no_zero)

text \<open>The data of a custom event: the \<open>iw_point\<close>, with the pointer that wireless extensions before version
  19 put in front, and the text.\<close>

definition pointer_size :: "nrx_st \<Rightarrow> nat" where
  "pointer_size s = (if sint (wx_version s - 19) < 0 then 4 else 0)"

definition custom_data :: "u8 list \<Rightarrow> u8 list \<Rightarrow> string \<Rightarrow> u8 list" where
  "custom_data ptr flags msg = ptr @ UINT16_TO_STREAM (of_nat (length msg)) @ flags @ bytes_of msg"

lemma custom_data_parts:
  assumes "length ptr = pointer_size s" "length flags = 2" "length msg \<le> 256" "CHR 0x00 \<notin> set msg"
  shows "custom_event_triggered (custom_data ptr flags msg @ junk) (of_nat (length (custom_data ptr flags msg))) p s =
    (case customs s p of
       None \<Rightarrow> Inl Bad_access
     | Some ce \<Rightarrow>
         (case parse_custom ce msg of
            Inl f \<Rightarrow> Inl f
          | Inr Not_for_me \<Rightarrow> Inr (0, s)
          | Inr (For_me cancel vars) \<Rightarrow>
              if cancel then (case nrx_cancel_custom_event p s of Inl f \<Rightarrow> Inl f | Inr (_, s) \<Rightarrow> Inr (0, s))
              else if ce_handler ce = Custom_user 0 then Inr (0, s)
              else
                (case call_custom (ce_handler ce) NRX_CB_TRIGGER (Custom_data vars) (ce_user_data ce) s of
                   Inl f \<Rightarrow> Inl f
                 | Inr (r, s) \<Rightarrow> Inr (if r \<noteq> 0 then ENOENT else 0, s))))"
proof -
  let ?mem = "custom_data ptr flags msg @ junk" and ?h = "pointer_size s + 4"
  have h: "(if sint (wx_version s - 19) < 0 then 4 else 0) + 4 = ?h" by (simp add: pointer_size_def)
  have n: "unat (of_nat (length msg) :: u16) = length msg" using assms(3) by (intro unat_of_nat16) simp
  have l: "STREAM_TO_UINT16 ?mem (?h - 4) = of_nat (length msg)"
    using nrx_field_shift [of ptr] STREAM_UINT16_roundtrip
    by (simp add: custom_data_def assms(1) [symmetric])
  have len: "length (custom_data ptr flags msg) = ?h + length msg" by (simp add: custom_data_def assms)
  have d: "take (length msg) (drop ?h ?mem) = bytes_of msg"
    by (simp add: custom_data_def assms(1) [symmetric] assms(2))
  show ?thesis
    unfolding custom_event_triggered_def h l Let_def n len d cstring_of_text [OF assms(4)]
    using assms(3) len by (simp add: add.commute)
qed

text \<open>(C15) A custom event of the driver is given to the callback that is registered for it exactly when type and
  id agree, with the variables of the text in their order; an event for another type or id is ignored; a
  ninth variable is written behind the array.\<close>

theorem custom_event_delivered:
  assumes "length ptr = pointer_size s" "length flags = 2" "length (custom_text False ty vars) \<le> 256"
    and "plain ty" "list_all plain_var vars" "ty \<noteq> ''CANCEL''"
    and "customs s p = Some ce" "ce_handler ce = Custom_user cb" "cb \<noteq> 0"
  defines "data \<equiv> custom_data ptr flags (custom_text False ty vars)"
  shows "custom_event_triggered (data @ junk) (of_nat (length data)) p s =
    (if ce_type ce \<noteq> [] \<and> ce_type ce \<noteq> ty \<or> list_ex (other_id ce) (take 9 vars) then Inr (0, s)
     else if 8 < length vars then Inl Bad_access
     else
       let d = Custom_data (map (\<lambda>(k, v). (k, Some v)) vars);
           r = nx_callback (nenv s) (ncalls s) cb NRX_CB_TRIGGER d (ce_user_data ce)
       in Inr (if r = 0 then 0 else ENOENT, nlog (Callback cb NRX_CB_TRIGGER d (ce_user_data ce) r) s))"
  unfolding data_def
    custom_data_parts [OF assms(1-3) custom_text_no_zero [OF assms(4,5)]]
  using assms(4-9) by (simp add: parse_custom_text call_custom_def call_user_def Let_def)

definition demo_custom :: "nrx_st" where
  "demo_custom = (nrx_fresh quiet_nrx_env 3)\<lparr>wx_version := 22, customs := [4 \<mapsto>
     \<lparr>ce_type = ''MIBTRIG'', ce_id = 7, ce_handler = Custom_user 1, ce_user_data = 0, ev_handler = 5\<rparr>]\<rparr>"

lemma custom_event_delivered_witness:
  "custom_event_triggered (custom_data [] [0, 0] (custom_text False ''MIBTRIG'' [(''id'', ''0x7''), (''value'', ''12'')]) @ [])
      (of_nat (length (custom_data [] [0, 0] (custom_text False ''MIBTRIG'' [(''id'', ''0x7''), (''value'', ''12'')])))) 4 demo_custom
    = Inr (0, nlog (Callback 1 NRX_CB_TRIGGER (Custom_data [(''id'', Some ''0x7''), (''value'', Some ''12'')]) 0 0) demo_custom)"
proof -
  let ?vars = "[(''id'', ''0x7''), (''value'', ''12'')]" and ?ce = "\<lparr>ce_type = ''MIBTRIG'', ce_id = 7, ce_handler = Custom_user 1, ce_user_data = 0, ev_handler = 5\<rparr>"
  have p: "length ([] :: u8 list) = pointer_size demo_custom" "customs demo_custom 4 = Some ?ce"
    "nx_callback (nenv demo_custom) h cb op d u = 0" for h cb op d u
    by (simp_all add: pointer_size_def demo_custom_def nrx_fresh_def quiet_nrx_env_def)
  have t: "plain ''MIBTRIG''" "list_all plain_var ?vars"
    by code_simp+
  have l: "length (custom_text False ''MIBTRIG'' ?vars) \<le> 256"
    by (simp add: custom_text_def vars_text_def var_text_def)
  have "strtoul0 ''0x7'' = 7"
    by (simp add: strtoul0_def unsigned_value_def base_value_def digit_of_def char_isspace_def Let_def)
  then have i: "\<not> list_ex (other_id ?ce) (take 9 ?vars)" by (simp add: other_id_def)
  show ?thesis
    using custom_event_delivered [OF p(1) _ l t _ p(2), of "[0, 0]" 1 "[]"] i
    by (simp add: p(3) Let_def)
qed

section \<open>The driver cancels an event\<close>

lemma cancel_custom_succeeds:
  assumes i: "nrx_inv s" and ev: "(a, ev) \<in> set (we_handlers s)" "we_handler ev = Nrx_handle_custom_event"
      "we_user_data ev = p"
    and ce: "customs s p = Some ce" "ce_handler ce = Custom_user cb" "cb \<noteq> 0" "p \<noteq> 0"
  shows "\<exists>t. nrx_cancel_custom_event p s = Inr (0, t) \<and> a \<notin> fst ` set (we_handlers t) \<and> a \<notin> live (ncalls t)"
proof -
  note d = blocks_okD(2) [OF nrx_invD(1) [OF i]]
  have m: "map_of (we_handlers s) a = Some ev" using d ev(1) by simp
  have "ev_handler ce = a" using nrx_invD(2) [OF i] ev ce(1) by (fastforce simp: handlers_chained_def)
  moreover have "find_we_by_userdata p s \<noteq> None"
    using ev by (auto simp: find_we_by_userdata_def find_None_iff)
  ultimately have c: "nrx_cancel_custom_event p s = nrx_cancel_we_event_handler a s"
    using ce by (auto simp: nrx_cancel_custom_event_def)
  have "\<exists>t. nrx_cancel_we_event_handler a s = Inr (0, t)"
    using m ev(2,3) ce by (auto simp: nrx_cancel_we_event_handler_def cancel_we_fn_def custom_event_cancelled_def
        call_custom_def call_user_def Let_def)
  then obtain t where t: "nrx_cancel_we_event_handler a s = Inr (0, t)" by blast
  have h: "we_handlers t = filter (\<lambda>x. fst x \<noteq> a) (we_handlers s)"
    using cancel_we_lists [OF t m] unlink_filter [OF d] by simp
  have "a \<notin> live (ncalls t)"
    using t m by (auto simp: nrx_cancel_we_event_handler_def nfree_def split: sum.splits)
  with c t h show ?thesis by auto
qed

lemma we_dispatch_loop_skip:
  "\<forall>(b, ew)\<in>set pre. we_cmd ew \<noteq> 0 \<and> we_cmd ew \<noteq> cmd \<Longrightarrow>
    we_dispatch_loop cmd mem len (pre @ evs) s = we_dispatch_loop cmd mem len evs s"
  by (induction pre) auto

text \<open>(C23) A cancelling message of the driver makes the library read freed memory: the handler frees the element of
  the list that the dispatching loop stands on, and the loop then reads its successor.\<close>

theorem cancel_message_use_after_free:
  assumes "nrx_inv s" "we_handlers s = pre @ (a, ev) # rest"
    and "\<forall>(b, ew)\<in>set pre. we_cmd ew \<noteq> 0 \<and> we_cmd ew \<noteq> IWEVCUSTOM"
    and ev: "we_cmd ev = IWEVCUSTOM" "we_handler ev = Nrx_handle_custom_event" "we_user_data ev = p"
    and ce: "customs s p = Some ce" "ce_handler ce = Custom_user cb" "cb \<noteq> 0" "p \<noteq> 0"
    and me: "ce_type ce = [] \<or> ce_type ce = ty" "\<not> list_ex (other_id ce) (take 9 vars)" "length vars \<le> 8"
    and msg: "length ptr = pointer_size s" "length flags = 2" "length (custom_text True ty vars) \<le> 256"
      "plain ty" "list_all plain_var vars"
  defines "data \<equiv> custom_data ptr flags (custom_text True ty vars)"
  shows "(\<exists>t. custom_event_triggered (data @ junk) (of_nat (length data)) p s = Inr (0, t) \<and> a \<notin> live (ncalls t))
    \<and> we_dispatch IWEVCUSTOM (data @ junk) (of_nat (length data)) s = Inl Bad_access"
proof -
  have "(a, ev) \<in> set (we_handlers s)" using assms(2) by simp
  from cancel_custom_succeeds [OF assms(1) this ev(2,3) ce] obtain t
    where t: "nrx_cancel_custom_event p s = Inr (0, t)" "a \<notin> fst ` set (we_handlers t)" "a \<notin> live (ncalls t)"
    by blast
  have c: "custom_event_triggered (data @ junk) (of_nat (length data)) p s = Inr (0, t)"
    unfolding data_def custom_data_parts [OF msg(1-3) custom_text_no_zero [OF msg(4,5)]]
    using ce(1) me t(1) by (auto simp: parse_custom_text [OF msg(4,5)])
  then have "we_dispatch IWEVCUSTOM (data @ junk) (of_nat (length data)) s = Inl Bad_access"
    using ev t(2) by (simp add: we_dispatch_def assms(2) we_dispatch_loop_skip [OF assms(3)] trigger_we_fn_def)
  with c t(3) show ?thesis by blast
qed

text \<open>A context on which a custom event was registered.\<close>

definition demo_context :: nrx_st where
  "demo_context = snd (nrx_register_custom_event (Some ''SCAN'') 0 (Custom_user 1) 0
     (nrx_netlink_init (nrx_fresh quiet_nrx_env 3)))"

lemma demo_context_inv: "nrx_inv demo_context"
  unfolding demo_context_def by (intro register_custom_inv nrx_init_inv quiet_malloc_ok) simp

lemmas demo_unfold = demo_context_def nrx_register_custom_event_def nrx_register_we_event_handler_def
  nrx_netlink_init_def nrx_register_netlink_handler_def nmalloc_def nrx_event_connection_number_def
  nrx_create_netlink_socket_def nrx_fresh_def quiet_nrx_env_def nlog_def Let_def

lemma demo_context_parts:
  "we_handlers demo_context = [(8, \<lparr>we_cmd = IWEVCUSTOM, we_handler = Nrx_handle_custom_event, we_user_data = 4\<rparr>)]"
  "map (nl_handler \<circ> snd) (netlink_handlers demo_context) = [Rtnetlink_event, Rtnetlink_event]"
  "customs demo_context = [4 \<mapsto> \<lparr>ce_type = ''SCAN'', ce_id = 0, ce_handler = Custom_user 1, ce_user_data = 0,
     ev_handler = 8\<rparr>]"
  "wx_version demo_context = 0" "sock demo_context = 3"
  by (simp_all add: demo_unfold eval_nat_numeral)

lemma cancel_message_use_after_free_witness:
  "we_dispatch IWEVCUSTOM (custom_data [0, 0, 0, 0] [0, 0] (custom_text True ''SCAN'' []) @ [])
    (of_nat (length (custom_data [0, 0, 0, 0] [0, 0] (custom_text True ''SCAN'' [])))) demo_context = Inl Bad_access"
proof -
  have "plain ''SCAN''" by (simp add: plain_def char_isspace_def)
  moreover have "length [0, 0, 0, 0 :: u8] = pointer_size demo_context" by (simp add: pointer_size_def demo_context_parts)
  moreover have "length (custom_text True ''SCAN'' []) \<le> 256" by (simp add: custom_text_def vars_text_def)
  ultimately show ?thesis
    using cancel_message_use_after_free [OF demo_context_inv, of "[]" 8
        "\<lparr>we_cmd = IWEVCUSTOM, we_handler = Nrx_handle_custom_event, we_user_data = 4\<rparr>" "[]" 4 _ 1 "''SCAN''" "[]"
        "[0, 0, 0, 0]" "[0, 0]" "[]"] by (simp add: demo_context_parts)
qed

section \<open>The end of a context\<close>

text \<open>Whom cancelling a handler tells: the callback of the application at the end of the chain.\<close>

definition we_target :: "nrx_st \<Rightarrow> nrx_we_event \<Rightarrow> callback \<times> address" where
  "we_target s ev =
     (case we_handler ev of
        We_user cb \<Rightarrow> (cb, we_user_data ev)
      | Nrx_handle_custom_event \<Rightarrow>
          (case customs s (we_user_data ev) of
             None \<Rightarrow> (0, 0)
           | Some ce \<Rightarrow>
               (case ce_handler ce of
                  Custom_user cb \<Rightarrow> (cb, ce_user_data ce)
                | Custom_helper f \<Rightarrow>
                    (case helpers s (ce_user_data ce) of None \<Rightarrow> (0, 0) | Some h \<Rightarrow> helper_target f h))))"

fun netlink_target :: "nrx_netlink_event \<Rightarrow> (callback \<times> address) list" where
  "netlink_target ev = (case nl_handler ev of Netlink_user cb \<Rightarrow> [(cb, nl_user_data ev)] | Rtnetlink_event \<Rightarrow> [])"

text \<open>The callbacks of the application in a history that were told of a cancellation.\<close>

fun cancelled :: "nhistory \<Rightarrow> (callback \<times> address) list" where
  "cancelled [] = []"
| "cancelled (Callback cb NRX_CB_CANCEL d ud r # h) = (cb, ud) # cancelled h"
| "cancelled (_ # h) = cancelled h"

lemma cancelled_append [simp]: "cancelled (h @ k) = cancelled h @ cancelled k"
  by (induction h rule: cancelled.induct) simp_all

lemma helper_cancelled:
  assumes "helpers s p = Some h" "fst (helper_target f h) \<noteq> 0"
  shows "\<exists>r t. call_helper f NRX_CB_CANCEL Null_data p s = Inr (r, t) \<and>
    cancelled (ncalls t) = cancelled (ncalls s) @ [helper_target f h]"
  using assms by (cases "(f, h)" rule: helper_target.cases)
    (auto simp: call_helper_def mibtrigger_helper_def nrx_handle_scan_notification_def
      nrx_handle_conn_lost_notification_def nrx_handle_rate_notification_def call_user_def nfree_def Let_def)

lemma cancel_we_told:
  assumes i: "nrx_inv s" and ev: "map_of (we_handlers s) a = Some ev" and cb: "fst (we_target s ev) \<noteq> 0"
  shows "\<exists>t. nrx_cancel_we_event_handler a s = Inr (0, t) \<and> cancelled (ncalls t) = cancelled (ncalls s) @ [we_target s ev]
    \<and> customs t = customs s |` (- chain_custom ev) \<and> helpers t = helpers s |` (- chain_helper s ev)"
proof -
  let ?u = "s\<lparr>we_handlers := unlink a (we_handlers s)\<rparr>"
  have m: "(a, ev) \<in> set (we_handlers s)" using ev by (rule map_of_SomeD)
  have "\<exists>r u. cancel_we_fn (we_handler ev) (we_user_data ev) ?u = Inr (r, u) \<and>
      cancelled (ncalls u) = cancelled (ncalls s) @ [we_target s ev]"
    using cb by (auto simp: we_target_def cancel_we_fn_def custom_event_cancelled_def call_custom_def call_user_def
        nfree_def Let_def split: we_handler_fn.splits option.splits custom_handler.splits
        dest!: helper_cancelled [where s = ?u, simplified])
  then obtain r u where u: "cancel_we_fn (we_handler ev) (we_user_data ev) ?u = Inr (r, u)"
      "cancelled (ncalls u) = cancelled (ncalls s) @ [we_target s ev]" by blast
  from cancel_we_fn_memory [OF i m u(1)] u ev show ?thesis
    by (simp add: nrx_cancel_we_event_handler_def nfree_def)
qed

lemma other_target:
  assumes i: "nrx_inv s" and m: "(a, ev) \<in> set (we_handlers s)" "(b, ew) \<in> set (we_handlers s)" "a \<noteq> b"
    and t: "customs t = customs s |` (- chain_custom ev)" "helpers t = helpers s |` (- chain_helper s ev)"
  shows "we_target t ew = we_target s ew"
proof (cases "we_handler ew")
  case Nrx_handle_custom_event
  then obtain ce where ce: "customs s (we_user_data ew) = Some ce" "ev_handler ce = b"
    using nrx_invD(2) [OF i] m(2) by (auto simp: handlers_chained_def)
  have p: "we_user_data ew \<notin> chain_custom ev"
  proof
    assume "we_user_data ew \<in> chain_custom ev"
    then have "we_handler ev = Nrx_handle_custom_event" "we_user_data ev = we_user_data ew"
      by (auto simp: chain_custom_def split: if_splits)
    then have "ev_handler ce = a" using nrx_invD(2) [OF i] m(1) ce(1) by (fastforce simp: handlers_chained_def)
    with ce(2) m(3) show False by simp
  qed
  have "ce_user_data ce \<notin> chain_helper s ev" if "is_helper (ce_handler ce)"
  proof
    assume "ce_user_data ce \<in> chain_helper s ev"
    then obtain q cf where q: "q \<in> chain_custom ev" "customs s q = Some cf" "is_helper (ce_handler cf)"
        "ce_user_data cf = ce_user_data ce" by (auto simp: chain_helper_def)
    then have "q = we_user_data ew"
      using nrx_invD(4) [OF i] ce(1) that by (auto simp: helpers_chained_def)
    with p q(1) show False by simp
  qed
  with Nrx_handle_custom_event ce p show ?thesis
    by (simp add: we_target_def t split: custom_handler.splits)
qed (simp add: we_target_def)

lemma cancel_all_we_told:
  assumes "nrx_inv s" "\<forall>(a, ev)\<in>set (we_handlers s). fst (we_target s ev) \<noteq> 0"
  shows "\<exists>t. cancel_all_we s = Inr ((), t) \<and> we_handlers t = [] \<and> netlink_handlers t = netlink_handlers s \<and> nrx_inv t
    \<and> cancelled (ncalls t) = cancelled (ncalls s) @ map (we_target s \<circ> snd) (we_handlers s)"
  using assms
proof (induction "length (we_handlers s)" arbitrary: s)
  case 0
  then show ?case by (subst cancel_all_we.simps) simp
next
  case (Suc n)
  then obtain a ev rest where w: "we_handlers s = (a, ev) # rest" by (cases "we_handlers s") auto
  then have m: "map_of (we_handlers s) a = Some ev" by simp
  from Suc.prems w have "fst (we_target s ev) \<noteq> 0" by simp
  from cancel_we_told [OF Suc.prems(1) m this] obtain t
    where t: "nrx_cancel_we_event_handler a s = Inr (0, t)"
      "cancelled (ncalls t) = cancelled (ncalls s) @ [we_target s ev]"
      "customs t = customs s |` (- chain_custom ev)" "helpers t = helpers s |` (- chain_helper s ev)" by blast
  have l: "we_handlers t = rest" "netlink_handlers t = netlink_handlers s"
    using cancel_we_lists [OF t(1) m] w by (simp_all add: unlink_def)
  have i: "nrx_inv t" by (rule cancel_we_inv [OF Suc.prems(1) t(1)])
  have d: "a \<noteq> b" if "(b, ew) \<in> set rest" for b ew
    using blocks_okD(2) [OF nrx_invD(1) [OF Suc.prems(1)]] w that by force
  have k: "we_target t ew = we_target s ew" if "(b, ew) \<in> set rest" for b ew
    by (rule other_target [OF Suc.prems(1) _ _ d [OF that] t(3,4)]) (use w that in auto)
  have "n = length (we_handlers t)" using Suc.hyps(2) w l by simp
  moreover have "\<forall>(b, ew)\<in>set (we_handlers t). fst (we_target t ew) \<noteq> 0"
    using Suc.prems(2) k w l by auto
  ultimately obtain u where u: "cancel_all_we t = Inr ((), u)" "we_handlers u = []"
      "netlink_handlers u = netlink_handlers t" "nrx_inv u"
      "cancelled (ncalls u) = cancelled (ncalls t) @ map (we_target t \<circ> snd) (we_handlers t)"
    using Suc.hyps(1) i by blast
  have "map (we_target t \<circ> snd) rest = map (we_target s \<circ> snd) rest" using k by auto
  with u t(1,2) l w show ?case by (subst cancel_all_we.simps) simp
qed

lemma cancel_all_netlink_told:
  assumes "nrx_inv s" "\<forall>(a, ev)\<in>set (netlink_handlers s). nl_handler ev \<noteq> Netlink_user 0"
  shows "\<exists>t. cancel_all_netlink s = Inr ((), t) \<and> netlink_handlers t = [] \<and> we_handlers t = we_handlers s \<and> nrx_inv t
    \<and> customs t = customs s \<and> helpers t = helpers s
    \<and> cancelled (ncalls t) = cancelled (ncalls s) @ concat (map (netlink_target \<circ> snd) (netlink_handlers s))"
  using assms
proof (induction "length (netlink_handlers s)" arbitrary: s)
  case 0
  then show ?case by (subst cancel_all_netlink.simps) simp
next
  case (Suc n)
  then obtain a ev rest where w: "netlink_handlers s = (a, ev) # rest" by (cases "netlink_handlers s") auto
  then have m: "map_of (netlink_handlers s) a = Some ev" by simp
  from Suc.prems w have "nl_handler ev \<noteq> Netlink_user 0" by simp
  then obtain t where t: "nrx_cancel_netlink_handler a s = Inr ((), t)"
      "cancelled (ncalls t) = cancelled (ncalls s) @ netlink_target ev" "customs t = customs s" "helpers t = helpers s"
    using m by (cases "nl_handler ev") (auto simp: nrx_cancel_netlink_handler_def cancel_netlink_fn_def call_user_def
        nfree_def Let_def)
  have l: "netlink_handlers t = rest" "we_handlers t = we_handlers s"
    using cancel_netlink_lists [OF t(1) m] w by (simp_all add: unlink_def)
  have i: "nrx_inv t" by (rule cancel_netlink_inv [OF Suc.prems(1) t(1)])
  have "n = length (netlink_handlers t)" "\<forall>(b, ew)\<in>set (netlink_handlers t). nl_handler ew \<noteq> Netlink_user 0"
    using Suc.hyps(2) Suc.prems(2) w l by auto
  from Suc.hyps(1) [OF this(1) i this(2)] obtain u where u: "cancel_all_netlink t = Inr ((), u)"
      "netlink_handlers u = []" "we_handlers u = we_handlers t" "nrx_inv u" "customs u = customs t" "helpers u = helpers t"
      "cancelled (ncalls u) = cancelled (ncalls t) @ concat (map (netlink_target \<circ> snd) (netlink_handlers t))"
    by blast
  with t l w show ?case by (subst cancel_all_netlink.simps) simp
qed

text \<open>(C21) Freeing a context tells every registered callback once that it is cancelled, netlink handlers first and
  in the order of registration, and leaves no block of a handler or a custom event allocated.\<close>

theorem free_context_cancels_all:
  assumes "nrx_inv s" "0 \<le> sock s" "\<forall>(a, ev)\<in>set (we_handlers s). fst (we_target s ev) \<noteq> 0"
    and "\<forall>(a, ev)\<in>set (netlink_handlers s). nl_handler ev \<noteq> Netlink_user 0"
  shows "\<exists>t. nrx_free_context s = Inr ((), t)
    \<and> cancelled (ncalls t) = cancelled (ncalls s) @ concat (map (netlink_target \<circ> snd) (netlink_handlers s))
        @ map (we_target s \<circ> snd) (we_handlers s)
    \<and> we_handlers t = [] \<and> netlink_handlers t = [] \<and> customs t = Map.empty
    \<and> live (ncalls t) = dom (helpers t) \<and> frees_ok (ncalls t)"
proof -
  let ?u = "(nclose (sock s) (nlog (Shutdown_of (sock s)) s))\<lparr>sock := -1\<rparr>"
  let ?v = "if 0 \<le> netlink_sock ?u then (nclose (netlink_sock ?u) ?u)\<lparr>netlink_sock := -1\<rparr> else ?u"
  have sockets: "nrx_inv s \<Longrightarrow> nrx_inv (s\<lparr>sock := a\<rparr>) \<and> nrx_inv (s\<lparr>netlink_sock := a\<rparr>)" for s a
    by (simp add: nrx_inv_def blocks_ok_def list_blocks_def owned_def handlers_chained_def customs_chained_def
        helpers_chained_def)
  have log: "nrx_inv (nlog c s)" if "nrx_inv s" "c = Close_of a \<or> c = Shutdown_of a \<or> c = Free_context" for s c a
    by (rule nlog_inv) (use that in auto)
  have v: "nrx_inv ?v" "we_handlers ?v = we_handlers s" "netlink_handlers ?v = netlink_handlers s"
      "customs ?v = customs s" "helpers ?v = helpers s" "cancelled (ncalls ?v) = cancelled (ncalls s)"
    using assms(1) by (auto simp: nclose_def intro!: log sockets [THEN conjunct1] sockets [THEN conjunct2])
  from cancel_all_netlink_told [of ?v] v assms(4) obtain w
    where w: "cancel_all_netlink ?v = Inr ((), w)" "netlink_handlers w = []" "we_handlers w = we_handlers s" "nrx_inv w"
      "customs w = customs s" "helpers w = helpers s"
      "cancelled (ncalls w) = cancelled (ncalls s) @ concat (map (netlink_target \<circ> snd) (netlink_handlers s))"
    by auto
  have same: "we_target w = we_target s" by (rule ext) (simp only: we_target_def w(5,6))
  from cancel_all_we_told [of w] w assms(3) obtain t
    where t: "cancel_all_we w = Inr ((), t)" "we_handlers t = []" "netlink_handlers t = []" "nrx_inv t"
      "cancelled (ncalls t) = cancelled (ncalls w) @ map (we_target s \<circ> snd) (we_handlers s)"
    by (auto simp: same)
  have c: "customs t = Map.empty"
    using nrx_invD(3) [OF t(4)] t(2) by (auto simp: customs_chained_def fun_eq_iff)
  have "live (ncalls t) = dom (helpers t)" "frees_ok (ncalls t)"
    using blocks_okD(4,5) [OF nrx_invD(1) [OF t(4)]] t(2,3) c by (simp_all add: owned_def list_blocks_def)
  then show ?thesis
    using assms(2) w(1,7) t c unfolding nrx_free_context_def nrx_netlink_free_def Let_def by simp
qed

lemma free_context_cancels_all_witness:
  "\<exists>t. nrx_free_context demo_context = Inr ((), t) \<and> cancelled (ncalls t) = [(1, 0)] \<and> live (ncalls t) = dom (helpers t)"
proof -
  have n: "cancelled (ncalls demo_context) = []" by (simp add: demo_unfold)
  have "concat (map (netlink_target \<circ> snd) (netlink_handlers demo_context)) = []"
    "\<forall>(a, ev)\<in>set (netlink_handlers demo_context). nl_handler ev \<noteq> Netlink_user 0"
    using demo_context_parts(2) by auto
  then show ?thesis
    using free_context_cancels_all [OF demo_context_inv] n
    by (fastforce simp: demo_context_parts we_target_def)
qed

end
