(* ===== verification/Nrx_Notify.thy ===== *)
theory Nrx_Notify
  imports Nrx_Delivery
begin

text \<open>
  Notifications from their registration to the callback: of finished scans, of lost connections and of rates.
\<close>

section \<open>The variables of a notification\<close>

text \<open>The last value given for a variable, or the number that was in its place.\<close>

definition last_value :: "string \<Rightarrow> (string \<times> string) list \<Rightarrow> u32 \<Rightarrow> u32" where
  "last_value k vars d = (case map_of (rev vars) k of None \<Rightarrow> d | Some w \<Rightarrow> strtoul0 w)"

lemma last_value_simps:
  "last_value k [] d = d"
  "last_value k ((j, w) # vars) d = last_value k vars (if j = k then strtoul0 w else d)"
  by (simp_all add: last_value_def map_add_def split: option.splits)

lemma scan_vars_last:
  "scan_vars (map (\<lambda>(k, v). (k, Some v)) vars) (pol, sj) =
    Some (last_value ''policy'' vars pol, last_value ''jobid'' vars sj)"
  by (induction vars arbitrary: pol sj) (auto simp: last_value_simps)

lemma rate_vars_last:
  "rate_vars (map (\<lambda>(k, v). (k, Some v)) vars) (ucast d) = Some (ucast (last_value ''value'' vars d))"
  by (induction vars arbitrary: d) (auto simp: last_value_simps)

section \<open>Registration\<close>

lemma helper_registered:
  assumes "register_helper ty i f obj s = (p, t)" "p \<noteq> 0"
  shows "nenv t = nenv s \<and> (\<exists>ce. customs t p = Some ce \<and> ce_type ce = take 31 ty \<and> ce_id ce = i
    \<and> ce_handler ce = Custom_helper f \<and> helpers t (ce_user_data ce) = Some obj)"
  using assms
  by (auto simp: register_helper_def nrx_register_custom_event_def nrx_register_we_event_handler_def nmalloc_def Let_def
      split: if_splits option.splits)

text \<open>A message for the type of a helper goes to the helper.\<close>

lemma helper_triggered:
  assumes "register_helper ty i f obj s = (p, t)" "p \<noteq> 0"
    and "length ptr = pointer_size t" "length flags = 2" "length (custom_text False ty vars) \<le> 256"
    and "plain ty" "list_all plain_var vars" "ty \<noteq> ''CANCEL''" "length ty \<le> 31" "length vars \<le> 8"
  shows "\<exists>q. helpers t q = Some obj \<and>
    custom_event_triggered (custom_data ptr flags (custom_text False ty vars) @ junk)
      (of_nat (length (custom_data ptr flags (custom_text False ty vars)))) p t =
    (if i \<noteq> 0 \<and> list_ex (\<lambda>v. fst v = ''id'' \<and> strtoul0 (snd v) \<noteq> i) vars then Inr (0, t)
     else
       (case call_helper f NRX_CB_TRIGGER (Custom_data (map (\<lambda>(k, v). (k, Some v)) vars)) q t of
          Inl f \<Rightarrow> Inl f
        | Inr (r, s) \<Rightarrow> Inr (if r \<noteq> 0 then ENOENT else 0, s)))"
proof -
  from helper_registered [OF assms(1,2)] obtain ce where ce: "customs t p = Some ce" "ce_type ce = ty" "ce_id ce = i"
      "ce_handler ce = Custom_helper f" "helpers t (ce_user_data ce) = Some obj"
    using assms(9) by auto
  have o: "list_ex (other_id ce) vars \<longleftrightarrow> i \<noteq> 0 \<and> list_ex (\<lambda>v. fst v = ''id'' \<and> strtoul0 (snd v) \<noteq> i) vars"
    by (auto simp: list_ex_iff other_id_def ce(3))
  show ?thesis
    using ce assms(6,8,10)
    unfolding custom_data_parts [OF assms(3-5) custom_text_no_zero [OF assms(6,7)]]
    by (intro exI [of _ "ce_user_data ce"]) (simp add: o parse_custom_text [OF assms(6,7)] call_custom_def)
qed

section \<open>From the driver to the callback\<close>

text \<open>(C16) A handler for scan notifications that was registered gets a \<open>SCANNOTIFICATION\<close> of the driver exactly when
  the policy in its text has a bit in common with the policy of the registration, with the last policy and
  the last job id of the text; the one that the text does not give is what was on the stack.\<close>

theorem scan_notified:
  assumes "nrx_register_scan_notification_handler pol cb ud s = Inr (p, t)" "p \<noteq> 0"
    and "length ptr = pointer_size t" "length flags = 2" "length (custom_text False ''SCANNOTIFICATION'' vars) \<le> 256"
    and "list_all plain_var vars" "length vars \<le> 8"
  defines "data \<equiv> custom_data ptr flags (custom_text False ''SCANNOTIFICATION'' vars)"
    and "d \<equiv> (last_value ''policy'' vars (fst (nx_stack (nenv t) (ncalls t))),
      last_value ''jobid'' vars (snd (nx_stack (nenv t) (ncalls t))))"
  shows "custom_event_triggered (data @ junk) (of_nat (length data)) p t =
    Inr (0, if fst d AND pol = 0 then t
      else nlog (Callback cb NRX_CB_TRIGGER (Scan_data (fst d) (snd d)) ud
        (nx_callback (nenv t) (ncalls t) cb NRX_CB_TRIGGER (Scan_data (fst d) (snd d)) ud)) t)"
proof -
  have ty: "plain ''SCANNOTIFICATION''" by code_simp
  have r: "register_helper ''SCANNOTIFICATION'' 0 Nrx_handle_scan_notification
      (Scan_helper \<lparr>sn_pol = pol, sn_handler = cb, sn_user_data = ud\<rparr>) s = (p, t)" and cb: "cb \<noteq> 0"
    using assms(1) by (auto simp: nrx_register_scan_notification_handler_def split: if_splits)
  have v: "scan_vars (map (\<lambda>(k, v). (k, Some v)) vars) (nx_stack (nenv t) (ncalls t)) = Some d"
    using scan_vars_last [of vars "fst (nx_stack (nenv t) (ncalls t))" "snd (nx_stack (nenv t) (ncalls t))"]
    by (simp add: d_def)
  from helper_triggered [OF r assms(2-5) ty assms(6) _ _ assms(7), of junk] cb show ?thesis
    by (auto simp: data_def [symmetric] v call_helper_def nrx_handle_scan_notification_def call_user_def Let_def split_beta)
qed

text \<open>A context with a handler for scan notifications.\<close>

definition scan_context :: "address \<times> nrx_st" where
  "scan_context = (case nrx_register_scan_notification_handler 2 1 9 (nrx_netlink_init (nrx_fresh quiet_nrx_env 3)) of
     Inl _ \<Rightarrow> (0, nrx_fresh quiet_nrx_env 3) | Inr r \<Rightarrow> r)"

lemma scan_context_parts:
  "nrx_register_scan_notification_handler 2 1 9 (nrx_netlink_init (nrx_fresh quiet_nrx_env 3)) = Inr scan_context"
  "fst scan_context \<noteq> 0" "wx_version (snd scan_context) = 0" "nenv (snd scan_context) = quiet_nrx_env"
  by (simp_all add: scan_context_def nrx_register_scan_notification_handler_def register_helper_def
      nrx_register_custom_event_def
      nrx_register_we_event_handler_def nrx_netlink_init_def nrx_register_netlink_handler_def nmalloc_def
      nrx_event_connection_number_def nrx_create_netlink_socket_def nrx_fresh_def quiet_nrx_env_def nlog_def Let_def)

lemma scan_notified_witness:
  "let data = custom_data [0, 0, 0, 0] [0, 0] (custom_text False ''SCANNOTIFICATION'' [(''policy'', ''2'')]) in
    custom_event_triggered (data @ []) (of_nat (length data)) (fst scan_context) (snd scan_context) =
    Inr (0, nlog (Callback 1 NRX_CB_TRIGGER (Scan_data 2 0) 9 0) (snd scan_context))"
proof -
  let ?vars = "[(''policy'', ''2'')]"
  have "strtoul0 ''2'' = 2"
    by (simp add: strtoul0_def unsigned_value_def base_value_def digit_of_def char_isspace_def Let_def)
  then have l: "last_value ''policy'' ?vars x = 2" "last_value ''jobid'' ?vars x = x" for x
    by (simp_all add: last_value_def)
  have t: "list_all plain_var ?vars" by code_simp
  have p: "length [0, 0, 0, 0 :: u8] = pointer_size (snd scan_context)" by (simp add: pointer_size_def scan_context_parts)
  have n: "length (custom_text False ''SCANNOTIFICATION'' ?vars) \<le> 256"
    by (simp add: custom_text_def vars_text_def var_text_def)
  have q: "nx_callback quiet_nrx_env h cb op d u = 0" "nx_stack quiet_nrx_env h = (0, 0)" for h cb op d u
    by (simp_all add: quiet_nrx_env_def)
  from scan_notified [OF _ _ p _ n t, of 2 1 9 "nrx_netlink_init (nrx_fresh quiet_nrx_env 3)" "fst scan_context" "[0, 0]" "[]"]
  show ?thesis using scan_context_parts(1,2) by (simp add: scan_context_parts(4) q l Let_def)
qed

section \<open>Lost connections\<close>

lemma hex_digit_plain: "n < 16 \<Longrightarrow> plain [hex_digit upper n]"
proof -
  assume "n < 16"
  then have "n \<in> set [0..<16]" by simp
  moreover have "list_all (\<lambda>n. plain [hex_digit True n] \<and> plain [hex_digit False n]) [0..<16]" by code_simp
  ultimately show ?thesis by (cases upper) (auto simp: list_all_iff)
qed

lemma plain_append: "plain xs \<Longrightarrow> plain ys \<or> ys = [] \<Longrightarrow> plain (xs @ ys)"
proof -
  have "\<exists>P. \<forall>s. plain s \<longleftrightarrow> s \<noteq> [] \<and> (\<forall>c\<in>set s. P c)" by (rule exI, rule allI, rule plain_def)
  then obtain P where P: "\<And>s. plain s \<longleftrightarrow> s \<noteq> [] \<and> (\<forall>c\<in>set s. P c)" by blast
  show "plain xs \<Longrightarrow> plain ys \<or> ys = [] \<Longrightarrow> plain (xs @ ys)" unfolding P by auto
qed

lemma plain_Cons: "plain [c] \<Longrightarrow> plain ys \<or> ys = [] \<Longrightarrow> plain (c # ys)"
  using plain_append [of "[c]" ys] by simp

lemma hex_text_plain: "bs \<noteq> [] \<Longrightarrow> plain (hex_text upper bs)"
proof (induction bs)
  case (Cons b bs)
  then have "plain (hex_text upper bs) \<or> hex_text upper bs = []" by (cases "bs = []") auto
  then show ?case by (simp add: plain_Cons hex_digit_plain)
qed simp

text \<open>What the driver writes of a lost connection.\<close>

definition conn_lost_text :: "string \<Rightarrow> bool \<Rightarrow> u8 list \<Rightarrow> string \<Rightarrow> (string \<times> string) list" where
  "conn_lost_text ty upper bssid reason = [(''type'', ty), (''bssid'', hex_text upper bssid), (''reason'', reason)]"

lemma conn_lost_vars_text:
  assumes "length bssid = 6" "length b = 6"
  shows "conn_lost_vars (map (\<lambda>(k, v). (k, Some v)) (conn_lost_text ty upper bssid reason)) (n, b, r) =
    Some (strtoul0 ty, bssid, strtoul0 reason)"
proof -
  have "nrx_string_to_binary (hex_text upper bssid @ []) b 6 = Some (6, bssid)"
    using hexlen_hex_text [of "[]" upper bssid] string_to_binary_loop_hex [of "[]" 0 bssid b upper] assms
    by (simp add: nrx_string_to_binary_def)
  then show ?thesis by (simp add: conn_lost_text_def)
qed

text \<open>(C18) A handler for lost connections that was registered gets a \<open>CONNLOST\<close> of the driver with the address in
  it turned back into bytes, the reason and the kind of loss, exactly when it asked for that kind or for all;
  a disassociation counts as a deauthentication.\<close>

theorem conn_lost_notified:
  fixes upper :: bool
  assumes "nrx_register_conn_lost_notification type cb ud s = Inr (p, t)" "p \<noteq> 0"
    and "length ptr = pointer_size t" "length flags = 2" "plain ty" "plain reason" "length bssid = 6"
  defines "msg \<equiv> custom_text False ''CONNLOST'' (conn_lost_text ty upper bssid reason)"
    and "kind \<equiv> (if strtoul0 ty = 0 then NRX_BLR_AUTH_FAIL else if strtoul0 ty = 1 then NRX_BLR_ASSOC_FAIL
      else if strtoul0 ty \<in> {2, 3} then NRX_BLR_DEAUTH else 0)"
  assumes "length msg \<le> 256"
  shows "custom_event_triggered (custom_data ptr flags msg @ junk) (of_nat (length (custom_data ptr flags msg))) p t =
    Inr (0, if type \<noteq> 0 \<and> kind AND type = 0 then t
      else nlog (Callback cb NRX_CB_TRIGGER (Conn_lost_data bssid kind (strtoul0 reason)) ud
        (nx_callback (nenv t) (ncalls t) cb NRX_CB_TRIGGER (Conn_lost_data bssid kind (strtoul0 reason)) ud)) t)"
proof -
  let ?vars = "conn_lost_text ty upper bssid reason"
  have c: "plain ''CONNLOST''" by code_simp
  have k: "plain ''type'' \<and> plain ''bssid'' \<and> plain ''reason''" by code_simp
  have b: "bssid \<noteq> []" using assms(7) by auto
  have "plain_var (''type'', ty)" "plain_var (''reason'', reason)" "plain_var (''bssid'', hex_text upper bssid)"
    using assms(5-7) hex_text_plain [OF b, of upper] k by (auto simp: plain_var_def simp del: append.simps)
  then have v: "list_all plain_var ?vars" by (simp add: conn_lost_text_def)
  have r: "register_helper ''CONNLOST'' 0 Nrx_handle_conn_lost_notification
      (Conn_lost_helper \<lparr>cln_type = type, cln_handler = cb, cln_user_data = ud\<rparr>) s = (p, t)" and cb: "cb \<noteq> 0"
    using assms(1) by (auto simp: nrx_register_conn_lost_notification_def split: if_splits)
  have q: "cl_type (strtoul0 ty) = kind" by (simp add: cl_type_def kind_def)
  have n: "length ?vars \<le> 8" by (simp add: conn_lost_text_def)
  have w: "conn_lost_vars (map (\<lambda>(k, v). (k, Some v)) ?vars) (m, map f [0..<6], l) =
      Some (strtoul0 ty, bssid, strtoul0 reason)" for m f l
    by (rule conn_lost_vars_text) (simp_all add: assms(7))
  from helper_triggered [OF r assms(2-4) assms(10) [unfolded msg_def] c v _ _ n, of junk] cb show ?thesis
    by (auto simp: msg_def [symmetric] w q call_helper_def nrx_handle_conn_lost_notification_def call_user_def Let_def)
qed

definition conn_context :: "address \<times> nrx_st" where
  "conn_context = (case nrx_register_conn_lost_notification 4 1 9 (nrx_netlink_init (nrx_fresh quiet_nrx_env 3)) of
     Inl _ \<Rightarrow> (0, nrx_fresh quiet_nrx_env 3) | Inr r \<Rightarrow> r)"

lemma conn_context_parts:
  "nrx_register_conn_lost_notification 4 1 9 (nrx_netlink_init (nrx_fresh quiet_nrx_env 3)) = Inr conn_context"
  "fst conn_context \<noteq> 0" "wx_version (snd conn_context) = 0" "nenv (snd conn_context) = quiet_nrx_env"
  by (simp_all add: conn_context_def nrx_register_conn_lost_notification_def register_helper_def
      nrx_register_custom_event_def nrx_register_we_event_handler_def nrx_netlink_init_def
      nrx_register_netlink_handler_def nmalloc_def nrx_event_connection_number_def nrx_create_netlink_socket_def
      nrx_fresh_def quiet_nrx_env_def nlog_def Let_def)

lemma conn_lost_notified_witness:
  "let msg = custom_text False ''CONNLOST'' (conn_lost_text ''2'' True [1, 2, 3, 4, 5, 0xA6] ''7'') in
    custom_event_triggered (custom_data [0, 0, 0, 0] [0, 0] msg @ []) (of_nat (length (custom_data [0, 0, 0, 0] [0, 0] msg)))
      (fst conn_context) (snd conn_context) =
    Inr (0, nlog (Callback 1 NRX_CB_TRIGGER (Conn_lost_data [1, 2, 3, 4, 5, 0xA6] 4 7) 9 0) (snd conn_context))"
proof -
  have n: "strtoul0 ''2'' = 2" "strtoul0 ''7'' = 7"
    by (simp_all add: strtoul0_def unsigned_value_def base_value_def digit_of_def char_isspace_def Let_def)
  have t: "plain ''2'' \<and> plain ''7''" by code_simp
  have p: "length [0, 0, 0, 0 :: u8] = pointer_size (snd conn_context)" by (simp add: pointer_size_def conn_context_parts)
  have l: "length (custom_text False ''CONNLOST'' (conn_lost_text ''2'' True [1, 2, 3, 4, 5, 0xA6] ''7'')) \<le> 256"
    by (simp add: custom_text_def vars_text_def var_text_def conn_lost_text_def)
  have q: "nx_callback quiet_nrx_env h cb op d u = 0" for h cb op d u by (simp add: quiet_nrx_env_def)
  from conn_lost_notified [OF _ _ p _ _ _ _ l, of 4 1 9 "nrx_netlink_init (nrx_fresh quiet_nrx_env 3)"
      "fst conn_context" "[0, 0]" "[]"]
  show ?thesis using conn_context_parts(1,2) t by (simp add: conn_context_parts(4) q n Let_def)
qed

text \<open>The notifications of the rates.\<close>

theorem rate_notified:
  assumes "(if rx then nrx_register_rx_rate_threshold_callback else nrx_register_tx_rate_threshold_callback) i cb ud s =
      Inr (p, t)" "p \<noteq> 0"
    and "length ptr = pointer_size t" "length flags = 2" "list_all plain_var vars" "length vars \<le> 8"
  defines "msg \<equiv> custom_text False (if rx then ''RXRATE'' else ''TXRATE'') vars"
    and "rate \<equiv> ucast (last_value ''value'' vars 0)"
  assumes "length msg \<le> 256"
  shows "custom_event_triggered (custom_data ptr flags msg @ junk) (of_nat (length (custom_data ptr flags msg))) p t =
    Inr (0, if i \<noteq> 0 \<and> list_ex (\<lambda>v. fst v = ''id'' \<and> strtoul0 (snd v) \<noteq> i) vars \<or> rate = 0 then t
      else nlog (Callback cb NRX_CB_TRIGGER (Rate_data rate) ud
        (nx_callback (nenv t) (ncalls t) cb NRX_CB_TRIGGER (Rate_data rate) ud)) t)"
proof -
  let ?ty = "if rx then ''RXRATE'' else ''TXRATE''"
  have "plain ''RXRATE'' \<and> plain ''TXRATE''" by code_simp
  then have c: "plain ?ty" "?ty \<noteq> ''CANCEL''" "length ?ty \<le> 31" by simp_all
  have r: "register_helper ?ty i Nrx_handle_rate_notification (Rate_helper \<lparr>nt_handler = cb, nt_user_data = ud\<rparr>) s =
      (p, t)" and cb: "cb \<noteq> 0"
    using assms(1) by (auto simp: nrx_register_rx_rate_threshold_callback_def nrx_register_tx_rate_threshold_callback_def
        split: if_splits)
  have v: "rate_vars (map (\<lambda>(k, v). (k, Some v)) vars) 0 = Some rate"
    using rate_vars_last [of vars 0] by (simp add: rate_def)
  from helper_triggered [OF r assms(2-4) assms(9) [unfolded msg_def] c(1) assms(5) c(2,3) assms(6), of junk] cb
  show ?thesis
    by (auto simp: msg_def [symmetric] v call_helper_def nrx_handle_rate_notification_def call_user_def Let_def)
qed

end
