(* ===== verification/Nrx_Netlink.thy ===== *)
theory Nrx_Netlink
  imports Nrx_Dispatch
begin

text \<open>
  The walk over the attributes of a netlink message, against the message as the kernel writes it: every
  attribute is visited once and in order, and then the walk goes on 16 bytes behind the message, because
  \<open>rtnetlink_event\<close> forgets to count the message header.
\<close>

section \<open>Messages as the kernel writes them\<close>

type_synonym attribute = "u16 \<times> u8 list"

definition padding :: "nat \<Rightarrow> nat" where
  "padding n = (n + 3) div 4 * 4 - n"

definition attr_bytes :: "attribute \<Rightarrow> u8 list" where
  "attr_bytes x = UINT16_TO_STREAM (of_nat (4 + length (snd x))) @ UINT16_TO_STREAM (fst x) @ snd x
     @ replicate (padding (length (snd x))) 0"

definition attrs_bytes :: "attribute list \<Rightarrow> u8 list" where
  "attrs_bytes xs = concat (map attr_bytes xs)"

text \<open>A message: length, the rest of its header, the \<open>ifinfomsg\<close>, the attributes.\<close>

definition link_message :: "u8 list \<Rightarrow> u8 list \<Rightarrow> attribute list \<Rightarrow> u8 list" where
  "link_message hdr ifi xs = UINT32_TO_STREAM (of_nat (32 + length (attrs_bytes xs))) @ hdr @ ifi @ attrs_bytes xs"

text \<open>What is to happen: every wireless attribute goes to the handlers, with its command and what follows.\<close>

fun dispatch_attrs :: "attribute list \<Rightarrow> u8 list \<Rightarrow> nrx_st \<Rightarrow> unit outcome" where
  "dispatch_attrs [] behind s = Inr ((), s)"
| "dispatch_attrs ((ty, p) # xs) behind s =
     (if ty = IFLA_WIRELESS then
        if length p < 4 then Inl (Exited 1)
        else (case we_dispatch (STREAM_TO_UINT16 p 2)
                 (drop 4 p @ replicate (padding (length p)) 0 @ attrs_bytes xs @ behind) (of_nat (length p - 4)) s of
                Inl f \<Rightarrow> Inl f
              | Inr (_, t) \<Rightarrow> dispatch_attrs xs behind t)
      else dispatch_attrs xs behind s)"

section \<open>Reading\<close>

lemma peek16_mid: "n = length a \<Longrightarrow> Suc i < length p \<Longrightarrow> peek16 (a @ p @ r) (n + i) = Some (STREAM_TO_UINT16 p i)"
  by (simp add: peek16_def STREAM_TO_UINT16_def nth_append)

lemma peek16_field: "n = length a \<Longrightarrow> peek16 (a @ UINT16_TO_STREAM v @ r) n = Some v"
  using peek16_mid [of n a 0 "UINT16_TO_STREAM v" r] STREAM_UINT16_roundtrip [of v "[]"] by simp

lemma peek32_field: "n = length a \<Longrightarrow> peek32 (a @ UINT32_TO_STREAM v @ r) n = Some v"
  using STREAM_UINT32_roundtrip [of v r] by (simp add: peek32_def STREAM_TO_UINT32_def nth_append numeral_2_eq_2)

lemma length_attr_bytes: "length (attr_bytes (ty, p)) = (length p + 4 + 3) div 4 * 4"
proof -
  have "length p \<le> (length p + 3) div 4 * 4" "(length p + 4 + 3) div 4 * 4 = (length p + 3) div 4 * 4 + 4" by presburger+
  then show ?thesis by (simp add: attr_bytes_def padding_def)
qed

lemma attrs_bytes_simps [simp]: "attrs_bytes [] = []" "attrs_bytes (x # xs) = attr_bytes x @ attrs_bytes xs"
  by (simp_all add: attrs_bytes_def)

lemma align4_attr:
  "4 + length p < 65536 \<Longrightarrow> align4 (ucast (of_nat (4 + length p) :: u16)) = of_nat (length (attr_bytes (ty, p)))"
proof -
  assume p: "4 + length p < 65536"
  have "unat (align4 (ucast (of_nat (4 + length p) :: u16))) = (4 + length p + 3) div 4 * 4"
    using p by (simp only: align4_u16 unat_of_nat16)
  then show ?thesis unfolding length_attr_bytes by (metis add.commute of_nat_unat ucast_id)
qed

section \<open>The walk\<close>

text \<open>One round of the loop, on an attribute.\<close>

lemma walk_attr:
  assumes "4 + length p < 65536" "length (attr_bytes (ty, p)) + n < 2 ^ 32"
  shows "rtnetlink_walk (pre @ attr_bytes (ty, p) @ rest) (length pre) (of_nat (length (attr_bytes (ty, p)) + n)) s =
    (case (if ty = IFLA_WIRELESS then
             if length p < 4 then Inl (Exited 1)
             else we_dispatch (STREAM_TO_UINT16 p 2) (drop 4 p @ replicate (padding (length p)) 0 @ rest)
               (of_nat (length p - 4)) s
           else Inr ((), s)) of
       Inl f \<Rightarrow> Inl f
     | Inr (_, t) \<Rightarrow>
         rtnetlink_walk (pre @ attr_bytes (ty, p) @ rest) (length (pre @ attr_bytes (ty, p))) (of_nat n) t)"
proof -
  let ?mem = "pre @ attr_bytes (ty, p) @ rest" and ?l = "of_nat (4 + length p) :: u16"
  let ?L = "length (attr_bytes (ty, p))"
  have u: "unat ?l = 4 + length p" using assms(1) by (rule unat_of_nat16)
  then have ul: "unat (ucast ?l :: u32) = 4 + length p"
    using assms(1) by (simp only: unsigned_ucast_eq) (simp add: take_bit_nat_eq_self)
  have L: "4 + length p \<le> ?L" unfolding length_attr_bytes by linarith
  have r: "unat (of_nat (?L + n) :: u32) = ?L + n" using assms(2) by (intro unat_of_nat32) simp
  have c: "\<not> (of_nat (?L + n) :: u32) < 4" "\<not> ?l < 4" "\<not> (of_nat (?L + n) :: u32) < ucast ?l"
    using L by (simp_all only: word_less_nat_alt r u ul) simp_all
  have m: "peek16 ?mem (length pre) = Some ?l"
    using peek16_field [of "length pre" pre ?l] by (simp add: attr_bytes_def)
  have t: "peek16 ?mem (length pre + 2) = Some ty"
    using peek16_field [of "length pre + 2" "pre @ UINT16_TO_STREAM ?l" ty] by (simp add: attr_bytes_def)
  have w: "peek16 ?mem (length pre + 6) = Some (STREAM_TO_UINT16 p 2)" if "4 \<le> length p"
    using peek16_mid [of "length pre + 4" "pre @ UINT16_TO_STREAM ?l @ UINT16_TO_STREAM ty" 2 p] that
    by (simp add: attr_bytes_def add.commute [of 6])
  have q: "?l - 4 < 4 \<longleftrightarrow> length p < 4"
  proof -
    have "?l - 4 = of_nat (length p)" by simp
    moreover have "unat (of_nat (length p) :: u16) = length p" using assms(1) by (intro unat_of_nat16) simp
    ultimately show ?thesis by (simp only: word_less_nat_alt) simp
  qed
  have d: "drop (length pre + 8) ?mem = drop 4 p @ replicate (padding (length p)) 0 @ rest" if "4 \<le> length p"
    using that by (simp add: attr_bytes_def)
  have v: "ucast ?l - 4 - 4 = (of_nat (length p - 4) :: u32)" if "4 \<le> length p"
  proof -
    have "ucast ?l = (of_nat (4 + length p) :: u32)" using ul by (metis of_nat_unat ucast_id)
    with that show ?thesis by (simp add: of_nat_diff)
  qed
  have a: "length pre + unat (align4 (ucast ?l)) = length (pre @ attr_bytes (ty, p))"
    "of_nat (?L + n) - align4 (ucast ?l) = (of_nat n :: u32)"
    unfolding align4_attr [OF assms(1), of ty] using assms(2) unat_of_nat32 [of ?L] by simp_all
  have b: "(case peek16 ?mem (length pre + 2) of
        None \<Rightarrow> Inl Bad_access
      | Some type \<Rightarrow>
          if type = IFLA_WIRELESS then
            if ?l - 4 < 4 then Inl (Exited 1)
            else (case peek16 ?mem (length pre + 6) of
                    None \<Rightarrow> Inl Bad_access
                  | Some cmd \<Rightarrow> we_dispatch cmd (drop (length pre + 8) ?mem) (ucast ?l - 4 - 4) s)
          else Inr ((), s)) =
      (if ty = IFLA_WIRELESS then
         if length p < 4 then Inl (Exited 1)
         else we_dispatch (STREAM_TO_UINT16 p 2) (drop 4 p @ replicate (padding (length p)) 0 @ rest)
           (of_nat (length p - 4)) s
       else Inr ((), s))"
    unfolding t option.case q by (cases "length p < 4") (simp_all only: w d v not_less if_True if_False option.case)
  show ?thesis
    unfolding b [symmetric] a(1) [symmetric] a(2) [symmetric]
    by (subst rtnetlink_walk.simps) (simp only: m c option.case if_False disj_not1 not_True_eq_False simp_thms)
qed

lemma walk_attrs:
  assumes "list_all (\<lambda>(ty, p). 4 + length p < 65536) xs" "length (attrs_bytes xs) + n < 2 ^ 32"
  shows "rtnetlink_walk (pre @ attrs_bytes xs @ behind) (length pre) (of_nat (length (attrs_bytes xs) + n)) s =
    (case dispatch_attrs xs behind s of
       Inl f \<Rightarrow> Inl f
     | Inr (_, t) \<Rightarrow> rtnetlink_walk (pre @ attrs_bytes xs @ behind) (length (pre @ attrs_bytes xs)) (of_nat n) t)"
  using assms
proof (induction xs arbitrary: pre s)
  case (Cons x xs)
  obtain ty p where x: "x = (ty, p)" by fastforce
  let ?n = "length (attrs_bytes xs) + n"
  have p: "4 + length p < 65536" "length (attr_bytes (ty, p)) + ?n < 2 ^ 32" using Cons.prems x by simp_all
  have IH: "rtnetlink_walk ((pre @ attr_bytes (ty, p)) @ attrs_bytes xs @ behind) (length (pre @ attr_bytes (ty, p)))
      (of_nat ?n) t = (case dispatch_attrs xs behind t of Inl f \<Rightarrow> Inl f
        | Inr (_, u) \<Rightarrow> rtnetlink_walk ((pre @ attr_bytes (ty, p)) @ attrs_bytes xs @ behind)
            (length ((pre @ attr_bytes (ty, p)) @ attrs_bytes xs)) (of_nat n) u)" for t
    by (rule Cons.IH) (use Cons.prems in auto)
  from walk_attr [OF p, of pre "attrs_bytes xs @ behind" s] show ?case
    using IH by (auto simp: x add.assoc split: sum.splits)
qed simp

text \<open>(C22) Every attribute of a message is visited once and in order, the wireless ones go to the handlers with
  their own data; then the walk continues over the 16 bytes behind the message.\<close>

theorem attributes_dispatched:
  fixes pre behind
  assumes "length hdr = 12" "length ifi = 16" "list_all (\<lambda>(ty, p). 4 + length p < 65536) xs"
    and "length (attrs_bytes xs) < 2 ^ 31"
  defines "mem \<equiv> pre @ link_message hdr ifi xs @ behind"
  shows "rtnetlink_event mem (length pre) s =
    (case dispatch_attrs xs behind s of
       Inl f \<Rightarrow> Inl f
     | Inr (_, t) \<Rightarrow> rtnetlink_walk mem (length pre + length (link_message hdr ifi xs)) 16 t)"
proof -
  let ?n = "length (attrs_bytes xs)" and ?pre = "pre @ UINT32_TO_STREAM (of_nat (32 + length (attrs_bytes xs))) @ hdr @ ifi"
  have m: "peek32 mem (length pre) = Some (of_nat (32 + ?n))"
    using peek32_field [of "length pre" pre "of_nat (32 + ?n)"] by (simp add: mem_def link_message_def)
  have "unat (of_nat (32 + ?n) :: u32) = 32 + ?n" using assms(4) by (intro unat_of_nat32) simp
  then have c: "\<not> (of_nat (32 + ?n) :: u32) < 16" by (simp only: word_less_nat_alt) simp
  have l: "of_nat (32 + ?n) - 16 = (of_nat (?n + 16) :: u32)" by simp
  have e: "mem = ?pre @ attrs_bytes xs @ behind" "length pre + 16 + 16 = length ?pre"
    "length pre + length (link_message hdr ifi xs) = length (?pre @ attrs_bytes xs)"
    by (simp_all add: mem_def link_message_def assms(1,2))
  have "rtnetlink_event mem (length pre) s = rtnetlink_walk mem (length pre + 16 + 16) (of_nat (?n + 16)) s"
    using m c by (simp only: rtnetlink_event_def option.case if_False l)
  also have "\<dots> = (case dispatch_attrs xs behind s of Inl f \<Rightarrow> Inl f
     | Inr (_, t) \<Rightarrow> rtnetlink_walk mem (length pre + length (link_message hdr ifi xs)) 16 t)"
  proof -
    have "?n + 16 < 2 ^ 32" using assms(4) by simp
    from walk_attrs [OF assms(3) this, of ?pre behind s, folded e] show ?thesis
      unfolding e(2) by (simp only: of_nat_numeral)
  qed
  finally show ?thesis .
qed

text \<open>So what lies behind a message is taken for an attribute of it.\<close>

theorem stale_attribute_dispatched:
  fixes rest
  assumes "length hdr = 12" "length ifi = 16" "4 \<le> length p" "length p \<le> 12"
  defines "mem \<equiv> link_message hdr ifi [] @ attr_bytes (IFLA_WIRELESS, p) @ rest"
  shows "rtnetlink_event mem 0 s =
    (case we_dispatch (STREAM_TO_UINT16 p 2) (drop 4 p @ replicate (padding (length p)) 0 @ rest)
            (of_nat (length p - 4)) s of
       Inl f \<Rightarrow> Inl f
     | Inr (_, t) \<Rightarrow> rtnetlink_walk mem (32 + length (attr_bytes (IFLA_WIRELESS, p)))
         (of_nat (16 - length (attr_bytes (IFLA_WIRELESS, p)))) t)"
proof -
  let ?L = "length (attr_bytes (IFLA_WIRELESS, p))"
  have "?L \<le> 16" using assms(4) div_le_mono [of "length p + 4 + 3" 19 4] unfolding length_attr_bytes by simp
  then have n: "(16 :: u32) = of_nat (?L + (16 - ?L))" by simp
  have h: "length (link_message hdr ifi []) = 32" by (simp add: link_message_def assms(1,2))
  have "rtnetlink_event mem 0 s = rtnetlink_walk mem 32 16 s"
    using attributes_dispatched [OF assms(1,2), of "[]" "[]" "attr_bytes (IFLA_WIRELESS, p) @ rest" s] h
    by (simp add: mem_def)
  also have "\<dots> = rtnetlink_walk mem 32 (of_nat (?L + (16 - ?L))) s" unfolding n [symmetric] ..
  also have "\<dots> = (case we_dispatch (STREAM_TO_UINT16 p 2) (drop 4 p @ replicate (padding (length p)) 0 @ rest)
            (of_nat (length p - 4)) s of
       Inl f \<Rightarrow> Inl f | Inr (_, t) \<Rightarrow> rtnetlink_walk mem (32 + ?L) (of_nat (16 - ?L)) t)"
  proof -
    have "4 + length p < 65536" "?L + (16 - ?L) < 2 ^ 32" using assms(4) \<open>?L \<le> 16\<close> by simp_all
    from walk_attr [OF this, of "link_message hdr ifi []" rest s] show ?thesis
      unfolding length_append h mem_def using assms(3) by (simp only: refl if_True if_False not_less [THEN iffD2])
  qed
  finally show ?thesis .
qed

lemma attributes_dispatched_witness:
  "\<forall>s. rtnetlink_event ([] @ link_message (replicate 12 0) (replicate 16 0) [(3, [1, 2])] @ replicate 16 0)
     (length ([] :: u8 list)) s = Inr (0, s)"
proof
  fix s
  let ?mem = "[] @ link_message (replicate 12 0) (replicate 16 0) [(3, [1, 2])] @ replicate 16 (0 :: u8)"
  have l: "length (link_message (replicate 12 0) (replicate 16 0) [(3, [1, 2])]) = 40"
    by (simp add: link_message_def length_attr_bytes)
  have "peek16 (a @ replicate 16 0) (length a) = Some 0" for a :: "u8 list"
    by (simp add: peek16_def STREAM_TO_UINT16_def nth_append)
  from this [of "link_message (replicate 12 0) (replicate 16 0) [(3, [1, 2])]"]
  have "peek16 ?mem 40 = Some 0" by (simp add: l)
  then have "rtnetlink_walk ?mem 40 16 s = Inr (0, s)" by (subst rtnetlink_walk.simps) simp
  then show "rtnetlink_event ?mem (length ([] :: u8 list)) s = Inr (0, s)"
    using attributes_dispatched [of "replicate 12 0" "replicate 16 0" "[(3, [1, 2])]" "[]" "replicate 16 0" s] l
    by (simp add: length_attr_bytes)
qed

end
