(* ===== verification/Nrx_Settings.thy ===== *)
theory Nrx_Settings
  imports Nrx_Radio
begin

text \<open>
  Settings of the device: power saving (\<open>powersave.c\<close>), roaming (\<open>roam.c\<close>), ad-hoc networks (\<open>ibss.c\<close>), other
  parameters (\<open>param.c\<close>) and counters (\<open>counters.c\<close>), all under \<open>src/hardware/wifi/nrx600\<close>.
\<close>

section \<open>Power saving\<close>

definition nrx_enable_ps :: "nrx_st \<Rightarrow> int \<times> nrx_st" where
  "nrx_enable_ps s = nrx_nrxioctl (Plain_ioc NRXIOCPSENABLE) s"

definition nrx_get_ps_mode :: "nrx_st \<Rightarrow> int \<times> u32 option \<times> nrx_st" where
  "nrx_get_ps_mode s = read_value NRXIORPSENABLE s"

definition nrx_disable_ps :: "nrx_st \<Rightarrow> int \<times> nrx_st" where
  "nrx_disable_ps s = nrx_nrxioctl (Plain_ioc NRXIOCPSDISABLE) s"

definition nrx_conf_ps :: "u32 \<Rightarrow> u32 \<Rightarrow> u16 \<Rightarrow> u32 \<Rightarrow> nrx_st \<Rightarrow> int \<times> nrx_st" where
  "nrx_conf_ps rx_all_dtim use_ps_poll listen_interval traffic_timeout s =
     (if \<not> (rx_all_dtim \<noteq> 0 \<or> listen_interval \<noteq> 0) then (EINVAL, s)
      else if \<not> traffic_timeout \<noteq> 0 then (EINVAL, s)
      else nrx_nrxioctl (NRXIOWPSCONF rx_all_dtim use_ps_poll traffic_timeout listen_interval) s)"

definition nrx_set_dev_listen_interval :: "u32 \<Rightarrow> nrx_st \<Rightarrow> int \<times> nrx_st" where
  "nrx_set_dev_listen_interval every_beacon s =
     (if \<not> (every_beacon = 0 \<or> every_beacon = 1) then (EINVAL, s)
      else nrx_set_mib_val ''5.19'' (UINT32_TO_STREAM every_beacon) s)"

definition nrx_enable_wmm_ps :: "u32 \<Rightarrow> nrx_st \<Rightarrow> int \<times> nrx_st" where
  "nrx_enable_wmm_ps sp_len s =
     (if \<not> (sp_len = 0 \<or> sp_len = 1 \<or> sp_len = 2 \<or> sp_len = 3) then (EINVAL, s)
      else nrx_nrxioctl (Write_ioc NRXIOWWMMPSENABLE sp_len) s)"

definition nrx_conf_wmm_ps :: "u32 \<Rightarrow> u32 \<Rightarrow> nrx_st \<Rightarrow> int \<times> nrx_st" where
  "nrx_conf_wmm_ps tx_period ac s =
     (if \<not> tx_period \<le> 4294967 then (EINVAL, s)
      else nrx_nrxioctl (NRXIOWWMMPSCONF (tx_period * 1000) (ac AND 8 \<noteq> 0) (ac AND 4 \<noteq> 0) (ac AND 2 \<noteq> 0)
        (ac AND 1 \<noteq> 0)) s)"

definition nrx_disable_wmm_ps :: "nrx_st \<Rightarrow> int \<times> nrx_st" where
  "nrx_disable_wmm_ps s = nrx_nrxioctl (Plain_ioc NRXIOCWMMPSDISABLE) s"

section \<open>Roaming\<close>

definition nrx_enable_roam :: "nrx_st \<Rightarrow> int \<times> nrx_st" where
  "nrx_enable_roam s = nrx_nrxioctl (Write_ioc NRXIOWROAMENABLE 1) s"

definition nrx_disable_roam :: "nrx_st \<Rightarrow> int \<times> nrx_st" where
  "nrx_disable_roam s = nrx_nrxioctl (Write_ioc NRXIOWROAMENABLE 0) s"

text \<open>The array of \<open>nrx_ssid_t\<close> has 33 bytes, the parameter 32.\<close>

definition nrx_add_roam_ssid_filter :: "u8 list \<Rightarrow> u32 \<Rightarrow> nrx_st \<Rightarrow> int \<times> nrx_st" where
  "nrx_add_roam_ssid_filter ssid ssid_len s =
     (if 32 < ssid_len then (EINVAL, s)
      else nrx_nrxioctl (NRXIOWROAMADDSSIDFILTER (take (unat ssid_len) ssid)) s)"

definition nrx_del_roam_ssid_filter :: "u8 list \<Rightarrow> u32 \<Rightarrow> nrx_st \<Rightarrow> int \<times> nrx_st" where
  "nrx_del_roam_ssid_filter ssid ssid_len s =
     (if 32 < ssid_len then (EINVAL, s)
      else nrx_nrxioctl (NRXIOWROAMDELSSIDFILTER (take (unat ssid_len) ssid)) s)"

text \<open>The flags are 32 bits wide as arguments and 8 in the parameter, and so are the thresholds of the rate.\<close>

definition nrx_conf_roam_filter :: "u32 \<Rightarrow> u32 \<Rightarrow> u32 \<Rightarrow> nrx_st \<Rightarrow> int \<times> nrx_st" where
  "nrx_conf_roam_filter blacklist wmm ssid s =
     nrx_nrxioctl (NRXIOWROAMCONFFILTER (ucast blacklist) (ucast wmm) (ucast ssid)) s"

definition nrx_conf_roam_rssi_thr :: "u32 \<Rightarrow> int \<Rightarrow> int \<Rightarrow> u32 \<Rightarrow> nrx_st \<Rightarrow> int \<times> nrx_st" where
  "nrx_conf_roam_rssi_thr enable roam_thr scan_thr margin s =
     nrx_nrxioctl (NRXIOWROAMCONFRSSITHR (ucast enable) roam_thr scan_thr margin) s"

definition nrx_conf_roam_snr_thr :: "u32 \<Rightarrow> int \<Rightarrow> int \<Rightarrow> u32 \<Rightarrow> nrx_st \<Rightarrow> int \<times> nrx_st" where
  "nrx_conf_roam_snr_thr enable roam_thr scan_thr margin s =
     nrx_nrxioctl (NRXIOWROAMCONFSNRTHR (ucast enable) (of_int roam_thr) (of_int scan_thr) margin) s"

definition nrx_conf_roam_ds_thr :: "u32 \<Rightarrow> u32 \<Rightarrow> u32 \<Rightarrow> nrx_st \<Rightarrow> int \<times> nrx_st" where
  "nrx_conf_roam_ds_thr enable roam_thr scan_thr s =
     nrx_nrxioctl (NRXIOWROAMCONFDSTHR (ucast enable) roam_thr scan_thr) s"

definition nrx_conf_roam_rate_thr :: "u32 \<Rightarrow> u32 \<Rightarrow> u32 \<Rightarrow> nrx_st \<Rightarrow> int \<times> nrx_st" where
  "nrx_conf_roam_rate_thr enable roam_thr scan_thr s =
     nrx_nrxioctl (NRXIOWROAMCONFRATETHR (ucast enable) (ucast roam_thr) (ucast scan_thr)) s"

definition nrx_conf_roam_net_election :: "u32 \<Rightarrow> u32 \<Rightarrow> nrx_st \<Rightarrow> int \<times> nrx_st" where
  "nrx_conf_roam_net_election k1 k2 s = nrx_nrxioctl (NRXIOWROAMCONFNETELECTION k1 k2) s"

definition nrx_conf_roam_auth :: "u8 \<Rightarrow> u32 \<Rightarrow> u32 \<Rightarrow> nrx_st \<Rightarrow> int \<times> nrx_st" where
  "nrx_conf_roam_auth enable auth_mode enc_mode s = nrx_nrxioctl (NRXIOWROAMCONFAUTH enable auth_mode enc_mode) s"

definition nrx_conf_delay_spread :: "u32 \<Rightarrow> u16 \<Rightarrow> nrx_st \<Rightarrow> int \<times> nrx_st" where
  "nrx_conf_delay_spread thr winsize s = nrx_nrxioctl (NRXIOWCONFDELAYSPREAD thr winsize) s"

section \<open>Ad-hoc networks\<close>

definition nrx_set_ibss_beacon_period :: "u16 \<Rightarrow> nrx_st \<Rightarrow> int \<times> nrx_st" where
  "nrx_set_ibss_beacon_period period s =
     (if \<not> 0 < period then (EINVAL, s) else nrx_nrxioctl (Write_ioc NRXIOWBEACONPERIOD (ucast period)) s)"

definition nrx_get_ibss_beacon_period :: "nrx_st \<Rightarrow> int \<times> u32 option \<times> nrx_st" where
  "nrx_get_ibss_beacon_period s = read_value NRXIORBEACONPERIOD s"

definition nrx_set_ibss_dtim_period :: "u8 \<Rightarrow> nrx_st \<Rightarrow> int \<times> nrx_st" where
  "nrx_set_ibss_dtim_period period s = nrx_nrxioctl (Write_ioc NRXIOWDTIMPERIOD (ucast period)) s"

definition nrx_get_ibss_dtim_period :: "nrx_st \<Rightarrow> int \<times> u32 option \<times> nrx_st" where
  "nrx_get_ibss_dtim_period s = read_value NRXIORDTIMPERIOD s"

definition nrx_set_ibss_atim_window :: "u16 \<Rightarrow> nrx_st \<Rightarrow> int \<times> nrx_st" where
  "nrx_set_ibss_atim_window window s = nrx_nrxioctl (Write_ioc NRXIOWATIMWINDOW (ucast window)) s"

definition nrx_get_ibss_atim_window :: "nrx_st \<Rightarrow> int \<times> u32 option \<times> nrx_st" where
  "nrx_get_ibss_atim_window s = read_value NRXIORATIMWINDOW s"

section \<open>Parameters\<close>

definition nrx_get_join_timeout :: "nrx_st \<Rightarrow> int \<times> u32 option \<times> nrx_st" where
  "nrx_get_join_timeout s = read_value NRXIORJOINTIMEOUT s"

definition nrx_set_join_timeout :: "u32 \<Rightarrow> nrx_st \<Rightarrow> int \<times> nrx_st" where
  "nrx_set_join_timeout v s = nrx_nrxioctl (Write_ioc NRXIOWJOINTIMEOUT v) s"

text \<open>\<open>None\<close>: not enabled, the interval is not set.\<close>

definition nrx_disable_heartbeat :: "nrx_st \<Rightarrow> int \<times> nrx_st" where
  "nrx_disable_heartbeat s = nrx_nrxioctl (NRXIOWHEARTBEAT None) s"

definition nrx_enable_heartbeat :: "u32 \<Rightarrow> nrx_st \<Rightarrow> int \<times> nrx_st" where
  "nrx_enable_heartbeat hb_period s =
     (if \<not> hb_period \<le> 2100000 then (EINVAL, s) else nrx_nrxioctl (NRXIOWHEARTBEAT (Some hb_period)) s)"

definition nrx_set_maxcorecount :: "u32 \<Rightarrow> nrx_st \<Rightarrow> int \<times> nrx_st" where
  "nrx_set_maxcorecount count s = nrx_nrxioctl (Write_ioc NRXIOWCORECOUNT count) s"

definition nrx_get_maxcorecount :: "nrx_st \<Rightarrow> int \<times> u32 option \<times> nrx_st" where
  "nrx_get_maxcorecount s = read_value NRXIORCORECOUNT s"

text \<open>The terminating zero is stored at the length the driver gives: behind the buffer when the value fills it.
  The buffer has \<open>len\<close> bytes.\<close>

definition nrx_get_mib_string :: "string \<Rightarrow> u32 \<Rightarrow> nrx_st \<Rightarrow> (int \<times> u8 list option) outcome" where
  "nrx_get_mib_string i len s =
     (case nrx_get_mib_val i len s of
        (ret, None, s) \<Rightarrow> Inr ((ret, None), s)
      | (_, Some (n, res), s) \<Rightarrow>
          if n < len then Inr ((0, Some (res[unat n := 0])), s) else Inl Bad_access)"

definition nrx_enable_multi_domain :: "nrx_st \<Rightarrow> int \<times> nrx_st" where
  "nrx_enable_multi_domain s = nrx_nrxioctl (Bool_ioc NRXIOWMULTIDOMAIN True) s"

definition nrx_conf_multi_domain :: "u32 \<Rightarrow> nrx_st \<Rightarrow> int \<times> nrx_st" where
  "nrx_conf_multi_domain enforce s = nrx_nrxioctl (Bool_ioc NRXIOWMULTIDOMAINENFORCE (enforce \<noteq> 0)) s"

definition nrx_disable_multi_domain :: "nrx_st \<Rightarrow> int \<times> nrx_st" where
  "nrx_disable_multi_domain s = nrx_nrxioctl (Bool_ioc NRXIOWMULTIDOMAIN False) s"

definition nrx_conf_arp_filter :: "u32 \<Rightarrow> u32 \<Rightarrow> nrx_st \<Rightarrow> int \<times> nrx_st" where
  "nrx_conf_arp_filter mode ip s =
     (if \<not> mode < 4 then (EINVAL, s) else nrx_nrxioctl (NRXIOWARPCONF (ucast mode) ip) s)"

definition nrx_enable_bt_coex :: "nrx_st \<Rightarrow> int \<times> nrx_st" where
  "nrx_enable_bt_coex s = nrx_nrxioctl (Bool_ioc NRXIOWBTCOEXENABLE True) s"

definition nrx_disable_bt_coex :: "nrx_st \<Rightarrow> int \<times> nrx_st" where
  "nrx_disable_bt_coex s = nrx_nrxioctl (Bool_ioc NRXIOWBTCOEXENABLE False) s"

text \<open>The list of pins: the length it says and the array of five, each with its number and level.\<close>

record nrx_gpio_list_t =
  gp_len :: int
  gp_pin :: "(u8 \<times> u8) list"

definition wires_ok :: "u8 \<Rightarrow> u8 \<Rightarrow> int \<Rightarrow> bool" where
  "wires_ok vendor mode len \<longleftrightarrow>
     (vendor = 0 \<and> (mode = 0 \<and> len = 2 \<or> mode = 1 \<and> len = 3 \<or> mode = 2 \<and> len = 3)
      \<or> vendor = 1 \<and> mode = 0 \<and> len = 3
      \<or> vendor = 2 \<and> (mode = 0 \<and> len = 3 \<or> mode = 1 \<and> len = 4))"

definition bt_pin :: "u8 \<times> u8 \<Rightarrow> u8" where
  "bt_pin p = (if snd p \<noteq> 0 then fst p OR 0x10 else fst p)"

text \<open>The pins are looked at before the length is compared with the number of wires.\<close>

definition nrx_conf_bt_coex ::
    "u8 \<Rightarrow> u8 \<Rightarrow> nrx_gpio_list_t option \<Rightarrow> u8 \<Rightarrow> u8 \<Rightarrow> u8 \<Rightarrow> u8 \<Rightarrow> u8 \<Rightarrow> nrx_st \<Rightarrow> int outcome" where
  "nrx_conf_bt_coex vendor mode pta_def dual sel0 sel1 level0 level1 s =
     (if \<not> vendor \<le> 2 then Inr (EINVAL, s)
      else
        case pta_def of
          None \<Rightarrow> Inr (EINVAL, s)
        | Some def \<Rightarrow>
            (case check_each (\<lambda>p. fst p \<le> 4) (gp_pin def) 0 (nat (gp_len def)) of
               Inl f \<Rightarrow> Inl f
             | Inr ok \<Rightarrow>
                 if \<not> ok then Inr (EINVAL, s)
                 else if \<not> wires_ok vendor mode (gp_len def) then Inr (EINVAL, s)
                 else if \<not> (dual = 0 \<or> dual = 1) then Inr (EINVAL, s)
                 else if \<not> (sel0 = 0 \<or> sel0 = 1) then Inr (EINVAL, s)
                 else if \<not> (sel1 = 0 \<or> sel1 = 1) then Inr (EINVAL, s)
                 else if \<not> (level0 = 0 \<or> level0 = 1) then Inr (EINVAL, s)
                 else if \<not> (level1 = 0 \<or> level1 = 1) then Inr (EINVAL, s)
                 else
                   let pins = map bt_pin (take (nat (gp_len def)) (gp_pin def))
                   in Inr (nrx_nrxioctl (NRXIOWBTCOEXCONF
                     \<lparr>bt_vendor = vendor, bt_pta_mode = mode, bt_pta_def = pins @ replicate (5 - length pins) 0,
                      bt_len = gp_len def, bt_antenna_dual = dual, bt_antenna_sel0 = sel0,
                      bt_antenna_sel1 = sel1, bt_antenna_level0 = level0, bt_antenna_level1 = level1\<rparr>) s)))"

definition nrx_antenna_diversity :: "u32 \<Rightarrow> int \<Rightarrow> nrx_st \<Rightarrow> int \<times> nrx_st" where
  "nrx_antenna_diversity mode rssi_thr s =
     (if \<not> mode \<le> 3 then (EINVAL, s)
      else if mode = 3 \<and> \<not> (- 120 \<le> rssi_thr \<and> rssi_thr \<le> 0) then (EINVAL, s)
      else nrx_nrxioctl (NRXIOWANTENNADIV mode rssi_thr) s)"

definition nrx_get_manufacturer_id :: "u32 \<Rightarrow> nrx_st \<Rightarrow> (int \<times> u8 list option) outcome" where
  "nrx_get_manufacturer_id len s =
     (if \<not> len \<noteq> 0 then Inr ((EINVAL, None), s) else nrx_get_mib_string ''2.1.1.8'' len s)"

definition nrx_get_product_id :: "nrx_st \<Rightarrow> int \<times> (u32 \<times> u8 list) option \<times> nrx_st" where
  "nrx_get_product_id s = nrx_get_mib_val ''2.1.1.9'' 4 s"

definition nrx_get_product_version :: "u32 \<Rightarrow> nrx_st \<Rightarrow> (int \<times> u8 list option) outcome" where
  "nrx_get_product_version len s =
     (if \<not> len \<noteq> 0 then Inr ((EINVAL, None), s) else nrx_get_mib_string ''3.1.2.1.4'' len s)"

definition nrx_set_activity_timeout :: "u32 \<Rightarrow> u32 \<Rightarrow> nrx_st \<Rightarrow> int \<times> nrx_st" where
  "nrx_set_activity_timeout timeout interval s =
     (if timeout \<noteq> 0 \<and> \<not> timeout < 1073741824 then (EINVAL, s)
      else if timeout \<noteq> 0 \<and> \<not> 0 < interval then (EINVAL, s)
      else if timeout \<noteq> 0 \<and> \<not> interval < 1073741824 then (EINVAL, s)
      else nrx_nrxioctl (NRXIOCACTIVITYTIMEOUT timeout interval) s)"

definition nrx_fw_suicide :: "nrx_st \<Rightarrow> int \<times> nrx_st" where
  "nrx_fw_suicide s = nrx_nrxioctl (Plain_ioc NRXIOCFWSUICIDE) s"

definition nrx_ccx_send_addts :: "u8 \<Rightarrow> nrx_st \<Rightarrow> int \<times> nrx_st" where
  "nrx_ccx_send_addts identifier s = nrx_nrxioctl (Write_ioc NRXIOSNDADDTS (ucast identifier)) s"

definition nrx_ccx_send_delts :: "u8 \<Rightarrow> nrx_st \<Rightarrow> int \<times> nrx_st" where
  "nrx_ccx_send_delts identifier s = nrx_nrxioctl (Write_ioc NRXIOSNDDELTS (ucast identifier)) s"

definition nrx_shutdown :: "nrx_st \<Rightarrow> int \<times> nrx_st" where
  "nrx_shutdown s = nrx_nrxioctl (Plain_ioc NRXIOCSHUTDOWN) s"

definition nrx_get_softap_clients :: "nrx_st \<Rightarrow> int \<times> u32 option \<times> nrx_st" where
  "nrx_get_softap_clients s = read_value NRXIOCSOFTAPCLIENTS s"

section \<open>Counters\<close>

text \<open>\<open>mib_val\<close> is 0 before the call, so bytes the driver does not write count as 0.\<close>

definition get_counter_mib :: "string \<Rightarrow> nrx_st \<Rightarrow> int \<times> u32 option \<times> nrx_st" where
  "get_counter_mib mib s =
     (case nrx_get_mib_val mib 4 s of
        (ret, None, s) \<Rightarrow> (ret, None, s)
      | (ret, Some (n, val), s) \<Rightarrow> (ret, Some (STREAM_TO_UINT32 (val @ [0, 0, 0, 0]) 0), s))"

definition nrx_get_tx_fragment_count :: "nrx_st \<Rightarrow> int \<times> u32 option \<times> nrx_st" where
  "nrx_get_tx_fragment_count s = get_counter_mib ''2.2.1.1'' s"

definition nrx_get_tx_mcast_frame_count :: "nrx_st \<Rightarrow> int \<times> u32 option \<times> nrx_st" where
  "nrx_get_tx_mcast_frame_count s = get_counter_mib ''2.2.1.2'' s"

definition nrx_get_tx_failed_count :: "nrx_st \<Rightarrow> int \<times> u32 option \<times> nrx_st" where
  "nrx_get_tx_failed_count s = get_counter_mib ''2.2.1.3'' s"

definition nrx_get_tx_retry_count :: "nrx_st \<Rightarrow> int \<times> u32 option \<times> nrx_st" where
  "nrx_get_tx_retry_count s = get_counter_mib ''2.2.1.4'' s"

definition nrx_get_tx_multiple_retry_count :: "nrx_st \<Rightarrow> int \<times> u32 option \<times> nrx_st" where
  "nrx_get_tx_multiple_retry_count s = get_counter_mib ''2.2.1.5'' s"

definition nrx_get_rx_frame_duplicates_count :: "nrx_st \<Rightarrow> int \<times> u32 option \<times> nrx_st" where
  "nrx_get_rx_frame_duplicates_count s = get_counter_mib ''2.2.1.6'' s"

definition nrx_get_rts_success_count :: "nrx_st \<Rightarrow> int \<times> u32 option \<times> nrx_st" where
  "nrx_get_rts_success_count s = get_counter_mib ''2.2.1.7'' s"

definition nrx_get_rts_failure_count :: "nrx_st \<Rightarrow> int \<times> u32 option \<times> nrx_st" where
  "nrx_get_rts_failure_count s = get_counter_mib ''2.2.1.8'' s"

definition nrx_get_ack_failure_count :: "nrx_st \<Rightarrow> int \<times> u32 option \<times> nrx_st" where
  "nrx_get_ack_failure_count s = get_counter_mib ''2.2.1.9'' s"

definition nrx_get_rx_fragment_count :: "nrx_st \<Rightarrow> int \<times> u32 option \<times> nrx_st" where
  "nrx_get_rx_fragment_count s = get_counter_mib ''2.2.1.10'' s"

definition nrx_get_rx_mcast_frame_count :: "nrx_st \<Rightarrow> int \<times> u32 option \<times> nrx_st" where
  "nrx_get_rx_mcast_frame_count s = get_counter_mib ''2.2.1.11'' s"

definition nrx_get_rx_fcs_error_count :: "nrx_st \<Rightarrow> int \<times> u32 option \<times> nrx_st" where
  "nrx_get_rx_fcs_error_count s = get_counter_mib ''2.2.1.12'' s"

definition nrx_get_tx_frame_count :: "nrx_st \<Rightarrow> int \<times> u32 option \<times> nrx_st" where
  "nrx_get_tx_frame_count s = get_counter_mib ''2.2.1.13'' s"

definition nrx_get_rx_undecryptable_count :: "nrx_st \<Rightarrow> int \<times> u32 option \<times> nrx_st" where
  "nrx_get_rx_undecryptable_count s = get_counter_mib ''2.2.1.14'' s"

end
