(* ===== verification/Nrx_Ranges.thy ===== *)
theory Nrx_Ranges
  imports Nrx_Settings Nrx_Memory
begin

text \<open>
  What reaches the driver.  The documentation of the settings gives a range for every argument; here is what
  the driver may rely on, for every command, whatever an application asks for and in whatever order.
\<close>

section \<open>The ranges\<close>

definition rate_or_zero :: "u8 \<Rightarrow> bool" where
  "rate_or_zero r \<longleftrightarrow> r = 0 \<or> r \<in> set supp_rates"

text \<open>A trigger: the value it is on decides the range of the level; periods are given in microseconds, those of
  missed beacons in beacons.\<close>

definition trigger_ok :: "mib_trigger_param \<Rightarrow> bool" where
  "trigger_ok p \<longleftrightarrow> mt_mib_id_len p = length (mt_mib_id p) \<and> 1 \<le> mt_dir p \<and> mt_dir p \<le> 3
     \<and> (if mt_mib_id p = ''5.2.9'' then 1 \<le> mt_supv_interval p \<and> 1 \<le> mt_level p \<and> mt_level p \<le> 99
        else 100000 \<le> mt_supv_interval p \<and> mt_supv_interval p \<le> 2100000000
          \<and> (mt_mib_id p \<in> {''5.2.7'', ''5.2.8''} \<and> mt_level p \<le> 40
             \<or> mt_mib_id p \<in> {''5.2.3'', ''5.2.6''} \<and> - 120 \<le> sint (mt_level p) \<and> sint (mt_level p) \<le> 0
             \<or> mt_mib_id p = ''5.2.10'' \<and> mt_level p \<le> 100))"

definition mib_ok :: "string \<Rightarrow> u8 list \<Rightarrow> bool" where
  "mib_ok m v \<longleftrightarrow>
     (if m = ''5.4'' then length v = 2 \<and> list_all (\<lambda>a. a \<le> 19) v
      else if m = ''5.2.5'' then 1 \<le> length v \<and> length v \<le> 14 \<and> sorted v
      else if m = ''5.2.2'' then \<exists>b. v = [b] \<and> b AND 0xF0 = 0
      else if m = ''5.2.14'' then \<exists>b. v = [b] \<and> b \<in> set supp_rates
      else if m = ''5.2.11'' then \<exists>b. v = [b] \<and> rate_or_zero b
      else if m \<in> {''5.2.16.1'', ''5.2.16.2'', ''5.2.17.1'', ''5.2.17.2''} then \<exists>b. v = [b] \<and> b \<in> {1, 2, 4, 8, 16}
      else if m = ''5.2.15.4'' then \<exists>u. v = UINT16_TO_STREAM u \<and> 1 \<le> u \<and> u \<le> 1000
      else if m = ''5.19'' then \<exists>u. v = UINT32_TO_STREAM u \<and> u \<le> 1
      else True)"

definition scan_ok :: "scan_conf_param \<Rightarrow> bool" where
  "scan_ok p \<longleftrightarrow> rate_or_zero (sc_rate p) \<and> 1 \<le> sc_probes_per_ch p \<and> 1 \<le> sc_probe_delay p \<and> sc_probe_delay p < 65536
     \<and> sc_ac_min_ch_time p \<le> sc_ac_max_ch_time p \<and> sc_as_min_ch_time p \<le> sc_as_max_ch_time p
     \<and> 1 \<le> sc_period_repetition p"

definition job_ok :: "scan_job_param \<Rightarrow> bool" where
  "job_ok p \<longleftrightarrow> length (sj_ssid p) \<le> 32 \<and> length (sj_channels p) \<le> 16 \<and> 1 \<le> sj_prio p \<and> sj_prio p \<le> 128
     \<and> sj_ap_exclude p \<le> 1"

definition bt_ok :: "bt_conf_param \<Rightarrow> bool" where
  "bt_ok p \<longleftrightarrow> wires_ok (bt_vendor p) (bt_pta_mode p) (bt_len p) \<and> length (bt_pta_def p) = 5
     \<and> list_all (\<lambda>b. b AND 0xEF \<le> 4) (bt_pta_def p)
     \<and> bt_antenna_dual p \<le> 1 \<and> bt_antenna_sel0 p \<le> 1 \<and> bt_antenna_sel1 p \<le> 1
     \<and> bt_antenna_level0 p \<le> 1 \<and> bt_antenna_level1 p \<le> 1"

fun write_ok :: "write_ioc \<Rightarrow> u32 \<Rightarrow> bool" where
  "write_ok NRXIOWLINKSUPERVRXBEACONTIMEOUT v = (v \<le> 2100000000)"
| "write_ok NRXIOWFRAGMENTTHR v = (v \<noteq> 0)"
| "write_ok NRXIOWRTSTHR v = (v \<noteq> 0)"
| "write_ok NRXIOWWMMPSENABLE v = (v \<le> 3)"
| "write_ok NRXIOWROAMENABLE v = (v \<le> 1)"
| "write_ok NRXIOWBEACONPERIOD v = (1 \<le> v \<and> v < 65536)"
| "write_ok NRXIOWDTIMPERIOD v = (v < 256)"
| "write_ok NRXIOWATIMWINDOW v = (v < 65536)"
| "write_ok _ v = True"

fun ioc_ok :: "nrx_ioc \<Rightarrow> bool" where
  "ioc_ok (Write_ioc c v) = write_ok c v"
| "ioc_ok (NRXIOWOPRATES rs) = (1 \<le> length rs \<and> length rs \<le> 24 \<and> list_all (\<lambda>r. r AND 0x7F \<in> set supp_rates) rs)"
| "ioc_ok (NRXIOWREGCHANNELS cs) = (1 \<le> length cs \<and> length cs \<le> 14)"
| "ioc_ok (NRXIOWRDOESTRIGEXIST i m) = (length m < 16)"
| "ioc_ok (NRXIOWTXRATEMONENABLE n r) = (1 \<le> n)"
| "ioc_ok (NRXIOWRXRATEMONENABLE n r) = (1 \<le> n)"
| "ioc_ok (NRXIOWPSCONF dtim poll timeout listen) = ((dtim \<noteq> 0 \<or> listen \<noteq> 0) \<and> timeout \<noteq> 0)"
| "ioc_ok (NRXIOWWMMPSCONF p be bk vi vo) = (1000 dvd unat p)"
| "ioc_ok (NRXIOWROAMADDSSIDFILTER ssid) = (length ssid \<le> 32)"
| "ioc_ok (NRXIOWROAMDELSSIDFILTER ssid) = (length ssid \<le> 32)"
| "ioc_ok (NRXIOWHEARTBEAT p) = (case p of None \<Rightarrow> True | Some n \<Rightarrow> n \<le> 2100000)"
| "ioc_ok (NRXIOWARPCONF mode ip) = (mode < 4)"
| "ioc_ok (NRXIOWBTCOEXCONF p) = bt_ok p"
| "ioc_ok (NRXIOWANTENNADIV mode rssi) = (mode \<le> 3 \<and> (mode = 3 \<longrightarrow> - 120 \<le> rssi \<and> rssi \<le> 0))"
| "ioc_ok (NRXIOCACTIVITYTIMEOUT t i) = (t \<noteq> 0 \<longrightarrow> t < 1073741824 \<and> 1 \<le> i \<and> i < 1073741824)"
| "ioc_ok (NRXIOWSCANCONF p) = scan_ok p"
| "ioc_ok (NRXIOWRSCANADDFILTER bss rssi snr ty) = (- 120 \<le> rssi \<and> rssi \<le> 100 \<and> snr \<le> 40)"
| "ioc_ok (NRXIOWRSCANADDJOB p) = job_ok p"
| "ioc_ok (NRXIOWREGMIBTRIG p) = trigger_ok p"
| "ioc_ok (NRXIOWSETMIB m v) = mib_ok m v"
| "ioc_ok _ = True"

definition ioctls_ok :: "nrx_st \<Rightarrow> bool" where
  "ioctls_ok s = list_all (\<lambda>c. case c of Nrx_ioctl p r \<Rightarrow> ioc_ok p | _ \<Rightarrow> True) (ncalls s)"

section \<open>Everything that is set\<close>

text \<open>A call of a setting that returns.\<close>

inductive nrx_configures :: "nrx_st \<Rightarrow> nrx_st \<Rightarrow> bool" where
  do_set_max_tx_power: "nrx_set_max_tx_power a b s = (r, t) \<Longrightarrow> nrx_configures s t"
| do_get_curr_channel: "nrx_get_curr_channel s = (r, v, t) \<Longrightarrow> nrx_configures s t"
| do_set_adaptive_tx_rate_mode: "nrx_set_adaptive_tx_rate_mode a b c s = Inr (r, t) \<Longrightarrow> nrx_configures s t"
| do_set_tx_retry_limit_by_rate: "nrx_set_tx_retry_limit_by_rate a b c s = Inr (r, t) \<Longrightarrow> nrx_configures s t"
| do_lock_rate: "nrx_lock_rate a s = (r, t) \<Longrightarrow> nrx_configures s t"
| do_unlock_rate: "nrx_unlock_rate s = (r, t) \<Longrightarrow> nrx_configures s t"
| do_set_op_rates: "nrx_set_op_rates a s = Inr (r, t) \<Longrightarrow> nrx_configures s t"
| do_enable_ht_rates: "nrx_enable_ht_rates s = (r, t) \<Longrightarrow> nrx_configures s t"
| do_disable_ht_rates: "nrx_disable_ht_rates s = (r, t) \<Longrightarrow> nrx_configures s t"
| do_ht_rates_enabled: "nrx_ht_rates_enabled s = (r, v, t) \<Longrightarrow> nrx_configures s t"
| do_enable_wmm: "nrx_enable_wmm s = (r, t) \<Longrightarrow> nrx_configures s t"
| do_disable_wmm: "nrx_disable_wmm s = (r, t) \<Longrightarrow> nrx_configures s t"
| do_reassociate: "nrx_reassociate s = (r, t) \<Longrightarrow> nrx_configures s t"
| do_set_channel_list: "nrx_set_channel_list a b s = Inr (r, t) \<Longrightarrow> nrx_configures s t"
| do_set_region_code: "nrx_set_region_code a s = (r, t) \<Longrightarrow> nrx_configures s t"
| do_reset_traffic_filter_counters: "nrx_reset_traffic_filter_counters s = (r, t) \<Longrightarrow> nrx_configures s t"
| do_get_traffic_filter_counters: "nrx_get_traffic_filter_counters s = (r, v, t) \<Longrightarrow> nrx_configures s t"
| do_enable_link_monitoring: "nrx_enable_link_monitoring a b s = Inr (r, t) \<Longrightarrow> nrx_configures s t"
| do_disable_link_monitoring: "nrx_disable_link_monitoring a s = (r, t) \<Longrightarrow> nrx_configures s t"
| do_enable_snr_threshold: "nrx_enable_snr_threshold a b c d s = Inr (r, t) \<Longrightarrow> nrx_configures s t"
| do_disable_snr_threshold: "nrx_disable_snr_threshold a s = (r, t) \<Longrightarrow> nrx_configures s t"
| do_get_snr: "nrx_get_snr a s = (r, v, t) \<Longrightarrow> nrx_configures s t"
| do_enable_rssi_threshold: "nrx_enable_rssi_threshold a b c d s = Inr (r, t) \<Longrightarrow> nrx_configures s t"
| do_disable_rssi_threshold: "nrx_disable_rssi_threshold a s = (r, t) \<Longrightarrow> nrx_configures s t"
| do_get_rssi: "nrx_get_rssi a s = (r, v, t) \<Longrightarrow> nrx_configures s t"
| do_conf_rssi: "nrx_conf_rssi a b s = (r, t) \<Longrightarrow> nrx_configures s t"
| do_conf_snr: "nrx_conf_snr a b s = (r, t) \<Longrightarrow> nrx_configures s t"
| do_set_per_cutoff_thr: "nrx_set_per_cutoff_thr a s = (r, t) \<Longrightarrow> nrx_configures s t"
| do_enable_per_threshold: "nrx_enable_per_threshold a b c s = Inr (r, t) \<Longrightarrow> nrx_configures s t"
| do_disable_per_threshold: "nrx_disable_per_threshold a s = (r, t) \<Longrightarrow> nrx_configures s t"
| do_get_per: "nrx_get_per s = (r, v, t) \<Longrightarrow> nrx_configures s t"
| do_enable_tx_rate_threshold: "nrx_enable_tx_rate_threshold a b c s = (r, v, t) \<Longrightarrow> nrx_configures s t"
| do_disable_tx_rate_threshold: "nrx_disable_tx_rate_threshold a s = (r, t) \<Longrightarrow> nrx_configures s t"
| do_get_tx_rate: "nrx_get_tx_rate s = (r, v, t) \<Longrightarrow> nrx_configures s t"
| do_enable_rx_rate_threshold: "nrx_enable_rx_rate_threshold a b c s = (r, v, t) \<Longrightarrow> nrx_configures s t"
| do_disable_rx_rate_threshold: "nrx_disable_rx_rate_threshold a s = (r, t) \<Longrightarrow> nrx_configures s t"
| do_get_rx_rate: "nrx_get_rx_rate s = (r, v, t) \<Longrightarrow> nrx_configures s t"
| do_enable_link_supervision: "nrx_enable_link_supervision s = (r, t) \<Longrightarrow> nrx_configures s t"
| do_disable_link_supervision: "nrx_disable_link_supervision s = (r, t) \<Longrightarrow> nrx_configures s t"
| do_conf_link_supervision_rx_beacon: "nrx_conf_link_supervision_rx_beacon a b s = (r, t) \<Longrightarrow> nrx_configures s t"
| do_conf_link_supervision_tx: "nrx_conf_link_supervision_tx a s = (r, t) \<Longrightarrow> nrx_configures s t"
| do_conf_link_supervision_roundtrip: "nrx_conf_link_supervision_roundtrip a b s = (r, t) \<Longrightarrow> nrx_configures s t"
| do_get_fragment_thr: "nrx_get_fragment_thr s = (r, v, t) \<Longrightarrow> nrx_configures s t"
| do_set_fragment_thr: "nrx_set_fragment_thr a s = Inr (r, t) \<Longrightarrow> nrx_configures s t"
| do_get_rts_thr: "nrx_get_rts_thr s = (r, v, t) \<Longrightarrow> nrx_configures s t"
| do_set_rts_thr: "nrx_set_rts_thr a s = Inr (r, t) \<Longrightarrow> nrx_configures s t"
| do_get_registry: "nrx_get_registry a s = (r, v, t) \<Longrightarrow> nrx_configures s t"
| do_enable_tx_fail_notification: "nrx_enable_tx_fail_notification a s = (r, t) \<Longrightarrow> nrx_configures s t"
| do_disable_tx_fail_notification: "nrx_disable_tx_fail_notification s = (r, t) \<Longrightarrow> nrx_configures s t"
| do_enable_missed_beacon_notification: "nrx_enable_missed_beacon_notification a s = (r, t) \<Longrightarrow> nrx_configures s t"
| do_disable_missed_beacon_notification: "nrx_disable_missed_beacon_notification s = (r, t) \<Longrightarrow> nrx_configures s t"
| do_enable_ps: "nrx_enable_ps s = (r, t) \<Longrightarrow> nrx_configures s t"
| do_get_ps_mode: "nrx_get_ps_mode s = (r, v, t) \<Longrightarrow> nrx_configures s t"
| do_disable_ps: "nrx_disable_ps s = (r, t) \<Longrightarrow> nrx_configures s t"
| do_conf_ps: "nrx_conf_ps a b c d s = (r, t) \<Longrightarrow> nrx_configures s t"
| do_set_dev_listen_interval: "nrx_set_dev_listen_interval a s = (r, t) \<Longrightarrow> nrx_configures s t"
| do_enable_wmm_ps: "nrx_enable_wmm_ps a s = (r, t) \<Longrightarrow> nrx_configures s t"
| do_conf_wmm_ps: "nrx_conf_wmm_ps a b s = (r, t) \<Longrightarrow> nrx_configures s t"
| do_disable_wmm_ps: "nrx_disable_wmm_ps s = (r, t) \<Longrightarrow> nrx_configures s t"
| do_enable_roam: "nrx_enable_roam s = (r, t) \<Longrightarrow> nrx_configures s t"
| do_disable_roam: "nrx_disable_roam s = (r, t) \<Longrightarrow> nrx_configures s t"
| do_add_roam_ssid_filter: "nrx_add_roam_ssid_filter a b s = (r, t) \<Longrightarrow> nrx_configures s t"
| do_del_roam_ssid_filter: "nrx_del_roam_ssid_filter a b s = (r, t) \<Longrightarrow> nrx_configures s t"
| do_conf_roam_filter: "nrx_conf_roam_filter a b c s = (r, t) \<Longrightarrow> nrx_configures s t"
| do_conf_roam_rssi_thr: "nrx_conf_roam_rssi_thr a b c d s = (r, t) \<Longrightarrow> nrx_configures s t"
| do_conf_roam_snr_thr: "nrx_conf_roam_snr_thr a b c d s = (r, t) \<Longrightarrow> nrx_configures s t"
| do_conf_roam_ds_thr: "nrx_conf_roam_ds_thr a b c s = (r, t) \<Longrightarrow> nrx_configures s t"
| do_conf_roam_rate_thr: "nrx_conf_roam_rate_thr a b c s = (r, t) \<Longrightarrow> nrx_configures s t"
| do_conf_roam_net_election: "nrx_conf_roam_net_election a b s = (r, t) \<Longrightarrow> nrx_configures s t"
| do_conf_roam_auth: "nrx_conf_roam_auth a b c s = (r, t) \<Longrightarrow> nrx_configures s t"
| do_conf_delay_spread: "nrx_conf_delay_spread a b s = (r, t) \<Longrightarrow> nrx_configures s t"
| do_set_ibss_beacon_period: "nrx_set_ibss_beacon_period a s = (r, t) \<Longrightarrow> nrx_configures s t"
| do_get_ibss_beacon_period: "nrx_get_ibss_beacon_period s = (r, v, t) \<Longrightarrow> nrx_configures s t"
| do_set_ibss_dtim_period: "nrx_set_ibss_dtim_period a s = (r, t) \<Longrightarrow> nrx_configures s t"
| do_get_ibss_dtim_period: "nrx_get_ibss_dtim_period s = (r, v, t) \<Longrightarrow> nrx_configures s t"
| do_set_ibss_atim_window: "nrx_set_ibss_atim_window a s = (r, t) \<Longrightarrow> nrx_configures s t"
| do_get_ibss_atim_window: "nrx_get_ibss_atim_window s = (r, v, t) \<Longrightarrow> nrx_configures s t"
| do_get_join_timeout: "nrx_get_join_timeout s = (r, v, t) \<Longrightarrow> nrx_configures s t"
| do_set_join_timeout: "nrx_set_join_timeout a s = (r, t) \<Longrightarrow> nrx_configures s t"
| do_disable_heartbeat: "nrx_disable_heartbeat s = (r, t) \<Longrightarrow> nrx_configures s t"
| do_enable_heartbeat: "nrx_enable_heartbeat a s = (r, t) \<Longrightarrow> nrx_configures s t"
| do_set_maxcorecount: "nrx_set_maxcorecount a s = (r, t) \<Longrightarrow> nrx_configures s t"
| do_get_maxcorecount: "nrx_get_maxcorecount s = (r, v, t) \<Longrightarrow> nrx_configures s t"
| do_get_mib_string: "nrx_get_mib_string a b s = Inr (r, t) \<Longrightarrow> nrx_configures s t"
| do_enable_multi_domain: "nrx_enable_multi_domain s = (r, t) \<Longrightarrow> nrx_configures s t"
| do_conf_multi_domain: "nrx_conf_multi_domain a s = (r, t) \<Longrightarrow> nrx_configures s t"
| do_disable_multi_domain: "nrx_disable_multi_domain s = (r, t) \<Longrightarrow> nrx_configures s t"
| do_conf_arp_filter: "nrx_conf_arp_filter a b s = (r, t) \<Longrightarrow> nrx_configures s t"
| do_enable_bt_coex: "nrx_enable_bt_coex s = (r, t) \<Longrightarrow> nrx_configures s t"
| do_disable_bt_coex: "nrx_disable_bt_coex s = (r, t) \<Longrightarrow> nrx_configures s t"
| do_conf_bt_coex: "nrx_conf_bt_coex a b c d e f g h s = Inr (r, t) \<Longrightarrow> nrx_configures s t"
| do_antenna_diversity: "nrx_antenna_diversity a b s = (r, t) \<Longrightarrow> nrx_configures s t"
| do_get_manufacturer_id: "nrx_get_manufacturer_id a s = Inr (r, t) \<Longrightarrow> nrx_configures s t"
| do_get_product_id: "nrx_get_product_id s = (r, v, t) \<Longrightarrow> nrx_configures s t"
| do_get_product_version: "nrx_get_product_version a s = Inr (r, t) \<Longrightarrow> nrx_configures s t"
| do_set_activity_timeout: "nrx_set_activity_timeout a b s = (r, t) \<Longrightarrow> nrx_configures s t"
| do_fw_suicide: "nrx_fw_suicide s = (r, t) \<Longrightarrow> nrx_configures s t"
| do_ccx_send_addts: "nrx_ccx_send_addts a s = (r, t) \<Longrightarrow> nrx_configures s t"
| do_ccx_send_delts: "nrx_ccx_send_delts a s = (r, t) \<Longrightarrow> nrx_configures s t"
| do_shutdown: "nrx_shutdown s = (r, t) \<Longrightarrow> nrx_configures s t"
| do_get_softap_clients: "nrx_get_softap_clients s = (r, v, t) \<Longrightarrow> nrx_configures s t"
| do_get_counter_mib: "get_counter_mib a s = (r, v, t) \<Longrightarrow> nrx_configures s t"
| do_conf_scan: "nrx_conf_scan a b c d e f s = (r, t) \<Longrightarrow> nrx_configures s t"
| do_set_scan_job_state: "nrx_set_scan_job_state a b s = (r, t) \<Longrightarrow> nrx_configures s t"
| do_add_scan_filter: "nrx_add_scan_filter a b c d s = (r, v, t) \<Longrightarrow> nrx_configures s t"
| do_delete_scan_filter: "nrx_delete_scan_filter a s = (r, t) \<Longrightarrow> nrx_configures s t"
| do_add_scan_job: "nrx_add_scan_job a s = Inr (r, t) \<Longrightarrow> nrx_configures s t"
| do_delete_scan_job: "nrx_delete_scan_job a s = (r, t) \<Longrightarrow> nrx_configures s t"
| do_trigger_scan_ex: "nrx_trigger_scan_ex a b s = (r, t) \<Longrightarrow> nrx_configures s t"
| do_trigger_scan: "nrx_trigger_scan a s = (r, t) \<Longrightarrow> nrx_configures s t"
| do_flush_scanlist: "nrx_flush_scanlist s = (r, t) \<Longrightarrow> nrx_configures s t"

section \<open>Facts\<close>

lemma ioctl_step: "nrx_nrxioctl p s = (r, t) \<Longrightarrow> ioctls_ok t \<longleftrightarrow> ioctls_ok s \<and> ioc_ok p"
  by (auto simp: nrx_nrxioctl_def ioctls_ok_def Let_def)

lemma iwioctl_step: "nrx_iwioctl p s = (r, t) \<Longrightarrow> ioctls_ok t \<longleftrightarrow> ioctls_ok s"
  by (auto simp: nrx_iwioctl_def ioctls_ok_def Let_def)

lemma set_mib_step: "nrx_set_mib_val m v s = (r, t) \<Longrightarrow> ioctls_ok t \<longleftrightarrow> ioctls_ok s \<and> mib_ok (take 31 m) v"
  using ioctl_step [of "NRXIOWSETMIB (take 31 m) v"] by (simp add: nrx_set_mib_val_def)

lemma get_mib_step: "nrx_get_mib_val m n s = (r, v, t) \<Longrightarrow> ioctls_ok t \<longleftrightarrow> ioctls_ok s"
  by (auto simp: nrx_get_mib_val_def split: prod.splits dest!: ioctl_step)

lemma read_value_step: "read_value c s = (r, v, t) \<Longrightarrow> ioctls_ok t \<longleftrightarrow> ioctls_ok s"
  by (auto simp: read_value_def split: prod.splits dest!: ioctl_step)

lemma check_step: "nrx_check_trigger_existence i m s = (r, v, t) \<Longrightarrow> ioctls_ok t \<longleftrightarrow> ioctls_ok s"
  by (auto simp: nrx_check_trigger_existence_def Let_def split: prod.splits if_splits dest!: ioctl_step)

lemma del_trigger_step: "nrx_del_mib_trigger i s = (r, t) \<Longrightarrow> ioctls_ok t \<longleftrightarrow> ioctls_ok s"
  by (auto simp: nrx_del_mib_trigger_def dest!: ioctl_step)

lemma trigger_step:
  "nrx_register_mib_trigger m g i l d c w s = Inr (r, t) \<Longrightarrow> ioctls_ok t \<longleftrightarrow> ioctls_ok s \<and>
    trigger_ok \<lparr>mt_mib_id = m, mt_mib_id_len = length m, mt_gating_trig_id = g, mt_supv_interval = i, mt_level = l,
      mt_dir = d, mt_event_count = c, mt_trigmode = w\<rparr>"
  by (auto simp: nrx_register_mib_trigger_def Let_def split: prod.splits if_splits dest!: ioctl_step)

lemmas driver_steps = ioctl_step iwioctl_step set_mib_step get_mib_step read_value_step check_step del_trigger_step
  trigger_step

lemma check_each_all:
  "check_each P xs i n = Inr True \<Longrightarrow> n = 0 \<or> i + n \<le> length xs \<and> (\<forall>k. i \<le> k \<longrightarrow> k < i + n \<longrightarrow> P (xs ! k))"
proof (induction P xs i n rule: check_each.induct)
  case (2 P xs i n)
  then have "length xs > i" "P (xs ! i)" "check_each P xs (Suc i) n = Inr True" by (auto split: if_splits)
  moreover with 2 have "n = 0 \<or> Suc i + n \<le> length xs \<and> (\<forall>k. Suc i \<le> k \<longrightarrow> k < Suc i + n \<longrightarrow> P (xs ! k))" by auto
  moreover have "P (xs ! k)" if "\<forall>k. Suc i \<le> k \<longrightarrow> k < Suc i + n \<longrightarrow> P (xs ! k)" "i \<le> k" "k < i + Suc n" for k
    using that \<open>P (xs ! i)\<close> by (cases "k = i") auto
  ultimately show ?case by auto
qed simp

lemma check_each_take:
  "check_each P xs 0 n = Inr True \<Longrightarrow> list_all P (take n xs) \<and> length (take n xs) = n"
  using check_each_all [of P xs 0 n] by (auto simp: list_all_length)

lemma copy_channels_length: "copy_channels ch i n acc = Inr (Some cs) \<Longrightarrow> length cs = length acc + n"
  by (induction ch i n acc rule: copy_channels.induct) (auto split: if_splits)

lemma period_scaled:
  assumes "100 \<le> (p :: u32)" "p \<le> 2100000"
  shows "100000 \<le> p * 1000" "p * 1000 \<le> 2100000000"
proof -
  have b: "100 \<le> unat p" "unat p \<le> 2100000" using assms by (simp_all add: word_le_nat_alt)
  then have "unat (p * 1000) = unat p * 1000" by (subst unat_mult_lem [THEN iffD1]) simp_all
  with b show "100000 \<le> p * 1000" "p * 1000 \<le> 2100000000" by (simp_all add: word_le_nat_alt)
qed

lemma dir_range:
  assumes "dir_ok dir"
  shows "1 \<le> (ucast dir :: u8)" "(ucast dir :: u8) \<le> 3"
proof -
  have "dir AND NOT 3 = 0"
  proof -
    have "NOT 3 = (NOT 1 AND NOT 2 :: u32)" by simp
    then show ?thesis using assms by (simp add: dir_ok_def and.assoc)
  qed
  then have "dir = dir AND 3" by (metis and.right_neutral bit.conj_disj_distrib bit.disj_cancel_right or.right_neutral)
  then have "dir \<le> 3" using word_and_le1 [of dir 3] by simp
  moreover have "dir \<noteq> 0" using assms by (simp add: dir_ok_def)
  ultimately have "dir \<in> {1, 2, 3}" by (simp add: word_le_nat_alt unat_eq_0 [symmetric] word_unat_eq_iff) linarith
  then show "1 \<le> (ucast dir :: u8)" "(ucast dir :: u8) \<le> 3" by auto
qed

lemma sint_rssi: "- 120 \<le> r \<Longrightarrow> r \<le> 0 \<Longrightarrow> sint (of_int r :: 32 word) = r"
  by (simp add: sint_sbintrunc' signed_take_bit_int_eq_self)

lemma window_value: "w \<le> 4 \<Longrightarrow> (2 :: u8) ^ unat (w :: u8) \<in> {1, 2, 4, 8, 16}"
proof -
  assume "w \<le> 4"
  then have "unat w \<in> {0, 1, 2, 3, 4}" by (simp add: word_le_nat_alt) linarith
  then show ?thesis by auto
qed

lemma scaled_dvd: "(p :: u32) \<le> 4294967 \<Longrightarrow> 1000 dvd unat (p * 1000)"
proof -
  assume "p \<le> 4294967"
  then have "unat p \<le> 4294967" by (simp add: word_le_nat_alt)
  then have "unat (p * 1000) = unat p * 1000" by (subst unat_mult_lem [THEN iffD1]) simp_all
  then show ?thesis by simp
qed

lemma bt_pin_range: "fst p \<le> 4 \<Longrightarrow> bt_pin p AND 0xEF \<le> 4"
proof -
  assume "fst p \<le> 4"
  moreover have "(fst p OR 0x10) AND 0xEF = fst p AND 0xEF" by (simp add: bit.conj_disj_distrib2)
  moreover have "fst p AND 0xEF \<le> fst p" by (rule word_and_le2)
  ultimately show ?thesis by (auto simp: bt_pin_def intro: order_trans)
qed

section \<open>The single settings\<close>

lemma supp_rates_shape [simp]: "length supp_rates = 14" "sorted supp_rates"
  by (simp_all add: supp_rates_def)

lemma adaptive_rates_step:
  "nrx_set_adaptive_tx_rate_mode m i l s = Inr (r, t) \<Longrightarrow> ioctls_ok s \<Longrightarrow> ioctls_ok t"
proof -
  assume c: "nrx_set_adaptive_tx_rate_mode m i l s = Inr (r, t)" and s: "ioctls_ok s"
  have rates: "1 \<le> length v \<and> length v \<le> 14 \<and> sorted v"
    if "v = (case l of None \<Rightarrow> supp_rates | Some l \<Rightarrow> sort (take (nat (rl_len l)) (rl_rates l)))"
      "case l of None \<Rightarrow> True | Some l \<Rightarrow> 1 \<le> rl_len l \<and> rl_len l \<le> 14 \<and> rl_len l \<le> int (length (rl_rates l))" for v
    using that by (auto split: option.splits)
  show ?thesis
    using c s by (auto simp: nrx_set_adaptive_tx_rate_mode_def Let_def mib_ok_def nrx_is_supp_rate_def
        split: if_splits prod.splits option.splits dest!: set_mib_step intro!: rates)
qed

lemma update_retries_step:
  "update_retries m r l v s = Inr (q, t) \<Longrightarrow> m = ''5.2.12'' \<or> m = ''5.2.13'' \<Longrightarrow> ioctls_ok t \<longleftrightarrow> ioctls_ok s"
  by (auto simp: update_retries_def mib_ok_def split: option.splits sum.splits dest!: set_mib_step)

lemma retries_step:
  "nrx_set_tx_retry_limit_by_rate a b l s = Inr (r, t) \<Longrightarrow> ioctls_ok s \<Longrightarrow> ioctls_ok t"
  by (auto simp: nrx_set_tx_retry_limit_by_rate_def split: if_splits sum.splits bool.splits prod.splits option.splits
      dest!: get_mib_step update_retries_step)

lemma op_rates_step: "nrx_set_op_rates l s = Inr (r, t) \<Longrightarrow> ioctls_ok s \<Longrightarrow> ioctls_ok t"
  by (auto simp: nrx_set_op_rates_def nrx_is_supp_rate_def split: if_splits sum.splits bool.splits
      dest!: ioctl_step check_each_take)

lemma channel_list_step: "nrx_set_channel_list n c s = Inr (r, t) \<Longrightarrow> ioctls_ok s \<Longrightarrow> ioctls_ok t"
  by (auto simp: nrx_set_channel_list_def split: if_splits sum.splits option.splits
      dest!: ioctl_step copy_channels_length)

lemma percent_range: "1 \<le> w \<Longrightarrow> w \<le> 99 \<Longrightarrow> 1 \<le> (ucast (w :: u8) :: u32) \<and> (ucast w :: u32) \<le> 99"
  by (simp add: word_le_nat_alt unsigned_ucast_eq take_bit_nat_eq_self)

lemma thresholds_step:
  "nrx_enable_link_monitoring a b s = Inr (r, t) \<Longrightarrow> ioctls_ok s \<Longrightarrow> ioctls_ok t"
  "nrx_enable_snr_threshold a' b' c d s = Inr (r, t) \<Longrightarrow> ioctls_ok s \<Longrightarrow> ioctls_ok t"
  "nrx_enable_rssi_threshold e b' c d s = Inr (r, t) \<Longrightarrow> ioctls_ok s \<Longrightarrow> ioctls_ok t"
  "nrx_enable_per_threshold a' b' c s = Inr (r, t) \<Longrightarrow> ioctls_ok s \<Longrightarrow> ioctls_ok t"
  by (auto simp: nrx_enable_link_monitoring_def nrx_enable_snr_threshold_def nrx_enable_rssi_threshold_def
      nrx_enable_per_threshold_def trigger_ok_def period_scaled dir_range sint_rssi percent_range
      split: if_splits dest!: trigger_step)

lemma windows_step:
  "conf_windows m n a b s = (r, t) \<Longrightarrow> m \<in> {''5.2.16.1'', ''5.2.17.1''} \<Longrightarrow> n \<in> {''5.2.16.2'', ''5.2.17.2''} \<Longrightarrow>
    ioctls_ok s \<Longrightarrow> ioctls_ok t"
proof -
  assume c: "conf_windows m n a b s = (r, t)" and m: "m \<in> {''5.2.16.1'', ''5.2.17.1''}" "n \<in> {''5.2.16.2'', ''5.2.17.2''}"
    and s: "ioctls_ok s"
  have w: "mib_ok (take 31 k) [2 ^ unat o']" if "o' \<le> 4" "k = m \<or> k = n" for o' :: u8 and k
    using window_value [OF that(1)] that(2) m by (auto simp: mib_ok_def)
  show ?thesis
    using c s by (auto simp: conf_windows_def Let_def w split: if_splits prod.splits dest!: set_mib_step)
qed

lemma disable_either_step: "disable_either m n i s = (r, t) \<Longrightarrow> ioctls_ok t \<longleftrightarrow> ioctls_ok s"
  by (auto simp: disable_either_def split: if_splits prod.splits option.splits dest!: check_step del_trigger_step)

lemma bt_coex_call:
  assumes "nrx_conf_bt_coex a b c d e f g h s = Inr (r, t)" "t \<noteq> s"
  shows "\<exists>l. c = Some l \<and> check_each (\<lambda>p. fst p \<le> 4) (gp_pin l) 0 (nat (gp_len l)) = Inr True \<and> wires_ok a b (gp_len l)
    \<and> d \<le> 1 \<and> e \<le> 1 \<and> f \<le> 1 \<and> g \<le> 1 \<and> h \<le> 1
    \<and> nrx_nrxioctl (NRXIOWBTCOEXCONF
        \<lparr>bt_vendor = a, bt_pta_mode = b,
         bt_pta_def = (let pins = map bt_pin (take (nat (gp_len l)) (gp_pin l)) in pins @ replicate (5 - length pins) 0),
         bt_len = gp_len l, bt_antenna_dual = d, bt_antenna_sel0 = e, bt_antenna_sel1 = f, bt_antenna_level0 = g,
         bt_antenna_level1 = h\<rparr>) s = (r, t)"
proof -
  have flag: "x \<le> (1 :: u8)" if "x = 0 \<or> x = 1" for x using that by auto
  show ?thesis
    using assms by (cases c) (simp_all add: nrx_conf_bt_coex_def Let_def flag split: if_splits sum.splits)
qed

lemma bt_coex_step: "nrx_conf_bt_coex a b c d e f g h s = Inr (r, t) \<Longrightarrow> ioctls_ok s \<Longrightarrow> ioctls_ok t"
proof (cases "t = s")
  case False
  assume c: "nrx_conf_bt_coex a b c d e f g h s = Inr (r, t)" and s: "ioctls_ok s"
  obtain l :: nrx_gpio_list_t where l: "check_each (\<lambda>p. fst p \<le> 4) (gp_pin l) 0 (nat (gp_len l)) = Inr True" "wires_ok a b (gp_len l)"
      "d \<le> 1" "e \<le> 1" "f \<le> 1" "g \<le> 1" "h \<le> 1"
      "nrx_nrxioctl (NRXIOWBTCOEXCONF
        \<lparr>bt_vendor = a, bt_pta_mode = b,
         bt_pta_def = (let pins = map bt_pin (take (nat (gp_len l)) (gp_pin l)) in pins @ replicate (5 - length pins) 0),
         bt_len = gp_len l, bt_antenna_dual = d, bt_antenna_sel0 = e, bt_antenna_sel1 = f, bt_antenna_level0 = g,
         bt_antenna_level1 = h\<rparr>) s = (r, t)"
    using bt_coex_call [OF c False] by (elim exE conjE) (rule that; assumption)
  let ?p = "map bt_pin (take (nat (gp_len l)) (gp_pin l))"
  have "list_all (\<lambda>p. fst p \<le> 4) (take (nat (gp_len l)) (gp_pin l))" "length ?p = nat (gp_len l)"
    using check_each_take [OF l(1)] by simp_all
  then have "list_all (\<lambda>b. b AND 0xEF \<le> 4) (?p @ replicate (5 - length ?p) 0)"
    using bt_pin_range by (auto simp: list_all_iff)
  moreover have "nat (gp_len l) \<le> 5" using l(2) by (auto simp: wires_ok_def)
  ultimately have "bt_ok \<lparr>bt_vendor = a, bt_pta_mode = b,
         bt_pta_def = (let pins = map bt_pin (take (nat (gp_len l)) (gp_pin l)) in pins @ replicate (5 - length pins) 0),
         bt_len = gp_len l, bt_antenna_dual = d, bt_antenna_sel0 = e, bt_antenna_sel1 = f, bt_antenna_level0 = g,
         bt_antenna_level1 = h\<rparr>"
    using l(2-7) \<open>length ?p = nat (gp_len l)\<close> by (simp add: bt_ok_def Let_def)
  then show ?thesis using ioctl_step [OF l(8)] s by simp
qed simp

lemma scan_job_step: "nrx_add_scan_job j s = Inr (r, t) \<Longrightarrow> ioctls_ok s \<Longrightarrow> ioctls_ok t"
proof -
  assume c: "nrx_add_scan_job j s = Inr (r, t)" and s: "ioctls_ok s"
  have u: "min n (unat (jb_ssid_len j)) \<le> 32" if "\<not> 32 < jb_ssid_len j" for n
    using that by (simp add: word_less_nat_alt)
  have n: "nat (sint (jb_ch_len j)) \<le> 16" if "\<not> 16 < jb_ch_len j"
  proof -
    have "uint (jb_ch_len j) \<le> 16" using that by (simp add: word_less_def)
    moreover have "- 2147483648 \<le> uint (jb_ch_len j)" by (rule order_trans [OF _ unsigned_greater_eq]) simp
    ultimately have "sint (jb_ch_len j) = uint (jb_ch_len j)"
      unfolding sint_uint by (intro signed_take_bit_int_eq_self) simp_all
    moreover have "unat (jb_ch_len j) \<le> 16" using that by (simp add: word_less_nat_alt)
    ultimately show ?thesis by simp
  qed
  have flag: "jb_ap_exclude j \<le> 1" if "jb_ap_exclude j = 0 \<or> jb_ap_exclude j = 1" using that by auto
  show ?thesis
    using c s u n flag
    by (auto simp: nrx_add_scan_job_def job_ok_def Let_def split: if_splits sum.splits option.splits prod.splits
        dest!: ioctl_step copy_channels_length)
qed

text \<open>The settings that fill one parameter.\<close>

lemmas plain_settings =
  nrx_set_max_tx_power_def nrx_get_curr_channel_def nrx_lock_rate_def nrx_unlock_rate_def
  nrx_enable_ht_rates_def nrx_disable_ht_rates_def nrx_ht_rates_enabled_def nrx_enable_wmm_def
  nrx_disable_wmm_def nrx_reassociate_def nrx_reset_traffic_filter_counters_def
  nrx_get_traffic_filter_counters_def nrx_disable_link_monitoring_def nrx_disable_snr_threshold_def
  nrx_get_snr_def nrx_disable_rssi_threshold_def nrx_get_rssi_def nrx_disable_per_threshold_def
  nrx_get_per_def nrx_enable_tx_rate_threshold_def nrx_disable_tx_rate_threshold_def nrx_get_tx_rate_def
  nrx_enable_rx_rate_threshold_def nrx_disable_rx_rate_threshold_def nrx_get_rx_rate_def
  nrx_enable_link_supervision_def nrx_disable_link_supervision_def
  nrx_conf_link_supervision_tx_def nrx_conf_link_supervision_roundtrip_def nrx_get_fragment_thr_def
  nrx_set_fragment_thr_def nrx_get_rts_thr_def nrx_set_rts_thr_def nrx_enable_tx_fail_notification_def
  nrx_disable_tx_fail_notification_def nrx_enable_missed_beacon_notification_def
  nrx_disable_missed_beacon_notification_def nrx_enable_ps_def nrx_get_ps_mode_def nrx_disable_ps_def
  nrx_conf_ps_def nrx_enable_wmm_ps_def nrx_conf_wmm_ps_def
  nrx_disable_wmm_ps_def nrx_enable_roam_def nrx_disable_roam_def nrx_add_roam_ssid_filter_def
  nrx_del_roam_ssid_filter_def nrx_conf_roam_filter_def nrx_conf_roam_rssi_thr_def nrx_conf_roam_snr_thr_def
  nrx_conf_roam_ds_thr_def nrx_conf_roam_rate_thr_def nrx_conf_roam_net_election_def nrx_conf_roam_auth_def
  nrx_conf_delay_spread_def nrx_set_ibss_beacon_period_def nrx_get_ibss_beacon_period_def
  nrx_set_ibss_dtim_period_def nrx_get_ibss_dtim_period_def nrx_set_ibss_atim_window_def
  nrx_get_ibss_atim_window_def nrx_get_join_timeout_def nrx_set_join_timeout_def nrx_disable_heartbeat_def
  nrx_enable_heartbeat_def nrx_set_maxcorecount_def nrx_get_maxcorecount_def nrx_get_mib_string_def
  nrx_enable_multi_domain_def nrx_conf_multi_domain_def nrx_disable_multi_domain_def
  nrx_enable_bt_coex_def nrx_disable_bt_coex_def nrx_antenna_diversity_def nrx_get_manufacturer_id_def
  nrx_get_product_id_def nrx_get_product_version_def nrx_set_activity_timeout_def nrx_fw_suicide_def
  nrx_ccx_send_addts_def nrx_ccx_send_delts_def nrx_shutdown_def nrx_get_softap_clients_def
  get_counter_mib_def nrx_set_scan_job_state_def nrx_add_scan_filter_def nrx_delete_scan_filter_def
  nrx_delete_scan_job_def nrx_trigger_scan_ex_def nrx_trigger_scan_def nrx_flush_scanlist_def

lemma plain_settings_step:
  "nrx_get_registry n s = (r, v, t) \<Longrightarrow> ioctls_ok s \<Longrightarrow> ioctls_ok t"
  by (auto simp: nrx_get_registry_def Let_def split: prod.splits if_splits dest!: ioctl_step)

lemma region_step: "nrx_set_region_code c s = (r, t) \<Longrightarrow> ioctls_ok s \<Longrightarrow> ioctls_ok t"
  by (auto simp: nrx_set_region_code_def region_channels_def split: if_splits option.splits dest!: ioctl_step)

lemma widen16: "unat (ucast (w :: u16) :: u32) = unat w" "unat w < 65536"
proof -
  show b: "unat w < 65536" using unsigned_less [of w, where ?'a = nat] by simp
  show "unat (ucast w :: u32) = unat w"
    by (simp only: unsigned_ucast_eq) (use b in \<open>simp add: take_bit_nat_eq_self\<close>)
qed

lemma widen8: "unat (ucast (w :: u8) :: u32) = unat w" "unat w < 256"
proof -
  show b: "unat w < 256" using unsigned_less [of w, where ?'a = nat] by simp
  show "unat (ucast w :: u32) = unat w"
    by (simp only: unsigned_ucast_eq) (use b in \<open>simp add: take_bit_nat_eq_self\<close>)
qed

lemma conf_scan_step: "nrx_conf_scan a b c d e f s = (r, t) \<Longrightarrow> ioctls_ok s \<Longrightarrow> ioctls_ok t"
  by (auto simp: nrx_conf_scan_def scan_ok_def rate_or_zero_def nrx_is_supp_rate_def word_le_nat_alt word_less_nat_alt
      widen16 split: if_splits dest!: ioctl_step)

lemma per_cutoff_step: "nrx_set_per_cutoff_thr c s = (r, t) \<Longrightarrow> ioctls_ok s \<Longrightarrow> ioctls_ok t"
proof -
  assume c: "nrx_set_per_cutoff_thr c s = (r, t)" and s: "ioctls_ok s"
  have "1 \<le> (ucast c :: u16) \<and> (ucast c :: u16) \<le> 1000" if "0 < c" "c \<le> 1000"
    using that by (simp add: word_le_nat_alt word_less_nat_alt unsigned_ucast_eq take_bit_nat_eq_self)
  then show ?thesis
    using c s by (auto simp: nrx_set_per_cutoff_thr_def mib_ok_def split: if_splits dest!: set_mib_step)
qed

lemma curr_freq_step: "nrx_get_curr_freq s = (r, v, t) \<Longrightarrow> ioctls_ok t \<longleftrightarrow> ioctls_ok s"
  using iwioctl_step [OF prod.collapse [symmetric], of SIOCGIWFREQ s]
  by (auto simp: nrx_get_curr_freq_def Let_def split_beta split: if_splits)

lemma beacon_timeout_step: "nrx_conf_link_supervision_rx_beacon a b s = (r, t) \<Longrightarrow> ioctls_ok s \<Longrightarrow> ioctls_ok t"
proof -
  assume c: "nrx_conf_link_supervision_rx_beacon a b s = (r, t)" and s: "ioctls_ok s"
  have "b * 1000 \<le> 2100000000" if "b \<le> 2100000"
  proof -
    have "unat b \<le> 2100000" using that by (simp add: word_le_nat_alt)
    moreover from this have "unat (b * 1000) = unat b * 1000" by (subst unat_mult_lem [THEN iffD1]) simp_all
    ultimately show ?thesis by (simp add: word_le_nat_alt)
  qed
  then show ?thesis
    using c s by (auto simp: nrx_conf_link_supervision_rx_beacon_def split: if_splits prod.splits dest!: ioctl_step)
qed

lemma listen_step: "nrx_set_dev_listen_interval a s = (r, t) \<Longrightarrow> ioctls_ok s \<Longrightarrow> ioctls_ok t"
proof -
  assume c: "nrx_set_dev_listen_interval a s = (r, t)" and s: "ioctls_ok s"
  have "\<exists>u. UINT32_TO_STREAM a = UINT32_TO_STREAM u \<and> u \<le> 1" if "a = 0 \<or> a = 1" using that by auto
  then show ?thesis
    using c s by (simp add: nrx_set_dev_listen_interval_def mib_ok_def split: if_splits) (drule set_mib_step, simp add: mib_ok_def)+
qed

lemma arp_step: "nrx_conf_arp_filter a b s = (r, t) \<Longrightarrow> ioctls_ok s \<Longrightarrow> ioctls_ok t"
proof -
  assume c: "nrx_conf_arp_filter a b s = (r, t)" and s: "ioctls_ok s"
  have "(ucast a :: u8) < 4" if "a < 4"
    using that by (simp add: word_less_nat_alt unsigned_ucast_eq take_bit_nat_eq_self)
  then show ?thesis using c s by (auto simp: nrx_conf_arp_filter_def split: if_splits dest!: ioctl_step)
qed

theorem settings_step: "nrx_configures s t \<Longrightarrow> ioctls_ok s \<Longrightarrow> ioctls_ok t"
proof (induction rule: nrx_configures.induct)
qed (auto simp: plain_settings nrx_conf_rssi_def nrx_conf_snr_def mib_ok_def rate_or_zero_def nrx_is_supp_rate_def
  word_le_nat_alt word_less_nat_alt widen8 widen16 scaled_dvd Let_def
  split: if_splits prod.splits option.splits
  dest!: driver_steps disable_either_step curr_freq_step
  dest: adaptive_rates_step retries_step op_rates_step channel_list_step thresholds_step windows_step bt_coex_step
    scan_job_step plain_settings_step region_step conf_scan_step per_cutoff_step
    beacon_timeout_step listen_step arp_step)

section \<open>Retries by rate\<close>

text \<open>The last entry of the lists for a rate, or the old value.\<close>

definition new_retries :: "u8 list \<Rightarrow> u8 list \<Rightarrow> u8 list \<Rightarrow> u8 list" where
  "new_retries rates retries vec =
     map (\<lambda>(rate, old). case map_of (rev (zip rates retries)) rate of None \<Rightarrow> old | Some k \<Rightarrow> k) (zip supp_rates vec)"

lemma takeWhile_first: "x \<in> set xs \<Longrightarrow>
    length (takeWhile (\<lambda>y. y \<noteq> x) xs) < length xs \<and> xs ! length (takeWhile (\<lambda>y. y \<noteq> x) xs) = x"
  by (induction xs) auto

lemma rate_index_rate: "rate \<in> set supp_rates \<Longrightarrow> rate_index rate < 14 \<and> supp_rates ! rate_index rate = rate"
  using takeWhile_first [of rate supp_rates] by (simp add: rate_index_def)

lemma new_retries_Nil: "length vec = 14 \<Longrightarrow> new_retries [] retries vec = vec"
  by (simp add: new_retries_def split_def)

lemma new_retries_Cons:
  assumes "rate \<in> set supp_rates" "length vec = 14"
  shows "new_retries (rate # rates) (k # retries) vec = new_retries rates retries (vec[rate_index rate := k])"
proof (rule nth_equalityI)
  show "length (new_retries (rate # rates) (k # retries) vec) = length (new_retries rates retries (vec[rate_index rate := k]))"
    by (simp add: new_retries_def)
  fix j assume "j < length (new_retries (rate # rates) (k # retries) vec)"
  then have j: "j < 14" by (simp add: new_retries_def assms(2))
  have d: "distinct supp_rates" by (simp add: supp_rates_def)
  have "supp_rates ! j = rate \<longleftrightarrow> j = rate_index rate"
    using rate_index_rate [OF assms(1)] nth_eq_iff_index_eq [OF d, of j "rate_index rate"] j by auto
  then show "new_retries (rate # rates) (k # retries) vec ! j = new_retries rates retries (vec[rate_index rate := k]) ! j"
    using j by (auto simp: new_retries_def assms(2) map_add_def split: option.splits)
qed

lemma set_retries_new:
  "length vec = 14 \<Longrightarrow> i + n \<le> length rates \<Longrightarrow> i + n \<le> length retries \<Longrightarrow>
    \<forall>r\<in>set (take n (drop i rates)). r \<in> set supp_rates \<Longrightarrow>
    set_retries rates retries i n vec = Inr (new_retries (take n (drop i rates)) (take n (drop i retries)) vec)"
proof (induction n arbitrary: i vec)
  case (Suc n)
  have t: "take (Suc n) (drop i rates) = rates ! i # take n (drop (Suc i) rates)"
    "take (Suc n) (drop i retries) = retries ! i # take n (drop (Suc i) retries)"
    using Suc.prems(2,3) by (simp_all add: Cons_nth_drop_Suc [symmetric])
  then have r: "rates ! i \<in> set supp_rates" using Suc.prems(4) by simp
  show ?case
    using Suc.prems Suc.IH [of "vec[rate_index (rates ! i) := retries ! i]" "Suc i"] rate_index_rate [OF r]
    unfolding t by (simp add: new_retries_Cons [OF r])
qed (simp add: new_retries_Nil)

text \<open>(C20) Setting the retry limits by rate reads both tables of the driver and writes those that are asked for back
  with the new limits at the rates of the list, the last one where a rate is named twice, and the old limits
  at all other rates.\<close>

theorem retries_by_rate:
  assumes "orig \<noteq> None \<or> subsequent \<noteq> None" "rl_len rates = int n" "n \<le> length (rl_rates rates)"
    and "\<forall>l. orig = Some l \<or> subsequent = Some l \<longrightarrow> n \<le> length (ry_retries l)"
    and "\<forall>r\<in>set (take n (rl_rates rates)). nrx_is_supp_rate r"
    and "\<forall>h c. nx_ioctl (nenv s) h c = 0"
    and "nx_ioctl_mib (nenv s) (ncalls s @ [get1]) = (14, vec)" "nx_ioctl_mib (nenv s) (ncalls s @ [get1, get2]) = (14, vec')"
    and "length vec = 14" "length vec' = 14"
    and get1: "get1 = Nrx_ioctl (NRXIOWRGETMIB ''5.2.12'' 14) 0" and get2: "get2 = Nrx_ioctl (NRXIOWRGETMIB ''5.2.13'' 14) 0"
  defines "new l v \<equiv> new_retries (take n (rl_rates rates)) (take n (ry_retries l)) v"
  shows "nrx_set_tx_retry_limit_by_rate orig subsequent rates s = Inr (0, s\<lparr>ncalls := ncalls s @ [get1, get2]
    @ (case orig of None \<Rightarrow> [] | Some l \<Rightarrow> [Nrx_ioctl (NRXIOWSETMIB ''5.2.12'' (new l vec)) 0])
    @ (case subsequent of None \<Rightarrow> [] | Some l \<Rightarrow> [Nrx_ioctl (NRXIOWSETMIB ''5.2.13'' (new l vec')) 0])\<rparr>)"
proof -
  have c: "check_each nrx_is_supp_rate (rl_rates rates) i m = Inr True" if "i + m \<le> n" for i m
    using that
  proof (induction m arbitrary: i)
    case (Suc m)
    then have "rl_rates rates ! i \<in> set (take n (rl_rates rates))"
      using assms(3) by (auto simp: in_set_conv_nth intro!: exI [of _ i])
    with Suc assms(3,5) show ?case by simp
  qed simp
  have u: "set_retries (rl_rates rates) (ry_retries l) 0 n v = Inr (new l v)"
    if "length v = 14" "orig = Some l \<or> subsequent = Some l" for l v
    using set_retries_new [OF that(1), of 0 n "rl_rates rates" "ry_retries l"] assms(3-5) that(2)
    by (auto simp: new_def nrx_is_supp_rate_def)
  have io: "nrx_nrxioctl p t = (0, nlog (Nrx_ioctl p 0) t)" if "nenv t = nenv s" for p t
    using assms(6) that by (simp add: nrx_nrxioctl_def)
  have get: "nrx_get_mib_val ''5.2.12'' 14 s = (0, Some (14, vec), nlog get1 s)"
    "nrx_get_mib_val ''5.2.13'' 14 (nlog get1 s) = (0, Some (14, vec'), nlog get2 (nlog get1 s))"
    using assms(7,8) by (simp_all add: nrx_get_mib_val_def io get1 get2)
  have up: "update_retries m r rates v t = Inr (0, t\<lparr>ncalls := ncalls t
      @ (case r of None \<Rightarrow> [] | Some l \<Rightarrow> [Nrx_ioctl (NRXIOWSETMIB (take 31 m) (new l v)) 0])\<rparr>)"
    if "nenv t = nenv s" "length v = 14" "r = orig \<or> r = subsequent" for m r v t
    using that u [OF that(2)] assms(2) by (cases r) (auto simp: update_retries_def nrx_set_mib_val_def io nlog_def)
  show ?thesis
    using assms(1,9,10)
    by (simp add: nrx_set_tx_retry_limit_by_rate_def assms(2) c get up) (simp add: nlog_def split: option.split)
qed

definition retry_context :: nrx_st where
  "retry_context = nrx_fresh (quiet_nrx_env\<lparr>nx_ioctl_mib := \<lambda>_. (14, replicate 14 3)\<rparr>) 3"

lemma retries_by_rate_witness:
  "nrx_set_tx_retry_limit_by_rate (Some \<lparr>ry_len = 2, ry_retries = [7, 1] @ replicate 12 0\<rparr>) None
      \<lparr>rl_len = 2, rl_rates = [4, 108] @ replicate 12 0\<rparr> retry_context =
    Inr (0, retry_context\<lparr>ncalls := [Nrx_ioctl (NRXIOWRGETMIB ''5.2.12'' 14) 0, Nrx_ioctl (NRXIOWRGETMIB ''5.2.13'' 14) 0,
      Nrx_ioctl (NRXIOWSETMIB ''5.2.12'' ([3, 7] @ replicate 11 3 @ [1])) 0]\<rparr>)"
proof -
  have e: "nx_ioctl (nenv retry_context) h c = 0" "nx_ioctl_mib (nenv retry_context) h = (14, replicate 14 3)"
      "ncalls retry_context = []" for h c
    by (simp_all add: retry_context_def nrx_fresh_def quiet_nrx_env_def)
  have n: "new_retries [4, 108] [7, 1] (replicate 14 3) = [3, 7] @ replicate 11 3 @ [1]"
    by code_simp
  have r: "nrx_is_supp_rate 4 \<and> nrx_is_supp_rate 108" by code_simp
  show ?thesis
    using retries_by_rate [of "Some \<lparr>ry_len = 2, ry_retries = [7, 1] @ replicate 12 0\<rparr>" None
        "\<lparr>rl_len = 2, rl_rates = [4, 108] @ replicate 12 0\<rparr>" 2 retry_context _ "replicate 14 3" _ "replicate 14 3"]
    by (simp add: e n r)
qed

section \<open>All settings\<close>

text \<open>All calls, one after the other; the surroundings are not looked at.\<close>

definition nrx_sets :: "nrx_st \<Rightarrow> unit \<Rightarrow> nrx_st \<Rightarrow> bool" where
  "nrx_sets s u t = nrx_configures s t"

interpretation settings: kept_invariant nrx_sets ioctls_ok
  by unfold_locales (auto simp: nrx_sets_def dest: settings_step)



section \<open>Reads and stores past an array\<close>

lemma check_each_overrun:
  "i \<le> length xs \<Longrightarrow> length xs < i + n \<Longrightarrow> \<forall>x\<in>set xs. P x \<Longrightarrow> check_each P xs i n = Inl Bad_access"
proof (induction n arbitrary: i)
  case (Suc n)
  then show ?case by (cases "i = length xs") auto
qed simp

text \<open>\<open>nrx_set_op_rates\<close> takes up to 24 rates, and the list of the application has 14.\<close>

theorem op_rates_overrun:
  assumes "length (rl_rates l) = 14" "\<forall>r\<in>set (rl_rates l). nrx_is_supp_rate (r AND 0x7F)" "15 \<le> rl_len l" "rl_len l \<le> 24"
  shows "nrx_set_op_rates l s = Inl Bad_access"
  using assms check_each_overrun [of 0 "rl_rates l" "nat (rl_len l)"] by (simp add: nrx_set_op_rates_def)

text \<open>\<open>nrx_conf_bt_coex\<close> looks at the pins before it compares their number with the number of wires.\<close>

theorem bt_coex_overrun:
  assumes "length (gp_pin l) = 5" "\<forall>p\<in>set (gp_pin l). fst p \<le> 4" "6 \<le> gp_len l" "v \<le> 2"
  shows "nrx_conf_bt_coex v mode (Some l) d e f g h s = Inl Bad_access"
  using assms check_each_overrun [of 0 "gp_pin l" "nat (gp_len l)"] by (simp add: nrx_conf_bt_coex_def)

text \<open>A string value that fills the buffer is terminated behind it.\<close>

theorem mib_string_overrun:
  assumes "nrx_get_mib_val i len s = (0, Some (len, res), t)"
  shows "nrx_get_mib_string i len s = Inl Bad_access"
  by (simp add: nrx_get_mib_string_def assms)

end
