(* ===== verification/Spec2Isabelle.thy ===== *)
theory Spec2Isabelle
  imports Brcm_Vendor Rtk_Download Mtk_Vendor Wifi_Supplicant Lights_Run Nrx_Notify Nrx_Netlink Nrx_Ranges
begin

text \<open>
  The Bluetooth vendor libraries, the Wi-Fi libraries and the lights module of the gs702a device tree.

  \<^bold>\<open>The program.\<close>  The repository configures Android for boards with the Actions gs702a; most of it
  is vendored software.  Its own core logic in C are the libraries that bring a Bluetooth
  controller up for the Android stack, one per chip: AP6210 (Broadcom), RTL8723 (Realtek) and MT6622
  (MediaTek), under \<open>src/hardware/bluetooth\<close>.  Each implements \<open>bt_vendor_interface_t\<close>: \<open>init\<close>
  registers the stack's callbacks, \<open>op\<close> serves requests (power, serial port, firmware configuration,
  SCO, low power mode), \<open>cleanup\<close> ends.  The firmware configuration is the hard part: a dialogue
  with the controller, in which the library allocates buffers from the stack, fills them with HCI
  commands, transmits them, and gets the answers in callbacks.  Beside them stands the Wi-Fi library
  \<open>src/wifi/wifi.c\<close> (\<open>TARGET_CUSTOM_WIFI\<close> in \<open>BoardConfig.mk\<close>): it loads the driver module, prepares the
  configuration of the supplicant, has \<open>init\<close> start it, and carries commands and events.  The lights
  module \<open>src/hardware/liblight/lights.c\<close> sets the backlight.  For boards with the Nanoradio NRX600 there is
  its library under \<open>src/hardware/wifi/nrx600\<close>: applications register callbacks for events of the driver, which
  arrive as netlink messages.

  \<^bold>\<open>The theories.\<close>
  \<^item> \<open>Prelude\<close>: machine integers, the stream macros, C strings, decimal numbers (\<open>%d\<close>, \<open>atoi\<close>).
  \<^item> \<open>Platform\<close>: the stack's callbacks and the system calls as parameters; every call is recorded in a
    history, over which the theorems speak.  Accounting of buffers (\<open>net\<close>) and the locale
    \<open>buffer_contract\<close> between event handlers and the stack, interpreted on the handlers of all three
    libraries.
  \<^item> \<open>Userial\<close>, \<open>Upio\<close>: serial port (\<open>userial_vendor.c\<close> of AP6210 and RTL8723) and power and wake
    control (\<open>upio.c\<close>): rfkill, the proc files of the low power mode, the holding timer of BT_WAKE.
  \<^item> \<open>Vendor_Interface\<close>: the requests of \<open>op\<close> and the locale \<open>vendor_lib\<close>, interpreted on the three
    libraries: a library without registered callbacks makes no call into the stack.
  \<^item> \<open>Brcm_Hardware\<close>, \<open>Brcm_Bringup\<close>, \<open>Brcm_Vendor\<close>: \<open>hardware.c\<close>, \<open>conf.c\<close>, \<open>bt_vendor_brcm.c\<close> of the
    AP6210.  \<open>hw_config_cback\<close> is one function on the state \<open>brcm_st\<close>, one definition per case of its
    switch; \<open>None\<close> stands for an access outside the event.  \<open>Brcm_Bringup\<close> has the abstract machine of
    the bring-up, the refinement of it by the handler, and the behaviour under failures.
  \<^item> \<open>Rtk_Hardware\<close>, \<open>Rtk_Download\<close>: \<open>hardware.c\<close> and \<open>bt_vendor_rtk.c\<close> of the RTL8723 (the H4 download
    path, which \<open>bt_vendor_rtk.c\<close> uses), the download protocol, parsing of the configuration file.
  \<^item> \<open>Mtk_Uart\<close>, \<open>Mtk_Radiomod\<close>, \<open>Mtk_Init\<close>, \<open>Mtk_Run\<close>, \<open>Mtk_Vendor\<close>: \<open>mtk.c\<close>, \<open>radiomod.c\<close>, \<open>radiomgr.c\<close>
    and \<open>bt_drv.c\<close> of the MT6622.  Here a worker thread sends a script of commands and waits for each
    answer on a condition variable, so the model is a relation (\<open>mtk_sys\<close>) that interleaves the small
    steps of the thread with the event handlers.  \<open>Mtk_Init\<close> holds what every schedule keeps, \<open>Mtk_Run\<close>
    the run to success, its transcript, and the races.

  \<^item> \<open>Wifi_Platform\<close>: the surroundings of \<open>wifi.c\<close> (system calls, properties, module list, supplicant) as
    functions of the history, files as state, the waiting loop, frames.
  \<^item> \<open>Wifi_Driver\<close>, \<open>Wifi_Config\<close>, \<open>Wifi_Supplicant\<close>: \<open>wifi.c\<close> in its order: the driver module; entropy and
    configuration file, with the edit of the \<open>ctrl_interface\<close> entry in a C buffer; start and stop of the
    supplicant, connections, commands, events.  The locale \<open>handle_client\<close> (no connection lost, none closed
    twice) is interpreted on the relation of all calls of the interface, \<open>wifi_call\<close>.

  \<^item> \<open>Doubles\<close>, \<open>Lights\<close>, \<open>Lights_Mapping\<close>, \<open>Lights_Run\<close>: \<open>lights.c\<close>.  A double is the rational number it stands
    for, and every operation rounds to nearest, ties to even (\<open>dbl\<close>); what the mapping of the brightness
    needs of that is the locale \<open>rounding\<close>, interpreted on \<open>dbl\<close>.  \<open>Lights\<close> has the operations of the module,
    \<open>Lights_Mapping\<close> the error bounds of the two lines, \<open>Lights_Run\<close> the sequences of calls.

  \<^item> \<open>Nrx_Text\<close>, \<open>Nrx_Context\<close>, \<open>Nrx_Helpers\<close>, \<open>Nrx_Event\<close>, \<open>Nrx_Dispatch\<close>: \<open>event.c\<close> of the Nanoradio library.
    Handlers, custom events and their helpers are objects with addresses; \<open>malloc\<close> and \<open>free\<close> are in the history.
    A fault is a value (\<open>Bad_access\<close>, \<open>Exited\<close>).  \<open>Nrx_Helpers\<close> has the library's own handlers of custom events, also
    those of \<open>scan.c\<close> and \<open>radio.c\<close>.
  \<^item> \<open>Nrx_Tables\<close> (\<open>priomap.c\<close>, \<open>cvt.c\<close>, \<open>mib.c\<close>, \<open>wext.c\<close>), \<open>Nrx_Scan\<close> (\<open>scan.c\<close>), \<open>Nrx_Radio\<close>, \<open>Nrx_Monitor\<close> and
    \<open>Nrx_Subscribe\<close> (\<open>radio.c\<close>: rates and channels, thresholds, notifications), \<open>Nrx_Settings\<close> (\<open>param.c\<close>,
    \<open>powersave.c\<close>, \<open>roam.c\<close>, \<open>ibss.c\<close>, \<open>counters.c\<close>).  An ioctl is a value with the parameter the library fills in.
  \<^item> \<open>Nrx_Memory\<close> has the invariant of the objects over the relation \<open>nrx_serves\<close> of all calls that register, cancel or
    wait, \<open>Nrx_Ranges\<close> the ranges of all ioctls over the relation \<open>nrx_configures\<close> of all settings (locale
    \<open>kept_invariant\<close>, interpreted on both); \<open>Nrx_Delivery\<close> the text of custom events and the end of a context,
    \<open>Nrx_Notify\<close> notifications from registration to callback, \<open>Nrx_Netlink\<close> the walk over a message as the kernel
    writes it.

  \<^bold>\<open>What is shown.\<close>  For each Bluetooth library: the bring-up reaches success with the intended commands and the
    whole firmware image when the surroundings cooperate; whatever fails, every buffer is given away
    once, at most one result is reported, and descriptors are closed where the code closes them; the
    configuration files are read as written.  Where the code does otherwise (a failing read that is not
    noticed, a loop past the end of a name, a double free, a leaked descriptor, a packet number that
    wraps, a lost wake-up, a skipped piece of the patch, a speed the host does not set) the theorem
    states exactly when.  For the Wi-Fi library: the driver is loaded exactly when the kernel takes the
    module; a missing configuration file becomes the template with its entry set, the edit is idempotent
    and stays in its buffer for an entry that ends with a newline; starting on a fresh device succeeds
    when files and \<open>init\<close> work; connections are accounted for over all sequences of calls; events arrive
    without their level; the shutdown of the P2P interface ends the waiting thread.  Its defects (an
    inverted result of unloading, a failure and a running supplicant that are not noticed, an entry
    without newline, a search past the bytes read) are theorems too.  For the lights module: every number
    written to the backlight file is 0 or in the panel's range whatever calls are made, the levels follow
    the intended two lines to within one level and are monotone, and the state is typed whatever the files
    hold; its defects (full brightness that can fall one short, a read error taken for content, a leaked
    device) are theorems.
    For the Nanoradio library: memory is accounted for whatever applications and kernel do, a custom event
    reaches its callback with its variables, the end of a context tells every callback once, notifications of
    scans, lost connections and rates reach who asked for them, and what is set reaches the driver within the
    documented ranges only; its defects (a list element read after it is freed, unchecked arrays, 16 bytes
    behind a message taken for attributes) are theorems.

  \<^bold>\<open>Loops and bounds.\<close>  The search for the rfkill entry and the copying of the template are
    \<open>partial_function\<close>s and proved to return;
    those of the netlink messages and of an interrupted \<open>poll\<close>, which need not end, too; every other loop is
  structural recursion or has a termination proof.  Integers have the width of the
    source: 8, 16 and 32 bits, \<open>unsigned long\<close> 32 bits.

  \<^bold>\<open>Not modelled.\<close>  Of the Nanoradio library: the creation of a context with its search for the interface
    (\<open>ifname.c\<close>, most of \<open>init.c\<close>).  Logging; the initialisation and destruction of mutexes; the combo chip variant
    of the MT6622 library (\<open>MTK_COMBO_SUPPORT\<close>, not built).  Of the rest of the repository: vendored
    programs (busybox, e2fsprogs, dosfstools, net-tools, wpa_supplicant), C++ and Java services, the
    copies of \<open>wifi.c\<close> for other chips, which this board does not build.  Of \<open>lights.c\<close>: its mutex;
    \<open>BRIGHTNESS_ON\<close> is a parameter because no file of the repository defines it (the theorems on levels
    take the 255 of the framework), and the compiler is taken to evaluate doubles without fusing or extra
    precision.  Of \<open>wifi.c\<close>: two threads inside the library at the same time (a call is one step), the
    retry of interrupted calls, and the variants of the build without a
    driver module or without \<open>HAVE_LIBC_SYSTEM_PROPERTIES\<close> (which does not compile).
\<close>

end
